(* ===== verification/Prelude.thy ===== *)
theory Prelude
  imports Complex_Main "HOL-Library.AList" "HOL-Library.Multiset" "HOL-Library.Product_Lexorder"
begin

text \<open>
  Shared vocabulary of the development: Python dictionaries as association lists in insertion
  order, dynamically typed values, f-string messages, fallible state-passing operations, the
  interface locales that several components implement, and the generic lemmas about them.
  Python floats are modelled by exact reals (rounding is not modelled); Python ints by \<open>int\<close>.
\<close>

named_theorems dict_simps \<open>lookup laws of dictionaries\<close>
named_theorems op_defs \<open>definitions of the fallible operations of a component\<close>
named_theorems preserves_intros \<open>introduction rules for invariant preservation\<close>

section \<open>Python values\<close>

text \<open>A fragment of an f-string: literal text, an interpolated \<open>str\<close>, its \<open>repr\<close>, an int, a
  float. Messages stay unrendered, so no number formatting has to be modelled.\<close>

datatype frag = Text string | Repr string | IntF int | FloatF real

type_synonym message = "frag list"

text \<open>Values of type \<open>Any\<close>: what travels in payloads, metadata and error details.
  \<open>PyFmt\<close> is a string produced by an f-string; \<open>PyObj\<close> is a dataclass instance.\<close>

datatype py =
    PyNone
  | PyBool bool
  | PyInt int
  | PyFloat real
  | PyStr string
  | PyFmt message
  | PyList "py list"
  | PyDict "(string \<times> py) list"
  | PyObj string "(string \<times> py) list"

section \<open>Dictionaries\<close>

type_synonym ('k, 'v) dict = "('k \<times> 'v) list"

text \<open>\<open>d.get(k)\<close>, \<open>d[k] = v\<close> (in place for a known key, at the end for a new one),
  \<open>d.pop(k, None)\<close>, \<open>list(d)\<close>, \<open>list(d.values())\<close>.\<close>

definition dict_get :: "('k, 'v) dict \<Rightarrow> 'k \<Rightarrow> 'v option" where
  "dict_get d k = map_of d k"

definition dict_set :: "('k, 'v) dict \<Rightarrow> 'k \<Rightarrow> 'v \<Rightarrow> ('k, 'v) dict" where
  "dict_set d k v = AList.update k v d"

definition dict_pop :: "('k, 'v) dict \<Rightarrow> 'k \<Rightarrow> ('k, 'v) dict" where
  "dict_pop d k = AList.delete k d"

definition dict_keys :: "('k, 'v) dict \<Rightarrow> 'k list" where
  "dict_keys d = map fst d"

definition dict_values :: "('k, 'v) dict \<Rightarrow> 'v list" where
  "dict_values d = map snd d"

definition dict_ok :: "('k, 'v) dict \<Rightarrow> bool" where
  "dict_ok d \<longleftrightarrow> distinct (map fst d)"

definition dict_get_or :: "('k, 'v) dict \<Rightarrow> 'k \<Rightarrow> 'v \<Rightarrow> 'v" where
  "dict_get_or d k v = (case dict_get d k of None \<Rightarrow> v | Some x \<Rightarrow> x)"

text \<open>The interface every dictionary-shaped store offers to its clients.\<close>

locale lookup_store =
  fixes get :: "'d \<Rightarrow> 'k \<Rightarrow> 'v option"
    and put :: "'d \<Rightarrow> 'k \<Rightarrow> 'v \<Rightarrow> 'd"
    and drop_key :: "'d \<Rightarrow> 'k \<Rightarrow> 'd"
    and keys :: "'d \<Rightarrow> 'k list"
    and wf :: "'d \<Rightarrow> bool"
  assumes get_put: "get (put d k v) k' = (if k' = k then Some v else get d k')"
    and get_drop: "get (drop_key d k) k' = (if k' = k then None else get d k')"
    and keys_get: "k \<in> set (keys d) \<longleftrightarrow> get d k \<noteq> None"
    and wf_distinct: "wf d \<Longrightarrow> distinct (keys d)"
    and wf_put: "wf d \<Longrightarrow> wf (put d k v)"
    and wf_drop: "wf d \<Longrightarrow> wf (drop_key d k)"
begin

lemma put_put_get: "get (put (put d k v) k w) = get (put d k w)"
  by (rule ext) (simp add: get_put)

lemma put_commute: "k \<noteq> l \<Longrightarrow> get (put (put d k v) l w) = get (put (put d l w) k v)"
  by (rule ext) (simp add: get_put)

lemma drop_put_fresh: "get d k = None \<Longrightarrow> get (drop_key (put d k v) k) = get d"
  by (rule ext) (simp add: get_put get_drop)

lemma keys_put: "set (keys (put d k v)) = insert k (set (keys d))"
  by (auto simp: keys_get get_put split: if_splits)

lemma keys_drop: "set (keys (drop_key d k)) = set (keys d) - {k}"
  by (auto simp: keys_get get_drop split: if_splits)

lemma drop_list_get:
  "get (foldl drop_key d ks) k = (if k \<in> set ks then None else get d k)"
  by (induction ks arbitrary: d) (auto simp: get_drop)

lemma wf_drop_list: "wf d \<Longrightarrow> wf (foldl drop_key d ks)"
  by (induction ks arbitrary: d) (auto simp: wf_drop)

lemma length_keys: "wf d \<Longrightarrow> length (keys d) = card (set (keys d))"
  by (simp add: distinct_card wf_distinct)

end

lemma dict_get_set [simp, dict_simps]:
  "dict_get (dict_set d k v) k' = (if k' = k then Some v else dict_get d k')"
  by (simp add: dict_get_def dict_set_def update_conv')

lemma dict_get_pop [simp, dict_simps]:
  "dict_get (dict_pop d k) k' = (if k' = k then None else dict_get d k')"
  by (simp add: dict_get_def dict_pop_def delete_conv')

lemma dict_get_Nil [simp]: "dict_get [] k = None"
  by (simp add: dict_get_def)

lemma dict_get_Cons: "dict_get ((a, b) # d) k = (if k = a then Some b else dict_get d k)"
  by (simp add: dict_get_def)

lemma dict_ok_set [simp]: "dict_ok d \<Longrightarrow> dict_ok (dict_set d k v)"
  by (simp add: dict_ok_def dict_set_def distinct_update)

lemma dict_ok_pop [simp]: "dict_ok d \<Longrightarrow> dict_ok (dict_pop d k)"
  by (simp add: dict_ok_def dict_pop_def distinct_delete)

lemma dict_ok_Nil [simp]: "dict_ok []"
  by (simp add: dict_ok_def)

lemma dict_keys_iff: "k \<in> set (dict_keys d) \<longleftrightarrow> dict_get d k \<noteq> None"
  by (auto simp: dict_keys_def dict_get_def map_of_eq_None_iff)

interpretation alist_dict: lookup_store dict_get dict_set dict_pop dict_keys dict_ok
proof unfold_locales
  show "dict_ok d \<Longrightarrow> distinct (dict_keys d)" for d :: "('k, 'v) dict"
    by (simp add: dict_ok_def dict_keys_def)
qed (simp_all add: dict_keys_iff)

lemma dict_get_in: "dict_ok d \<Longrightarrow> dict_get d k = Some v \<longleftrightarrow> (k, v) \<in> set d"
  by (simp add: dict_ok_def dict_get_def)

lemma dict_get_SomeD: "dict_get d k = Some v \<Longrightarrow> (k, v) \<in> set d"
  by (simp add: dict_get_def map_of_SomeD)

lemma dict_values_iff: "dict_ok d \<Longrightarrow> v \<in> set (dict_values d) \<longleftrightarrow> (\<exists>k. dict_get d k = Some v)"
  by (force simp: dict_values_def dict_get_in image_iff)

lemma dict_pop_id: "dict_get d k = None \<Longrightarrow> dict_pop d k = d"
  by (simp add: dict_get_def dict_pop_def map_of_eq_None_iff delete_idem)

text \<open>Replacing the value of a known key keeps the length and the key order.\<close>

lemma dict_set_keys_known:
  "dict_get d k \<noteq> None \<Longrightarrow> dict_keys (dict_set d k v) = dict_keys d"
  by (induction d) (auto simp: dict_get_def dict_keys_def dict_set_def split: if_splits)

lemma dict_set_keys_new:
  "dict_get d k = None \<Longrightarrow> dict_keys (dict_set d k v) = dict_keys d @ [k]"
  by (induction d) (auto simp: dict_get_def dict_keys_def dict_set_def split: if_splits)

lemma dict_set_new: "dict_get d k = None \<Longrightarrow> dict_set d k v = d @ [(k, v)]"
  by (induction d) (auto simp: dict_get_def dict_set_def split: if_splits)

lemma dict_set_split:
  "dict_get d k = Some w \<Longrightarrow> \<exists>xs ys. d = xs @ (k, w) # ys \<and> k \<notin> fst ` set xs
     \<and> dict_set d k v = xs @ (k, v) # ys"
proof (induction d)
  case Nil
  then show ?case by simp
next
  case (Cons p d)
  obtain a b where p: "p = (a, b)" by (cases p)
  show ?case
  proof (cases "a = k")
    case True
    with Cons.prems p show ?thesis
      by (intro exI [of _ "[]"] exI [of _ d]) (simp add: dict_get_def dict_set_def)
  next
    case False
    with Cons.prems p have "dict_get d k = Some w" by (simp add: dict_get_Cons)
    then obtain xs ys where "d = xs @ (k, w) # ys" "k \<notin> fst ` set xs"
      "dict_set d k v = xs @ (k, v) # ys" using Cons.IH by blast
    with False p show ?thesis
      by (intro exI [of _ "p # xs"] exI [of _ ys]) (simp add: dict_set_def)
  qed
qed

lemma dict_pop_split:
  assumes "dict_ok d" "dict_get d k = Some w"
  shows "\<exists>xs ys. d = xs @ (k, w) # ys \<and> dict_pop d k = xs @ ys"
proof -
  obtain xs ys where d: "d = xs @ (k, w) # ys"
    using dict_get_SomeD [OF assms(2)] by (meson split_list)
  then have "k \<notin> fst ` set xs" "k \<notin> fst ` set ys" using assms(1) by (auto simp: dict_ok_def)
  then have "AList.delete k xs = xs" "AList.delete k ys = ys" by (simp_all add: delete_idem)
  then have "dict_pop d k = xs @ ys" by (simp add: d dict_pop_def AList.delete_eq)
  with d show ?thesis by blast
qed

text \<open>A dictionary of lists seen as one bag of elements.\<close>

definition dict_bag :: "('k, 'a list) dict \<Rightarrow> 'a multiset" where
  "dict_bag d = mset (concat (dict_values d))"

lemma dict_bag_set:
  "dict_bag (dict_set d k v) + mset (dict_get_or d k []) = dict_bag d + mset v"
proof (cases "dict_get d k")
  case None
  then show ?thesis by (simp add: dict_set_new dict_bag_def dict_values_def dict_get_or_def)
next
  case (Some w)
  obtain xs ys where "d = xs @ (k, w) # ys" "dict_set d k v = xs @ (k, v) # ys"
    using dict_set_split [OF Some] by blast
  with Some show ?thesis by (simp add: dict_bag_def dict_values_def dict_get_or_def)
qed

lemma dict_bag_pop:
  assumes "dict_ok d"
  shows "dict_bag (dict_pop d k) + mset (dict_get_or d k []) = dict_bag d"
proof (cases "dict_get d k")
  case None
  then show ?thesis by (simp add: dict_pop_id dict_get_or_def)
next
  case (Some w)
  from dict_pop_split [OF assms Some] Some show ?thesis
    by (auto simp: dict_bag_def dict_values_def dict_get_or_def)
qed

section \<open>Sums over dictionaries and quota counters\<close>

text \<open>Every quota of the program is a dictionary of positive counters in which a missing key
  stands for zero.\<close>

type_synonym 'k counter = "('k, int) dict"

definition count_of :: "'k counter \<Rightarrow> 'k \<Rightarrow> int" where
  "count_of c k = dict_get_or c k 0"

definition count_sum :: "'k counter \<Rightarrow> int" where
  "count_sum c = sum_list (map snd c)"

definition counter_ok :: "'k counter \<Rightarrow> bool" where
  "counter_ok c \<longleftrightarrow> dict_ok c \<and> (\<forall>k v. dict_get c k = Some v \<longrightarrow> 0 < v)"

text \<open>The contract of a quota ledger: \<open>acquire\<close> takes one unit of a key, \<open>release\<close> gives
  one back and never goes below zero. Clients reason about arbitrary interleavings of the two.\<close>

locale quota_ledger =
  fixes count :: "'c \<Rightarrow> 'k \<Rightarrow> int"
    and acquire :: "'c \<Rightarrow> 'k \<Rightarrow> 'c"
    and release :: "'c \<Rightarrow> 'k \<Rightarrow> 'c"
    and wf :: "'c \<Rightarrow> bool"
  assumes count_nonneg: "wf c \<Longrightarrow> 0 \<le> count c k"
    and count_acquire: "wf c \<Longrightarrow> count (acquire c k) k' = count c k' + (if k' = k then 1 else 0)"
    and count_release: "wf c \<Longrightarrow>
          count (release c k) k' = (if k' = k then max 0 (count c k - 1) else count c k')"
    and wf_acquire: "wf c \<Longrightarrow> wf (acquire c k)"
    and wf_release: "wf c \<Longrightarrow> wf (release c k)"
begin

lemma release_acquire: "wf c \<Longrightarrow> count (release (acquire c k) k) = count c"
  by (rule ext) (simp add: count_acquire count_release wf_acquire count_nonneg)

lemma acquire_positive: "wf c \<Longrightarrow> 0 < count (acquire c k) k"
  using count_nonneg [of c k] by (simp add: count_acquire)

lemma acquire_bounded:
  "wf c \<Longrightarrow> \<forall>k. count c k \<le> limit \<Longrightarrow> count c k < limit \<Longrightarrow> count (acquire c k) k' \<le> limit"
  by (auto simp: count_acquire)

lemma release_bounded: "wf c \<Longrightarrow> \<forall>k. count c k \<le> limit \<Longrightarrow> count (release c k) k' \<le> limit"
proof -
  assume wf: "wf c" and le: "\<forall>k. count c k \<le> limit"
  have "0 \<le> count c k" using wf by (rule count_nonneg)
  with le have "0 \<le> limit" by (meson order_trans)
  with wf le show ?thesis by (auto simp: count_release intro: order_trans [of _ "count c k"])
qed

lemma count_acquire_list:
  "wf c \<Longrightarrow> wf (foldl acquire c ks) \<and>
     count (foldl acquire c ks) k = count c k + int (count_list ks k)"
  by (induction ks arbitrary: c) (auto simp: count_acquire wf_acquire)

lemma count_release_list:
  "wf c \<Longrightarrow> wf (foldl release c ks) \<and>
     count (foldl release c ks) k = max 0 (count c k - int (count_list ks k))"
  by (induction ks arbitrary: c) (auto simp: count_release wf_release count_nonneg max_def)

lemma balanced:
  assumes "wf c" and "mset ks = mset ls"
  shows "count (foldl release (foldl acquire c ks) ls) = count c"
proof (rule ext)
  fix k
  have "count_list ks k = count_list ls k"
    using assms(2) by (metis count_mset)
  with assms(1) show "count (foldl release (foldl acquire c ks) ls) k = count c k"
    by (simp add: count_acquire_list count_release_list count_nonneg)
qed

end

text \<open>The two bodies the program uses for giving a unit back: \<open>current <= 1\<close> (admission) and
  \<open>left > 0\<close> (batch scheduler), and the one for taking a unit.\<close>

definition counter_inc :: "'k counter \<Rightarrow> 'k \<Rightarrow> 'k counter" where
  "counter_inc c k = dict_set c k (count_of c k + 1)"

definition counter_dec_le1 :: "'k counter \<Rightarrow> 'k \<Rightarrow> 'k counter" where
  "counter_dec_le1 c k =
     (let current = count_of c k in
      if current \<le> 1 then dict_pop c k else dict_set c k (current - 1))"

definition counter_dec_left :: "'k counter \<Rightarrow> 'k \<Rightarrow> 'k counter" where
  "counter_dec_left c k =
     (let left = count_of c k - 1 in
      if left > 0 then dict_set c k left else dict_pop c k)"

lemma count_of_set [simp]: "count_of (dict_set c k v) k' = (if k' = k then v else count_of c k')"
  by (simp add: count_of_def dict_get_or_def)

lemma count_of_pop [simp]: "count_of (dict_pop c k) k' = (if k' = k then 0 else count_of c k')"
  by (simp add: count_of_def dict_get_or_def)

lemma count_of_Nil [simp]: "count_of [] k = 0"
  by (simp add: count_of_def dict_get_or_def)

lemma counter_ok_Nil [simp]: "counter_ok []"
  by (simp add: counter_ok_def)

lemma counter_ok_set [simp]: "counter_ok c \<Longrightarrow> 0 < v \<Longrightarrow> counter_ok (dict_set c k v)"
  by (simp add: counter_ok_def)

lemma counter_ok_pop [simp]: "counter_ok c \<Longrightarrow> counter_ok (dict_pop c k)"
  by (auto simp: counter_ok_def split: if_splits)

lemma count_of_nonneg: "counter_ok c \<Longrightarrow> 0 \<le> count_of c k"
  by (auto simp: counter_ok_def count_of_def dict_get_or_def split: option.split intro: less_imp_le)

lemma counter_dec_eq: "counter_dec_left c k = counter_dec_le1 c k"
  by (auto simp: counter_dec_left_def counter_dec_le1_def Let_def)

lemma counter_ok_inc: "counter_ok c \<Longrightarrow> counter_ok (counter_inc c k)"
  using count_of_nonneg [of c k] by (simp add: counter_inc_def)

lemma counter_ok_dec: "counter_ok c \<Longrightarrow> counter_ok (counter_dec_le1 c k)"
  by (simp add: counter_dec_le1_def Let_def)

interpretation le1_ledger: quota_ledger count_of counter_inc counter_dec_le1 counter_ok
proof unfold_locales
  fix c :: "'k counter" and k k'
  assume ok: "counter_ok c"
  show "0 \<le> count_of c k" using ok by (rule count_of_nonneg)
  then show "count_of (counter_dec_le1 c k) k'
      = (if k' = k then max 0 (count_of c k - 1) else count_of c k')"
    by (simp add: counter_dec_le1_def Let_def)
  show "count_of (counter_inc c k) k' = count_of c k' + (if k' = k then 1 else 0)"
    by (simp add: counter_inc_def)
  show "counter_ok (counter_inc c k)" using ok by (rule counter_ok_inc)
  show "counter_ok (counter_dec_le1 c k)" using ok by (rule counter_ok_dec)
qed

interpretation left_ledger: quota_ledger count_of counter_inc counter_dec_left counter_ok
  unfolding counter_dec_eq [abs_def] by (rule le1_ledger.quota_ledger_axioms)

lemma count_sum_set:
  "dict_ok c \<Longrightarrow> count_sum (dict_set c k v) = count_sum c - count_of c k + v"
proof (cases "dict_get c k")
  case None
  then show ?thesis
    by (simp add: dict_set_new count_sum_def count_of_def dict_get_or_def)
next
  case (Some w)
  obtain xs ys where "c = xs @ (k, w) # ys" "dict_set c k v = xs @ (k, v) # ys"
    using dict_set_split [OF Some] by blast
  with Some show ?thesis by (simp add: count_sum_def count_of_def dict_get_or_def)
qed

lemma sum_list_delete:
  "distinct (map fst c) \<Longrightarrow>
     sum_list (map snd (AList.delete k c)) = sum_list (map snd c) - (case map_of c k of None \<Rightarrow> 0 | Some v \<Rightarrow> v)"
  for c :: "('k \<times> int) list"
proof (induction c)
  case (Cons p c)
  then show ?case
    by (cases p) (auto simp: delete_idem)
qed simp

lemma count_sum_pop: "dict_ok c \<Longrightarrow> count_sum (dict_pop c k) = count_sum c - count_of c k"
  by (simp add: count_sum_def dict_pop_def count_of_def dict_get_or_def dict_get_def dict_ok_def
      sum_list_delete)

lemma count_sum_inc: "counter_ok c \<Longrightarrow> count_sum (counter_inc c k) = count_sum c + 1"
  by (simp add: counter_inc_def count_sum_set counter_ok_def)

lemma count_sum_dec:
  "counter_ok c \<Longrightarrow> count_sum (counter_dec_le1 c k) = count_sum c - (if 0 < count_of c k then 1 else 0)"
  using count_of_nonneg [of c k]
  by (auto simp: counter_dec_le1_def Let_def count_sum_set count_sum_pop counter_ok_def)

lemma count_sum_ge_count: "counter_ok c \<Longrightarrow> count_of c k \<le> count_sum c"
proof (induction c)
  case (Cons p c)
  obtain a b where p: "p = (a, b)" by (cases p)
  have new: "dict_get c a = None"
    using Cons.prems p by (simp add: counter_ok_def dict_ok_def dict_get_def map_of_eq_None_iff)
  have pos: "0 < v" if "dict_get (p # c) k = Some v" for k v
    using Cons.prems that by (simp add: counter_ok_def)
  have "0 < b" using pos [of a b] p by (simp add: dict_get_Cons)
  moreover have "counter_ok c"
    unfolding counter_ok_def
  proof (intro conjI allI impI)
    show "dict_ok c" using Cons.prems p by (simp add: counter_ok_def dict_ok_def)
    show "0 < v" if "dict_get c k = Some v" for k v
    proof -
      from that new have "k \<noteq> a" by auto
      with that p pos [of k v] show ?thesis by (simp add: dict_get_Cons)
    qed
  qed
  ultimately have ok: "counter_ok c" "0 < b" by simp_all
  have le: "count_of c k \<le> count_sum c" "0 \<le> count_of c k"
    using Cons.IH [OF ok(1)] count_of_nonneg [OF ok(1)] by simp_all
  have "count_of (p # c) k = (if k = a then b else count_of c k)"
    using p by (simp add: count_of_def dict_get_or_def dict_get_Cons)
  moreover have "count_sum (p # c) = b + count_sum c"
    using p by (simp add: count_sum_def)
  ultimately show ?case using le ok(2) by simp
qed (simp add: count_sum_def)

section \<open>Sorting by a key\<close>

lemma hd_sort_key_in: "xs \<noteq> [] \<Longrightarrow> hd (sort_key f xs) \<in> set xs"
  by (metis hd_in_set length_0_conv length_sort set_sort)

lemma hd_sort_key_least: "x \<in> set xs \<Longrightarrow> f (hd (sort_key f xs)) \<le> f x"
proof -
  assume x: "x \<in> set xs"
  have "sorted (map f (sort_key f xs))" "x \<in> set (sort_key f xs)" using x by simp_all
  then show ?thesis by (cases "sort_key f xs") auto
qed

section \<open>Fallible operations on a state\<close>

text \<open>An operation takes the object's state and gives an exception (\<open>Inl\<close>) or a value
  (\<open>Inr\<close>) together with the state it left behind, so that what a method wrote before it raised
  is part of the model.\<close>

type_synonym ('s, 'e, 'a) sem = "'s \<Rightarrow> ('e + 'a) \<times> 's"

definition ret :: "'a \<Rightarrow> ('s, 'e, 'a) sem" where
  "ret x s = (Inr x, s)"

definition raise :: "'e \<Rightarrow> ('s, 'e, 'a) sem" where
  "raise e s = (Inl e, s)"

definition sbind :: "('s, 'e, 'a) sem \<Rightarrow> ('a \<Rightarrow> ('s, 'e, 'b) sem) \<Rightarrow> ('s, 'e, 'b) sem" where
  "sbind m k s = (case m s of (Inl e, s') \<Rightarrow> (Inl e, s') | (Inr x, s') \<Rightarrow> k x s')"

definition asks :: "('s \<Rightarrow> 'e + 'a) \<Rightarrow> ('s, 'e, 'a) sem" where
  "asks f s = (f s, s)"

definition modify :: "('s \<Rightarrow> 's) \<Rightarrow> ('s, 'e, unit) sem" where
  "modify f s = (Inr (), f s)"

text \<open>Checks that read no state: a value or the exception that ends the function.\<close>

definition rbind :: "'e + 'a \<Rightarrow> ('a \<Rightarrow> 'e + 'b) \<Rightarrow> 'e + 'b" where
  "rbind m f = (case m of Inl e \<Rightarrow> Inl e | Inr x \<Rightarrow> f x)"

definition guard :: "bool \<Rightarrow> 'e \<Rightarrow> 'e + unit" where
  "guard b e = (if b then Inr () else Inl e)"

lemma rbind_simps [simp]: "rbind (Inl e) f = Inl e" "rbind (Inr x) f = f x"
  by (simp_all add: rbind_def)

lemma rbind_Inr_iff: "rbind m f = Inr y \<longleftrightarrow> (\<exists>x. m = Inr x \<and> f x = Inr y)"
  by (cases m) simp_all

lemma guard_Inr_iff [simp]: "guard b e = Inr u \<longleftrightarrow> b"
  by (simp add: guard_def)

lemma guard_bind_Inr [simp]: "rbind (guard b e) f = Inr y \<longleftrightarrow> b \<and> f () = Inr y"
  by (simp add: guard_def)

definition preserves :: "('s \<Rightarrow> bool) \<Rightarrow> ('s, 'e, 'a) sem \<Rightarrow> bool" where
  "preserves P m \<longleftrightarrow> (\<forall>s. P s \<longrightarrow> P (snd (m s)))"

lemmas sem_defs = ret_def raise_def asks_def modify_def

lemma preservesI: "(\<And>s. P s \<Longrightarrow> P (snd (m s))) \<Longrightarrow> preserves P m"
  by (simp add: preserves_def)

lemma preservesD: "preserves P m \<Longrightarrow> P s \<Longrightarrow> m s = (r, s') \<Longrightarrow> P s'"
  by (metis preserves_def snd_conv)

lemma preserves_ret [preserves_intros]: "preserves P (ret x)"
  by (simp add: preserves_def ret_def)

lemma preserves_raise [preserves_intros]: "preserves P (raise e)"
  by (simp add: preserves_def raise_def)

lemma preserves_asks [preserves_intros]: "preserves P (asks f)"
  by (simp add: preserves_def asks_def)

lemma preserves_modify: "(\<And>s. P s \<Longrightarrow> P (f s)) \<Longrightarrow> preserves P (modify f)"
  by (simp add: preserves_def modify_def)

lemma preserves_sbind [preserves_intros]:
  "preserves P m \<Longrightarrow> (\<And>x. preserves P (k x)) \<Longrightarrow> preserves P (sbind m k)"
  by (auto simp: preserves_def sbind_def split: prod.split sum.split)

lemma preserves_if [preserves_intros]:
  "preserves P a \<Longrightarrow> preserves P b \<Longrightarrow> preserves P (if c then a else b)"
  by simp

lemma sbind_Inr: "sbind m k s = (Inr y, t) \<longleftrightarrow> (\<exists>x u. m s = (Inr x, u) \<and> k x u = (Inr y, t))"
  by (auto simp: sbind_def split: prod.splits sum.splits)

section \<open>Lifecycles\<close>

text \<open>A transition table as the program declares it: from each state the admissible next states,
  and a rank that grows along every edge. A client learns that a lifecycle never revisits a state,
  that the states without an outgoing edge are absorbing, and how long a history can be.\<close>

locale lifecycle =
  fixes allowed :: "'s \<Rightarrow> 's list"
    and rank :: "'s \<Rightarrow> nat"
    and top_rank :: nat
  assumes rank_grows: "t \<in> set (allowed s) \<Longrightarrow> rank s < rank t"
    and rank_top: "rank s \<le> top_rank"
begin

definition edge :: "'s \<Rightarrow> 's \<Rightarrow> bool" where
  "edge s t \<longleftrightarrow> t \<in> set (allowed s)"

lemma no_self_loop: "\<not> edge s s"
  using rank_grows by (auto simp: edge_def)

lemma rank_path: "edge\<^sup>+\<^sup>+ s t \<Longrightarrow> rank s < rank t"
  by (induction rule: tranclp_induct) (auto simp: edge_def dest: rank_grows)

lemma no_return: "edge\<^sup>+\<^sup>+ s t \<Longrightarrow> \<not> edge\<^sup>*\<^sup>* t s"
  by (metis rank_path less_asym rtranclpD)

lemma path_length: "(edge ^^ n) s t \<Longrightarrow> rank s + n \<le> rank t"
  by (induction n arbitrary: t) (auto simp: edge_def dest!: rank_grows, fastforce dest: rank_grows)

lemma bounded_history: "(edge ^^ n) s t \<Longrightarrow> n \<le> top_rank"
  using path_length [of n s t] rank_top [of t] by linarith

lemma absorbing: "allowed s = [] \<Longrightarrow> edge\<^sup>*\<^sup>* s t \<Longrightarrow> t = s"
  by (auto simp: edge_def elim: converse_rtranclpE)

end

end
