(* ===== verification/Api.thy ===== *)
theory Api
  imports Prelude
begin

text \<open>
  The protocol vocabulary of the rollout runtime (\<^verbatim>\<open>rollout_runtime/api\<close>): the enums, the normalized
  error payload and how exceptions are turned into it, and the message records that the Gateway
  components exchange. Enum members carry a prefix for their class (\<open>S_\<close> session states, \<open>O_\<close>
  operation states, \<open>Op_\<close> operations, \<open>E_\<close> error codes), since HOL constructors are global.
\<close>

section \<open>Enums\<close>

datatype SessionState = S_CREATING | S_READY | S_CLOSING | S_CLOSED | S_FAILED | S_LOST

datatype OperationState =
    O_ACCEPTED | O_QUEUED | O_RUNNING | O_SUCCEEDED | O_FAILED | O_CANCELLED | O_OUTCOME_UNKNOWN

datatype EnvOperation =
    Op_RESET | Op_OBSERVE | Op_ACTION_STEP | Op_POLICY_STEP | Op_POLICY_INFER | Op_RUN_EPISODE
  | Op_EXTENSION_CALL | Op_CREATE_BINDING | Op_RELEASE_BINDING | Op_RENEW_LEASE | Op_CANCEL
  | Op_HEARTBEAT

datatype Priority = P_INTERACTIVE | P_BATCH | P_BACKGROUND

datatype ErrorCode =
    E_UNKNOWN_SESSION | E_SESSION_NOT_READY | E_EPISODE_TERMINATED | E_STALE_BINDING
  | E_IDEMPOTENCY_CONFLICT | E_INVALID_ARGUMENT | E_UNSUPPORTED_EXTENSION | E_UNSUPPORTED_ENV_SPEC
  | E_QUEUE_FULL | E_QUOTA_EXCEEDED | E_RESOURCE_EXHAUSTED | E_DEADLINE_EXCEEDED | E_CANCELLED
  | E_WORKER_LOST | E_ENV_FAILURE | E_POLICY_FAILURE | E_INTERNAL

fun Priority_sort_key :: "Priority \<Rightarrow> int" where
  "Priority_sort_key P_INTERACTIVE = 0"
| "Priority_sort_key P_BATCH = 1"
| "Priority_sort_key P_BACKGROUND = 2"

definition MUTATING_OPERATIONS :: "EnvOperation list" where
  "MUTATING_OPERATIONS = [Op_RESET, Op_ACTION_STEP, Op_POLICY_STEP, Op_RUN_EPISODE]"

definition CONTROL_PLANE_OPERATIONS :: "EnvOperation list" where
  "CONTROL_PLANE_OPERATIONS =
     [Op_CREATE_BINDING, Op_RELEASE_BINDING, Op_RENEW_LEASE, Op_CANCEL, Op_HEARTBEAT]"

definition TERMINAL_SESSION_STATES :: "SessionState list" where
  "TERMINAL_SESSION_STATES = [S_CLOSED]"

definition TERMINAL_OPERATION_STATES :: "OperationState list" where
  "TERMINAL_OPERATION_STATES = [O_SUCCEEDED, O_FAILED, O_CANCELLED, O_OUTCOME_UNKNOWN]"

text \<open>The \<open>name\<close> attribute of enum members, as it enters error details and counters.\<close>

fun SessionState_name :: "SessionState \<Rightarrow> string" where
  "SessionState_name S_CREATING = ''CREATING''"
| "SessionState_name S_READY = ''READY''"
| "SessionState_name S_CLOSING = ''CLOSING''"
| "SessionState_name S_CLOSED = ''CLOSED''"
| "SessionState_name S_FAILED = ''FAILED''"
| "SessionState_name S_LOST = ''LOST''"

fun OperationState_name :: "OperationState \<Rightarrow> string" where
  "OperationState_name O_ACCEPTED = ''ACCEPTED''"
| "OperationState_name O_QUEUED = ''QUEUED''"
| "OperationState_name O_RUNNING = ''RUNNING''"
| "OperationState_name O_SUCCEEDED = ''SUCCEEDED''"
| "OperationState_name O_FAILED = ''FAILED''"
| "OperationState_name O_CANCELLED = ''CANCELLED''"
| "OperationState_name O_OUTCOME_UNKNOWN = ''OUTCOME_UNKNOWN''"

fun EnvOperation_name :: "EnvOperation \<Rightarrow> string" where
  "EnvOperation_name Op_RESET = ''RESET''"
| "EnvOperation_name Op_OBSERVE = ''OBSERVE''"
| "EnvOperation_name Op_ACTION_STEP = ''ACTION_STEP''"
| "EnvOperation_name Op_POLICY_STEP = ''POLICY_STEP''"
| "EnvOperation_name Op_POLICY_INFER = ''POLICY_INFER''"
| "EnvOperation_name Op_RUN_EPISODE = ''RUN_EPISODE''"
| "EnvOperation_name Op_EXTENSION_CALL = ''EXTENSION_CALL''"
| "EnvOperation_name Op_CREATE_BINDING = ''CREATE_BINDING''"
| "EnvOperation_name Op_RELEASE_BINDING = ''RELEASE_BINDING''"
| "EnvOperation_name Op_RENEW_LEASE = ''RENEW_LEASE''"
| "EnvOperation_name Op_CANCEL = ''CANCEL''"
| "EnvOperation_name Op_HEARTBEAT = ''HEARTBEAT''"

fun ErrorCode_name :: "ErrorCode \<Rightarrow> string" where
  "ErrorCode_name E_UNKNOWN_SESSION = ''UNKNOWN_SESSION''"
| "ErrorCode_name E_SESSION_NOT_READY = ''SESSION_NOT_READY''"
| "ErrorCode_name E_EPISODE_TERMINATED = ''EPISODE_TERMINATED''"
| "ErrorCode_name E_STALE_BINDING = ''STALE_BINDING''"
| "ErrorCode_name E_IDEMPOTENCY_CONFLICT = ''IDEMPOTENCY_CONFLICT''"
| "ErrorCode_name E_INVALID_ARGUMENT = ''INVALID_ARGUMENT''"
| "ErrorCode_name E_UNSUPPORTED_EXTENSION = ''UNSUPPORTED_EXTENSION''"
| "ErrorCode_name E_UNSUPPORTED_ENV_SPEC = ''UNSUPPORTED_ENV_SPEC''"
| "ErrorCode_name E_QUEUE_FULL = ''QUEUE_FULL''"
| "ErrorCode_name E_QUOTA_EXCEEDED = ''QUOTA_EXCEEDED''"
| "ErrorCode_name E_RESOURCE_EXHAUSTED = ''RESOURCE_EXHAUSTED''"
| "ErrorCode_name E_DEADLINE_EXCEEDED = ''DEADLINE_EXCEEDED''"
| "ErrorCode_name E_CANCELLED = ''CANCELLED''"
| "ErrorCode_name E_WORKER_LOST = ''WORKER_LOST''"
| "ErrorCode_name E_ENV_FAILURE = ''ENV_FAILURE''"
| "ErrorCode_name E_POLICY_FAILURE = ''POLICY_FAILURE''"
| "ErrorCode_name E_INTERNAL = ''INTERNAL''"

section \<open>Errors\<close>

definition RETRYABLE_ERROR_CODES :: "ErrorCode list" where
  "RETRYABLE_ERROR_CODES =
     [E_QUEUE_FULL, E_QUOTA_EXCEEDED, E_RESOURCE_EXHAUSTED, E_DEADLINE_EXCEEDED]"

record RuntimeErrorInfo =
  err_code :: ErrorCode
  err_message :: message
  err_retryable :: bool
  err_side_effect_applied :: bool
  err_detail :: "(string, py) dict"

definition make_error_full ::
  "ErrorCode \<Rightarrow> message \<Rightarrow> bool option \<Rightarrow> bool \<Rightarrow> (string, py) dict \<Rightarrow> RuntimeErrorInfo" where
  "make_error_full code message retryable side_effect_applied detail =
     \<lparr>err_code = code, err_message = message,
      err_retryable =
        (case retryable of None \<Rightarrow> code \<in> set RETRYABLE_ERROR_CODES | Some b \<Rightarrow> b),
      err_side_effect_applied = side_effect_applied, err_detail = detail\<rparr>"

text \<open>The call without the two optional flags, which most call sites use.\<close>

definition make_error :: "ErrorCode \<Rightarrow> message \<Rightarrow> (string, py) dict \<Rightarrow> RuntimeErrorInfo" where
  "make_error code message detail = make_error_full code message None False detail"

text \<open>\<open>str(v).lower()\<close> of a detail value, where its text is known: a string with an interpolated
  number is \<open>None\<close>, and so are numbers and containers; none of those texts is a word of
  \<open>is_resource_exhausted\<close>.\<close>

definition lower_char :: "char \<Rightarrow> char" where
  "lower_char c =
     (let n = of_char c :: nat in if 65 \<le> n \<and> n \<le> 90 then char_of (n + 32) else c)"

fun frag_text :: "frag \<Rightarrow> string option" where
  "frag_text (Text s) = Some s"
| "frag_text (Repr s) = Some ([CHR 0x27] @ s @ [CHR 0x27])"
| "frag_text (IntF i) = None"
| "frag_text (FloatF r) = None"

fun message_text :: "message \<Rightarrow> string option" where
  "message_text [] = Some []"
| "message_text (f # fs) =
     (case (frag_text f, message_text fs) of (Some a, Some b) \<Rightarrow> Some (a @ b) | _ \<Rightarrow> None)"

fun py_text :: "py \<Rightarrow> string option" where
  "py_text (PyStr s) = Some s"
| "py_text (PyFmt m) = message_text m"
| "py_text PyNone = Some ''None''"
| "py_text (PyBool b) = Some (if b then ''True'' else ''False'')"
| "py_text _ = None"

definition detail_word :: "RuntimeErrorInfo \<Rightarrow> string \<Rightarrow> string option" where
  "detail_word info key =
     map_option (map lower_char) (py_text (dict_get_or (err_detail info) key (PyStr [])))"

definition is_resource_exhausted :: "RuntimeErrorInfo \<Rightarrow> bool" where
  "is_resource_exhausted info =
     (if err_code info = E_RESOURCE_EXHAUSTED then True
      else
        (let reason = detail_word info ''reason'';
             resource = detail_word info ''resource''
         in reason \<in> set (map Some [''oom'', ''out_of_memory'', ''resource_exhausted''])
            \<or> resource \<in> set (map Some [''gpu_memory'', ''cuda_memory'', ''memory''])))"

text \<open>Python exceptions as they reach \<open>normalize_exception\<close>: a \<open>RuntimeApiError\<close> with its payload,
  or any other exception, given by the class it is tested against with \<open>isinstance\<close>, its own class
  name and its text.\<close>

datatype exn_kind =
    K_CancelledError | K_TimeoutError | K_TypeError | K_ValueError | K_KeyError
  | K_NotImplementedError | K_Other

datatype exn = RuntimeApiError RuntimeErrorInfo | PyExn exn_kind string message

abbreviation ValueError :: "message \<Rightarrow> exn" where
  "ValueError m \<equiv> PyExn K_ValueError ''ValueError'' m"

abbreviation RuntimeError :: "message \<Rightarrow> exn" where
  "RuntimeError m \<equiv> PyExn K_Other ''RuntimeError'' m"

abbreviation TimeoutError :: "message \<Rightarrow> exn" where
  "TimeoutError m \<equiv> PyExn K_TimeoutError ''TimeoutError'' m"

definition message_truthy :: "message \<Rightarrow> bool" where
  "message_truthy m = list_ex (\<lambda>f. f \<noteq> Text []) m"

text \<open>Python truth of a value.\<close>

fun py_truthy :: "py \<Rightarrow> bool" where
  "py_truthy PyNone = False"
| "py_truthy (PyBool b) = b"
| "py_truthy (PyInt i) = (i \<noteq> 0)"
| "py_truthy (PyFloat x) = (x \<noteq> 0)"
| "py_truthy (PyStr s) = (s \<noteq> [])"
| "py_truthy (PyFmt m) = message_truthy m"
| "py_truthy (PyList l) = (l \<noteq> [])"
| "py_truthy (PyDict d) = (d \<noteq> [])"
| "py_truthy (PyObj c f) = True"

text \<open>Python's \<open>==\<close> against a scalar: numbers and booleans compare by value.\<close>

fun py_number :: "py \<Rightarrow> real option" where
  "py_number (PyBool b) = Some (if b then 1 else 0)"
| "py_number (PyInt i) = Some (of_int i)"
| "py_number (PyFloat x) = Some x"
| "py_number _ = None"

definition py_eq :: "py \<Rightarrow> py \<Rightarrow> bool" where
  "py_eq a b =
     (case (py_number a, py_number b) of
        (Some x, Some y) \<Rightarrow> x = y | (None, None) \<Rightarrow> a = b | _ \<Rightarrow> False)"

text \<open>\<open>InvalidTransition\<close> is a \<open>RuntimeApiError\<close> whose attributes are its detail fields.\<close>

definition InvalidTransition :: "string \<Rightarrow> string \<Rightarrow> string \<Rightarrow> exn" where
  "InvalidTransition entity from_name to_name =
     RuntimeApiError (make_error E_SESSION_NOT_READY
       [Text ''illegal transition '', Text from_name, Text '' -> '', Text to_name,
        Text '' for '', Text entity]
       [(''entity'', PyStr entity), (''from_state'', PyStr from_name),
        (''to_state'', PyStr to_name)])"

text \<open>The formatted traceback is an input: its text is the interpreter's.\<close>

definition TRACEBACK_LIMIT_CHARS :: nat where
  "TRACEBACK_LIMIT_CHARS = 2000"

fun normalize_code :: "ErrorCode \<Rightarrow> exn_kind \<Rightarrow> ErrorCode" where
  "normalize_code default_code K_CancelledError = E_CANCELLED"
| "normalize_code default_code K_TimeoutError = E_DEADLINE_EXCEEDED"
| "normalize_code default_code K_TypeError = E_INVALID_ARGUMENT"
| "normalize_code default_code K_ValueError = E_INVALID_ARGUMENT"
| "normalize_code default_code K_KeyError = E_INVALID_ARGUMENT"
| "normalize_code default_code K_NotImplementedError = E_UNSUPPORTED_EXTENSION"
| "normalize_code default_code K_Other = default_code"

fun normalize_exception ::
  "string \<Rightarrow> ErrorCode \<Rightarrow> bool \<Rightarrow> bool \<Rightarrow> exn \<Rightarrow> RuntimeErrorInfo" where
  "normalize_exception traceback default_code side_effect_applied include_traceback
       (RuntimeApiError info) =
     (if side_effect_applied \<and> \<not> err_side_effect_applied info
      then info\<lparr>err_side_effect_applied := True\<rparr> else info)"
| "normalize_exception traceback default_code side_effect_applied include_traceback
       (PyExn kind type_name text) =
     (let code = normalize_code default_code kind;
          detail = [(''exception'', PyStr type_name)];
          detail = (if include_traceback
                    then dict_set detail ''traceback''
                      (PyStr (drop (length traceback - TRACEBACK_LIMIT_CHARS) traceback))
                    else detail)
      in \<lparr>err_code = code,
          err_message = (if message_truthy text then text else [Text type_name]),
          err_retryable = code \<in> set RETRYABLE_ERROR_CODES,
          err_side_effect_applied = side_effect_applied,
          err_detail = detail\<rparr>)"

section \<open>Per-item results of batch calls\<close>

datatype 'a Result = Ok 'a | Err RuntimeErrorInfo

fun is_ok :: "'a Result \<Rightarrow> bool" where
  "is_ok (Ok v) = True"
| "is_ok (Err e) = False"

fun unwrap :: "'a Result \<Rightarrow> exn + 'a" where
  "unwrap (Err e) = Inl (RuntimeApiError e)"
| "unwrap (Ok v) = Inr v"

section \<open>Messages\<close>

record EnvSpecMsg =
  env_family :: string
  env_config :: "(string, py) dict"
  pool_size :: int
  max_dynamic_pool_size :: "int option"
  resource_hints :: "(string, py) dict"

definition EnvSpecMsg_effective_max_pool_size :: "EnvSpecMsg \<Rightarrow> int" where
  "EnvSpecMsg_effective_max_pool_size spec =
     (case max_dynamic_pool_size spec of
        None \<Rightarrow> pool_size spec
      | Some m \<Rightarrow> max (pool_size spec) m)"

text \<open>The digest of a prefix and a canonically encoded value. SHA-256 is a parameter of the
  model.\<close>

type_synonym digest_fn = "string \<Rightarrow> py \<Rightarrow> string"

definition ENV_SPEC_DIGEST_DOMAIN :: string where
  "ENV_SPEC_DIGEST_DOMAIN = ''rollout_runtime/env_spec/v1''"

definition EnvSpecMsg_digest :: "digest_fn \<Rightarrow> EnvSpecMsg \<Rightarrow> string" where
  "EnvSpecMsg_digest H spec =
     H ENV_SPEC_DIGEST_DOMAIN
       (PyDict [(''env_family'', PyStr (env_family spec)),
                (''env_config'', PyDict (env_config spec)),
                (''pool_size'', PyInt (pool_size spec))])"

record EnvFamilyCapability =
  cap_env_family :: string
  per_step_obs_available :: bool
  supports_auto_reset :: bool
  supports_reset_state_id :: bool
  cap_extensions :: "string list"
  needs_accelerator :: bool
  core_forms :: "string list"
  supports_coalescing :: bool

record CreateSessionRequest =
  req_application_id :: string
  req_client_session_key :: string
  req_env_spec :: EnvSpecMsg
  req_default_policy_id :: "string option"
  req_lease_seconds :: real
  req_metadata :: "(string, py) dict"
  req_auth_token :: "string option"

record SessionHandle =
  h_session_id :: string
  h_application_id :: string
  h_env_spec_digest :: string
  h_default_policy_id :: "string option"
  h_lease_expiration :: real
  h_gateway_epoch :: int

record EnvWorkerInfo =
  info_worker_rank :: int
  info_group_name :: string
  info_node_id :: string
  info_capabilities :: "(string, EnvFamilyCapability) dict"
  info_served_env_digests :: "string list"
  info_max_sessions :: int
  info_active_sessions :: int
  info_has_accelerator :: bool
  info_heartbeat_at :: real

record ResultEnvelope =
  res_request_id :: string
  res_session_id :: "string option"
  res_operation :: EnvOperation
  res_state :: OperationState
  res_value :: py
  res_error :: "RuntimeErrorInfo option"
  res_side_effect_applied :: bool
  res_worker_summary :: "py option"

definition ResultEnvelope_ok :: "ResultEnvelope \<Rightarrow> bool" where
  "ResultEnvelope_ok r \<longleftrightarrow> res_error r = None \<and> res_state r = O_SUCCEEDED"

text \<open>The internal messages from the Gateway to an EnvWorker (\<^verbatim>\<open>internal.py\<close>).\<close>

record CommandEnvelope =
  ce_request_id :: string
  ce_session_id :: string
  ce_binding_token :: "string option"
  ce_episode_id :: "int option"
  ce_operation_seq :: "int option"
  ce_operation :: EnvOperation
  ce_deadline :: "real option"
  ce_priority :: Priority
  ce_payload :: py
  ce_trace_context :: "(string, py) dict"

record ControlEnvelope =
  ctl_request_id :: string
  ctl_operation :: EnvOperation
  ctl_session_id :: "string option"
  ctl_payload :: "(string, py) dict"

section \<open>Lemmas\<close>

lemma make_error_code [simp]: "err_code (make_error c m d) = c"
  by (simp add: make_error_def make_error_full_def)

lemma make_error_full_code [simp]: "err_code (make_error_full c m r s d) = c"
  by (simp add: make_error_full_def)

lemma make_error_no_side_effect [simp]: "\<not> err_side_effect_applied (make_error c m d)"
  by (simp add: make_error_def make_error_full_def)

lemma make_error_full_side_effect [simp]:
  "err_side_effect_applied (make_error_full c m r s d) = s"
  by (simp add: make_error_full_def)

lemma normalize_api_error [simp]:
  "normalize_exception tb c False b (RuntimeApiError info) = info"
  by simp

lemma resource_exhausted_code [simp]:
  "err_code info = E_RESOURCE_EXHAUSTED \<Longrightarrow> is_resource_exhausted info"
  by (simp add: is_resource_exhausted_def)

end
