(* ===== verification/Session_Manager.thy ===== *)
theory Session_Manager
  imports Api
begin

text \<open>
  \<^verbatim>\<open>rollout_runtime/gateway/session_manager.py\<close>: session records, the \<open>client_session_key\<close>
  idempotency index, the session lifecycle and leases. The manager's state is the record
  \<open>SessionManager\<close>; every method is an operation on it that takes the readings of the injected
  clock (\<open>now\<close>) and, where the code draws a UUID, the drawn identifier. A method that mutates the
  \<open>SessionRecord\<close> held by the dictionary writes the changed record back. The per-session
  \<open>asyncio.Lock\<close> is not a field here; the Gateway theory models what it excludes.
\<close>

section \<open>State\<close>

record SessionRecord =
  session_id :: string
  application_id :: string
  client_session_key :: string
  env_spec :: EnvSpecMsg
  env_spec_digest :: string
  default_policy_id :: "string option"
  s_state :: SessionState
  lease_expiration :: real
  s_created_at :: real
  s_updated_at :: real
  metadata :: "(string, py) dict"
  gateway_epoch :: int
  worker_rank :: "int option"
  binding_token :: "string option"
  episode_id :: "int option"
  next_operation_seq :: int
  active_operation :: "string option"
  worker_summary :: "py option"
  s_error :: "RuntimeErrorInfo option"
  reap_pending :: bool
  s_terminal_at :: "real option"

record SessionStatus =
  st_session_id :: string
  st_state :: SessionState
  st_lease_expiration :: real
  st_episode_id :: "int option"
  st_active_operation :: "string option"
  st_next_operation_seq :: int
  st_worker_summary :: "py option"
  st_error :: "RuntimeErrorInfo option"

record SessionManager =
  sm_gateway_epoch :: int
  sm_error_retention_seconds :: real
  sm_default_lease_seconds :: real
  sm_sessions :: "(string, SessionRecord) dict"
  sm_by_client_key :: "(string \<times> string, string) dict"

type_synonym 'a session_op = "(SessionManager, exn, 'a) sem"

fun ALLOWED_SESSION_TRANSITIONS :: "SessionState \<Rightarrow> SessionState list" where
  "ALLOWED_SESSION_TRANSITIONS S_CREATING = [S_READY, S_FAILED]"
| "ALLOWED_SESSION_TRANSITIONS S_READY = [S_CLOSING, S_LOST]"
| "ALLOWED_SESSION_TRANSITIONS S_CLOSING = [S_CLOSED]"
| "ALLOWED_SESSION_TRANSITIONS S_FAILED = [S_CLOSED]"
| "ALLOWED_SESSION_TRANSITIONS S_LOST = [S_CLOSED]"
| "ALLOWED_SESSION_TRANSITIONS S_CLOSED = []"

definition SessionManager_init :: "int \<Rightarrow> real \<Rightarrow> real \<Rightarrow> SessionManager" where
  "SessionManager_init epoch error_retention_seconds default_lease_seconds =
     \<lparr>sm_gateway_epoch = epoch, sm_error_retention_seconds = error_retention_seconds,
      sm_default_lease_seconds = default_lease_seconds, sm_sessions = [], sm_by_client_key = []\<rparr>"

section \<open>Queries\<close>

definition SessionRecord_handle :: "SessionRecord \<Rightarrow> SessionHandle" where
  "SessionRecord_handle r =
     \<lparr>h_session_id = session_id r, h_application_id = application_id r,
      h_env_spec_digest = env_spec_digest r, h_default_policy_id = default_policy_id r,
      h_lease_expiration = lease_expiration r, h_gateway_epoch = gateway_epoch r\<rparr>"

definition SessionRecord_status :: "SessionRecord \<Rightarrow> SessionStatus" where
  "SessionRecord_status r =
     \<lparr>st_session_id = session_id r, st_state = s_state r,
      st_lease_expiration = lease_expiration r, st_episode_id = episode_id r,
      st_active_operation = active_operation r, st_next_operation_seq = next_operation_seq r,
      st_worker_summary = worker_summary r, st_error = s_error r\<rparr>"

definition SessionManager_len :: "SessionManager \<Rightarrow> nat" where
  "SessionManager_len m = length (sm_sessions m)"

definition SessionManager_find :: "SessionManager \<Rightarrow> string \<Rightarrow> SessionRecord option" where
  "SessionManager_find m sid = dict_get (sm_sessions m) sid"

definition SessionManager_get :: "string \<Rightarrow> SessionManager \<Rightarrow> exn + SessionRecord" where
  "SessionManager_get sid m =
     (case dict_get (sm_sessions m) sid of
        None \<Rightarrow> Inl (RuntimeApiError (make_error E_UNKNOWN_SESSION
                  [Text ''unknown session: '', Text sid] [(''session_id'', PyStr sid)]))
      | Some r \<Rightarrow> Inr r)"

definition SessionManager_status :: "string \<Rightarrow> SessionManager \<Rightarrow> exn + SessionStatus" where
  "SessionManager_status sid m = map_sum id SessionRecord_status (SessionManager_get sid m)"

definition not_ready_error :: "string \<Rightarrow> SessionRecord \<Rightarrow> exn" where
  "not_ready_error sid r =
     RuntimeApiError (make_error E_SESSION_NOT_READY
       [Text ''session '', Text sid, Text '' is '', Text (SessionState_name (s_state r))]
       [(''session_id'', PyStr sid), (''state'', PyStr (SessionState_name (s_state r))),
        (''error'', (case s_error r of None \<Rightarrow> PyStr [] | Some e \<Rightarrow> PyFmt (err_message e)))])"

definition SessionManager_require_ready :: "string \<Rightarrow> SessionManager \<Rightarrow> exn + SessionRecord" where
  "SessionManager_require_ready sid m =
     (case SessionManager_get sid m of
        Inl e \<Rightarrow> Inl e
      | Inr r \<Rightarrow> if s_state r \<noteq> S_READY then Inl (not_ready_error sid r) else Inr r)"

definition SessionManager_require_episode :: "string \<Rightarrow> SessionManager \<Rightarrow> exn + SessionRecord" where
  "SessionManager_require_episode sid m =
     (case SessionManager_require_ready sid m of
        Inl e \<Rightarrow> Inl e
      | Inr r \<Rightarrow>
          if episode_id r = None
          then Inl (RuntimeApiError (make_error E_SESSION_NOT_READY
                 [Text ''session '', Text sid, Text '' has no episode; call reset first'']
                 [(''session_id'', PyStr sid)]))
          else Inr r)"

definition SessionManager_sessions_on_rank :: "SessionManager \<Rightarrow> int \<Rightarrow> SessionRecord list" where
  "SessionManager_sessions_on_rank m rank =
     filter (\<lambda>r. worker_rank r = Some rank \<and> s_state r \<in> set [S_CREATING, S_READY])
       (dict_values (sm_sessions m))"

definition SessionManager_active_session_count :: "SessionManager \<Rightarrow> string \<Rightarrow> nat" where
  "SessionManager_active_session_count m app =
     length (filter (\<lambda>r. application_id r = app \<and> s_state r \<in> set [S_CREATING, S_READY])
       (dict_values (sm_sessions m)))"

definition SessionManager_expired_sessions :: "real \<Rightarrow> SessionManager \<Rightarrow> SessionRecord list" where
  "SessionManager_expired_sessions moment m =
     filter (\<lambda>r. s_state r = S_READY \<and> lease_expiration r \<le> moment)
       (dict_values (sm_sessions m))"

section \<open>Creation\<close>

text \<open>The mutation of a record object that the dictionary holds.\<close>

definition put_session :: "SessionRecord \<Rightarrow> SessionManager \<Rightarrow> SessionManager" where
  "put_session r m = m\<lparr>sm_sessions := dict_set (sm_sessions m) (session_id r) r\<rparr>"

definition lease_argument_error :: "real \<Rightarrow> exn" where
  "lease_argument_error lease_seconds =
     RuntimeApiError (make_error E_INVALID_ARGUMENT
       [Text ''lease_seconds must be positive, got '', FloatF lease_seconds] [])"

definition new_session_record ::
  "digest_fn \<Rightarrow> real \<Rightarrow> string \<Rightarrow> CreateSessionRequest \<Rightarrow> SessionManager \<Rightarrow> SessionRecord" where
  "new_session_record H now sid request m =
     (let lease_seconds = (if req_lease_seconds request = 0 then sm_default_lease_seconds m
                           else req_lease_seconds request) in
      \<lparr>session_id = sid, application_id = req_application_id request,
       client_session_key = req_client_session_key request, env_spec = req_env_spec request,
       env_spec_digest = EnvSpecMsg_digest H (req_env_spec request),
       default_policy_id = req_default_policy_id request, s_state = S_CREATING,
       lease_expiration = now + lease_seconds, s_created_at = now, s_updated_at = now,
       metadata = req_metadata request, gateway_epoch = sm_gateway_epoch m,
       worker_rank = None, binding_token = None, episode_id = None, next_operation_seq = 1,
       active_operation = None, worker_summary = None, s_error = None, reap_pending = False,
       s_terminal_at = None\<rparr>)"

definition live_state :: "SessionState \<Rightarrow> bool" where
  "live_state s \<longleftrightarrow> s \<notin> set [S_CLOSED, S_CLOSING]"

definition register_session ::
  "digest_fn \<Rightarrow> real \<Rightarrow> string \<Rightarrow> CreateSessionRequest \<Rightarrow> (SessionRecord \<times> bool) session_op" where
  "register_session H now sid request m =
     (let record = new_session_record H now sid request m;
          m1 = put_session record m;
          key = (req_application_id request, req_client_session_key request);
          m2 = (if req_client_session_key request \<noteq> []
                then m1\<lparr>sm_by_client_key := dict_set (sm_by_client_key m1) key sid\<rparr> else m1)
      in (Inr (record, True), m2))"

definition SessionManager_create ::
  "digest_fn \<Rightarrow> real \<Rightarrow> string \<Rightarrow> string option \<Rightarrow> CreateSessionRequest
     \<Rightarrow> (SessionRecord \<times> bool) session_op" where
  "SessionManager_create H now fresh explicit_id request m =
     (if req_lease_seconds request \<le> 0
      then (Inl (lease_argument_error (req_lease_seconds request)), m)
      else
        (let key = (req_application_id request, req_client_session_key request);
             sid = (case explicit_id of None \<Rightarrow> fresh | Some s \<Rightarrow> if s = [] then fresh else s)
         in case dict_get (sm_by_client_key m) key of
              None \<Rightarrow> register_session H now sid request m
            | Some existing_id \<Rightarrow>
                (case dict_get (sm_sessions m) existing_id of
                   Some existing \<Rightarrow>
                     if live_state (s_state existing) then (Inr (existing, False), m)
                     else register_session H now sid request
                            (m\<lparr>sm_by_client_key := dict_pop (sm_by_client_key m) key\<rparr>)
                 | None \<Rightarrow>
                     register_session H now sid request
                       (m\<lparr>sm_by_client_key := dict_pop (sm_by_client_key m) key\<rparr>))))"

section \<open>State transitions\<close>

definition transitioned ::
  "real \<Rightarrow> SessionState \<Rightarrow> RuntimeErrorInfo option \<Rightarrow> SessionRecord \<Rightarrow> SessionRecord" where
  "transitioned now to_state error record =
     (let r1 = record\<lparr>s_state := to_state, s_updated_at := now\<rparr>;
          r2 = (case error of None \<Rightarrow> r1 | Some e \<Rightarrow> r1\<lparr>s_error := Some e\<rparr>)
      in if to_state \<in> set [S_FAILED, S_LOST, S_CLOSED]
         then r2\<lparr>s_terminal_at := Some (s_updated_at r2)\<rparr> else r2)"

definition SessionManager_transition ::
  "real \<Rightarrow> string \<Rightarrow> SessionState \<Rightarrow> RuntimeErrorInfo option \<Rightarrow> SessionRecord session_op" where
  "SessionManager_transition now sid to_state error m =
     (case SessionManager_get sid m of
        Inl e \<Rightarrow> (Inl e, m)
      | Inr record \<Rightarrow>
          if to_state \<notin> set (ALLOWED_SESSION_TRANSITIONS (s_state record))
          then (Inl (InvalidTransition sid (SessionState_name (s_state record))
                       (SessionState_name to_state)), m)
          else (let r = transitioned now to_state error record in (Inr r, put_session r m)))"

definition SessionManager_commit_binding ::
  "real \<Rightarrow> string \<Rightarrow> int \<Rightarrow> string \<Rightarrow> real option \<Rightarrow> SessionRecord session_op" where
  "SessionManager_commit_binding now sid rank token new_lease m =
     (case SessionManager_get sid m of
        Inl e \<Rightarrow> (Inl e, m)
      | Inr record \<Rightarrow>
          (let r1 = record\<lparr>worker_rank := Some rank, binding_token := Some token\<rparr>;
               r2 = (case new_lease of None \<Rightarrow> r1 | Some l \<Rightarrow> r1\<lparr>lease_expiration := l\<rparr>)
           in SessionManager_transition now sid S_READY None (put_session r2 m)))"

definition SessionManager_fail ::
  "real \<Rightarrow> string \<Rightarrow> RuntimeErrorInfo \<Rightarrow> SessionRecord session_op" where
  "SessionManager_fail now sid error = SessionManager_transition now sid S_FAILED (Some error)"

definition SessionManager_mark_lost ::
  "real \<Rightarrow> string \<Rightarrow> RuntimeErrorInfo option \<Rightarrow> SessionRecord session_op" where
  "SessionManager_mark_lost now sid error =
     SessionManager_transition now sid S_LOST
       (Some (case error of
                Some e \<Rightarrow> e
              | None \<Rightarrow> make_error E_WORKER_LOST
                  [Text ''env worker binding lost for session '', Text sid]
                  [(''session_id'', PyStr sid)]))"

definition SessionManager_begin_close :: "real \<Rightarrow> string \<Rightarrow> SessionRecord session_op" where
  "SessionManager_begin_close now sid = SessionManager_transition now sid S_CLOSING None"

definition SessionManager_finish_close :: "real \<Rightarrow> string \<Rightarrow> SessionRecord session_op" where
  "SessionManager_finish_close now sid = SessionManager_transition now sid S_CLOSED None"

section \<open>Leases, sequence numbers and the running operation\<close>

text \<open>\<open>renew\<close> reads the clock twice: once for the lease and once for \<open>updated_at\<close>.\<close>

definition SessionManager_renew ::
  "real \<Rightarrow> real \<Rightarrow> string \<Rightarrow> real \<Rightarrow> string option \<Rightarrow> SessionRecord session_op" where
  "SessionManager_renew now now2 sid lease_seconds app m =
     (if lease_seconds \<le> 0 then (Inl (lease_argument_error lease_seconds), m)
      else case SessionManager_require_ready sid m of
        Inl e \<Rightarrow> (Inl e, m)
      | Inr record \<Rightarrow>
          if app \<noteq> None \<and> app \<noteq> Some (application_id record)
          then (Inl (RuntimeApiError (make_error E_INVALID_ARGUMENT
                  [Text ''session '', Text sid, Text '' does not belong to '', Repr (the app)]
                  [(''session_id'', PyStr sid)])), m)
          else
            (let r = record\<lparr>lease_expiration := now + lease_seconds, s_updated_at := now2\<rparr>
             in (Inr r, put_session r m)))"

definition SessionManager_allocate_operation_seq :: "SessionRecord \<Rightarrow> int \<times> SessionRecord" where
  "SessionManager_allocate_operation_seq r =
     (next_operation_seq r, r\<lparr>next_operation_seq := next_operation_seq r + 1\<rparr>)"

definition SessionManager_set_episode :: "real \<Rightarrow> string \<Rightarrow> int \<Rightarrow> unit session_op" where
  "SessionManager_set_episode now sid episode m =
     (case SessionManager_get sid m of
        Inl e \<Rightarrow> (Inl e, m)
      | Inr r \<Rightarrow> (Inr (), put_session (r\<lparr>episode_id := Some episode, s_updated_at := now\<rparr>) m))"

definition SessionManager_set_worker_summary :: "string \<Rightarrow> py option \<Rightarrow> unit session_op" where
  "SessionManager_set_worker_summary sid summary m =
     (case (dict_get (sm_sessions m) sid, summary) of
        (Some r, Some v) \<Rightarrow> (Inr (), put_session (r\<lparr>worker_summary := Some v\<rparr>) m)
      | _ \<Rightarrow> (Inr (), m))"

definition SessionManager_begin_operation :: "string \<Rightarrow> SessionRecord \<Rightarrow> exn + SessionRecord" where
  "SessionManager_begin_operation request_id r =
     (case active_operation r of
        Some active \<Rightarrow>
          Inl (RuntimeApiError (make_error E_SESSION_NOT_READY
            [Text ''session '', Text (session_id r), Text '' already has an active operation'']
            [(''session_id'', PyStr (session_id r)), (''active_operation'', PyStr active)]))
      | None \<Rightarrow> Inr (r\<lparr>active_operation := Some request_id\<rparr>))"

definition SessionManager_end_operation :: "string \<Rightarrow> SessionRecord \<Rightarrow> SessionRecord" where
  "SessionManager_end_operation request_id r =
     (if active_operation r = Some request_id then r\<lparr>active_operation := None\<rparr> else r)"

section \<open>Purging\<close>

text \<open>\<open>record.terminal_at or record.updated_at\<close>: zero is falsy.\<close>

definition terminal_moment :: "SessionRecord \<Rightarrow> real" where
  "terminal_moment r =
     (case s_terminal_at r of None \<Rightarrow> s_updated_at r | Some t \<Rightarrow> if t = 0 then s_updated_at r else t)"

definition purgeable :: "real \<Rightarrow> SessionManager \<Rightarrow> SessionRecord \<Rightarrow> bool" where
  "purgeable moment m r =
     (if s_state r = S_CLOSED then True
      else if s_state r \<in> set [S_FAILED, S_LOST]
      then moment - terminal_moment r \<ge> sm_error_retention_seconds m
      else False)"

definition purge_one :: "SessionManager \<Rightarrow> string \<Rightarrow> SessionManager" where
  "purge_one m sid =
     (case dict_get (sm_sessions m) sid of
        None \<Rightarrow> m
      | Some r \<Rightarrow>
          (let m1 = m\<lparr>sm_sessions := dict_pop (sm_sessions m) sid\<rparr>;
               key = (application_id r, client_session_key r)
           in if dict_get (sm_by_client_key m1) key = Some sid
              then m1\<lparr>sm_by_client_key := dict_pop (sm_by_client_key m1) key\<rparr> else m1))"

definition SessionManager_purge_terminal :: "real \<Rightarrow> (string list) session_op" where
  "SessionManager_purge_terminal moment m =
     (let removed = map fst (filter (\<lambda>(sid, r). purgeable moment m r) (sm_sessions m))
      in (Inr removed, foldl purge_one m removed))"

section \<open>The invariant\<close>

definition record_ok :: "SessionRecord \<Rightarrow> bool" where
  "record_ok r \<longleftrightarrow>
     (s_state r = S_READY \<longrightarrow> worker_rank r \<noteq> None \<and> binding_token r \<noteq> None)
     \<and> (s_terminal_at r \<noteq> None \<longleftrightarrow> s_state r \<in> {S_FAILED, S_LOST, S_CLOSED})
     \<and> (s_state r \<in> {S_FAILED, S_LOST} \<longrightarrow> s_error r \<noteq> None)
     \<and> 1 \<le> next_operation_seq r"

definition session_key :: "SessionRecord \<Rightarrow> string \<times> string" where
  "session_key r = (application_id r, client_session_key r)"

definition records_ok :: "SessionManager \<Rightarrow> bool" where
  "records_ok m \<longleftrightarrow>
     (\<forall>sid r. dict_get (sm_sessions m) sid = Some r \<longrightarrow> session_id r = sid \<and> record_ok r)"

definition index_ok :: "SessionManager \<Rightarrow> bool" where
  "index_ok m \<longleftrightarrow>
     (\<forall>key sid. dict_get (sm_by_client_key m) key = Some sid \<longrightarrow>
        snd key \<noteq> [] \<and> (\<exists>r. dict_get (sm_sessions m) sid = Some r \<and> session_key r = key))"

definition live_indexed :: "SessionManager \<Rightarrow> bool" where
  "live_indexed m \<longleftrightarrow>
     (\<forall>sid r. dict_get (sm_sessions m) sid = Some r \<longrightarrow> live_state (s_state r) \<longrightarrow>
        client_session_key r \<noteq> [] \<longrightarrow> dict_get (sm_by_client_key m) (session_key r) = Some sid)"

definition sm_ok :: "SessionManager \<Rightarrow> bool" where
  "sm_ok m \<longleftrightarrow> dict_ok (sm_sessions m) \<and> dict_ok (sm_by_client_key m)
     \<and> records_ok m \<and> index_ok m \<and> live_indexed m"

section \<open>Steps of the manager\<close>

text \<open>One rule per public method. A record-level method (\<open>begin_operation\<close>, \<open>end_operation\<close>,
  \<open>allocate_operation_seq\<close> and the Gateway's \<open>reap_pending\<close> mark) acts on a record that the
  dictionary holds. A drawn identifier is a UUID: it is not empty and not in use.\<close>

inductive sm_step :: "SessionManager \<Rightarrow> SessionManager \<Rightarrow> bool" where
  create: "fresh \<noteq> [] \<Longrightarrow> dict_get (sm_sessions m) fresh = None \<Longrightarrow>
     sm_step m (snd (SessionManager_create H now fresh None request m))"
| commit_binding: "sm_step m (snd (SessionManager_commit_binding now sid rank token lease m))"
| fail: "sm_step m (snd (SessionManager_fail now sid e m))"
| mark_lost: "sm_step m (snd (SessionManager_mark_lost now sid eo m))"
| begin_close: "sm_step m (snd (SessionManager_begin_close now sid m))"
| finish_close: "sm_step m (snd (SessionManager_finish_close now sid m))"
| renew: "sm_step m (snd (SessionManager_renew now now2 sid l app m))"
| set_episode: "sm_step m (snd (SessionManager_set_episode now sid ep m))"
| set_worker_summary: "sm_step m (snd (SessionManager_set_worker_summary sid summary m))"
| allocate: "dict_get (sm_sessions m) sid = Some r \<Longrightarrow>
     sm_step m (put_session (snd (SessionManager_allocate_operation_seq r)) m)"
| begin_operation: "dict_get (sm_sessions m) sid = Some r \<Longrightarrow>
     SessionManager_begin_operation rid r = Inr r' \<Longrightarrow> sm_step m (put_session r' m)"
| end_operation: "dict_get (sm_sessions m) sid = Some r \<Longrightarrow>
     sm_step m (put_session (SessionManager_end_operation rid r) m)"
| reap: "dict_get (sm_sessions m) sid = Some r \<Longrightarrow>
     sm_step m (put_session (r\<lparr>reap_pending := True\<rparr>) m)"
| purge: "sm_step m (snd (SessionManager_purge_terminal moment m))"

definition sm_reachable :: "SessionManager \<Rightarrow> bool" where
  "sm_reachable m \<longleftrightarrow>
     (\<exists>epoch retention lease. sm_step\<^sup>*\<^sup>* (SessionManager_init epoch retention lease) m)"

text \<open>Runs during which a given session stays on record.\<close>

inductive held_run :: "string \<Rightarrow> SessionManager \<Rightarrow> SessionManager \<Rightarrow> bool" for sid where
  refl: "dict_get (sm_sessions m) sid \<noteq> None \<Longrightarrow> held_run sid m m"
| step: "held_run sid m m' \<Longrightarrow> sm_step m' m'' \<Longrightarrow> dict_get (sm_sessions m'') sid \<noteq> None \<Longrightarrow>
     held_run sid m m''"

fun session_rank :: "SessionState \<Rightarrow> nat" where
  "session_rank S_CREATING = 0"
| "session_rank S_READY = 1"
| "session_rank S_CLOSING = 2"
| "session_rank S_FAILED = 2"
| "session_rank S_LOST = 2"
| "session_rank S_CLOSED = 3"

section \<open>Preservation\<close>

lemma put_session_sessions [simp]:
  "sm_sessions (put_session r m) = dict_set (sm_sessions m) (session_id r) r"
  "sm_by_client_key (put_session r m) = sm_by_client_key m"
  by (simp_all add: put_session_def)

lemma get_session_Inr [simp]:
  "SessionManager_get sid m = Inr r \<longleftrightarrow> dict_get (sm_sessions m) sid = Some r"
  by (simp add: SessionManager_get_def split: option.split)

lemma get_session_Some [simp]:
  "dict_get (sm_sessions m) sid = Some r \<Longrightarrow> SessionManager_get sid m = Inr r"
  by simp

lemma get_session_Inl:
  "SessionManager_get sid m = Inl e \<Longrightarrow> dict_get (sm_sessions m) sid = None"
  by (simp add: SessionManager_get_def split: option.splits)

lemma sm_okD:
  assumes "sm_ok m" "dict_get (sm_sessions m) sid = Some r"
  shows "session_id r = sid" "record_ok r"
  using assms by (auto simp: sm_ok_def records_ok_def)

text \<open>Every mutation of a held record keeps the invariant when it keeps the record's identity and
  key, does not bring a closing session back to life, and leaves the record well-formed.\<close>

definition same_identity :: "SessionRecord \<Rightarrow> SessionRecord \<Rightarrow> bool" where
  "same_identity r r' \<longleftrightarrow> session_id r' = session_id r \<and> session_key r' = session_key r"

lemma sm_ok_put:
  assumes ok: "sm_ok m" and r: "dict_get (sm_sessions m) (session_id r') = Some r"
    and same: "same_identity r r'" and live: "live_state (s_state r') \<Longrightarrow> live_state (s_state r)"
    and rok: "record_ok r'"
  shows "sm_ok (put_session r' m)"
proof -
  have key: "session_key r' = session_key r" using same by (simp add: same_identity_def)
  have "records_ok (put_session r' m)"
    using ok rok by (auto simp: sm_ok_def records_ok_def)
  moreover have "index_ok (put_session r' m)"
    using ok r key by (fastforce simp: sm_ok_def index_ok_def)
  moreover have "live_indexed (put_session r' m)"
    using ok r key live
    by (auto simp: sm_ok_def live_indexed_def session_key_def split: if_splits)
  ultimately show ?thesis using ok by (simp add: sm_ok_def)
qed

lemma transitioned_fields [simp]:
  "session_id (transitioned now t e r) = session_id r"
  "session_key (transitioned now t e r) = session_key r"
  "s_state (transitioned now t e r) = t"
  by (simp_all add: transitioned_def session_key_def Let_def split: option.split)

lemma sm_ok_transition:
  assumes ok: "sm_ok m"
    and err: "to_state \<in> {S_FAILED, S_LOST} \<Longrightarrow> error \<noteq> None"
    and bound: "\<And>r. to_state = S_READY \<Longrightarrow> dict_get (sm_sessions m) sid = Some r \<Longrightarrow>
                  worker_rank r \<noteq> None \<and> binding_token r \<noteq> None"
  shows "sm_ok (snd (SessionManager_transition now sid to_state error m))"
proof (cases "SessionManager_get sid m")
  case (Inl e)
  then show ?thesis using ok by (simp add: SessionManager_transition_def)
next
  case (Inr r)
  then have r: "dict_get (sm_sessions m) sid = Some r" by simp
  note id = sm_okD [OF ok r]
  show ?thesis
  proof (cases "to_state \<in> set (ALLOWED_SESSION_TRANSITIONS (s_state r))")
    case False
    with Inr ok show ?thesis by (simp add: SessionManager_transition_def)
  next
    case True
    define r' where "r' = transitioned now to_state error r"
    have same: "same_identity r r'" "s_state r' = to_state"
      by (simp_all add: r'_def same_identity_def)
    have "record_ok r'"
      using id(2) True err bound [OF _ r]
      by (cases "s_state r")
        (auto simp: r'_def transitioned_def record_ok_def Let_def split: option.split if_splits)
    moreover have "live_state to_state \<Longrightarrow> live_state (s_state r)"
      using True by (cases "s_state r") (auto simp: live_state_def)
    ultimately have "sm_ok (put_session r' m)"
      using ok r same id(1) by (intro sm_ok_put [where r = r]) (simp_all add: same_identity_def)
    with Inr True show ?thesis
      by (simp add: SessionManager_transition_def r'_def Let_def)
  qed
qed

lemma sm_ok_commit:
  assumes ok: "sm_ok m"
  shows "sm_ok (snd (SessionManager_commit_binding now sid rank token lease m))"
proof (cases "SessionManager_get sid m")
  case (Inl e)
  then show ?thesis using ok by (simp add: SessionManager_commit_binding_def)
next
  case (Inr r)
  then have r: "dict_get (sm_sessions m) sid = Some r" by simp
  note id = sm_okD [OF ok r]
  define r' where "r' = (let r1 = r\<lparr>worker_rank := Some rank, binding_token := Some token\<rparr>
    in case lease of None \<Rightarrow> r1 | Some l \<Rightarrow> r1\<lparr>lease_expiration := l\<rparr>)"
  have same: "same_identity r r'" "s_state r' = s_state r" "record_ok r'"
    using id(2)
    by (auto simp: r'_def same_identity_def session_key_def Let_def record_ok_def split: option.split)
  have put: "sm_ok (put_session r' m)"
    using ok r same id(1) by (intro sm_ok_put [where r = r]) (simp_all add: same_identity_def)
  have bound: "worker_rank r' \<noteq> None \<and> binding_token r' \<noteq> None"
    by (simp add: r'_def Let_def split: option.split)
  have "sm_ok (snd (SessionManager_transition now sid S_READY None (put_session r' m)))"
    by (rule sm_ok_transition [OF put]) (use same id(1) bound in \<open>auto simp: same_identity_def\<close>)
  with Inr show ?thesis
    by (simp add: SessionManager_commit_binding_def r'_def Let_def)
qed

lemma record_ok_new [simp]: "record_ok (new_session_record H now sid request m)"
  by (simp add: record_ok_def new_session_record_def Let_def)

lemma new_session_fields [simp]:
  "session_id (new_session_record H now sid request m) = sid"
  "s_state (new_session_record H now sid request m) = S_CREATING"
  "client_session_key (new_session_record H now sid request m) = req_client_session_key request"
  "session_key (new_session_record H now sid request m) =
     (req_application_id request, req_client_session_key request)"
  by (simp_all add: new_session_record_def session_key_def Let_def)

text \<open>A registration keeps the invariant when no live session claims the key.\<close>

lemma sm_ok_register:
  assumes ok: "sm_ok m" and new: "dict_get (sm_sessions m) sid = None"
    and free: "dict_get (sm_by_client_key m)
                 (req_application_id request, req_client_session_key request) = None"
  shows "sm_ok (snd (register_session H now sid request m))"
proof -
  let ?k = "(req_application_id request, req_client_session_key request)"
  let ?m = "snd (register_session H now sid request m)"
  have s: "sm_sessions ?m = dict_set (sm_sessions m) sid (new_session_record H now sid request m)"
    by (simp add: register_session_def Let_def)
  have i: "sm_by_client_key ?m = (if req_client_session_key request \<noteq> []
             then dict_set (sm_by_client_key m) ?k sid else sm_by_client_key m)"
    by (simp add: register_session_def Let_def)
  have "records_ok ?m" using ok by (auto simp: records_ok_def sm_ok_def s)
  moreover have "index_ok ?m"
    using ok new by (fastforce simp: index_ok_def sm_ok_def s i)
  moreover have "live_indexed ?m"
    using ok free by (fastforce simp: live_indexed_def sm_ok_def s i split: if_splits)
  ultimately show ?thesis using ok by (simp add: sm_ok_def s i)
qed

lemma sm_ok_drop_index:
  assumes ok: "sm_ok m" and sid: "dict_get (sm_by_client_key m) key = Some sid"
    and dead: "\<And>r. dict_get (sm_sessions m) sid = Some r \<Longrightarrow> \<not> live_state (s_state r)"
  shows "sm_ok (m\<lparr>sm_by_client_key := dict_pop (sm_by_client_key m) key\<rparr>)"
proof -
  let ?m = "m\<lparr>sm_by_client_key := dict_pop (sm_by_client_key m) key\<rparr>"
  have "live_indexed ?m"
    unfolding live_indexed_def
  proof (intro allI impI)
    fix sid' r
    assume r: "dict_get (sm_sessions ?m) sid' = Some r" "live_state (s_state r)"
      "client_session_key r \<noteq> []"
    then have "dict_get (sm_by_client_key m) (session_key r) = Some sid'"
      using ok by (simp add: sm_ok_def live_indexed_def)
    moreover from this have "session_key r \<noteq> key" using sid r dead by auto
    ultimately show "dict_get (sm_by_client_key ?m) (session_key r) = Some sid'" by simp
  qed
  moreover have "index_ok ?m" using ok by (auto simp: sm_ok_def index_ok_def split: if_splits)
  ultimately show ?thesis using ok by (simp add: sm_ok_def records_ok_def)
qed

lemma sm_ok_create:
  assumes ok: "sm_ok m" and new: "dict_get (sm_sessions m) fresh = None"
  shows "sm_ok (snd (SessionManager_create H now fresh None request m))"
proof -
  let ?k = "(req_application_id request, req_client_session_key request)"
  let ?m = "m\<lparr>sm_by_client_key := dict_pop (sm_by_client_key m) ?k\<rparr>"
  show ?thesis
  proof (cases "dict_get (sm_by_client_key m) ?k")
    case None
    with ok new show ?thesis
      by (simp add: SessionManager_create_def sm_ok_register)
  next
    case (Some sid)
    then obtain r where r: "dict_get (sm_sessions m) sid = Some r"
      using ok by (fastforce simp: sm_ok_def index_ok_def)
    have "\<not> live_state (s_state r) \<Longrightarrow> sm_ok ?m"
      using sm_ok_drop_index [OF ok Some] r by simp
    then have "\<not> live_state (s_state r) \<Longrightarrow> sm_ok (snd (register_session H now fresh request ?m))"
      using new by (intro sm_ok_register) simp_all
    with ok r Some show ?thesis by (simp add: SessionManager_create_def)
  qed
qed

lemma sm_ok_purge_one:
  assumes ok: "sm_ok m"
    and dead: "\<And>r. dict_get (sm_sessions m) sid = Some r \<Longrightarrow>
                 s_state r \<in> {S_CLOSED, S_FAILED, S_LOST}"
  shows "sm_ok (purge_one m sid)"
proof (cases "dict_get (sm_sessions m) sid")
  case None
  with ok show ?thesis by (simp add: purge_one_def)
next
  case (Some r)
  let ?k = "session_key r"
  have pop: "sm_by_client_key (purge_one m sid) =
      (if dict_get (sm_by_client_key m) ?k = Some sid then dict_pop (sm_by_client_key m) ?k
       else sm_by_client_key m)"
    using Some by (simp add: purge_one_def Let_def session_key_def)
  have idx: "dict_get (sm_by_client_key m) k' = Some sid \<Longrightarrow> k' = ?k" for k'
  proof -
    assume "dict_get (sm_by_client_key m) k' = Some sid"
    then obtain r' where "dict_get (sm_sessions m) sid = Some r'" "session_key r' = k'"
      using ok unfolding sm_ok_def index_ok_def by blast
    with Some show "k' = ?k" by simp
  qed
  have s: "sm_sessions (purge_one m sid) = dict_pop (sm_sessions m) sid"
    using Some by (simp add: purge_one_def Let_def)
  have i: "dict_get (sm_by_client_key (purge_one m sid)) k' =
      (if dict_get (sm_by_client_key m) k' = Some sid then None
       else dict_get (sm_by_client_key m) k')" for k'
  proof (cases "k' = ?k")
    case False
    with idx have "dict_get (sm_by_client_key m) k' \<noteq> Some sid" by blast
    with False show ?thesis by (simp add: pop)
  qed (simp add: pop)
  have "dict_ok (sm_by_client_key (purge_one m sid))"
    using ok by (simp add: pop sm_ok_def)
  moreover have "records_ok (purge_one m sid)"
    using ok by (auto simp: records_ok_def sm_ok_def s split: if_splits)
  moreover have "index_ok (purge_one m sid)"
    unfolding index_ok_def
  proof (intro allI impI)
    fix key sid'
    assume "dict_get (sm_by_client_key (purge_one m sid)) key = Some sid'"
    then have "dict_get (sm_by_client_key m) key = Some sid'" "sid' \<noteq> sid"
      by (simp_all add: i split: if_splits)
    moreover from this(1) obtain r' where "snd key \<noteq> []"
      "dict_get (sm_sessions m) sid' = Some r'" "session_key r' = key"
      using ok unfolding sm_ok_def index_ok_def by blast
    ultimately show "snd key \<noteq> [] \<and> (\<exists>r. dict_get (sm_sessions (purge_one m sid)) sid' = Some r
        \<and> session_key r = key)"
      by (simp add: s)
  qed
  moreover have "live_indexed (purge_one m sid)"
    unfolding live_indexed_def
  proof (intro allI impI)
    fix sid' r'
    assume r': "dict_get (sm_sessions (purge_one m sid)) sid' = Some r'" "live_state (s_state r')"
      "client_session_key r' \<noteq> []"
    then have "sid' \<noteq> sid" "dict_get (sm_sessions m) sid' = Some r'"
      by (simp_all add: s split: if_splits)
    then show "dict_get (sm_by_client_key (purge_one m sid)) (session_key r') = Some sid'"
      using ok r'(2,3) unfolding sm_ok_def live_indexed_def by (simp add: i)
  qed
  ultimately show ?thesis using ok by (simp add: sm_ok_def s)
qed

lemma purge_one_sessions:
  "dict_get (sm_sessions (purge_one m sid)) x =
     (if x = sid then None else dict_get (sm_sessions m) x)"
  by (simp add: purge_one_def Let_def split: option.split)

lemma purge_list_sessions:
  "dict_get (sm_sessions (foldl purge_one m sids)) x =
     (if x \<in> set sids then None else dict_get (sm_sessions m) x)"
  by (induction sids arbitrary: m) (auto simp: purge_one_sessions)

lemma sm_ok_purge_list:
  "sm_ok m \<Longrightarrow>
   (\<And>sid r. sid \<in> set sids \<Longrightarrow> dict_get (sm_sessions m) sid = Some r \<Longrightarrow>
      s_state r \<in> {S_CLOSED, S_FAILED, S_LOST}) \<Longrightarrow>
   sm_ok (foldl purge_one m sids)"
proof (induction sids arbitrary: m)
  case Nil
  then show ?case by simp
next
  case (Cons sid sids)
  have "sm_ok (purge_one m sid)"
    using Cons.prems(1) by (rule sm_ok_purge_one) (use Cons.prems(2) [of sid] in simp)
  moreover have "s_state r \<in> {S_CLOSED, S_FAILED, S_LOST}"
    if "x \<in> set sids" "dict_get (sm_sessions (purge_one m sid)) x = Some r" for x r
    using that Cons.prems(2) [of x r] by (auto simp: purge_one_sessions split: if_splits)
  ultimately show ?case using Cons.IH by simp
qed

lemma sm_ok_purge:
  assumes "sm_ok m"
  shows "sm_ok (snd (SessionManager_purge_terminal moment m))"
proof -
  have "s_state r \<in> {S_CLOSED, S_FAILED, S_LOST}"
    if "sid \<in> set (map fst (filter (\<lambda>(sid, r). purgeable moment m r) (sm_sessions m)))"
      "dict_get (sm_sessions m) sid = Some r" for sid r
  proof -
    from that(1) obtain r' where "(sid, r') \<in> set (sm_sessions m)" "purgeable moment m r'"
      by auto
    then have "r' = r" using that(2) assms by (simp add: sm_ok_def flip: dict_get_in)
    with \<open>purgeable moment m r'\<close> show ?thesis by (auto simp: purgeable_def split: if_splits)
  qed
  then have "sm_ok (foldl purge_one m
      (map fst (filter (\<lambda>(sid, r). purgeable moment m r) (sm_sessions m))))"
    by (intro sm_ok_purge_list [OF assms]) blast
  then show ?thesis by (simp add: SessionManager_purge_terminal_def Let_def)
qed

lemma sm_ok_field_update:
  assumes "sm_ok m" "dict_get (sm_sessions m) sid = Some r" "same_identity r r'"
    "s_state r' = s_state r" "record_ok r \<Longrightarrow> record_ok r'"
  shows "sm_ok (put_session r' m)"
  using assms sm_okD [OF assms(1,2)]
  by (intro sm_ok_put [where r = r]) (auto simp: same_identity_def)

lemmas field_update_simps = same_identity_def session_key_def record_ok_def

lemma sm_ok_step: "sm_step m m' \<Longrightarrow> sm_ok m \<Longrightarrow> sm_ok m'"
proof (induction rule: sm_step.induct)
  case (renew m now now2 sid l app)
  then show ?case
    by (auto simp: SessionManager_renew_def SessionManager_require_ready_def Let_def
        field_update_simps intro!: sm_ok_field_update split: sum.splits)
next
  case (set_episode m now sid ep)
  then show ?case
    by (auto simp: SessionManager_set_episode_def field_update_simps
        intro!: sm_ok_field_update split: sum.splits)
next
  case (set_worker_summary m sid summary)
  then show ?case
    by (auto simp: SessionManager_set_worker_summary_def field_update_simps
        intro!: sm_ok_field_update split: option.splits)
next
  case (allocate m sid r)
  then show ?case
    by (auto simp: SessionManager_allocate_operation_seq_def field_update_simps
        intro!: sm_ok_field_update)
next
  case (begin_operation m sid r rid r')
  then show ?case
    by (auto simp: SessionManager_begin_operation_def field_update_simps
        intro!: sm_ok_field_update split: option.splits)
next
  case (end_operation m sid r rid)
  then show ?case
    by (auto simp: SessionManager_end_operation_def field_update_simps intro!: sm_ok_field_update)
next
  case (reap m sid r)
  then show ?case by (auto simp: field_update_simps intro!: sm_ok_field_update)
qed (auto simp: SessionManager_fail_def SessionManager_mark_lost_def SessionManager_begin_close_def
    SessionManager_finish_close_def intro: sm_ok_transition sm_ok_create sm_ok_commit sm_ok_purge)

lemma sm_ok_init: "sm_ok (SessionManager_init epoch retention lease)"
  by (simp add: sm_ok_def SessionManager_init_def records_ok_def index_ok_def live_indexed_def)

lemma sm_reachable_ok: "sm_reachable m \<Longrightarrow> sm_ok m"
proof -
  assume "sm_reachable m"
  then obtain a b c where "sm_step\<^sup>*\<^sup>* (SessionManager_init a b c) m"
    by (auto simp: sm_reachable_def)
  then show ?thesis
    by (induction rule: rtranclp_induct) (auto intro: sm_ok_init sm_ok_step)
qed

section \<open>The lifecycle\<close>

interpretation session_lifecycle: lifecycle ALLOWED_SESSION_TRANSITIONS session_rank 3
proof unfold_locales
  show "t \<in> set (ALLOWED_SESSION_TRANSITIONS s) \<Longrightarrow> session_rank s < session_rank t" for s t
    by (cases s) auto
  show "session_rank s \<le> 3" for s by (cases s) auto
qed

lemma transition_get:
  assumes "sm_ok m" "dict_get (sm_sessions m) sid = Some y"
  shows "dict_get (sm_sessions (snd (SessionManager_transition now sid t e m))) x =
    (if x = sid \<and> t \<in> set (ALLOWED_SESSION_TRANSITIONS (s_state y))
     then Some (transitioned now t e y) else dict_get (sm_sessions m) x)"
  using assms(2) sm_okD(1) [OF assms] by (simp add: SessionManager_transition_def Let_def)

lemma transition_unknown:
  "dict_get (sm_sessions m) sid = None \<Longrightarrow> snd (SessionManager_transition now sid t e m) = m"
  by (simp add: SessionManager_transition_def SessionManager_get_def)

lemma transition_state:
  assumes ok: "sm_ok m" and r: "dict_get (sm_sessions m) x = Some r"
    and r': "dict_get (sm_sessions (snd (SessionManager_transition now sid t e m))) x = Some r'"
  shows "s_state r' = s_state r \<or> session_lifecycle.edge (s_state r) (s_state r')"
proof (cases "dict_get (sm_sessions m) sid")
  case None
  with r r' show ?thesis by (simp add: transition_unknown)
next
  case (Some y)
  show ?thesis
  proof (cases "x = sid \<and> t \<in> set (ALLOWED_SESSION_TRANSITIONS (s_state y))")
    case True
    with r r' Some have "y = r" "r' = transitioned now t e y"
      by (simp_all add: transition_get [OF ok Some])
    with True show ?thesis by (simp add: session_lifecycle.edge_def)
  next
    case False
    with r r' have "r' = r" unfolding transition_get [OF ok Some] if_not_P [OF False] by simp
    then show ?thesis by simp
  qed
qed

lemma commit_state:
  assumes ok: "sm_ok m" and r: "dict_get (sm_sessions m) x = Some r"
    and r': "dict_get (sm_sessions (snd (SessionManager_commit_binding now sid rank token l m))) x
               = Some r'"
  shows "s_state r' = s_state r \<or> session_lifecycle.edge (s_state r) (s_state r')"
proof (cases "dict_get (sm_sessions m) sid")
  case None
  then have "SessionManager_get sid m \<noteq> Inr y" for y by simp
  with r r' show ?thesis
    by (cases "SessionManager_get sid m") (auto simp: SessionManager_commit_binding_def)
next
  case (Some y)
  define y' where "y' = (let r1 = y\<lparr>worker_rank := Some rank, binding_token := Some token\<rparr>
    in case l of None \<Rightarrow> r1 | Some l \<Rightarrow> r1\<lparr>lease_expiration := l\<rparr>)"
  have eq: "SessionManager_commit_binding now sid rank token l m =
      SessionManager_transition now sid S_READY None (put_session y' m)"
    using Some by (simp add: SessionManager_commit_binding_def y'_def Let_def)
  have same: "same_identity y y'" "s_state y' = s_state y" "record_ok y \<Longrightarrow> record_ok y'"
    by (auto simp: y'_def Let_def field_update_simps split: option.split)
  have put: "sm_ok (put_session y' m)"
    using ok Some same by (rule sm_ok_field_update)
  define r1 where "r1 = (if x = sid then y' else r)"
  have r1: "dict_get (sm_sessions (put_session y' m)) x = Some r1" "s_state r1 = s_state r"
    using r Some same sm_okD(1) [OF ok Some] by (auto simp: same_identity_def r1_def)
  with transition_state [OF put r1(1)] r' show ?thesis unfolding eq by auto
qed

lemma register_other:
  "x \<noteq> sid \<Longrightarrow> dict_get (sm_sessions (snd (register_session H now sid request m))) x =
     dict_get (sm_sessions m) x"
  by (simp add: register_session_def Let_def)

lemma create_other:
  "x \<noteq> fresh \<Longrightarrow>
   dict_get (sm_sessions (snd (SessionManager_create H now fresh None request m))) x =
     dict_get (sm_sessions m) x"
  by (auto simp: SessionManager_create_def register_other Let_def split: option.split)

lemma sm_step_edge:
  "sm_step m m' \<Longrightarrow> sm_ok m \<Longrightarrow> dict_get (sm_sessions m) x = Some r \<Longrightarrow>
   dict_get (sm_sessions m') x = Some r' \<Longrightarrow>
   s_state r' = s_state r \<or> session_lifecycle.edge (s_state r) (s_state r')"
proof (induction rule: sm_step.induct)
  case (create fresh m H now request)
  then show ?case by (cases "x = fresh") (simp_all add: create_other)
next
  case (commit_binding m now sid rank token lease)
  then show ?case by (intro commit_state)
next
  case (fail m now sid e)
  then show ?case unfolding SessionManager_fail_def by (intro transition_state)
next
  case (mark_lost m now sid eo)
  then show ?case unfolding SessionManager_mark_lost_def by (intro transition_state)
next
  case (begin_close m now sid)
  then show ?case unfolding SessionManager_begin_close_def by (intro transition_state)
next
  case (finish_close m now sid)
  then show ?case unfolding SessionManager_finish_close_def by (intro transition_state)
next
  case (renew m now now2 sid l app)
  then show ?case
    by (auto simp: SessionManager_renew_def SessionManager_require_ready_def Let_def
        dest: sm_okD(1) split: sum.splits if_splits)
next
  case (set_episode m now sid ep)
  then show ?case
    by (auto simp: SessionManager_set_episode_def dest: sm_okD(1) split: sum.splits if_splits)
next
  case (set_worker_summary m sid summary)
  then show ?case
    by (auto simp: SessionManager_set_worker_summary_def dest: sm_okD(1)
        split: option.splits if_splits)
next
  case (allocate m sid r)
  then show ?case
    by (auto simp: SessionManager_allocate_operation_seq_def dest: sm_okD(1) split: if_splits)
next
  case (begin_operation m sid r rid r')
  then show ?case
    by (auto simp: SessionManager_begin_operation_def dest: sm_okD(1)
        split: option.splits if_splits)
next
  case (end_operation m sid r rid)
  then show ?case
    by (auto simp: SessionManager_end_operation_def dest: sm_okD(1) split: if_splits)
next
  case (reap m sid r)
  then show ?case by (auto dest: sm_okD(1) split: if_splits)
next
  case (purge m moment)
  then show ?case
    by (auto simp: SessionManager_purge_terminal_def Let_def purge_list_sessions split: if_splits)
qed

lemma held_run_ok: "held_run sid m m' \<Longrightarrow> sm_ok m \<Longrightarrow> sm_ok m'"
  by (induction rule: held_run.induct) (auto intro: sm_ok_step)

lemma held_run_held: "held_run sid m m' \<Longrightarrow> dict_get (sm_sessions m') sid \<noteq> None"
  by (auto elim: held_run.cases)

lemma held_run_edges:
  "held_run sid m m' \<Longrightarrow> sm_ok m \<Longrightarrow> dict_get (sm_sessions m) sid = Some r \<Longrightarrow>
   dict_get (sm_sessions m') sid = Some r' \<Longrightarrow>
   session_lifecycle.edge\<^sup>*\<^sup>* (s_state r) (s_state r')"
proof (induction arbitrary: r' rule: held_run.induct)
  case (refl m)
  then show ?case by simp
next
  case (step m m' m'')
  obtain r1 where r1: "dict_get (sm_sessions m') sid = Some r1"
    using held_run_held [OF step.hyps(1)] by blast
  have "session_lifecycle.edge\<^sup>*\<^sup>* (s_state r) (s_state r1)"
    using step.IH step.prems r1 by blast
  moreover have "s_state r' = s_state r1 \<or> session_lifecycle.edge (s_state r1) (s_state r')"
    using sm_step_edge [OF step.hyps(2) held_run_ok [OF step.hyps(1) step.prems(1)] r1]
      step.prems(3) by blast
  ultimately show ?case by (auto intro: rtranclp.rtrancl_into_rtrancl)
qed

lemma edge_closing: "session_lifecycle.edge S_CLOSING t \<longleftrightarrow> t = S_CLOSED"
  "session_lifecycle.edge S_FAILED t \<longleftrightarrow> t = S_CLOSED"
  "session_lifecycle.edge S_LOST t \<longleftrightarrow> t = S_CLOSED"
  "session_lifecycle.edge S_CLOSED t \<longleftrightarrow> False"
  by (auto simp: session_lifecycle.edge_def)

lemma edges_from_dead:
  "session_lifecycle.edge\<^sup>*\<^sup>* s t \<Longrightarrow> s \<in> {S_CLOSING, S_FAILED, S_LOST, S_CLOSED} \<Longrightarrow>
   t = s \<or> t = S_CLOSED"
  by (induction rule: rtranclp_induct) (auto simp: edge_closing)

section \<open>Properties\<close>

definition demo_request :: "string \<Rightarrow> CreateSessionRequest" where
  "demo_request key =
     \<lparr>req_application_id = ''app'', req_client_session_key = key,
      req_env_spec = \<lparr>env_family = ''fake'', env_config = [], pool_size = 1,
                      max_dynamic_pool_size = None, resource_hints = []\<rparr>,
      req_default_policy_id = None, req_lease_seconds = 60, req_metadata = [],
      req_auth_token = None\<rparr>"

definition demo_manager :: SessionManager where
  "demo_manager = snd (SessionManager_create (\<lambda>p v. p) 10 ''sess-1'' None (demo_request ''k'')
     (SessionManager_init 1 300 300))"

lemma demo_manager_reachable: "sm_reachable demo_manager"
proof -
  have "sm_step (SessionManager_init 1 300 300) demo_manager"
    unfolding demo_manager_def by (rule sm_step.create) (simp_all add: SessionManager_init_def)
  then show ?thesis unfolding sm_reachable_def by blast
qed

lemmas demo_simps = demo_manager_def demo_request_def SessionManager_create_def
  SessionManager_init_def register_session_def new_session_record_def put_session_def
  dict_set_def dict_get_def Let_def

text \<open>C3: in every state the session manager can reach, at most one live session (not
  \<open>CLOSING\<close> and not \<open>CLOSED\<close>) exists per application and non-empty \<open>client_session_key\<close>, whatever
  the order of creates, transitions, renewals and purges was.\<close>

theorem session_key_unique:
  assumes "sm_reachable m"
    and "dict_get (sm_sessions m) sid1 = Some r1" "live_state (s_state r1)"
    and "dict_get (sm_sessions m) sid2 = Some r2" "live_state (s_state r2)"
    and "session_key r1 = session_key r2" "client_session_key r1 \<noteq> []"
  shows "sid1 = sid2"
proof -
  have "live_indexed m" using sm_reachable_ok [OF assms(1)] by (simp add: sm_ok_def)
  moreover have "client_session_key r2 \<noteq> []" using assms(6,7) by (simp add: session_key_def)
  ultimately have "dict_get (sm_by_client_key m) (session_key r1) = Some sid1"
    "dict_get (sm_by_client_key m) (session_key r2) = Some sid2"
    using assms(2-5,7) unfolding live_indexed_def by blast+
  with assms(6) show ?thesis by simp
qed

theorem session_key_unique_witness:
  "sm_reachable demo_manager \<and>
   {sid. \<exists>r. dict_get (sm_sessions demo_manager) sid = Some r \<and> live_state (s_state r)
        \<and> session_key r = (''app'', ''k'')} = {''sess-1''}"
proof -
  obtain r where r: "dict_get (sm_sessions demo_manager) ''sess-1'' = Some r"
    "live_state (s_state r)" "session_key r = (''app'', ''k'')" "client_session_key r \<noteq> []"
    by (simp add: demo_simps live_state_def session_key_def)
  have "''sess-1'' = sid" if "dict_get (sm_sessions demo_manager) sid = Some r'"
    "live_state (s_state r')" "session_key r' = (''app'', ''k'')" for sid r'
    using session_key_unique [OF demo_manager_reachable r(1,2) that(1,2) _ r(4)] r(3) that(3)
    by simp
  with r demo_manager_reachable show ?thesis by blast
qed

text \<open>Once a create with a non-empty key has returned a session that is still live, a second
  create with the same application and key returns that very record, reports that nothing was
  created and leaves the manager unchanged, whatever the rest of the request, the clock and the
  drawn identifier are.\<close>

theorem create_idempotent:
  assumes "sm_reachable m" "fresh \<noteq> []" "dict_get (sm_sessions m) fresh = None"
    and "SessionManager_create H now fresh None request m = (Inr (r, created), m')"
    and "req_client_session_key request \<noteq> []"
    and "req_application_id request' = req_application_id request"
    and "req_client_session_key request' = req_client_session_key request"
    and "0 < req_lease_seconds request'"
  shows "SessionManager_create H' now' fresh' explicit request' m' = (Inr (r, False), m')"
proof -
  have ok: "sm_ok m" by (rule sm_reachable_ok [OF assms(1)])
  let ?k = "(req_application_id request, req_client_session_key request)"
  have *: "dict_get (sm_by_client_key m') ?k = Some (session_id r)
      \<and> dict_get (sm_sessions m') (session_id r) = Some r \<and> live_state (s_state r)"
    using assms(4,5)
    by (auto simp: SessionManager_create_def register_session_def Let_def live_state_def
        sm_okD(1) [OF ok] split: option.splits if_splits)
  with assms(6-8) show ?thesis by (simp add: SessionManager_create_def Let_def)
qed

theorem create_idempotent_witness:
  "\<exists>r m'. SessionManager_create (\<lambda>p v. p) 10 ''sess-1'' None (demo_request ''k'')
      (SessionManager_init 1 300 300) = (Inr (r, True), m')
    \<and> SessionManager_create (\<lambda>p v. p) 99 ''sess-2'' None (demo_request ''k'') m' = (Inr (r, False), m')"
proof -
  let ?m = "SessionManager_init 1 300 300"
  have reach: "sm_reachable ?m" by (auto simp: sm_reachable_def)
  obtain r m' where first: "SessionManager_create (\<lambda>p v. p) 10 ''sess-1'' None (demo_request ''k'') ?m
      = (Inr (r, True), m')"
    by (simp add: demo_simps)
  have "SessionManager_create (\<lambda>p v. p) 99 ''sess-2'' None (demo_request ''k'') m' = (Inr (r, False), m')"
    by (rule create_idempotent [OF reach _ _ first])
      (simp_all add: demo_request_def SessionManager_init_def)
  with first show ?thesis by blast
qed

text \<open>A session that is \<open>CLOSING\<close>, \<open>FAILED\<close>, \<open>LOST\<close> or \<open>CLOSED\<close> never serves again: as long as
  its record is kept, its state stays what it is or becomes \<open>CLOSED\<close>, under every sequence of
  manager operations. In particular a \<open>LOST\<close> session is never recovered.\<close>

theorem session_never_recovers:
  assumes "sm_reachable m" "held_run sid m m'"
    and "dict_get (sm_sessions m) sid = Some r" "dict_get (sm_sessions m') sid = Some r'"
    and "s_state r \<in> {S_CLOSING, S_FAILED, S_LOST, S_CLOSED}"
  shows "s_state r' = s_state r \<or> s_state r' = S_CLOSED"
  using held_run_edges [OF assms(2) sm_reachable_ok [OF assms(1)] assms(3,4)] assms(5)
  by (rule edges_from_dead)

theorem session_never_recovers_witness:
  "\<exists>m r. sm_reachable m \<and> dict_get (sm_sessions m) ''sess-1'' = Some r \<and> s_state r = S_FAILED
     \<and> (s_state r = S_FAILED \<or> s_state r = S_CLOSED)"
proof -
  let ?e = "make_error E_ENV_FAILURE [] []"
  let ?m = "snd (SessionManager_fail 11 ''sess-1'' ?e demo_manager)"
  have "sm_step demo_manager ?m" by (rule sm_step.fail)
  then have reach: "sm_reachable ?m"
    using demo_manager_reachable unfolding sm_reachable_def
    by (meson rtranclp.rtrancl_into_rtrancl)
  obtain r where r: "dict_get (sm_sessions ?m) ''sess-1'' = Some r" "s_state r = S_FAILED"
    by (simp add: demo_simps SessionManager_fail_def SessionManager_transition_def
        transitioned_def SessionManager_get_def)
  have "held_run ''sess-1'' ?m ?m" using r by (intro held_run.refl) simp
  from session_never_recovers [OF reach this r(1) r(1)] r reach show ?thesis by auto
qed

text \<open>What \<open>require_ready\<close> hands to a caller is a session that is \<open>READY\<close> and bound: it has a
  worker rank and a binding token, in every reachable state.\<close>

theorem require_ready_bound:
  assumes "sm_reachable m" "SessionManager_require_ready sid m = Inr r"
  shows "session_id r = sid \<and> s_state r = S_READY \<and> worker_rank r \<noteq> None
    \<and> binding_token r \<noteq> None"
proof -
  have r: "dict_get (sm_sessions m) sid = Some r" "s_state r = S_READY"
    using assms(2) by (auto simp: SessionManager_require_ready_def split: sum.splits if_splits)
  with sm_okD [OF sm_reachable_ok [OF assms(1)] r(1)] show ?thesis by (simp add: record_ok_def)
qed

theorem require_ready_bound_witness:
  "\<exists>m r. SessionManager_require_ready ''sess-1'' m = Inr r \<and> worker_rank r \<noteq> None"
proof -
  let ?m = "snd (SessionManager_commit_binding 12 ''sess-1'' 0 ''bind-1'' None demo_manager)"
  have "sm_step demo_manager ?m" by (rule sm_step.commit_binding)
  then have reach: "sm_reachable ?m"
    using demo_manager_reachable unfolding sm_reachable_def
    by (meson rtranclp.rtrancl_into_rtrancl)
  obtain r where r: "SessionManager_require_ready ''sess-1'' ?m = Inr r"
    by (simp add: demo_simps SessionManager_commit_binding_def SessionManager_transition_def
        transitioned_def SessionManager_get_def SessionManager_require_ready_def)
  from require_ready_bound [OF reach r] r show ?thesis by blast
qed

text \<open>C33: \<open>purge_terminal\<close> removes exactly the \<open>CLOSED\<close> records and those \<open>FAILED\<close> or \<open>LOST\<close> records
  whose retention time has run out, returns exactly their ids, and keeps every other record as it
  is; no index entry is left pointing at a purged session.\<close>

theorem purge_terminal_exact:
  assumes "sm_reachable m" "SessionManager_purge_terminal moment m = (result, m')"
  shows "dict_get (sm_sessions m') sid =
      (case dict_get (sm_sessions m) sid of
         None \<Rightarrow> None
       | Some r \<Rightarrow>
           if s_state r = S_CLOSED \<or> (s_state r = S_FAILED \<or> s_state r = S_LOST)
              \<and> terminal_moment r + sm_error_retention_seconds m \<le> moment
           then None else Some r)
    \<and> (\<exists>removed. result = Inr removed \<and>
         (sid \<in> set removed \<longleftrightarrow>
            dict_get (sm_sessions m) sid \<noteq> None \<and> dict_get (sm_sessions m') sid = None))
    \<and> (\<forall>key x. dict_get (sm_by_client_key m') key = Some x \<longrightarrow> dict_get (sm_sessions m') x \<noteq> None)"
proof -
  have ok: "sm_ok m" by (rule sm_reachable_ok [OF assms(1)])
  let ?removed = "map fst (filter (\<lambda>(sid, r). purgeable moment m r) (sm_sessions m))"
  have m': "m' = foldl purge_one m ?removed" "result = Inr ?removed"
    using assms(2) by (auto simp: SessionManager_purge_terminal_def Let_def)
  have removed: "sid \<in> set ?removed \<longleftrightarrow>
      (\<exists>r. dict_get (sm_sessions m) sid = Some r \<and> purgeable moment m r)"
    using ok by (force simp: dict_get_in sm_ok_def image_iff)
  have get: "dict_get (sm_sessions m') sid =
      (if sid \<in> set ?removed then None else dict_get (sm_sessions m) sid)"
    unfolding m' by (rule purge_list_sessions)
  have "sm_ok m'" using sm_ok_purge [OF ok, of moment] assms(2) by simp
  then have "\<forall>key x. dict_get (sm_by_client_key m') key = Some x \<longrightarrow>
      dict_get (sm_sessions m') x \<noteq> None"
    by (fastforce simp: sm_ok_def index_ok_def)
  moreover have "purgeable moment m r \<longleftrightarrow> s_state r = S_CLOSED \<or>
      (s_state r = S_FAILED \<or> s_state r = S_LOST)
        \<and> terminal_moment r + sm_error_retention_seconds m \<le> moment" for r
    by (auto simp: purgeable_def)
  ultimately show ?thesis
    using m'(2) removed get by (auto split: option.split)
qed

theorem purge_terminal_exact_witness:
  "SessionManager_purge_terminal 50 demo_manager = (Inr [], demo_manager)
   \<and> dict_get (sm_sessions demo_manager) ''sess-1'' \<noteq> None"
proof -
  have p: "SessionManager_purge_terminal 50 demo_manager = (Inr [], demo_manager)"
    by (simp add: demo_simps SessionManager_purge_terminal_def purgeable_def)
  from purge_terminal_exact [OF demo_manager_reachable p, of "''sess-1''"] p
  show ?thesis by (simp add: demo_simps)
qed

text \<open>The lease of a newly created session is always the requested one: the manager's
  \<open>default_lease_seconds\<close> has no influence on any successful create, since a request without a
  positive \<open>lease_seconds\<close> is refused before the default could apply.\<close>

theorem default_lease_unused:
  assumes "SessionManager_create H now fresh explicit request m = (Inr (r, True), m')"
  shows "lease_expiration r = now + req_lease_seconds request \<and> 0 < req_lease_seconds request"
  using assms
  by (auto simp: SessionManager_create_def register_session_def new_session_record_def Let_def
      split: option.splits if_splits)

theorem default_lease_unused_witness:
  "\<exists>r m'. SessionManager_create (\<lambda>p v. p) 10 ''sess-1'' None (demo_request ''k'')
      (SessionManager_init 1 300 300) = (Inr (r, True), m') \<and> lease_expiration r = 70"
proof -
  obtain r m' where c: "SessionManager_create (\<lambda>p v. p) 10 ''sess-1'' None (demo_request ''k'')
      (SessionManager_init 1 300 300) = (Inr (r, True), m')"
    by (simp add: demo_simps)
  from default_lease_unused [OF c] c show ?thesis by (auto simp: demo_request_def)
qed

end
