(* ===== verification/Operation_Registry.thy ===== *)
theory Operation_Registry
  imports Api
begin

text \<open>
  \<^verbatim>\<open>rollout_runtime/gateway/operation_registry.py\<close>: the \<open>request_id\<close> idempotency table with its
  operation lifecycle, cancellation registration and short-lived result cache. State, operations,
  the well-formedness invariant, the steps of the registry and the properties that make a retried
  request effectively-once within the process lifetime.
\<close>

section \<open>State\<close>

record OperationRecord =
  op_request_id :: string
  op_session_id :: "string option"
  op_operation :: EnvOperation
  op_digest :: string
  op_state :: OperationState
  op_created_at :: real
  op_updated_at :: real
  op_value :: py
  op_error :: "RuntimeErrorInfo option"
  op_side_effect_applied :: bool
  op_cancel_requested :: bool
  op_worker_rank :: "int option"
  op_terminal_at :: "real option"

record OperationStatus =
  ost_request_id :: string
  ost_session_id :: "string option"
  ost_operation :: EnvOperation
  ost_state :: OperationState
  ost_created_at :: real
  ost_updated_at :: real
  ost_side_effect_applied :: bool
  ost_error :: "RuntimeErrorInfo option"

record CancelOutcome =
  co_request_id :: string
  co_state :: OperationState
  co_side_effect_applied :: bool
  co_message :: message

record OperationRegistry =
  or_ttl :: real
  or_records :: "(string, OperationRecord) dict"

type_synonym 'a registry_op = "(OperationRegistry, exn, 'a) sem"

fun ALLOWED_OPERATION_TRANSITIONS :: "OperationState \<Rightarrow> OperationState list" where
  "ALLOWED_OPERATION_TRANSITIONS O_ACCEPTED =
     [O_QUEUED, O_RUNNING, O_SUCCEEDED, O_FAILED, O_CANCELLED, O_OUTCOME_UNKNOWN]"
| "ALLOWED_OPERATION_TRANSITIONS O_QUEUED =
     [O_RUNNING, O_SUCCEEDED, O_FAILED, O_CANCELLED, O_OUTCOME_UNKNOWN]"
| "ALLOWED_OPERATION_TRANSITIONS O_RUNNING =
     [O_SUCCEEDED, O_FAILED, O_CANCELLED, O_OUTCOME_UNKNOWN]"
| "ALLOWED_OPERATION_TRANSITIONS O_SUCCEEDED = []"
| "ALLOWED_OPERATION_TRANSITIONS O_FAILED = []"
| "ALLOWED_OPERATION_TRANSITIONS O_CANCELLED = []"
| "ALLOWED_OPERATION_TRANSITIONS O_OUTCOME_UNKNOWN = []"

definition OperationRegistry_init :: "real \<Rightarrow> OperationRegistry" where
  "OperationRegistry_init ttl = \<lparr>or_ttl = ttl, or_records = []\<rparr>"

definition REQUEST_DIGEST_DOMAIN :: string where
  "REQUEST_DIGEST_DOMAIN = ''rollout_runtime/request/v1''"

definition request_digest :: "digest_fn \<Rightarrow> EnvOperation \<Rightarrow> string option \<Rightarrow> py \<Rightarrow> string" where
  "request_digest H operation sid payload =
     H REQUEST_DIGEST_DOMAIN
       (PyDict [(''operation'', PyStr (EnvOperation_name operation)),
                (''session_id'', (case sid of None \<Rightarrow> PyNone | Some s \<Rightarrow> PyStr s)),
                (''payload'', payload)])"

section \<open>Queries\<close>

definition is_terminal :: "OperationRecord \<Rightarrow> bool" where
  "is_terminal r \<longleftrightarrow> op_state r \<in> set TERMINAL_OPERATION_STATES"

definition OperationRecord_status :: "OperationRecord \<Rightarrow> OperationStatus" where
  "OperationRecord_status r =
     \<lparr>ost_request_id = op_request_id r, ost_session_id = op_session_id r,
      ost_operation = op_operation r, ost_state = op_state r, ost_created_at = op_created_at r,
      ost_updated_at = op_updated_at r, ost_side_effect_applied = op_side_effect_applied r,
      ost_error = op_error r\<rparr>"

definition OperationRegistry_find :: "OperationRegistry \<Rightarrow> string \<Rightarrow> OperationRecord option" where
  "OperationRegistry_find m rid = dict_get (or_records m) rid"

definition OperationRegistry_get :: "string \<Rightarrow> OperationRegistry \<Rightarrow> exn + OperationRecord" where
  "OperationRegistry_get rid m =
     (case dict_get (or_records m) rid of
        None \<Rightarrow> Inl (RuntimeApiError (make_error E_INVALID_ARGUMENT
                  [Text ''unknown request_id: '', Text rid] [(''request_id'', PyStr rid)]))
      | Some r \<Rightarrow> Inr r)"

definition OperationRegistry_status :: "string \<Rightarrow> OperationRegistry \<Rightarrow> exn + OperationStatus" where
  "OperationRegistry_status rid m = map_sum id OperationRecord_status (OperationRegistry_get rid m)"

section \<open>Registration\<close>

definition put_operation :: "OperationRecord \<Rightarrow> OperationRegistry \<Rightarrow> OperationRegistry" where
  "put_operation r m = m\<lparr>or_records := dict_set (or_records m) (op_request_id r) r\<rparr>"

definition new_operation_record ::
  "real \<Rightarrow> string \<Rightarrow> string option \<Rightarrow> EnvOperation \<Rightarrow> string \<Rightarrow> OperationRecord" where
  "new_operation_record now rid sid operation fingerprint =
     \<lparr>op_request_id = rid, op_session_id = sid, op_operation = operation,
      op_digest = fingerprint, op_state = O_ACCEPTED, op_created_at = now, op_updated_at = now,
      op_value = PyNone, op_error = None, op_side_effect_applied = False,
      op_cancel_requested = False, op_worker_rank = None, op_terminal_at = None\<rparr>"

definition conflict_error :: "string \<Rightarrow> OperationRecord \<Rightarrow> RuntimeErrorInfo" where
  "conflict_error rid existing =
     make_error E_IDEMPOTENCY_CONFLICT
       [Text ''request_id '', Text rid, Text '' was already used for a different request'']
       [(''request_id'', PyStr rid),
        (''recorded_operation'', PyStr (EnvOperation_name (op_operation existing))),
        (''recorded_session_id'',
           (case op_session_id existing of None \<Rightarrow> PyNone | Some s \<Rightarrow> PyStr s))]"

definition OperationRegistry_begin ::
  "digest_fn \<Rightarrow> real \<Rightarrow> string \<Rightarrow> string option \<Rightarrow> EnvOperation \<Rightarrow> py \<Rightarrow> string option
     \<Rightarrow> (OperationRecord \<times> bool) registry_op" where
  "OperationRegistry_begin H now rid sid operation payload digest m =
     (let fingerprint = (case digest of
            None \<Rightarrow> request_digest H operation sid payload
          | Some d \<Rightarrow> if d = [] then request_digest H operation sid payload else d)
      in case dict_get (or_records m) rid of
           Some existing \<Rightarrow>
             if op_digest existing \<noteq> fingerprint
             then (Inl (RuntimeApiError (conflict_error rid existing)), m)
             else (Inr (existing, False), m)
         | None \<Rightarrow>
             (let record = new_operation_record now rid sid operation fingerprint
              in (Inr (record, True), put_operation record m)))"

section \<open>Transitions\<close>

definition op_transitioned :: "real \<Rightarrow> OperationState \<Rightarrow> OperationRecord \<Rightarrow> OperationRecord" where
  "op_transitioned now to_state record =
     (let r = record\<lparr>op_state := to_state, op_updated_at := now\<rparr>
      in if is_terminal r then r\<lparr>op_terminal_at := Some (op_updated_at r)\<rparr> else r)"

text \<open>\<open>_transition\<close> followed by the writes that the calling method makes to the returned record.\<close>

definition OperationRegistry_transition ::
  "real \<Rightarrow> string \<Rightarrow> OperationState \<Rightarrow> (OperationRecord \<Rightarrow> OperationRecord)
     \<Rightarrow> OperationRecord registry_op" where
  "OperationRegistry_transition now rid to_state update m =
     (case OperationRegistry_get rid m of
        Inl e \<Rightarrow> (Inl e, m)
      | Inr record \<Rightarrow>
          if to_state \<notin> set (ALLOWED_OPERATION_TRANSITIONS (op_state record))
          then (Inl (InvalidTransition rid (OperationState_name (op_state record))
                       (OperationState_name to_state)), m)
          else (let r = update (op_transitioned now to_state record)
                in (Inr r, put_operation r m)))"

definition OperationRegistry_mark_queued :: "real \<Rightarrow> string \<Rightarrow> OperationRecord registry_op" where
  "OperationRegistry_mark_queued now rid = OperationRegistry_transition now rid O_QUEUED id"

definition OperationRegistry_mark_running ::
  "real \<Rightarrow> string \<Rightarrow> int option \<Rightarrow> OperationRecord registry_op" where
  "OperationRegistry_mark_running now rid rank =
     OperationRegistry_transition now rid O_RUNNING
       (\<lambda>r. case rank of None \<Rightarrow> r | Some k \<Rightarrow> r\<lparr>op_worker_rank := Some k\<rparr>)"

definition OperationRegistry_succeed ::
  "real \<Rightarrow> string \<Rightarrow> py \<Rightarrow> bool \<Rightarrow> OperationRecord registry_op" where
  "OperationRegistry_succeed now rid v side_effect_applied =
     OperationRegistry_transition now rid O_SUCCEEDED
       (\<lambda>r. r\<lparr>op_value := v, op_side_effect_applied := side_effect_applied\<rparr>)"

definition OperationRegistry_fail ::
  "real \<Rightarrow> string \<Rightarrow> RuntimeErrorInfo \<Rightarrow> bool option \<Rightarrow> OperationRecord registry_op" where
  "OperationRegistry_fail now rid error side_effect_applied =
     OperationRegistry_transition now rid O_FAILED
       (\<lambda>r. r\<lparr>op_error := Some error,
            op_side_effect_applied :=
              (case side_effect_applied of
                 None \<Rightarrow> err_side_effect_applied error | Some b \<Rightarrow> b)\<rparr>)"

definition OperationRegistry_cancel ::
  "real \<Rightarrow> string \<Rightarrow> bool \<Rightarrow> message \<Rightarrow> OperationRecord registry_op" where
  "OperationRegistry_cancel now rid side_effect_applied text =
     OperationRegistry_transition now rid O_CANCELLED
       (\<lambda>r. r\<lparr>op_error := Some (make_error_full E_CANCELLED text None side_effect_applied []),
            op_side_effect_applied := side_effect_applied\<rparr>)"

definition OperationRegistry_mark_outcome_unknown ::
  "real \<Rightarrow> string \<Rightarrow> message \<Rightarrow> OperationRecord registry_op" where
  "OperationRegistry_mark_outcome_unknown now rid text =
     OperationRegistry_transition now rid O_OUTCOME_UNKNOWN
       (\<lambda>r. r\<lparr>op_error := Some (make_error E_WORKER_LOST text [])\<rparr>)"

section \<open>Cancellation and purging\<close>

definition OperationRegistry_request_cancel :: "real \<Rightarrow> string \<Rightarrow> CancelOutcome registry_op" where
  "OperationRegistry_request_cancel now rid m =
     (case OperationRegistry_get rid m of
        Inl e \<Rightarrow> (Inl e, m)
      | Inr record \<Rightarrow>
          if is_terminal record
          then (Inr \<lparr>co_request_id = rid, co_state = op_state record,
                     co_side_effect_applied = op_side_effect_applied record,
                     co_message = [Text ''operation already finished'']\<rparr>, m)
          else
            (let record = record\<lparr>op_cancel_requested := True\<rparr>; m = put_operation record m in
             if op_state record \<in> set [O_ACCEPTED, O_QUEUED]
             then
               (case OperationRegistry_cancel now rid False [Text ''cancelled before dispatch''] m of
                  (Inl e, m') \<Rightarrow> (Inl e, m')
                | (Inr r, m') \<Rightarrow>
                    (Inr \<lparr>co_request_id = rid, co_state = O_CANCELLED,
                          co_side_effect_applied = False,
                          co_message = [Text ''cancelled before dispatch'']\<rparr>, m'))
             else
               (Inr \<lparr>co_request_id = rid, co_state = op_state record,
                     co_side_effect_applied = op_side_effect_applied record,
                     co_message = [Text ''cancel forwarded to env worker (best effort)'']\<rparr>, m)))"

definition op_terminal_moment :: "OperationRecord \<Rightarrow> real" where
  "op_terminal_moment r =
     (case op_terminal_at r of
        None \<Rightarrow> op_updated_at r | Some t \<Rightarrow> if t = 0 then op_updated_at r else t)"

definition op_expired :: "real \<Rightarrow> real \<Rightarrow> OperationRecord \<Rightarrow> bool" where
  "op_expired moment ttl r \<longleftrightarrow> is_terminal r \<and> moment - op_terminal_moment r \<ge> ttl"

definition OperationRegistry_purge :: "real \<Rightarrow> (string list) registry_op" where
  "OperationRegistry_purge moment m =
     (let removed = map fst (filter (\<lambda>(rid, r). op_expired moment (or_ttl m) r) (or_records m))
      in (Inr removed, m\<lparr>or_records := foldl dict_pop (or_records m) removed\<rparr>))"

section \<open>The invariant and the steps\<close>

definition failure_states :: "OperationState set" where
  "failure_states = {O_FAILED, O_CANCELLED, O_OUTCOME_UNKNOWN}"

definition op_record_ok :: "OperationRecord \<Rightarrow> bool" where
  "op_record_ok r \<longleftrightarrow>
     (op_terminal_at r \<noteq> None \<longleftrightarrow> is_terminal r)
     \<and> (op_state r \<noteq> O_SUCCEEDED \<longrightarrow> op_value r = PyNone)
     \<and> (op_error r \<noteq> None \<longleftrightarrow> op_state r \<in> failure_states)
     \<and> (op_state r = O_CANCELLED \<longrightarrow> (\<forall>e. op_error r = Some e \<longrightarrow> err_code e = E_CANCELLED))
     \<and> (op_state r = O_OUTCOME_UNKNOWN \<longrightarrow>
          (\<forall>e. op_error r = Some e \<longrightarrow> err_code e = E_WORKER_LOST \<and> \<not> err_retryable e))"

definition or_ok :: "OperationRegistry \<Rightarrow> bool" where
  "or_ok m \<longleftrightarrow> dict_ok (or_records m) \<and>
     (\<forall>rid r. dict_get (or_records m) rid = Some r \<longrightarrow> op_request_id r = rid \<and> op_record_ok r)"

inductive or_step :: "OperationRegistry \<Rightarrow> OperationRegistry \<Rightarrow> bool" where
  begin_op: "or_step m (snd (OperationRegistry_begin H now rid sid operation payload digest m))"
| mark_queued: "or_step m (snd (OperationRegistry_mark_queued now rid m))"
| mark_running: "or_step m (snd (OperationRegistry_mark_running now rid rank m))"
| succeed: "or_step m (snd (OperationRegistry_succeed now rid v se m))"
| fail: "or_step m (snd (OperationRegistry_fail now rid e seo m))"
| cancel: "or_step m (snd (OperationRegistry_cancel now rid se text m))"
| mark_outcome_unknown: "or_step m (snd (OperationRegistry_mark_outcome_unknown now rid text m))"
| request_cancel: "or_step m (snd (OperationRegistry_request_cancel now rid m))"
| purge: "or_step m (snd (OperationRegistry_purge moment m))"

definition or_reachable :: "OperationRegistry \<Rightarrow> bool" where
  "or_reachable m \<longleftrightarrow> (\<exists>ttl. or_step\<^sup>*\<^sup>* (OperationRegistry_init ttl) m)"

fun operation_rank :: "OperationState \<Rightarrow> nat" where
  "operation_rank O_ACCEPTED = 0"
| "operation_rank O_QUEUED = 1"
| "operation_rank O_RUNNING = 2"
| "operation_rank _ = 3"

section \<open>Lemmas\<close>

interpretation operation_lifecycle: lifecycle ALLOWED_OPERATION_TRANSITIONS operation_rank 3
proof unfold_locales
  show "t \<in> set (ALLOWED_OPERATION_TRANSITIONS s) \<Longrightarrow> operation_rank s < operation_rank t" for s t
    by (cases s) auto
  show "operation_rank s \<le> 3" for s by (cases s) auto
qed

lemma is_terminal_iff: "is_terminal r \<longleftrightarrow> ALLOWED_OPERATION_TRANSITIONS (op_state r) = []"
  by (cases "op_state r") (auto simp: is_terminal_def TERMINAL_OPERATION_STATES_def)

lemma is_terminal_states:
  "is_terminal r \<longleftrightarrow> op_state r \<in> {O_SUCCEEDED, O_FAILED, O_CANCELLED, O_OUTCOME_UNKNOWN}"
  by (simp add: is_terminal_def TERMINAL_OPERATION_STATES_def)

lemma get_operation_Inr [simp]:
  "OperationRegistry_get rid m = Inr r \<longleftrightarrow> dict_get (or_records m) rid = Some r"
  by (simp add: OperationRegistry_get_def split: option.split)

lemma get_operation_Some [simp]:
  "dict_get (or_records m) rid = Some r \<Longrightarrow> OperationRegistry_get rid m = Inr r"
  by simp

lemma or_okD:
  assumes "or_ok m" "dict_get (or_records m) rid = Some r"
  shows "op_request_id r = rid" "op_record_ok r"
  using assms by (auto simp: or_ok_def)

lemma put_operation_records [simp]:
  "or_records (put_operation r m) = dict_set (or_records m) (op_request_id r) r"
  "or_ttl (put_operation r m) = or_ttl m"
  by (simp_all add: put_operation_def)

lemma or_ok_put: "or_ok m \<Longrightarrow> op_record_ok r \<Longrightarrow> or_ok (put_operation r m)"
  by (auto simp: or_ok_def)

lemma op_transitioned_fields [simp]:
  "op_request_id (op_transitioned now t r) = op_request_id r"
  "op_state (op_transitioned now t r) = t"
  "op_error (op_transitioned now t r) = op_error r"
  "op_value (op_transitioned now t r) = op_value r"
  by (simp_all add: op_transitioned_def Let_def)

lemma op_transitioned_terminal_at:
  "op_terminal_at (op_transitioned now t r) =
     (if t \<in> set TERMINAL_OPERATION_STATES then Some now else op_terminal_at r)"
  by (simp add: op_transitioned_def Let_def is_terminal_def)

text \<open>The common shape of the methods built on \<open>_transition\<close>: the update keeps identity and state
  and installs an error exactly when the target is a failure state.\<close>

definition lawful_update :: "OperationState \<Rightarrow> (OperationRecord \<Rightarrow> OperationRecord) \<Rightarrow> bool" where
  "lawful_update t u \<longleftrightarrow>
     (\<forall>r. op_request_id (u r) = op_request_id r \<and> op_state (u r) = op_state r
        \<and> op_terminal_at (u r) = op_terminal_at r
        \<and> (t \<noteq> O_SUCCEEDED \<longrightarrow> op_value (u r) = op_value r)
        \<and> (t \<notin> failure_states \<longrightarrow> op_error (u r) = op_error r)
        \<and> (t \<in> failure_states \<longrightarrow> op_error (u r) \<noteq> None)
        \<and> (t = O_CANCELLED \<longrightarrow> (\<forall>e. op_error (u r) = Some e \<longrightarrow> err_code e = E_CANCELLED))
        \<and> (t = O_OUTCOME_UNKNOWN \<longrightarrow>
             (\<forall>e. op_error (u r) = Some e \<longrightarrow> err_code e = E_WORKER_LOST \<and> \<not> err_retryable e)))"

lemma op_record_ok_transition:
  assumes ok: "op_record_ok r" and t: "t \<in> set (ALLOWED_OPERATION_TRANSITIONS (op_state r))"
    and u: "lawful_update t u"
  shows "op_record_ok (u (op_transitioned now t r))"
proof -
  have nonterm: "\<not> is_terminal r" using t by (auto simp: is_terminal_iff)
  then have old: "op_terminal_at r = None" "op_error r = None" "op_value r = PyNone"
    using ok by (auto simp: op_record_ok_def is_terminal_states failure_states_def)
  let ?r = "u (op_transitioned now t r)"
  have st: "op_state ?r = t" "is_terminal ?r \<longleftrightarrow> t \<in> set TERMINAL_OPERATION_STATES"
    using u by (simp_all add: lawful_update_def is_terminal_def)
  have "op_terminal_at ?r \<noteq> None \<longleftrightarrow> is_terminal ?r"
    using u old by (simp add: st lawful_update_def op_transitioned_terminal_at)
  moreover have "op_error ?r \<noteq> None \<longleftrightarrow> t \<in> failure_states"
    using u old by (cases "t \<in> failure_states") (simp_all add: lawful_update_def)
  moreover have "t \<noteq> O_SUCCEEDED \<Longrightarrow> op_value ?r = PyNone"
    using u old by (simp add: lawful_update_def)
  ultimately show ?thesis
    using u by (simp add: op_record_ok_def st lawful_update_def)
qed

lemma or_ok_transition:
  assumes ok: "or_ok m" and u: "lawful_update t u"
  shows "or_ok (snd (OperationRegistry_transition now rid t u m))"
proof (cases "dict_get (or_records m) rid")
  case None
  then show ?thesis using ok by (simp add: OperationRegistry_transition_def OperationRegistry_get_def)
next
  case (Some r)
  then have "t \<in> set (ALLOWED_OPERATION_TRANSITIONS (op_state r)) \<Longrightarrow>
      or_ok (put_operation (u (op_transitioned now t r)) m)"
    using op_record_ok_transition [OF or_okD(2) [OF ok Some] _ u] by (intro or_ok_put [OF ok])
  with Some ok show ?thesis by (simp add: OperationRegistry_transition_def Let_def)
qed

lemma transition_other:
  assumes "or_ok m" "lawful_update t u"
    and "x \<noteq> rid \<or> (\<exists>r. dict_get (or_records m) x = Some r \<and> is_terminal r)"
  shows "dict_get (or_records (snd (OperationRegistry_transition now rid t u m))) x =
    dict_get (or_records m) x"
proof (cases "dict_get (or_records m) rid")
  case None
  then show ?thesis by (simp add: OperationRegistry_transition_def OperationRegistry_get_def)
next
  case (Some r)
  show ?thesis
  proof (cases "t \<in> set (ALLOWED_OPERATION_TRANSITIONS (op_state r))")
    case False
    with Some show ?thesis by (simp add: OperationRegistry_transition_def)
  next
    case True
    then have "x \<noteq> rid" using assms(3) Some by (auto simp: is_terminal_iff)
    moreover have "op_request_id (u (op_transitioned now t r)) = rid"
      using assms(2) or_okD(1) [OF assms(1) Some] by (simp add: lawful_update_def)
    ultimately show ?thesis using Some by (simp add: OperationRegistry_transition_def Let_def)
  qed
qed

lemma lawful_updates:
  "lawful_update O_QUEUED id"
  "lawful_update O_RUNNING (\<lambda>r. case rank of None \<Rightarrow> r | Some k \<Rightarrow> r\<lparr>op_worker_rank := Some k\<rparr>)"
  "lawful_update O_SUCCEEDED (\<lambda>r. r\<lparr>op_value := v, op_side_effect_applied := se\<rparr>)"
  "lawful_update O_FAILED (\<lambda>r. r\<lparr>op_error := Some e, op_side_effect_applied := se\<rparr>)"
  "lawful_update O_CANCELLED (\<lambda>r. r\<lparr>op_error := Some (make_error_full E_CANCELLED text None se []),
     op_side_effect_applied := se\<rparr>)"
  "lawful_update O_OUTCOME_UNKNOWN (\<lambda>r. r\<lparr>op_error := Some (make_error E_WORKER_LOST text [])\<rparr>)"
  by (auto simp: lawful_update_def failure_states_def make_error_def make_error_full_def
      RETRYABLE_ERROR_CODES_def split: option.split)

lemmas transition_ops = OperationRegistry_mark_queued_def OperationRegistry_mark_running_def
  OperationRegistry_succeed_def OperationRegistry_fail_def OperationRegistry_cancel_def
  OperationRegistry_mark_outcome_unknown_def

lemma op_record_ok_cancel_requested [simp]:
  "op_record_ok (r\<lparr>op_cancel_requested := b\<rparr>) = op_record_ok r"
  by (simp add: op_record_ok_def is_terminal_def)

lemma cancel_snd:
  "snd (case OperationRegistry_cancel now rid se text m of
     (Inl e, m') \<Rightarrow> (Inl e, m') | (Inr r, m') \<Rightarrow> (Inr (f r), m')) =
   snd (OperationRegistry_cancel now rid se text m)"
  by (simp split: prod.split sum.split)

lemma or_ok_request_cancel:
  assumes ok: "or_ok m"
  shows "or_ok (snd (OperationRegistry_request_cancel now rid m))"
proof (cases "dict_get (or_records m) rid")
  case None
  with ok show ?thesis
    by (simp add: OperationRegistry_request_cancel_def OperationRegistry_get_def)
next
  case (Some r)
  let ?m = "put_operation (r\<lparr>op_cancel_requested := True\<rparr>) m"
  have m: "or_ok ?m" using ok or_okD(2) [OF ok Some] by (intro or_ok_put) simp_all
  then have "or_ok (snd (OperationRegistry_cancel now rid False msg ?m))" for msg
    unfolding transition_ops by (rule or_ok_transition) (rule lawful_updates)
  with Some ok m show ?thesis
    by (simp add: OperationRegistry_request_cancel_def Let_def cancel_snd)
qed

lemma pop_list_get:
  "dict_get (foldl dict_pop d ks) k = (if k \<in> set ks then None else dict_get d k)"
  by (rule alist_dict.drop_list_get)

lemma or_ok_purge: "or_ok m \<Longrightarrow> or_ok (snd (OperationRegistry_purge moment m))"
  by (simp add: OperationRegistry_purge_def Let_def or_ok_def pop_list_get
      alist_dict.wf_drop_list)

lemma or_ok_begin:
  "or_ok m \<Longrightarrow> or_ok (snd (OperationRegistry_begin H now rid sid operation payload digest m))"
  by (auto simp: OperationRegistry_begin_def Let_def new_operation_record_def op_record_ok_def
      is_terminal_states failure_states_def intro!: or_ok_put split: option.split)

lemma or_ok_step: "or_step m m' \<Longrightarrow> or_ok m \<Longrightarrow> or_ok m'"
proof (induction rule: or_step.induct)
  case (fail m now rid e seo)
  then show ?case
    unfolding OperationRegistry_fail_def by (intro or_ok_transition lawful_updates)
qed (auto simp: transition_ops intro!: or_ok_begin or_ok_transition lawful_updates
    or_ok_request_cancel [unfolded transition_ops] or_ok_purge)

lemma or_reachable_ok: "or_reachable m \<Longrightarrow> or_ok m"
proof -
  assume "or_reachable m"
  then obtain ttl where "or_step\<^sup>*\<^sup>* (OperationRegistry_init ttl) m"
    by (auto simp: or_reachable_def)
  then show ?thesis
    by (induction rule: rtranclp_induct)
      (simp_all add: or_ok_step, simp add: or_ok_def OperationRegistry_init_def)
qed

lemma request_cancel_terminal:
  assumes "or_ok m" "dict_get (or_records m) x = Some r" "is_terminal r"
  shows "dict_get (or_records (snd (OperationRegistry_request_cancel now rid m))) x = Some r"
proof (cases "dict_get (or_records m) rid")
  case None
  with assms show ?thesis
    by (simp add: OperationRegistry_request_cancel_def OperationRegistry_get_def)
next
  case (Some y)
  show ?thesis
  proof (cases "is_terminal y")
    case True
    with Some assms show ?thesis by (simp add: OperationRegistry_request_cancel_def)
  next
    case False
    let ?m = "put_operation (y\<lparr>op_cancel_requested := True\<rparr>) m"
    have ok: "or_ok ?m" using or_okD(2) [OF assms(1) Some] by (intro or_ok_put assms(1)) simp
    have x: "dict_get (or_records ?m) x = Some r"
      using assms False Some or_okD(1) [OF assms(1) Some] by auto
    have "dict_get (or_records (snd (OperationRegistry_cancel now rid False msg ?m))) x = Some r"
      for msg
      unfolding transition_ops using x assms(3)
      by (subst transition_other [OF ok lawful_updates(5)]) simp_all
    with Some False x show ?thesis
      by (simp add: OperationRegistry_request_cancel_def Let_def cancel_snd)
  qed
qed

lemma purge_get:
  "dict_ok (or_records m) \<Longrightarrow> dict_get (or_records m) x = Some r \<Longrightarrow>
   dict_get (or_records (snd (OperationRegistry_purge moment m))) x =
     (if op_expired moment (or_ttl m) r then None else Some r)"
proof -
  assume ok: "dict_ok (or_records m)" and x: "dict_get (or_records m) x = Some r"
  then have "x \<in> set (map fst (filter (\<lambda>(rid, r). op_expired moment (or_ttl m) r) (or_records m)))
      \<longleftrightarrow> op_expired moment (or_ttl m) r"
    by (auto simp flip: dict_get_in simp: image_iff)
  with x show ?thesis by (simp add: OperationRegistry_purge_def pop_list_get Let_def)
qed

lemma step_terminal:
  "or_step m m' \<Longrightarrow> or_ok m \<Longrightarrow> dict_get (or_records m) x = Some r \<Longrightarrow> is_terminal r \<Longrightarrow>
   dict_get (or_records m') x = Some r \<or> (\<exists>moment. m' = snd (OperationRegistry_purge moment m))"
proof (induction rule: or_step.induct)
  case (begin_op m H now rid sid operation payload digest)
  then have "dict_get (or_records (snd (OperationRegistry_begin H now rid sid operation payload
      digest m))) x = Some r"
    by (auto simp: OperationRegistry_begin_def Let_def new_operation_record_def split: option.split)
  then show ?case by simp
next
  case (request_cancel m now rid)
  then show ?case by (simp add: request_cancel_terminal)
next
  case (purge m moment)
  then show ?case by blast
qed (simp_all add: transition_ops transition_other lawful_updates)

section \<open>Properties\<close>

text \<open>C4: a finished operation is final. In every reachable registry, no operation of the registry
  other than a purge changes the record of a request that has reached a terminal state (state,
  cached value, cached error and side-effect flag stay as they are). A purge run at a moment removes
  the record if its TTL has elapsed at that very moment, counted from its terminal time, and
  otherwise leaves it exactly as it is.\<close>

theorem terminal_result_immutable:
  assumes "or_reachable m" "dict_get (or_records m) rid = Some r" "is_terminal r"
  shows "(\<forall>m'. or_step m m' \<longrightarrow> dict_get (or_records m') rid = Some r
        \<or> (\<exists>moment. m' = snd (OperationRegistry_purge moment m)))
    \<and> (\<forall>moment. dict_get (or_records (snd (OperationRegistry_purge moment m))) rid =
        (if moment - op_terminal_moment r \<ge> or_ttl m then None else Some r))"
proof -
  have ok: "or_ok m" by (rule or_reachable_ok [OF assms(1)])
  then have "dict_ok (or_records m)" by (simp add: or_ok_def)
  with purge_get [OF this assms(2)] step_terminal [OF _ ok assms(2,3)] assms(3) show ?thesis
    by (simp add: op_expired_def)
qed

definition demo_registry :: OperationRegistry where
  "demo_registry = snd (OperationRegistry_begin (\<lambda>p v. p) 10 ''req-1'' (Some ''sess-1'') Op_RESET
     PyNone None (OperationRegistry_init 300))"

lemma demo_registry_reachable: "or_reachable demo_registry"
proof -
  have "or_step (OperationRegistry_init 300) demo_registry"
    unfolding demo_registry_def by (rule or_step.begin_op)
  then show ?thesis unfolding or_reachable_def by blast
qed

lemmas demo_registry_simps = demo_registry_def OperationRegistry_begin_def
  OperationRegistry_init_def new_operation_record_def put_operation_def request_digest_def
  dict_set_def dict_get_def Let_def

theorem terminal_result_immutable_witness:
  "\<exists>m r. dict_get (or_records m) ''req-1'' = Some r \<and> op_state r = O_SUCCEEDED
     \<and> op_value r = PyInt 7
     \<and> dict_get (or_records (snd (OperationRegistry_fail 12 ''req-1'' (make_error E_INTERNAL [] [])
          None m))) ''req-1'' = Some r
     \<and> dict_get (or_records (snd (OperationRegistry_purge 310 m))) ''req-1'' = Some r
     \<and> dict_get (or_records (snd (OperationRegistry_purge 311 m))) ''req-1'' = None"
proof -
  let ?m = "snd (OperationRegistry_succeed 11 ''req-1'' (PyInt 7) True demo_registry)"
  let ?e = "make_error E_INTERNAL [] []"
  have "or_step demo_registry ?m" by (rule or_step.succeed)
  then have reach: "or_reachable ?m"
    using demo_registry_reachable unfolding or_reachable_def
    by (meson rtranclp.rtrancl_into_rtrancl)
  obtain r where r: "dict_get (or_records ?m) ''req-1'' = Some r" "op_state r = O_SUCCEEDED"
    "op_value r = PyInt 7" "is_terminal r"
    by (simp add: demo_registry_simps OperationRegistry_succeed_def OperationRegistry_transition_def
        OperationRegistry_get_def op_transitioned_def is_terminal_def TERMINAL_OPERATION_STATES_def)
  note final = terminal_result_immutable [OF reach r(1,4)]
  have "snd (OperationRegistry_fail 12 ''req-1'' ?e None ?m) = ?m"
    using r(1,2) by (simp add: OperationRegistry_fail_def OperationRegistry_transition_def)
  moreover have "op_terminal_moment r = 11" "or_ttl ?m = 300"
    using r(1) by (auto simp: demo_registry_simps OperationRegistry_succeed_def
        OperationRegistry_transition_def OperationRegistry_get_def op_transitioned_def
        is_terminal_def TERMINAL_OPERATION_STATES_def op_terminal_moment_def)
  ultimately show ?thesis using final r by (intro exI [of _ ?m] exI [of _ r]) simp
qed

text \<open>A request id is bound to one request. After \<open>begin\<close> returned a record for it, \<open>begin\<close> with
  the same id returns that record unchanged and registers nothing when the request fingerprint is
  the same, and is refused with \<open>IDEMPOTENCY_CONFLICT\<close>, again without any change, when the
  fingerprint differs.\<close>

theorem begin_idempotent:
  assumes "or_reachable m"
    and "OperationRegistry_begin H now rid sid operation payload None m = (Inr (r, created), m')"
  shows "OperationRegistry_begin H now' rid sid' operation' payload' None m' =
      (if request_digest H operation' sid' payload' = request_digest H operation sid payload
       then (Inr (r, False), m') else (Inl (RuntimeApiError (conflict_error rid r)), m'))
    \<and> err_code (conflict_error rid r) = E_IDEMPOTENCY_CONFLICT
    \<and> \<not> err_retryable (conflict_error rid r)"
proof -
  have held: "dict_get (or_records m') rid = Some r"
    "op_digest r = request_digest H operation sid payload"
    using assms(2)
    by (auto simp: OperationRegistry_begin_def Let_def new_operation_record_def
        split: option.splits if_splits)
  then show ?thesis
    by (simp add: OperationRegistry_begin_def conflict_error_def make_error_def
        make_error_full_def RETRYABLE_ERROR_CODES_def)
qed

text \<open>A digest function that tells the two payloads apart stands in for SHA-256.\<close>

theorem begin_idempotent_witness:
  "\<exists>r m' info.
     OperationRegistry_begin (\<lambda>p v. if v = PyDict [(''operation'', PyStr ''RESET''),
         (''session_id'', PyStr ''s''), (''payload'', PyNone)] then ''d1'' else ''d2'')
       10 ''req-1'' (Some ''s'') Op_RESET PyNone None (OperationRegistry_init 300)
       = (Inr (r, True), m')
     \<and> OperationRegistry_begin (\<lambda>p v. if v = PyDict [(''operation'', PyStr ''RESET''),
         (''session_id'', PyStr ''s''), (''payload'', PyNone)] then ''d1'' else ''d2'')
       11 ''req-1'' (Some ''s'') Op_RESET PyNone None m' = (Inr (r, False), m')
     \<and> OperationRegistry_begin (\<lambda>p v. if v = PyDict [(''operation'', PyStr ''RESET''),
         (''session_id'', PyStr ''s''), (''payload'', PyNone)] then ''d1'' else ''d2'')
       11 ''req-1'' (Some ''s'') Op_RESET (PyInt 1) None m' = (Inl (RuntimeApiError info), m')
     \<and> err_code info = E_IDEMPOTENCY_CONFLICT"
proof -
  let ?H = "\<lambda>p v. if v = PyDict [(''operation'', PyStr ''RESET''),
         (''session_id'', PyStr ''s''), (''payload'', PyNone)] then ''d1'' else ''d2''"
  have reach: "or_reachable (OperationRegistry_init 300)" by (auto simp: or_reachable_def)
  obtain r m' where first: "OperationRegistry_begin ?H 10 ''req-1'' (Some ''s'') Op_RESET PyNone None
      (OperationRegistry_init 300) = (Inr (r, True), m')"
    by (simp add: demo_registry_simps)
  note idem = begin_idempotent [OF reach first]
  have "OperationRegistry_begin ?H 11 ''req-1'' (Some ''s'') Op_RESET PyNone None m'
      = (Inr (r, False), m')"
    using idem [of 11 "Some ''s''" Op_RESET PyNone] by simp
  moreover have "\<exists>info. OperationRegistry_begin ?H 11 ''req-1'' (Some ''s'') Op_RESET (PyInt 1) None m'
      = (Inl (RuntimeApiError info), m') \<and> err_code info = E_IDEMPOTENCY_CONFLICT"
    using idem [of 11 "Some ''s''" Op_RESET "PyInt 1"] by (auto simp: request_digest_def)
  ultimately show ?thesis using first by blast
qed

text \<open>What a cancellation request does, by the state the operation is in. A finished operation is
  reported as it is and nothing changes; an operation that was not dispatched becomes \<open>CANCELLED\<close>
  at once, without a side effect; a running one only has its cancellation registered and keeps
  running. No other operation's record is touched.\<close>

theorem request_cancel_outcome:
  assumes "or_reachable m" "dict_get (or_records m) rid = Some r"
  shows "\<exists>outcome m' r'.
    OperationRegistry_request_cancel now rid m = (Inr outcome, m')
    \<and> dict_get (or_records m') rid = Some r'
    \<and> co_state outcome = op_state r'
    \<and> (if is_terminal r then m' = m \<and> co_side_effect_applied outcome = op_side_effect_applied r
       else if op_state r = O_RUNNING then r' = r\<lparr>op_cancel_requested := True\<rparr>
       else op_state r' = O_CANCELLED \<and> \<not> op_side_effect_applied r'
         \<and> \<not> co_side_effect_applied outcome \<and> op_terminal_at r' = Some now)"
proof (cases "is_terminal r")
  case True
  with assms(2) show ?thesis by (auto simp: OperationRegistry_request_cancel_def)
next
  case False
  have id: "op_request_id r = rid" by (rule or_okD(1) [OF or_reachable_ok [OF assms(1)] assms(2)])
  show ?thesis
  proof (cases "op_state r = O_RUNNING")
    case True
    with False assms(2) id show ?thesis
      by (auto simp: OperationRegistry_request_cancel_def Let_def)
  next
    case nr: False
    with False have st: "op_state r = O_ACCEPTED \<or> op_state r = O_QUEUED"
      by (cases "op_state r") (auto simp: is_terminal_states)
    then have "O_CANCELLED \<in> set (ALLOWED_OPERATION_TRANSITIONS (op_state r))" by auto
    with st False nr assms(2) id show ?thesis
      by (simp add: OperationRegistry_request_cancel_def OperationRegistry_cancel_def
          OperationRegistry_transition_def Let_def op_transitioned_terminal_at
          TERMINAL_OPERATION_STATES_def)
  qed
qed

theorem request_cancel_outcome_witness:
  "\<exists>outcome m'. OperationRegistry_request_cancel 20 ''req-1'' demo_registry = (Inr outcome, m')
     \<and> co_state outcome = O_CANCELLED"
proof -
  obtain r where r: "dict_get (or_records demo_registry) ''req-1'' = Some r"
    "op_state r = O_ACCEPTED"
    by (simp add: demo_registry_simps)
  from request_cancel_outcome [OF demo_registry_reachable r(1), of 20] r(2)
  show ?thesis by (auto simp: is_terminal_states)
qed

text \<open>C32: the cached outcome of an operation is consistent in every reachable registry. A value is
  cached only for \<open>SUCCEEDED\<close>, and it is the one \<open>succeed\<close> was given: the call is accepted
  exactly while the operation has not finished, and the record it leaves on file has the value, no
  error, and the side-effect flag of the call. An error is recorded exactly for \<open>FAILED\<close>,
  \<open>CANCELLED\<close> and \<open>OUTCOME_UNKNOWN\<close> (so a replay that tests the error first returns the value
  exactly for successes), a cancelled operation carries \<open>CANCELLED\<close>, and an operation with
  unknown outcome carries a \<open>WORKER_LOST\<close> error that is not retryable.\<close>

theorem operation_outcome_consistent:
  assumes "or_reachable m" "dict_get (or_records m) rid = Some r"
  shows "(op_value r \<noteq> PyNone \<longrightarrow> op_state r = O_SUCCEEDED)
    \<and> (\<forall>now v se r' m'. OperationRegistry_succeed now rid v se m = (Inr r', m') \<longrightarrow>
         dict_get (or_records m') rid = Some r' \<and> op_state r' = O_SUCCEEDED \<and> op_value r' = v
         \<and> op_error r' = None \<and> op_side_effect_applied r' = se)
    \<and> (\<forall>now v se. (\<exists>r' m'. OperationRegistry_succeed now rid v se m = (Inr r', m')) \<longleftrightarrow>
         \<not> is_terminal r)
    \<and> (op_error r = None \<longleftrightarrow> op_state r \<in> {O_ACCEPTED, O_QUEUED, O_RUNNING, O_SUCCEEDED})
    \<and> (op_terminal_at r \<noteq> None \<longleftrightarrow> is_terminal r)
    \<and> (op_state r = O_CANCELLED \<longrightarrow> (\<exists>e. op_error r = Some e \<and> err_code e = E_CANCELLED))
    \<and> (op_state r = O_OUTCOME_UNKNOWN \<longrightarrow>
         (\<exists>e. op_error r = Some e \<and> err_code e = E_WORKER_LOST \<and> \<not> err_retryable e))"
proof -
  have ok: "op_record_ok r" and id: "op_request_id r = rid"
    by (rule or_okD [OF or_reachable_ok [OF assms(1)] assms(2)])+
  have err: "op_error r = None \<longleftrightarrow> op_state r \<notin> failure_states"
    using ok by (auto simp: op_record_ok_def)
  have succeeded: "OperationRegistry_succeed now rid v se m = (Inr r', m') \<Longrightarrow>
      dict_get (or_records m') rid = Some r' \<and> op_state r' = O_SUCCEEDED \<and> op_value r' = v
      \<and> op_error r' = None \<and> op_side_effect_applied r' = se" for now v se r' m'
    using assms(2) id err
    by (cases "op_state r") (auto simp: OperationRegistry_succeed_def
        OperationRegistry_transition_def failure_states_def Let_def)
  have accepted: "(\<exists>r' m'. OperationRegistry_succeed now rid v se m = (Inr r', m')) \<longleftrightarrow>
      \<not> is_terminal r" for now v se
    using assms(2) by (cases "op_state r") (auto simp: OperationRegistry_succeed_def
        OperationRegistry_transition_def is_terminal_states Let_def)
  show ?thesis
    using ok err succeeded accepted
    by (cases "op_state r") (auto simp: op_record_ok_def failure_states_def)
qed

text \<open>The witness follows one operation from acceptance to its cached value.\<close>

theorem operation_outcome_consistent_witness:
  "\<exists>r (m' :: OperationRegistry). dict_get (or_records m') ''req-1'' = Some r \<and> op_error r = None
     \<and> op_state r = O_SUCCEEDED \<and> op_value r = PyInt 7"
proof -
  obtain r where r: "dict_get (or_records demo_registry) ''req-1'' = Some r"
    "op_state r = O_ACCEPTED"
    by (simp add: demo_registry_simps)
  note outcome = operation_outcome_consistent [OF demo_registry_reachable r(1)]
  have "\<not> is_terminal r" using r(2) by (simp add: is_terminal_states)
  with outcome obtain r' m' where
    "OperationRegistry_succeed 11 ''req-1'' (PyInt 7) True demo_registry = (Inr r', m')"
    by blast
  with outcome have "dict_get (or_records m') ''req-1'' = Some r' \<and> op_state r' = O_SUCCEEDED
      \<and> op_value r' = PyInt 7 \<and> op_error r' = None"
    by blast
  then show ?thesis by blast
qed

end
