(* ===== verification/Admission.thy ===== *)
theory Admission
  imports Api
begin

text \<open>
  \<^verbatim>\<open>rollout_runtime/gateway/admission.py\<close>: authentication, session and in-flight quotas, deadlines
  and backpressure. The controller's state is a record of counter dictionaries; the counters obey
  the \<open>quota_ledger\<close> contract of the prelude. The properties are the quota bounds, that a refusal
  takes nothing, and what the global in-flight counter is worth when a session is forgotten while
  its operations still run.
\<close>

section \<open>State\<close>

record AdmissionConfig =
  require_auth :: bool
  tokens :: "(string, string) dict"
  max_sessions_per_application :: int
  max_inflight_operations_per_application :: int
  max_inflight_operations_per_session :: int
  max_total_inflight_operations :: int

record AdmissionController =
  ac_config :: AdmissionConfig
  ac_sessions :: "string counter"
  ac_inflight_app :: "string counter"
  ac_inflight_session :: "string counter"
  ac_total_inflight :: int
  ac_rejected :: "string counter"

record AdmissionSnapshot =
  sessions_per_application :: "string counter"
  inflight_per_application :: "string counter"
  inflight_per_session :: "string counter"
  total_inflight :: int
  rejected :: "string counter"

type_synonym 'a admission_op = "(AdmissionController, exn, 'a) sem"

definition AdmissionController_init :: "AdmissionConfig \<Rightarrow> AdmissionController" where
  "AdmissionController_init config =
     \<lparr>ac_config = config, ac_sessions = [], ac_inflight_app = [], ac_inflight_session = [],
      ac_total_inflight = 0, ac_rejected = []\<rparr>"

definition default_admission_config :: AdmissionConfig where
  "default_admission_config =
     \<lparr>require_auth = False, tokens = [], max_sessions_per_application = 64,
      max_inflight_operations_per_application = 128, max_inflight_operations_per_session = 8,
      max_total_inflight_operations = 512\<rparr>"

section \<open>Operations\<close>

text \<open>\<open>raise self._reject(...)\<close>: count the refusal, then raise it.\<close>

definition AdmissionController_reject ::
  "ErrorCode \<Rightarrow> message \<Rightarrow> (string, py) dict \<Rightarrow> 'a admission_op" where
  "AdmissionController_reject code msg detail a =
     (Inl (RuntimeApiError (make_error code msg detail)),
      a\<lparr>ac_rejected := counter_inc (ac_rejected a) (ErrorCode_name code)\<rparr>)"

definition AdmissionController_authenticate ::
  "string \<Rightarrow> string option \<Rightarrow> unit admission_op" where
  "AdmissionController_authenticate app token a =
     (if app = []
      then AdmissionController_reject E_INVALID_ARGUMENT
             [Text ''application_id must not be empty''] [(''reason'', PyStr ''authentication'')] a
      else if \<not> require_auth (ac_config a) then (Inr (), a)
      else
        (let expected = dict_get (tokens (ac_config a)) app in
         if expected = None \<or> expected = Some [] \<or> token \<noteq> expected
         then AdmissionController_reject E_INVALID_ARGUMENT
                [Text ''authentication failed for application '', Repr app]
                [(''reason'', PyStr ''authentication''), (''application_id'', PyStr app)] a
         else (Inr (), a)))"

definition AdmissionController_admit_session ::
  "string \<Rightarrow> string option \<Rightarrow> unit admission_op" where
  "AdmissionController_admit_session app token =
     sbind (AdmissionController_authenticate app token) (\<lambda>_ a.
       let current = count_of (ac_sessions a) app;
           limit = max_sessions_per_application (ac_config a)
       in if current \<ge> limit
          then AdmissionController_reject E_QUOTA_EXCEEDED
                 [Text ''application '', Repr app, Text '' reached its session limit ('',
                  IntF limit, Text '')'']
                 [(''application_id'', PyStr app), (''limit'', PyInt limit),
                  (''current'', PyInt current)] a
          else (Inr (), a\<lparr>ac_sessions := dict_set (ac_sessions a) app (current + 1)\<rparr>))"

definition AdmissionController_release_session ::
  "string \<Rightarrow> AdmissionController \<Rightarrow> AdmissionController" where
  "AdmissionController_release_session app a =
     (let current = count_of (ac_sessions a) app in
      if current \<le> 1 then a\<lparr>ac_sessions := dict_pop (ac_sessions a) app\<rparr>
      else a\<lparr>ac_sessions := dict_set (ac_sessions a) app (current - 1)\<rparr>)"

definition AdmissionController_admit_operation ::
  "real \<Rightarrow> string \<Rightarrow> string \<Rightarrow> real option \<Rightarrow> int \<Rightarrow> int option \<Rightarrow> unit admission_op" where
  "AdmissionController_admit_operation now app sid deadline queue_depth queue_capacity a =
     (let config = ac_config a;
          app_inflight = count_of (ac_inflight_app a) app;
          session_inflight = count_of (ac_inflight_session a) sid
      in
      if (case deadline of None \<Rightarrow> False | Some d \<Rightarrow> d \<le> now)
      then AdmissionController_reject E_DEADLINE_EXCEEDED
             [Text ''deadline already elapsed for session '', Text sid]
             [(''session_id'', PyStr sid), (''deadline'', PyFloat (the deadline))] a
      else if (case queue_capacity of None \<Rightarrow> False | Some c \<Rightarrow> queue_depth \<ge> c)
      then AdmissionController_reject E_QUEUE_FULL
             [Text ''downstream queue is full ('', IntF queue_depth, Text ''/'',
              IntF (the queue_capacity), Text '')'']
             [(''session_id'', PyStr sid), (''queue_depth'', PyInt queue_depth),
              (''queue_capacity'', PyInt (the queue_capacity))] a
      else if ac_total_inflight a \<ge> max_total_inflight_operations config
      then AdmissionController_reject E_QUEUE_FULL
             [Text ''gateway reached its global in-flight limit ('',
              IntF (max_total_inflight_operations config), Text '')'']
             [(''limit'', PyInt (max_total_inflight_operations config))] a
      else if app_inflight \<ge> max_inflight_operations_per_application config
      then AdmissionController_reject E_QUOTA_EXCEEDED
             [Text ''application '', Repr app, Text '' reached its in-flight limit ('',
              IntF (max_inflight_operations_per_application config), Text '')'']
             [(''application_id'', PyStr app),
              (''limit'', PyInt (max_inflight_operations_per_application config)),
              (''current'', PyInt app_inflight)] a
      else if session_inflight \<ge> max_inflight_operations_per_session config
      then AdmissionController_reject E_QUOTA_EXCEEDED
             [Text ''session '', Text sid, Text '' reached its in-flight limit ('',
              IntF (max_inflight_operations_per_session config), Text '')'']
             [(''session_id'', PyStr sid),
              (''limit'', PyInt (max_inflight_operations_per_session config)),
              (''current'', PyInt session_inflight)] a
      else
        (Inr (), a\<lparr>ac_inflight_app := dict_set (ac_inflight_app a) app (app_inflight + 1),
                   ac_inflight_session := dict_set (ac_inflight_session a) sid (session_inflight + 1),
                   ac_total_inflight := ac_total_inflight a + 1\<rparr>))"

definition AdmissionController_complete_operation ::
  "string \<Rightarrow> string \<Rightarrow> AdmissionController \<Rightarrow> AdmissionController" where
  "AdmissionController_complete_operation app sid a =
     (let app_inflight = count_of (ac_inflight_app a) app;
          apps = (if app_inflight \<le> 1 then dict_pop (ac_inflight_app a) app
                  else dict_set (ac_inflight_app a) app (app_inflight - 1));
          session_inflight = count_of (ac_inflight_session a) sid;
          sessions = (if session_inflight \<le> 1 then dict_pop (ac_inflight_session a) sid
                      else dict_set (ac_inflight_session a) sid (session_inflight - 1))
      in a\<lparr>ac_inflight_app := apps, ac_inflight_session := sessions,
           ac_total_inflight := max 0 (ac_total_inflight a - 1)\<rparr>)"

definition AdmissionController_forget_session ::
  "string \<Rightarrow> AdmissionController \<Rightarrow> AdmissionController" where
  "AdmissionController_forget_session sid a =
     (let remaining = count_of (ac_inflight_session a) sid in
      a\<lparr>ac_inflight_session := dict_pop (ac_inflight_session a) sid,
        ac_total_inflight := max 0 (ac_total_inflight a - remaining)\<rparr>)"

definition AdmissionController_snapshot :: "AdmissionController \<Rightarrow> AdmissionSnapshot" where
  "AdmissionController_snapshot a =
     \<lparr>sessions_per_application = ac_sessions a, inflight_per_application = ac_inflight_app a,
      inflight_per_session = ac_inflight_session a, total_inflight = ac_total_inflight a,
      rejected = ac_rejected a\<rparr>"

section \<open>Steps and invariants\<close>

text \<open>The calls a Gateway can make, in any order.\<close>

inductive ac_step :: "AdmissionController \<Rightarrow> AdmissionController \<Rightarrow> bool" where
  admit_session: "ac_step a (snd (AdmissionController_admit_session app token a))"
| release_session: "ac_step a (AdmissionController_release_session app a)"
| admit_operation: "ac_step a (snd (AdmissionController_admit_operation now app sid dl qd qc a))"
| complete_operation: "ac_step a (AdmissionController_complete_operation app sid a)"
| forget_session: "ac_step a (AdmissionController_forget_session sid a)"

definition ac_reachable :: "AdmissionController \<Rightarrow> bool" where
  "ac_reachable a \<longleftrightarrow>
     (\<exists>config. 0 \<le> max_sessions_per_application config
        \<and> 0 \<le> max_inflight_operations_per_application config
        \<and> 0 \<le> max_inflight_operations_per_session config
        \<and> 0 \<le> max_total_inflight_operations config
        \<and> ac_step\<^sup>*\<^sup>* (AdmissionController_init config) a)"

definition quota_within :: "'k counter \<Rightarrow> int \<Rightarrow> bool" where
  "quota_within c limit \<longleftrightarrow> counter_ok c \<and> 0 \<le> limit \<and> (\<forall>k. count_of c k \<le> limit)"

definition ac_ok :: "AdmissionController \<Rightarrow> bool" where
  "ac_ok a \<longleftrightarrow>
     quota_within (ac_sessions a) (max_sessions_per_application (ac_config a))
     \<and> quota_within (ac_inflight_app a) (max_inflight_operations_per_application (ac_config a))
     \<and> quota_within (ac_inflight_session a) (max_inflight_operations_per_session (ac_config a))
     \<and> 0 \<le> ac_total_inflight a
     \<and> ac_total_inflight a \<le> max_total_inflight_operations (ac_config a)"

text \<open>The global counter agrees with the per-session counters.\<close>

definition totals_agree :: "AdmissionController \<Rightarrow> bool" where
  "totals_agree a \<longleftrightarrow> counter_ok (ac_inflight_session a)
     \<and> ac_total_inflight a = count_sum (ac_inflight_session a)"

section \<open>Lemmas\<close>

lemma within_Nil [simp]: "quota_within [] limit \<longleftrightarrow> 0 \<le> limit"
  by (simp add: quota_within_def)

lemma within_inc:
  "quota_within c limit \<Longrightarrow> count_of c k < limit \<Longrightarrow> quota_within (counter_inc c k) limit"
  by (simp add: quota_within_def counter_ok_inc le1_ledger.acquire_bounded)

lemma within_dec: "quota_within c limit \<Longrightarrow> quota_within (counter_dec_le1 c k) limit"
  by (simp add: quota_within_def counter_ok_dec le1_ledger.release_bounded)

lemma within_pop: "quota_within c limit \<Longrightarrow> quota_within (dict_pop c k) limit"
  by (simp add: quota_within_def)

text \<open>The bodies of the methods in terms of the shared ledger operations.\<close>

lemma release_session_eq:
  "AdmissionController_release_session app a =
     a\<lparr>ac_sessions := counter_dec_le1 (ac_sessions a) app\<rparr>"
  by (simp add: AdmissionController_release_session_def counter_dec_le1_def Let_def)

lemma complete_operation_eq:
  "AdmissionController_complete_operation app sid a =
     a\<lparr>ac_inflight_app := counter_dec_le1 (ac_inflight_app a) app,
       ac_inflight_session := counter_dec_le1 (ac_inflight_session a) sid,
       ac_total_inflight := max 0 (ac_total_inflight a - 1)\<rparr>"
  by (simp add: AdmissionController_complete_operation_def counter_dec_le1_def Let_def)

lemma reject_state:
  "snd (AdmissionController_reject code msg detail a) =
     a\<lparr>ac_rejected := counter_inc (ac_rejected a) (ErrorCode_name code)\<rparr>"
  by (simp add: AdmissionController_reject_def)

lemma reject_Inl:
  "AdmissionController_reject code msg detail a \<noteq> (Inr x, b)"
  by (simp add: AdmissionController_reject_def)

text \<open>Every admission either takes its units or is a refusal that takes none.\<close>

lemma admit_session_cases:
  obtains (admitted) "AdmissionController_admit_session app token a =
      (Inr (), a\<lparr>ac_sessions := counter_inc (ac_sessions a) app\<rparr>)"
      "count_of (ac_sessions a) app < max_sessions_per_application (ac_config a)"
  | (refused) info code where "AdmissionController_admit_session app token a =
      (Inl (RuntimeApiError info), a\<lparr>ac_rejected := counter_inc (ac_rejected a) (ErrorCode_name code)\<rparr>)"
      "err_code info = code" "code \<in> {E_INVALID_ARGUMENT, E_QUOTA_EXCEEDED}"
proof (cases "AdmissionController_authenticate app token a")
  case (Pair res a')
  consider "res = Inr ()" "a' = a"
    | info where "res = Inl (RuntimeApiError info)" "err_code info = E_INVALID_ARGUMENT"
      "a' = a\<lparr>ac_rejected := counter_inc (ac_rejected a) (ErrorCode_name E_INVALID_ARGUMENT)\<rparr>"
    using Pair
    by (auto simp: AdmissionController_authenticate_def AdmissionController_reject_def Let_def
        split: if_splits)
  then show ?thesis
  proof cases
    case 1
    then show ?thesis
      using Pair that
      by (cases "count_of (ac_sessions a) app \<ge> max_sessions_per_application (ac_config a)")
        (auto simp: AdmissionController_admit_session_def sbind_def AdmissionController_reject_def
          counter_inc_def Let_def)
  next
    case 2
    then show ?thesis
      using Pair that(2) [of _ E_INVALID_ARGUMENT]
      by (auto simp: AdmissionController_admit_session_def sbind_def)
  qed
qed

text \<open>What \<open>admit_operation\<close> promises, gate by gate: the error code of the first gate that is closed.\<close>

definition operation_gate ::
  "real \<Rightarrow> string \<Rightarrow> string \<Rightarrow> real option \<Rightarrow> int \<Rightarrow> int option \<Rightarrow> AdmissionController \<Rightarrow> ErrorCode option" where
  "operation_gate now app sid dl qd qc a =
     (if (case dl of None \<Rightarrow> False | Some d \<Rightarrow> d \<le> now) then Some E_DEADLINE_EXCEEDED
      else if (case qc of None \<Rightarrow> False | Some c \<Rightarrow> qd \<ge> c) then Some E_QUEUE_FULL
      else if ac_total_inflight a \<ge> max_total_inflight_operations (ac_config a) then Some E_QUEUE_FULL
      else if count_of (ac_inflight_app a) app \<ge> max_inflight_operations_per_application (ac_config a)
      then Some E_QUOTA_EXCEEDED
      else if count_of (ac_inflight_session a) sid \<ge> max_inflight_operations_per_session (ac_config a)
      then Some E_QUOTA_EXCEEDED else None)"

lemma admit_operation_refused:
  "operation_gate now app sid dl qd qc a = Some code \<Longrightarrow>
   \<exists>msg detail. AdmissionController_admit_operation now app sid dl qd qc a =
     AdmissionController_reject code msg detail a"
  unfolding operation_gate_def AdmissionController_admit_operation_def Let_def
  by (simp split: if_split_asm) blast+

lemma admit_operation_admitted:
  "operation_gate now app sid dl qd qc a = None \<Longrightarrow>
   AdmissionController_admit_operation now app sid dl qd qc a =
      (Inr (), a\<lparr>ac_inflight_app := counter_inc (ac_inflight_app a) app,
        ac_inflight_session := counter_inc (ac_inflight_session a) sid,
        ac_total_inflight := ac_total_inflight a + 1\<rparr>)"
  unfolding operation_gate_def AdmissionController_admit_operation_def Let_def counter_inc_def
  by (simp split: if_split_asm)

lemma operation_gate_range:
  "operation_gate now app sid dl qd qc a = Some code \<Longrightarrow>
   code \<in> {E_DEADLINE_EXCEEDED, E_QUEUE_FULL, E_QUOTA_EXCEEDED}"
  by (simp add: operation_gate_def split: if_split_asm)

lemma operation_gate_None:
  "operation_gate now app sid dl qd qc a = None \<longleftrightarrow>
     \<not> (\<exists>d. dl = Some d \<and> d \<le> now) \<and> \<not> (\<exists>c. qc = Some c \<and> c \<le> qd)
     \<and> ac_total_inflight a < max_total_inflight_operations (ac_config a)
     \<and> count_of (ac_inflight_app a) app < max_inflight_operations_per_application (ac_config a)
     \<and> count_of (ac_inflight_session a) sid < max_inflight_operations_per_session (ac_config a)"
  by (cases dl; cases qc) (simp_all add: operation_gate_def not_le)

lemma admit_operation_cases:
  obtains (admitted) "AdmissionController_admit_operation now app sid dl qd qc a =
      (Inr (), a\<lparr>ac_inflight_app := counter_inc (ac_inflight_app a) app,
        ac_inflight_session := counter_inc (ac_inflight_session a) sid,
        ac_total_inflight := ac_total_inflight a + 1\<rparr>)"
      "operation_gate now app sid dl qd qc a = None"
      "count_of (ac_inflight_app a) app < max_inflight_operations_per_application (ac_config a)"
      "count_of (ac_inflight_session a) sid < max_inflight_operations_per_session (ac_config a)"
      "ac_total_inflight a < max_total_inflight_operations (ac_config a)"
  | (refused) info code where "AdmissionController_admit_operation now app sid dl qd qc a =
      (Inl (RuntimeApiError info), a\<lparr>ac_rejected := counter_inc (ac_rejected a) (ErrorCode_name code)\<rparr>)"
      "operation_gate now app sid dl qd qc a = Some code"
      "err_code info = code" "code \<in> {E_DEADLINE_EXCEEDED, E_QUEUE_FULL, E_QUOTA_EXCEEDED}"
      "err_retryable info = (code \<in> set RETRYABLE_ERROR_CODES)"
proof (cases "operation_gate now app sid dl qd qc a")
  case None
  then show ?thesis
    using that(1) [OF admit_operation_admitted] by (auto simp: operation_gate_None)
next
  case (Some code)
  from admit_operation_refused [OF this] obtain msg detail where
    "AdmissionController_admit_operation now app sid dl qd qc a =
       AdmissionController_reject code msg detail a" by blast
  with Some operation_gate_range [OF Some] show ?thesis
    by (intro that(2) [of "make_error code msg detail" code])
      (simp_all add: AdmissionController_reject_def make_error_def make_error_full_def)
qed

lemma ac_ok_step: "ac_step a b \<Longrightarrow> ac_ok a \<Longrightarrow> ac_ok b"
proof (induction rule: ac_step.induct)
  case (admit_session a app token)
  then show ?case
    by (cases rule: admit_session_cases [of app token a]) (auto simp: ac_ok_def within_inc)
next
  case (release_session a app)
  then show ?case by (simp add: release_session_eq ac_ok_def within_dec)
next
  case (admit_operation a now app sid dl qd qc)
  then show ?case
    by (cases rule: admit_operation_cases [of now app sid dl qd qc a])
      (auto simp: ac_ok_def within_inc)
next
  case (complete_operation a app sid)
  then show ?case by (auto simp: complete_operation_eq ac_ok_def within_dec)
next
  case (forget_session a sid)
  moreover have "0 \<le> count_of (ac_inflight_session a) sid"
    using forget_session by (intro count_of_nonneg) (simp add: ac_ok_def quota_within_def)
  ultimately show ?case
    by (auto simp: AdmissionController_forget_session_def Let_def ac_ok_def within_pop)
qed

lemma ac_reachable_ok: "ac_reachable a \<Longrightarrow> ac_ok a"
proof -
  assume "ac_reachable a"
  then obtain config where init: "ac_ok (AdmissionController_init config)"
    and run: "ac_step\<^sup>*\<^sup>* (AdmissionController_init config) a"
    by (auto simp: ac_reachable_def ac_ok_def AdmissionController_init_def)
  from run show ?thesis by (induction rule: rtranclp_induct) (auto intro: init ac_ok_step)
qed

lemma totals_agree_admit:
  "totals_agree a \<Longrightarrow> totals_agree (snd (AdmissionController_admit_operation now app sid dl qd qc a))"
  by (cases rule: admit_operation_cases [of now app sid dl qd qc a])
    (auto simp: totals_agree_def counter_ok_inc count_sum_inc)

lemma totals_agree_forget:
  assumes "totals_agree a"
  shows "totals_agree (AdmissionController_forget_session sid a)"
proof -
  have "counter_ok (ac_inflight_session a)" using assms by (simp add: totals_agree_def)
  moreover from this have "0 \<le> count_sum (ac_inflight_session a) - count_of (ac_inflight_session a) sid"
    using count_sum_ge_count [of "ac_inflight_session a" sid] by simp
  moreover from calculation(1) have "dict_ok (ac_inflight_session a)" by (simp add: counter_ok_def)
  ultimately show ?thesis
    using assms by (simp add: AdmissionController_forget_session_def Let_def totals_agree_def
        count_sum_pop)
qed

lemma totals_agree_complete:
  assumes agree: "totals_agree a" and counted: "0 < count_of (ac_inflight_session a) sid"
  shows "totals_agree (AdmissionController_complete_operation app sid a)"
proof -
  have ok: "counter_ok (ac_inflight_session a)" using agree by (simp add: totals_agree_def)
  have "1 \<le> count_sum (ac_inflight_session a)"
    using count_sum_ge_count [OF ok, of sid] counted by simp
  with ok agree counted show ?thesis
    by (simp add: complete_operation_eq totals_agree_def counter_ok_dec count_sum_dec)
qed

lemma complete_uncounted:
  assumes "counter_ok (ac_inflight_session a)" "count_of (ac_inflight_session a) sid = 0"
  shows "count_sum (ac_inflight_session ((AdmissionController_complete_operation app sid ^^ n) a))
      = count_sum (ac_inflight_session a)
    \<and> ac_total_inflight ((AdmissionController_complete_operation app sid ^^ n) a)
      = (if n = 0 then ac_total_inflight a else max 0 (ac_total_inflight a - int n))
    \<and> counter_ok (ac_inflight_session ((AdmissionController_complete_operation app sid ^^ n) a))
    \<and> count_of (ac_inflight_session ((AdmissionController_complete_operation app sid ^^ n) a)) sid = 0"
proof (induction n)
  case 0
  with assms show ?case by simp
next
  case (Suc n)
  then show ?case
    by (auto simp: complete_operation_eq count_sum_dec counter_ok_dec le1_ledger.count_release)
qed

section \<open>Properties\<close>

definition demo_controller :: AdmissionController where
  "demo_controller =
     snd (AdmissionController_admit_operation 0 ''app'' ''s2'' None 0 None
       (snd (AdmissionController_admit_operation 0 ''app'' ''s1'' None 0 None
         (AdmissionController_init default_admission_config))))"

lemmas demo_controller_simps = demo_controller_def AdmissionController_admit_operation_def
  AdmissionController_init_def default_admission_config_def count_of_def dict_get_or_def
  dict_get_def dict_set_def dict_pop_def Let_def

text \<open>C21: no quota is ever exceeded. Whatever sequence of admissions, completions, releases and
  forgotten sessions the controller has seen, the session count and the in-flight count of every
  application, the in-flight count of every session and the global counter are between zero and
  their configured limits.\<close>

theorem quotas_never_exceeded:
  assumes "ac_reachable a"
  shows "0 \<le> count_of (ac_sessions a) app
    \<and> count_of (ac_sessions a) app \<le> max_sessions_per_application (ac_config a)
    \<and> 0 \<le> count_of (ac_inflight_app a) app
    \<and> count_of (ac_inflight_app a) app \<le> max_inflight_operations_per_application (ac_config a)
    \<and> 0 \<le> count_of (ac_inflight_session a) sid
    \<and> count_of (ac_inflight_session a) sid \<le> max_inflight_operations_per_session (ac_config a)
    \<and> 0 \<le> ac_total_inflight a \<and> ac_total_inflight a \<le> max_total_inflight_operations (ac_config a)"
  using ac_reachable_ok [OF assms] by (simp add: ac_ok_def quota_within_def count_of_nonneg)

theorem quotas_never_exceeded_witness:
  "ac_reachable demo_controller \<and> count_of (ac_inflight_session demo_controller) ''s1'' \<le> 8"
proof -
  have "ac_reachable demo_controller"
    unfolding ac_reachable_def demo_controller_def
    by (rule exI [of _ default_admission_config], intro conjI)
      (simp_all add: default_admission_config_def,
        blast intro: ac_step.admit_operation rtranclp.intros)
  with quotas_never_exceeded [OF this, where sid = "''s1''"] show ?thesis
    by (simp add: demo_controller_simps)
qed

text \<open>A refused operation takes nothing. When \<open>admit_operation\<close> raises, every quota counter is as
  it was, the refusal is counted under its error code, and the error is one a caller may retry; it
  raises exactly when the deadline has passed, the downstream queue is full or a quota is used up.\<close>

theorem refusal_takes_nothing:
  assumes "AdmissionController_admit_operation now app sid deadline depth capacity a = (result, b)"
  shows "(result = Inr ()) =
      (\<not> ((\<exists>d. deadline = Some d \<and> d \<le> now) \<or> (\<exists>c. capacity = Some c \<and> c \<le> depth)
          \<or> max_total_inflight_operations (ac_config a) \<le> ac_total_inflight a
          \<or> max_inflight_operations_per_application (ac_config a) \<le> count_of (ac_inflight_app a) app
          \<or> max_inflight_operations_per_session (ac_config a) \<le> count_of (ac_inflight_session a) sid))
    \<and> (\<forall>e. result = Inl e \<longrightarrow>
         (\<exists>info. e = RuntimeApiError info \<and> err_retryable info
            \<and> b = a\<lparr>ac_rejected := counter_inc (ac_rejected a) (ErrorCode_name (err_code info))\<rparr>))"
proof (cases rule: admit_operation_cases [of now app sid deadline depth capacity a])
  case admitted
  with assms have "result = Inr ()" by simp
  with admitted(2) show ?thesis by (auto simp: operation_gate_None)
next
  case (refused info code)
  with assms have r: "result = Inl (RuntimeApiError info)"
    and b: "b = a\<lparr>ac_rejected := counter_inc (ac_rejected a) (ErrorCode_name (err_code info))\<rparr>"
    by simp_all
  have "operation_gate now app sid deadline depth capacity a \<noteq> None" using refused(2) by simp
  moreover have "err_retryable info"
    using refused(3-5) by (auto simp: RETRYABLE_ERROR_CODES_def)
  ultimately show ?thesis using r b unfolding operation_gate_None by (simp add: not_less)
qed

theorem refusal_takes_nothing_witness:
  "\<exists>info. AdmissionController_admit_operation 5 ''app'' ''s1'' (Some 4) 0 None demo_controller =
     (Inl (RuntimeApiError info),
      demo_controller\<lparr>ac_rejected := counter_inc (ac_rejected demo_controller)
        (ErrorCode_name (err_code info))\<rparr>)"
proof -
  obtain r b where eq: "AdmissionController_admit_operation 5 ''app'' ''s1'' (Some 4) 0 None
      demo_controller = (r, b)" by fastforce
  note * = refusal_takes_nothing [OF eq]
  then have "r \<noteq> Inr ()" by simp
  then obtain e where "r = Inl e" by (cases r) auto
  with * eq show ?thesis by blast
qed

text \<open>The global in-flight counter is exact as long as operations end before their session is
  forgotten: admitting an operation, forgetting a session and completing an operation whose session
  is still counted keep it equal to the sum of the per-session counters.\<close>

theorem total_inflight_exact:
  assumes "totals_agree a"
  shows "totals_agree (snd (AdmissionController_admit_operation now app sid dl qd qc a))
    \<and> totals_agree (AdmissionController_forget_session sid a)
    \<and> (0 < count_of (ac_inflight_session a) sid \<longrightarrow>
         totals_agree (AdmissionController_complete_operation app sid a))"
  using assms by (simp add: totals_agree_admit totals_agree_forget totals_agree_complete)

theorem total_inflight_exact_witness:
  "totals_agree demo_controller
   \<and> totals_agree (AdmissionController_complete_operation ''app'' ''s1'' demo_controller)"
proof -
  have "totals_agree (AdmissionController_init default_admission_config)"
    by (simp add: totals_agree_def AdmissionController_init_def count_sum_def)
  then have agree: "totals_agree demo_controller"
    unfolding demo_controller_def by (intro totals_agree_admit)
  moreover have "0 < count_of (ac_inflight_session demo_controller) ''s1''"
    by (simp add: demo_controller_simps)
  ultimately show ?thesis
    using total_inflight_exact [OF agree, of 0 "''app''" "''s1''" None 0 None] by blast
qed

text \<open>C33: it is not exact otherwise. When a session with \<open>n\<close> operations in flight is forgotten (the
  Gateway does so when it closes the session) and these operations then complete, each of them is
  subtracted from the global counter twice: the counter ends \<open>n\<close> below the number of operations of
  the other sessions that are still in flight, or at zero. The global limit then admits that many
  operations too many.\<close>

theorem forgotten_operations_counted_twice:
  assumes "totals_agree a" "count_of (ac_inflight_session a) sid = int n"
  shows "let b = (AdmissionController_complete_operation app sid ^^ n)
                   (AdmissionController_forget_session sid a)
         in count_sum (ac_inflight_session b) = ac_total_inflight a - int n
          \<and> ac_total_inflight b = max 0 (count_sum (ac_inflight_session b) - int n)"
proof -
  let ?f = "AdmissionController_forget_session sid a"
  have f: "totals_agree ?f" using assms(1) by (rule totals_agree_forget)
  have zero: "count_of (ac_inflight_session ?f) sid = 0"
    by (simp add: AdmissionController_forget_session_def Let_def)
  have ok: "counter_ok (ac_inflight_session a)" "dict_ok (ac_inflight_session a)"
    using assms(1) by (auto simp: totals_agree_def counter_ok_def)
  have sum: "count_sum (ac_inflight_session ?f) = ac_total_inflight a - int n"
    using assms ok by (simp add: AdmissionController_forget_session_def Let_def count_sum_pop
        totals_agree_def)
  have "0 \<le> ac_total_inflight a - int n"
    using count_sum_ge_count [OF ok(1), of sid] assms by (simp add: totals_agree_def)
  with complete_uncounted [OF _ zero, where app = app and n = n] f sum show ?thesis
    by (cases n) (auto simp: totals_agree_def Let_def)
qed

theorem forgotten_operations_counted_twice_witness:
  "\<exists>b. b = AdmissionController_complete_operation ''app'' ''s1''
             (AdmissionController_forget_session ''s1'' demo_controller)
     \<and> count_sum (ac_inflight_session b) = 1 \<and> ac_total_inflight b = 0"
proof -
  have "totals_agree (AdmissionController_init default_admission_config)"
    by (simp add: totals_agree_def AdmissionController_init_def count_sum_def)
  then have agree: "totals_agree demo_controller"
    unfolding demo_controller_def by (intro totals_agree_admit)
  have one: "count_of (ac_inflight_session demo_controller) ''s1'' = int 1"
    and two: "ac_total_inflight demo_controller = 2"
    by (simp_all add: demo_controller_simps)
  from forgotten_operations_counted_twice [OF agree one, of "''app''"] two
  show ?thesis by (simp add: Let_def)
qed

end
