(* ===== verification/Worker_Registry.thy ===== *)
theory Worker_Registry
  imports Api
begin

text \<open>
  \<^verbatim>\<open>rollout_runtime/gateway/worker_registry.py\<close>: the EnvWorker ranks the Gateway knows, their health
  and load, and the choice of a rank for a new session. The registry is a dictionary from rank to
  entry in registration order. The lemmas characterise \<open>select_rank\<close> on every branch and show that
  it balances the load; the balancing argument is made once, over the interface \<open>least_loaded\<close>.
\<close>

section \<open>State\<close>

definition DEFAULT_HEARTBEAT_TIMEOUT_SECONDS :: real where
  "DEFAULT_HEARTBEAT_TIMEOUT_SECONDS = 30"

record WorkerEntry =
  we_info :: EnvWorkerInfo
  we_healthy :: bool
  we_heartbeat_at :: real
  we_active_sessions :: int
  we_can_create_slot :: bool
  we_served_digests :: "string set"

record EnvWorkerRegistry =
  wr_timeout :: real
  wr_entries :: "(int, WorkerEntry) dict"

type_synonym 'a worker_op = "(EnvWorkerRegistry, exn, 'a) sem"

definition WorkerEntry_worker_rank :: "WorkerEntry \<Rightarrow> int" where
  "WorkerEntry_worker_rank e = info_worker_rank (we_info e)"

definition WorkerEntry_free_slots :: "WorkerEntry \<Rightarrow> int" where
  "WorkerEntry_free_slots e = max 0 (info_max_sessions (we_info e) - we_active_sessions e)"

definition EnvWorkerRegistry_init :: "real \<Rightarrow> EnvWorkerRegistry" where
  "EnvWorkerRegistry_init timeout = \<lparr>wr_timeout = timeout, wr_entries = []\<rparr>"

definition EnvWorkerRegistry_len :: "EnvWorkerRegistry \<Rightarrow> int" where
  "EnvWorkerRegistry_len w = int (length (wr_entries w))"

section \<open>Operations\<close>

definition put_entry :: "int \<Rightarrow> WorkerEntry \<Rightarrow> EnvWorkerRegistry \<Rightarrow> EnvWorkerRegistry" where
  "put_entry rank entry w = w\<lparr>wr_entries := dict_set (wr_entries w) rank entry\<rparr>"

definition EnvWorkerRegistry_register ::
  "real \<Rightarrow> EnvWorkerInfo \<Rightarrow> EnvWorkerRegistry \<Rightarrow> EnvWorkerRegistry" where
  "EnvWorkerRegistry_register now info w =
     (let rank = info_worker_rank info;
          entry = (case dict_get (wr_entries w) rank of
              None \<Rightarrow> \<lparr>we_info = info, we_healthy = True, we_heartbeat_at = now,
                       we_active_sessions = 0, we_can_create_slot = True, we_served_digests = {}\<rparr>
            | Some entry \<Rightarrow>
                entry\<lparr>we_info := info, we_healthy := True, we_heartbeat_at := now\<rparr>)
      in put_entry rank
           (entry\<lparr>we_served_digests :=
              we_served_digests entry \<union> set (info_served_env_digests info)\<rparr>) w)"

definition EnvWorkerRegistry_get :: "int \<Rightarrow> EnvWorkerRegistry \<Rightarrow> exn + WorkerEntry" where
  "EnvWorkerRegistry_get rank w =
     (case dict_get (wr_entries w) rank of
        None \<Rightarrow> Inl (RuntimeApiError (make_error E_WORKER_LOST
                 [Text ''env worker rank '', IntF rank, Text '' is not registered'']
                 [(''worker_rank'', PyInt rank)]))
      | Some entry \<Rightarrow> Inr entry)"

definition EnvWorkerRegistry_heartbeat :: "real \<Rightarrow> int \<Rightarrow> real option \<Rightarrow> unit worker_op" where
  "EnvWorkerRegistry_heartbeat now rank beat =
     sbind (asks (EnvWorkerRegistry_get rank)) (\<lambda>entry.
       modify (put_entry rank
         (entry\<lparr>we_heartbeat_at := (case beat of None \<Rightarrow> now | Some t \<Rightarrow> t), we_healthy := True\<rparr>)))"

text \<open>\<open>entry = self._entries.get(rank); if entry is not None: ...\<close>\<close>

definition update_known ::
  "int \<Rightarrow> (WorkerEntry \<Rightarrow> WorkerEntry) \<Rightarrow> EnvWorkerRegistry \<Rightarrow> EnvWorkerRegistry" where
  "update_known rank f w =
     (case dict_get (wr_entries w) rank of None \<Rightarrow> w | Some entry \<Rightarrow> put_entry rank (f entry) w)"

definition EnvWorkerRegistry_mark_unhealthy :: "int \<Rightarrow> EnvWorkerRegistry \<Rightarrow> EnvWorkerRegistry" where
  "EnvWorkerRegistry_mark_unhealthy rank = update_known rank (\<lambda>e. e\<lparr>we_healthy := False\<rparr>)"

definition EnvWorkerRegistry_stale_ranks :: "real \<Rightarrow> EnvWorkerRegistry \<Rightarrow> int list" where
  "EnvWorkerRegistry_stale_ranks moment w =
     [WorkerEntry_worker_rank e. e \<leftarrow> dict_values (wr_entries w),
        we_healthy e \<and> moment - we_heartbeat_at e > wr_timeout w]"

definition EnvWorkerRegistry_capability ::
  "int \<Rightarrow> string \<Rightarrow> EnvWorkerRegistry \<Rightarrow> exn + EnvFamilyCapability option" where
  "EnvWorkerRegistry_capability rank family w =
     (case EnvWorkerRegistry_get rank w of
        Inl e \<Rightarrow> Inl e
      | Inr entry \<Rightarrow> Inr (dict_get (info_capabilities (we_info entry)) family))"

fun first_capability :: "string \<Rightarrow> WorkerEntry list \<Rightarrow> EnvFamilyCapability option" where
  "first_capability family [] = None"
| "first_capability family (e # es) =
     (if we_healthy e \<and> dict_get (info_capabilities (we_info e)) family \<noteq> None
      then dict_get (info_capabilities (we_info e)) family else first_capability family es)"

definition EnvWorkerRegistry_capabilities_for ::
  "string \<Rightarrow> EnvWorkerRegistry \<Rightarrow> EnvFamilyCapability option" where
  "EnvWorkerRegistry_capabilities_for family w =
     first_capability family (dict_values (wr_entries w))"

definition EnvWorkerRegistry_serves :: "WorkerEntry \<Rightarrow> EnvSpecMsg \<Rightarrow> bool" where
  "EnvWorkerRegistry_serves entry spec =
     (case dict_get (info_capabilities (we_info entry)) (env_family spec) of
        None \<Rightarrow> False
      | Some capability \<Rightarrow>
          if needs_accelerator capability \<and> \<not> info_has_accelerator (we_info entry) then False
          else
            (let node_group = dict_get_or (resource_hints spec) ''node_group'' PyNone in
             if py_truthy node_group \<and> info_node_id (we_info entry) \<noteq> []
                \<and> node_group \<noteq> PyStr (info_node_id (we_info entry)) then False
             else True))"

definition available_entries ::
  "EnvSpecMsg \<Rightarrow> int set \<Rightarrow> EnvWorkerRegistry \<Rightarrow> WorkerEntry list" where
  "available_entries spec attempted w =
     filter (\<lambda>e. we_can_create_slot e \<and> WorkerEntry_worker_rank e \<notin> attempted)
       (filter (\<lambda>e. EnvWorkerRegistry_serves e spec)
         (filter we_healthy (dict_values (wr_entries w))))"

definition load_key :: "WorkerEntry \<Rightarrow> int \<times> int" where
  "load_key e = (we_active_sessions e, WorkerEntry_worker_rank e)"

definition EnvWorkerRegistry_select_rank ::
  "EnvSpecMsg \<Rightarrow> int set \<Rightarrow> EnvWorkerRegistry \<Rightarrow> exn + int" where
  "EnvWorkerRegistry_select_rank spec attempted w =
     (let healthy = filter we_healthy (dict_values (wr_entries w));
          capable = filter (\<lambda>e. EnvWorkerRegistry_serves e spec) healthy;
          available = available_entries spec attempted w;
          family = (''env_family'', PyStr (env_family spec))
      in
      if healthy = [] then
        Inl (RuntimeApiError (make_error E_WORKER_LOST
          [Text ''no healthy env worker is registered''] [family]))
      else if capable = [] then
        Inl (RuntimeApiError (make_error E_UNSUPPORTED_ENV_SPEC
          [Text ''no env worker can serve env_family='', Repr (env_family spec)] [family]))
      else if available = [] then
        Inl (RuntimeApiError (make_error E_RESOURCE_EXHAUSTED
          [Text ''no capable env worker can currently create an env slot'']
          [family, (''resource'', PyStr ''gpu_memory''), (''reason'', PyStr ''OOM''),
           (''attempted_workers'', PyList (map PyInt (sorted_list_of_set attempted)))]))
      else Inr (WorkerEntry_worker_rank (hd (sort_key load_key available))))"

definition EnvWorkerRegistry_acquire :: "int \<Rightarrow> string \<Rightarrow> unit worker_op" where
  "EnvWorkerRegistry_acquire rank digest =
     sbind (asks (EnvWorkerRegistry_get rank)) (\<lambda>entry.
       modify (put_entry rank
         (entry\<lparr>we_active_sessions := we_active_sessions entry + 1,
                we_served_digests := insert digest (we_served_digests entry)\<rparr>)))"

definition EnvWorkerRegistry_release ::
  "int \<Rightarrow> bool \<Rightarrow> EnvWorkerRegistry \<Rightarrow> EnvWorkerRegistry" where
  "EnvWorkerRegistry_release rank restore_can_create_slot =
     update_known rank (\<lambda>e.
       e\<lparr>we_active_sessions := max 0 (we_active_sessions e - 1),
         we_can_create_slot := (if restore_can_create_slot then True else we_can_create_slot e)\<rparr>)"

definition EnvWorkerRegistry_mark_cannot_create_slot ::
  "int \<Rightarrow> EnvWorkerRegistry \<Rightarrow> EnvWorkerRegistry" where
  "EnvWorkerRegistry_mark_cannot_create_slot rank =
     update_known rank (\<lambda>e. e\<lparr>we_can_create_slot := False\<rparr>)"

definition EnvWorkerRegistry_mark_can_create_slot ::
  "int \<Rightarrow> EnvWorkerRegistry \<Rightarrow> EnvWorkerRegistry" where
  "EnvWorkerRegistry_mark_can_create_slot rank =
     update_known rank (\<lambda>e. e\<lparr>we_can_create_slot := True\<rparr>)"

section \<open>Invariant\<close>

definition wr_ok :: "EnvWorkerRegistry \<Rightarrow> bool" where
  "wr_ok w \<longleftrightarrow> dict_ok (wr_entries w)
     \<and> (\<forall>rank e. dict_get (wr_entries w) rank = Some e \<longrightarrow>
          WorkerEntry_worker_rank e = rank \<and> 0 \<le> we_active_sessions e)"

text \<open>The number of sessions on a rank; zero on a rank that is not registered.\<close>

definition rank_load :: "EnvWorkerRegistry \<Rightarrow> int \<Rightarrow> int" where
  "rank_load w rank =
     (case dict_get (wr_entries w) rank of None \<Rightarrow> 0 | Some e \<Rightarrow> we_active_sessions e)"

definition eligible :: "EnvSpecMsg \<Rightarrow> int set \<Rightarrow> EnvWorkerRegistry \<Rightarrow> int set" where
  "eligible spec attempted w =
     {rank. \<exists>e. dict_get (wr_entries w) rank = Some e \<and> we_healthy e
        \<and> EnvWorkerRegistry_serves e spec \<and> we_can_create_slot e \<and> rank \<notin> attempted}"

lemma wr_ok_init: "wr_ok (EnvWorkerRegistry_init timeout)"
  by (simp add: wr_ok_def EnvWorkerRegistry_init_def)

lemma wr_ok_put:
  "wr_ok w \<Longrightarrow> WorkerEntry_worker_rank e = rank \<Longrightarrow> 0 \<le> we_active_sessions e \<Longrightarrow>
     wr_ok (put_entry rank e w)"
  by (auto simp: wr_ok_def put_entry_def)

lemma wr_ok_entry:
  "wr_ok w \<Longrightarrow> dict_get (wr_entries w) rank = Some e \<Longrightarrow>
     WorkerEntry_worker_rank e = rank \<and> 0 \<le> we_active_sessions e"
  by (simp add: wr_ok_def)

lemma wr_ok_update_known:
  assumes "wr_ok w"
    and "\<And>e. WorkerEntry_worker_rank (f e) = WorkerEntry_worker_rank e"
    and "\<And>e. 0 \<le> we_active_sessions e \<Longrightarrow> 0 \<le> we_active_sessions (f e)"
  shows "wr_ok (update_known rank f w)"
  using assms wr_ok_entry [OF assms(1), of rank]
  by (cases "dict_get (wr_entries w) rank") (auto simp: update_known_def intro: wr_ok_put)

lemma wr_ok_operations:
  assumes "wr_ok w"
  shows "wr_ok (EnvWorkerRegistry_register now info w)"
    and "wr_ok (snd (EnvWorkerRegistry_heartbeat now rank beat w))"
    and "wr_ok (EnvWorkerRegistry_mark_unhealthy rank w)"
    and "wr_ok (snd (EnvWorkerRegistry_acquire rank digest w))"
    and "wr_ok (EnvWorkerRegistry_release rank restore w)"
    and "wr_ok (EnvWorkerRegistry_mark_cannot_create_slot rank w)"
    and "wr_ok (EnvWorkerRegistry_mark_can_create_slot rank w)"
proof -
  note entry = wr_ok_entry [OF assms]
  show "wr_ok (EnvWorkerRegistry_register now info w)"
    using assms by (cases "dict_get (wr_entries w) (info_worker_rank info)")
      (auto simp: EnvWorkerRegistry_register_def Let_def WorkerEntry_worker_rank_def
        dest: entry intro!: wr_ok_put)
  show "wr_ok (snd (EnvWorkerRegistry_heartbeat now rank beat w))"
    "wr_ok (snd (EnvWorkerRegistry_acquire rank digest w))"
    using assms by (cases "dict_get (wr_entries w) rank";
        auto simp: EnvWorkerRegistry_heartbeat_def EnvWorkerRegistry_acquire_def sbind_def asks_def
          modify_def EnvWorkerRegistry_get_def WorkerEntry_worker_rank_def
          dest!: entry intro!: wr_ok_put)+
qed (use assms in \<open>auto simp: EnvWorkerRegistry_mark_unhealthy_def EnvWorkerRegistry_release_def
    EnvWorkerRegistry_mark_cannot_create_slot_def EnvWorkerRegistry_mark_can_create_slot_def
    WorkerEntry_worker_rank_def intro!: wr_ok_update_known\<close>)

section \<open>Placement\<close>

lemma value_rank:
  assumes "wr_ok w"
  shows "e \<in> set (dict_values (wr_entries w)) \<longleftrightarrow>
    dict_get (wr_entries w) (WorkerEntry_worker_rank e) = Some e"
  using assms wr_ok_entry [OF assms, of _ e] unfolding wr_ok_def by (metis dict_values_iff)

lemma available_iff:
  assumes "wr_ok w"
  shows "e \<in> set (available_entries spec attempted w) \<longleftrightarrow>
    WorkerEntry_worker_rank e \<in> eligible spec attempted w
    \<and> dict_get (wr_entries w) (WorkerEntry_worker_rank e) = Some e"
  unfolding available_entries_def eligible_def by (simp add: value_rank [OF assms]) fastforce

lemma eligible_image:
  assumes "wr_ok w"
  shows "eligible spec attempted w = WorkerEntry_worker_rank ` set (available_entries spec attempted w)"
proof (intro set_eqI iffI)
  fix r assume r: "r \<in> eligible spec attempted w"
  then obtain e where e: "dict_get (wr_entries w) r = Some e" by (auto simp: eligible_def)
  moreover from wr_ok_entry [OF assms e] have "WorkerEntry_worker_rank e = r" by simp
  ultimately show "r \<in> WorkerEntry_worker_rank ` set (available_entries spec attempted w)"
    using r by (intro image_eqI [of _ _ e]) (simp_all add: available_iff [OF assms])
next
  fix r assume "r \<in> WorkerEntry_worker_rank ` set (available_entries spec attempted w)"
  then show "r \<in> eligible spec attempted w" by (auto simp: available_iff [OF assms])
qed

lemma eligible_nonempty:
  "wr_ok w \<Longrightarrow> available_entries spec attempted w = [] \<longleftrightarrow> eligible spec attempted w = {}"
  by (simp add: eligible_image)

lemma select_rank_Inr:
  "EnvWorkerRegistry_select_rank spec attempted w = Inr rank \<longleftrightarrow>
     available_entries spec attempted w \<noteq> []
     \<and> rank = WorkerEntry_worker_rank (hd (sort_key load_key (available_entries spec attempted w)))"
  by (auto simp: EnvWorkerRegistry_select_rank_def available_entries_def Let_def filter_empty_conv)

lemma select_rank_least:
  assumes ok: "wr_ok w" and sel: "EnvWorkerRegistry_select_rank spec attempted w = Inr rank"
  shows "rank \<in> eligible spec attempted w"
    and "\<And>r. r \<in> eligible spec attempted w \<Longrightarrow> (rank_load w rank, rank) \<le> (rank_load w r, r)"
proof -
  let ?av = "available_entries spec attempted w"
  obtain e where e: "e = hd (sort_key load_key ?av)" and ne: "?av \<noteq> []"
    and rank: "rank = WorkerEntry_worker_rank e"
    using sel by (auto simp: select_rank_Inr)
  have "e \<in> set ?av" using hd_sort_key_in [OF ne] e by simp
  then have here: "rank \<in> eligible spec attempted w" "dict_get (wr_entries w) rank = Some e"
    using ok rank by (simp_all add: available_iff)
  then show "rank \<in> eligible spec attempted w" by simp
  fix r assume "r \<in> eligible spec attempted w"
  then obtain f where f: "dict_get (wr_entries w) r = Some f" "WorkerEntry_worker_rank f = r"
    and "f \<in> set ?av"
    using ok wr_ok_entry [OF ok] by (force simp: eligible_def available_iff)
  then have "load_key e \<le> load_key f" using hd_sort_key_least [of f ?av load_key] e by simp
  with f here rank show "(rank_load w rank, rank) \<le> (rank_load w r, r)"
    by (simp add: load_key_def rank_load_def)
qed

text \<open>The interface between the Gateway and the registry: a choice among the eligible keys that is
  least in load, and a placement that adds one to the chosen key. Its client learns that placing
  any number of sessions keeps the loads balanced.\<close>

locale least_loaded =
  fixes wf :: "'s \<Rightarrow> bool"
    and load :: "'s \<Rightarrow> 'k \<Rightarrow> int"
    and candidates :: "'s \<Rightarrow> 'k set"
    and pick :: "'s \<Rightarrow> 'k option"
    and place :: "'s \<Rightarrow> 'k \<Rightarrow> 's"
  assumes pick_in: "wf s \<Longrightarrow> pick s = Some k \<Longrightarrow> k \<in> candidates s"
    and pick_least: "wf s \<Longrightarrow> pick s = Some k \<Longrightarrow> j \<in> candidates s \<Longrightarrow> load s k \<le> load s j"
    and pick_total: "wf s \<Longrightarrow> candidates s \<noteq> {} \<Longrightarrow> pick s \<noteq> None"
    and load_place: "wf s \<Longrightarrow> k \<in> candidates s \<Longrightarrow>
          load (place s k) j = load s j + (if j = k then 1 else 0)"
    and candidates_place: "wf s \<Longrightarrow> k \<in> candidates s \<Longrightarrow> candidates (place s k) = candidates s"
    and wf_place: "wf s \<Longrightarrow> k \<in> candidates s \<Longrightarrow> wf (place s k)"
begin

definition spread :: "'s \<Rightarrow> bool" where
  "spread s \<longleftrightarrow> (\<forall>j\<in>candidates s. \<forall>k\<in>candidates s. load s j \<le> load s k + 1)"

definition place_next :: "'s \<Rightarrow> 's" where
  "place_next s = (case pick s of None \<Rightarrow> s | Some k \<Rightarrow> place s k)"

lemma place_next_keeps:
  assumes "wf s"
  shows "wf (place_next s) \<and> candidates (place_next s) = candidates s"
  using assms pick_in by (auto simp: place_next_def candidates_place wf_place split: option.split)

lemma spread_step:
  assumes "wf s" "spread s"
  shows "spread (place_next s)"
proof (cases "pick s")
  case None
  with assms show ?thesis by (simp add: place_next_def)
next
  case (Some k)
  then have "k \<in> candidates s" using assms(1) by (rule pick_in [rotated])
  moreover have "load s k \<le> load s j \<and> load s j \<le> load s k + 1" if "j \<in> candidates s" for j
    using pick_least [OF assms(1) Some that] assms(2) that calculation by (simp add: spread_def)
  ultimately show ?thesis
    using assms Some
    by (auto simp: spread_def place_next_def load_place candidates_place) fastforce+
qed

lemma spread_iterate:
  "wf s \<Longrightarrow> spread s \<Longrightarrow> wf ((place_next ^^ n) s) \<and> spread ((place_next ^^ n) s)
     \<and> candidates ((place_next ^^ n) s) = candidates s"
  by (induction n) (simp_all add: place_next_keeps spread_step)

lemma load_placed:
  assumes "wf s" "candidates s \<noteq> {}" "finite (candidates s)"
  shows "(\<Sum>k\<in>candidates s. load (place_next s) k) = (\<Sum>k\<in>candidates s. load s k) + 1"
proof -
  obtain k where k: "pick s = Some k" "k \<in> candidates s"
    using pick_total [OF assms(1,2)] pick_in [OF assms(1)] by auto
  then have "(\<Sum>j\<in>candidates s. load (place_next s) j)
      = (\<Sum>j\<in>candidates s. load s j) + (\<Sum>j\<in>candidates s. if j = k then 1 else 0)"
    using assms(1) by (simp add: place_next_def load_place sum.distrib)
  also have "(\<Sum>j\<in>candidates s. if j = k then 1 else 0) = (1 :: int)"
    using assms(3) k(2) by simp
  finally show ?thesis .
qed

lemma load_total:
  assumes "wf s" "spread s" "candidates s \<noteq> {}" "finite (candidates s)"
  shows "(\<Sum>k\<in>candidates s. load ((place_next ^^ n) s) k) = (\<Sum>k\<in>candidates s. load s k) + int n"
proof (induction n)
  case (Suc n)
  with load_placed [of "(place_next ^^ n) s"] spread_iterate [OF assms(1,2), of n] assms(3,4)
  show ?case by simp
qed simp

end

definition choose_rank :: "EnvSpecMsg \<Rightarrow> int set \<Rightarrow> EnvWorkerRegistry \<Rightarrow> int option" where
  "choose_rank spec attempted w =
     (case EnvWorkerRegistry_select_rank spec attempted w of Inl _ \<Rightarrow> None | Inr rank \<Rightarrow> Some rank)"

definition place_session :: "string \<Rightarrow> EnvWorkerRegistry \<Rightarrow> int \<Rightarrow> EnvWorkerRegistry" where
  "place_session digest w rank = snd (EnvWorkerRegistry_acquire rank digest w)"

lemma acquire_known:
  "dict_get (wr_entries w) rank = Some e \<Longrightarrow> EnvWorkerRegistry_acquire rank digest w =
     (Inr (), put_entry rank (e\<lparr>we_active_sessions := we_active_sessions e + 1,
                we_served_digests := insert digest (we_served_digests e)\<rparr>) w)"
  by (simp add: EnvWorkerRegistry_acquire_def sbind_def asks_def modify_def EnvWorkerRegistry_get_def)

lemma serves_cong:
  "we_info e = we_info f \<Longrightarrow> EnvWorkerRegistry_serves e spec = EnvWorkerRegistry_serves f spec"
  unfolding EnvWorkerRegistry_serves_def by (simp only:)

lemma eligible_acquire:
  assumes "rank \<in> eligible spec attempted w"
  shows "eligible spec attempted (place_session digest w rank) = eligible spec attempted w"
proof -
  obtain e where e: "dict_get (wr_entries w) rank = Some e" using assms by (auto simp: eligible_def)
  have "EnvWorkerRegistry_serves (e\<lparr>we_active_sessions := n, we_served_digests := d\<rparr>) spec
      = EnvWorkerRegistry_serves e spec" for n d
    by (rule serves_cong) simp
  with e show ?thesis
    by (auto simp: place_session_def acquire_known eligible_def put_entry_def)
qed

interpretation placement: least_loaded wr_ok rank_load "eligible spec attempted"
  "choose_rank spec attempted" "place_session digest" for spec attempted digest
proof unfold_locales
  fix w k j assume ok: "wr_ok w"
  {
    assume "choose_rank spec attempted w = Some k"
    then have "EnvWorkerRegistry_select_rank spec attempted w = Inr k"
      by (auto simp: choose_rank_def split: sum.splits)
    note least = select_rank_least [OF ok this]
    show "k \<in> eligible spec attempted w" by (rule least(1))
    assume "j \<in> eligible spec attempted w"
    from least(2) [OF this] show "rank_load w k \<le> rank_load w j" by auto
  }
  show "choose_rank spec attempted w \<noteq> None" if "eligible spec attempted w \<noteq> {}"
  proof -
    from that have "available_entries spec attempted w \<noteq> []" by (simp add: eligible_nonempty [OF ok])
    then obtain r where "EnvWorkerRegistry_select_rank spec attempted w = Inr r"
      using select_rank_Inr [of spec attempted w] by blast
    then show ?thesis by (simp add: choose_rank_def)
  qed
  assume k: "k \<in> eligible spec attempted w"
  then obtain e where e: "dict_get (wr_entries w) k = Some e" by (auto simp: eligible_def)
  then show "rank_load (place_session digest w k) j = rank_load w j + (if j = k then 1 else 0)"
    by (simp add: place_session_def acquire_known rank_load_def put_entry_def)
  show "eligible spec attempted (place_session digest w k) = eligible spec attempted w"
    using k by (rule eligible_acquire)
  show "wr_ok (place_session digest w k)"
    unfolding place_session_def using ok by (rule wr_ok_operations)
qed

text \<open>One session placed on the rank \<open>select_rank\<close> chooses, if it chooses one.\<close>

definition place_one ::
  "EnvSpecMsg \<Rightarrow> int set \<Rightarrow> string \<Rightarrow> EnvWorkerRegistry \<Rightarrow> EnvWorkerRegistry" where
  "place_one spec attempted digest w =
     (case EnvWorkerRegistry_select_rank spec attempted w of
        Inl _ \<Rightarrow> w | Inr rank \<Rightarrow> snd (EnvWorkerRegistry_acquire rank digest w))"

lemma place_one_eq: "place_one spec attempted digest = placement.place_next spec attempted digest"
  by (rule ext) (simp add: place_one_def placement.place_next_def choose_rank_def place_session_def
      split: sum.split)

section \<open>Reaping\<close>

definition reap_ranks :: "real \<Rightarrow> EnvWorkerRegistry \<Rightarrow> EnvWorkerRegistry" where
  "reap_ranks moment w =
     foldl (\<lambda>w rank. EnvWorkerRegistry_mark_unhealthy rank w) w (EnvWorkerRegistry_stale_ranks moment w)"

lemma mark_unhealthy_get:
  "dict_get (wr_entries (EnvWorkerRegistry_mark_unhealthy rank w)) r =
     (if r = rank then map_option (\<lambda>e. e\<lparr>we_healthy := False\<rparr>) (dict_get (wr_entries w) r)
      else dict_get (wr_entries w) r)"
  by (simp add: EnvWorkerRegistry_mark_unhealthy_def update_known_def put_entry_def split: option.split)

lemma mark_unhealthy_timeout [simp]: "wr_timeout (EnvWorkerRegistry_mark_unhealthy rank w) = wr_timeout w"
  by (simp add: EnvWorkerRegistry_mark_unhealthy_def update_known_def put_entry_def split: option.split)

lemma mark_unhealthy_list_get:
  "dict_get (wr_entries (foldl (\<lambda>w rank. EnvWorkerRegistry_mark_unhealthy rank w) w ranks)) r =
     (if r \<in> set ranks then map_option (\<lambda>e. e\<lparr>we_healthy := False\<rparr>) (dict_get (wr_entries w) r)
      else dict_get (wr_entries w) r)"
  by (induction ranks arbitrary: w)
    (auto simp: mark_unhealthy_get option.map_comp comp_def)

lemma mark_unhealthy_list_ok:
  "wr_ok w \<Longrightarrow> wr_ok (foldl (\<lambda>w rank. EnvWorkerRegistry_mark_unhealthy rank w) w ranks)
     \<and> wr_timeout (foldl (\<lambda>w rank. EnvWorkerRegistry_mark_unhealthy rank w) w ranks) = wr_timeout w"
  by (induction ranks arbitrary: w) (simp_all add: wr_ok_operations)

lemma stale_iff:
  assumes "wr_ok w"
  shows "r \<in> set (EnvWorkerRegistry_stale_ranks moment w) \<longleftrightarrow>
    (\<exists>e. dict_get (wr_entries w) r = Some e \<and> we_healthy e \<and> moment - we_heartbeat_at e > wr_timeout w)"
proof -
  have "r \<in> set (EnvWorkerRegistry_stale_ranks moment w) \<longleftrightarrow>
    (\<exists>e. e \<in> set (dict_values (wr_entries w)) \<and> r = WorkerEntry_worker_rank e \<and> we_healthy e
       \<and> moment - we_heartbeat_at e > wr_timeout w)"
    unfolding EnvWorkerRegistry_stale_ranks_def by (simp split: if_splits) blast
  then show ?thesis using wr_ok_entry [OF assms, of r] by (simp add: value_rank [OF assms]) metis
qed

section \<open>Properties\<close>

text \<open>Two ranks on one node, the second with an accelerator and one session.\<close>

definition demo_capability :: EnvFamilyCapability where
  "demo_capability =
     \<lparr>cap_env_family = ''libero'', per_step_obs_available = True, supports_auto_reset = False,
      supports_reset_state_id = False, cap_extensions = [], needs_accelerator = False,
      core_forms = [''per_slot''], supports_coalescing = False\<rparr>"

definition demo_info :: "int \<Rightarrow> EnvWorkerInfo" where
  "demo_info rank =
     \<lparr>info_worker_rank = rank, info_group_name = ''env'', info_node_id = ''n0'',
      info_capabilities = [(''libero'', demo_capability)], info_served_env_digests = [],
      info_max_sessions = 4, info_active_sessions = 0, info_has_accelerator = False,
      info_heartbeat_at = 0\<rparr>"

definition demo_spec :: EnvSpecMsg where
  "demo_spec = \<lparr>env_family = ''libero'', env_config = [], pool_size = 1,
     max_dynamic_pool_size = None, resource_hints = []\<rparr>"

definition demo_workers :: EnvWorkerRegistry where
  "demo_workers = EnvWorkerRegistry_register 5 (demo_info 1)
     (EnvWorkerRegistry_register 0 (demo_info 0) (EnvWorkerRegistry_init 30))"

lemma demo_workers_ok: "wr_ok demo_workers"
  by (simp add: demo_workers_def wr_ok_operations wr_ok_init)

lemma demo_workers_entries:
  "demo_workers = \<lparr>wr_timeout = 30, wr_entries =
     [(0, \<lparr>we_info = demo_info 0, we_healthy = True, we_heartbeat_at = 0, we_active_sessions = 0,
           we_can_create_slot = True, we_served_digests = {}\<rparr>),
      (1, \<lparr>we_info = demo_info 1, we_healthy = True, we_heartbeat_at = 5, we_active_sessions = 0,
           we_can_create_slot = True, we_served_digests = {}\<rparr>)]\<rparr>"
  by (simp add: demo_workers_def EnvWorkerRegistry_register_def EnvWorkerRegistry_init_def Let_def
      put_entry_def dict_set_def dict_get_def demo_info_def)

lemma demo_select: "EnvWorkerRegistry_select_rank demo_spec {} demo_workers = Inr 0"
  by (simp add: demo_workers_entries EnvWorkerRegistry_select_rank_def available_entries_def Let_def
      dict_values_def EnvWorkerRegistry_serves_def demo_info_def demo_spec_def demo_capability_def
      dict_get_def dict_get_or_def load_key_def WorkerEntry_worker_rank_def)

text \<open>C23: the rank \<open>select_rank\<close> returns is registered, healthy, serves the environment, may create a
  slot and has not been attempted, and no other such rank has fewer sessions, or as many and a
  smaller rank number.\<close>

theorem select_rank_correct:
  assumes "wr_ok w" "EnvWorkerRegistry_select_rank spec attempted w = Inr rank"
  shows "\<exists>e. dict_get (wr_entries w) rank = Some e \<and> we_healthy e \<and> EnvWorkerRegistry_serves e spec
    \<and> we_can_create_slot e \<and> rank \<notin> attempted
    \<and> (\<forall>r f. dict_get (wr_entries w) r = Some f \<and> we_healthy f \<and> EnvWorkerRegistry_serves f spec
          \<and> we_can_create_slot f \<and> r \<notin> attempted \<and> r \<noteq> rank \<longrightarrow>
          we_active_sessions e < we_active_sessions f
          \<or> we_active_sessions e = we_active_sessions f \<and> rank < r)"
proof -
  note least = select_rank_least [OF assms]
  obtain e where e: "dict_get (wr_entries w) rank = Some e" "we_healthy e"
    "EnvWorkerRegistry_serves e spec" "we_can_create_slot e" "rank \<notin> attempted"
    using least(1) by (auto simp: eligible_def)
  have "we_active_sessions e < we_active_sessions f
      \<or> we_active_sessions e = we_active_sessions f \<and> rank < r"
    if "dict_get (wr_entries w) r = Some f" "we_healthy f" "EnvWorkerRegistry_serves f spec"
      "we_can_create_slot f" "r \<notin> attempted" "r \<noteq> rank" for r f
  proof -
    have "r \<in> eligible spec attempted w" using that by (auto simp: eligible_def)
    from least(2) [OF this] that e(1) show ?thesis by (auto simp: rank_load_def)
  qed
  with e show ?thesis by blast
qed

theorem select_rank_correct_witness:
  "\<exists>e. dict_get (wr_entries demo_workers) 0 = Some e \<and> we_can_create_slot e"
  using select_rank_correct [OF demo_workers_ok demo_select] by blast

text \<open>C30: \<open>select_rank\<close> fails for exactly one of three reasons, and its error code says which:
  \<open>WORKER_LOST\<close> when no rank is healthy, \<open>UNSUPPORTED_ENV_SPEC\<close> when some rank is healthy but none
  of those serves the environment, \<open>RESOURCE_EXHAUSTED\<close> when some healthy rank serves it but none of
  those may create a slot and is untried. It never fails in another way.\<close>

theorem select_rank_errors:
  "case EnvWorkerRegistry_select_rank spec attempted w of
     Inr rank \<Rightarrow> \<exists>e \<in> set (dict_values (wr_entries w)). we_healthy e \<and> EnvWorkerRegistry_serves e spec
       \<and> we_can_create_slot e \<and> WorkerEntry_worker_rank e \<notin> attempted
   | Inl exc \<Rightarrow> \<exists>info. exc = RuntimeApiError info
       \<and> (\<nexists>e. e \<in> set (dict_values (wr_entries w)) \<and> we_healthy e \<and> EnvWorkerRegistry_serves e spec
            \<and> we_can_create_slot e \<and> WorkerEntry_worker_rank e \<notin> attempted)
       \<and> err_code info =
           (if \<nexists>e. e \<in> set (dict_values (wr_entries w)) \<and> we_healthy e then E_WORKER_LOST
            else if \<nexists>e. e \<in> set (dict_values (wr_entries w)) \<and> we_healthy e
                      \<and> EnvWorkerRegistry_serves e spec then E_UNSUPPORTED_ENV_SPEC
            else E_RESOURCE_EXHAUSTED)"
proof (cases "available_entries spec attempted w = []")
  case True
  then have none: "\<nexists>e. e \<in> set (dict_values (wr_entries w)) \<and> we_healthy e
      \<and> EnvWorkerRegistry_serves e spec \<and> we_can_create_slot e \<and> WorkerEntry_worker_rank e \<notin> attempted"
    by (auto simp: available_entries_def filter_empty_conv)
  have no_healthy: "filter we_healthy (dict_values (wr_entries w)) = [] \<longleftrightarrow>
      (\<nexists>e. e \<in> set (dict_values (wr_entries w)) \<and> we_healthy e)"
    by (auto simp: filter_empty_conv)
  have no_capable: "filter (\<lambda>e. EnvWorkerRegistry_serves e spec)
        (filter we_healthy (dict_values (wr_entries w))) = [] \<longleftrightarrow>
      (\<nexists>e. e \<in> set (dict_values (wr_entries w)) \<and> we_healthy e \<and> EnvWorkerRegistry_serves e spec)"
    by (auto simp: filter_empty_conv)
  show ?thesis
    unfolding EnvWorkerRegistry_select_rank_def Let_def no_healthy no_capable
    using True none by (auto simp del: not_ex)
next
  case False
  then obtain e where "e \<in> set (available_entries spec attempted w)" by (meson list.set_sel(1))
  moreover from False obtain r where "EnvWorkerRegistry_select_rank spec attempted w = Inr r"
    using select_rank_Inr [of spec attempted w] by blast
  ultimately show ?thesis by (auto simp: available_entries_def)
qed

text \<open>C30: placement balances the load. When the loads of the eligible ranks differ by at most one,
  then after any number \<open>n\<close> of further sessions, each on the rank \<open>select_rank\<close> returns, they
  still differ by at most one, and exactly \<open>n\<close> sessions have been added to them.\<close>

theorem placement_balanced:
  assumes "wr_ok w" "eligible spec attempted w \<noteq> {}"
    and "\<forall>j\<in>eligible spec attempted w. \<forall>k\<in>eligible spec attempted w.
           rank_load w j \<le> rank_load w k + 1"
  shows "(\<forall>j\<in>eligible spec attempted w. \<forall>k\<in>eligible spec attempted w.
           rank_load ((place_one spec attempted digest ^^ n) w) j
             \<le> rank_load ((place_one spec attempted digest ^^ n) w) k + 1)
    \<and> (\<Sum>k\<in>eligible spec attempted w. rank_load ((place_one spec attempted digest ^^ n) w) k)
        = (\<Sum>k\<in>eligible spec attempted w. rank_load w k) + int n"
proof -
  have spread: "placement.spread spec attempted w"
    using assms(3) by (simp add: placement.spread_def)
  have "finite (eligible spec attempted w)" using assms(1) by (simp add: eligible_image)
  note total = placement.load_total [OF assms(1) spread assms(2) this, where digest = digest and n = n]
  with placement.spread_iterate [OF assms(1) spread, where digest = digest and n = n] show ?thesis
    unfolding place_one_eq by (simp add: placement.spread_def)
qed

theorem placement_balanced_witness:
  "(\<Sum>k\<in>eligible demo_spec {} demo_workers.
      rank_load ((place_one demo_spec {} ''d'' ^^ 5) demo_workers) k)
   = (\<Sum>k\<in>eligible demo_spec {} demo_workers. rank_load demo_workers k) + 5"
proof -
  have "eligible demo_spec {} demo_workers \<noteq> {}"
    using select_rank_least(1) [OF demo_workers_ok demo_select] by blast
  moreover have "rank_load demo_workers j = 0" for j
    by (simp add: demo_workers_entries rank_load_def dict_get_def)
  ultimately show ?thesis
    using placement_balanced [OF demo_workers_ok, where spec = demo_spec and attempted = "{}" and digest = "''d''" and n = 5] by simp
qed

text \<open>A rank whose heartbeat has timed out gets no new session. After every stale rank has been
  marked unhealthy no healthy rank is stale, and \<open>select_rank\<close> returns none of the ranks that were,
  until such a rank registers or sends a heartbeat again.\<close>

theorem stale_rank_not_selected:
  assumes "wr_ok w"
  shows "EnvWorkerRegistry_stale_ranks moment (reap_ranks moment w) = []
    \<and> (\<forall>rank \<in> set (EnvWorkerRegistry_stale_ranks moment w).
         EnvWorkerRegistry_select_rank spec attempted (reap_ranks moment w) \<noteq> Inr rank)"
proof -
  let ?w = "reap_ranks moment w"
  have ok: "wr_ok ?w" and timeout: "wr_timeout ?w = wr_timeout w"
    using mark_unhealthy_list_ok [OF assms] by (simp_all add: reap_ranks_def)
  have entry: "dict_get (wr_entries ?w) r =
      (if r \<in> set (EnvWorkerRegistry_stale_ranks moment w)
       then map_option (\<lambda>e. e\<lparr>we_healthy := False\<rparr>) (dict_get (wr_entries w) r)
       else dict_get (wr_entries w) r)" for r
    by (simp add: reap_ranks_def mark_unhealthy_list_get)
  have "r \<notin> set (EnvWorkerRegistry_stale_ranks moment ?w)" for r
    using entry [of r] timeout
    by (cases "r \<in> set (EnvWorkerRegistry_stale_ranks moment w)")
      (auto simp: stale_iff [OF ok] stale_iff [OF assms])
  moreover have "EnvWorkerRegistry_select_rank spec attempted ?w \<noteq> Inr r"
    if "r \<in> set (EnvWorkerRegistry_stale_ranks moment w)" for r
    using select_rank_least(1) [OF ok, of spec attempted r] entry [of r] that
    by (auto simp: eligible_def)
  ultimately show ?thesis by (metis all_not_in_conv set_empty2)
qed

theorem stale_rank_not_selected_witness:
  "0 \<in> set (EnvWorkerRegistry_stale_ranks 32 demo_workers)
   \<and> EnvWorkerRegistry_select_rank demo_spec {} (reap_ranks 32 demo_workers) \<noteq> Inr 0"
proof -
  have "0 \<in> set (EnvWorkerRegistry_stale_ranks 32 demo_workers)"
    by (simp add: demo_workers_entries EnvWorkerRegistry_stale_ranks_def dict_values_def
        WorkerEntry_worker_rank_def demo_info_def)
  then show ?thesis using stale_rank_not_selected [OF demo_workers_ok] by blast
qed

end
