(* ===== verification/Gateway.thy ===== *)
theory Gateway
  imports Session_Manager Operation_Registry Admission Worker_Registry
begin

text \<open>
  \<^verbatim>\<open>rollout_runtime/gateway/gateway.py\<close> and \<^verbatim>\<open>rollout_runtime/gateway/dispatcher.py\<close>: the single-writer Gateway that
  composes the session manager, the operation registry, admission and the worker registry. The
  Gateway is an asyncio object, so a coroutine runs undisturbed between two \<open>await\<close>s and any other
  coroutine may run at an \<open>await\<close>. Each coroutine is therefore cut at its \<open>await\<close>s: a \<open>_start\<close> or
  \<open>_enter\<close> function runs to the first one and a \<open>_resume\<close> function runs from there, given what the
  await returned. Replies of EnvWorkers are inputs. Within one such segment the clock is read once.
  Metrics recorders only observe and are left out.
\<close>

section \<open>State\<close>

text \<open>\<open>g_detached\<close> holds the \<open>SessionRecord\<close> objects that the session manager has purged and that a
  suspended coroutine may still refer to.\<close>

record RuntimeGateway =
  g_sessions :: SessionManager
  g_detached :: "(string, SessionRecord) dict"
  g_operations :: OperationRegistry
  g_admission :: AdmissionController
  g_workers :: EnvWorkerRegistry
  g_attached :: bool
  g_late_result_count :: int
  g_orphan_result_count :: int
  g_heartbeat_ok_count :: int
  g_heartbeat_failure_count :: int
  g_heartbeat_inflight :: "int set"
  g_default_priority :: Priority

definition RuntimeGateway_init ::
  "bool \<Rightarrow> AdmissionConfig \<Rightarrow> int \<Rightarrow> Priority \<Rightarrow> real \<Rightarrow> real \<Rightarrow> real \<Rightarrow> real \<Rightarrow> RuntimeGateway" where
  "RuntimeGateway_init transport admission epoch priority retention ttl heartbeat_timeout lease =
     \<lparr>g_sessions = SessionManager_init epoch retention lease, g_detached = [],
      g_operations = OperationRegistry_init ttl, g_admission = AdmissionController_init admission,
      g_workers = EnvWorkerRegistry_init heartbeat_timeout, g_attached = transport,
      g_late_result_count = 0, g_orphan_result_count = 0, g_heartbeat_ok_count = 0,
      g_heartbeat_failure_count = 0, g_heartbeat_inflight = {}, g_default_priority = priority\<rparr>"

definition heartbeat_probe_timeout :: "real \<Rightarrow> real" where
  "heartbeat_probe_timeout heartbeat_timeout = max (1/2) (min (heartbeat_timeout / 3) 5)"

definition attach_transport :: "RuntimeGateway \<Rightarrow> RuntimeGateway" where
  "attach_transport g = g\<lparr>g_attached := True\<rparr>"

text \<open>\<open>CommandDispatcher.send\<close> and \<open>send_control\<close>: whatever the transport raises becomes a failed
  result envelope. \<open>tb\<close> is the text of the traceback.\<close>

definition CommandDispatcher_send ::
  "string \<Rightarrow> CommandEnvelope \<Rightarrow> exn + ResultEnvelope \<Rightarrow> ResultEnvelope" where
  "CommandDispatcher_send tb envelope outcome =
     (case outcome of
        Inr result \<Rightarrow> result
      | Inl exc \<Rightarrow>
          \<lparr>res_request_id = ce_request_id envelope, res_session_id = Some (ce_session_id envelope),
           res_operation = ce_operation envelope, res_state = O_FAILED, res_value = PyNone,
           res_error = Some (normalize_exception tb E_INTERNAL False True exc),
           res_side_effect_applied = False, res_worker_summary = None\<rparr>)"

definition CommandDispatcher_send_control ::
  "string \<Rightarrow> ControlEnvelope \<Rightarrow> exn + ResultEnvelope \<Rightarrow> ResultEnvelope" where
  "CommandDispatcher_send_control tb envelope outcome =
     (case outcome of
        Inr result \<Rightarrow> result
      | Inl exc \<Rightarrow>
          \<lparr>res_request_id = ctl_request_id envelope, res_session_id = ctl_session_id envelope,
           res_operation = ctl_operation envelope, res_state = O_FAILED, res_value = PyNone,
           res_error = Some (normalize_exception tb E_INTERNAL False True exc),
           res_side_effect_applied = False, res_worker_summary = None\<rparr>)"

text \<open>A component's operation run on the Gateway's component.\<close>

definition on_sessions :: "'a session_op \<Rightarrow> (RuntimeGateway, exn, 'a) sem" where
  "on_sessions f g = (case f (g_sessions g) of (r, m) \<Rightarrow> (r, g\<lparr>g_sessions := m\<rparr>))"

definition on_operations :: "'a registry_op \<Rightarrow> (RuntimeGateway, exn, 'a) sem" where
  "on_operations f g = (case f (g_operations g) of (r, m) \<Rightarrow> (r, g\<lparr>g_operations := m\<rparr>))"

definition on_admission :: "'a admission_op \<Rightarrow> (RuntimeGateway, exn, 'a) sem" where
  "on_admission f g = (case f (g_admission g) of (r, m) \<Rightarrow> (r, g\<lparr>g_admission := m\<rparr>))"

definition on_workers :: "'a worker_op \<Rightarrow> (RuntimeGateway, exn, 'a) sem" where
  "on_workers f g = (case f (g_workers g) of (r, m) \<Rightarrow> (r, g\<lparr>g_workers := m\<rparr>))"

lemmas on_defs = on_sessions_def on_operations_def on_admission_def on_workers_def

text \<open>A session record as an object: in the manager's dictionary, or purged from it.\<close>

definition session_object :: "RuntimeGateway \<Rightarrow> string \<Rightarrow> SessionRecord option" where
  "session_object g sid =
     (case dict_get (sm_sessions (g_sessions g)) sid of
        Some r \<Rightarrow> Some r | None \<Rightarrow> dict_get (g_detached g) sid)"

definition put_session_object :: "SessionRecord \<Rightarrow> RuntimeGateway \<Rightarrow> RuntimeGateway" where
  "put_session_object r g =
     (if dict_get (sm_sessions (g_sessions g)) (session_id r) \<noteq> None
      then g\<lparr>g_sessions := put_session r (g_sessions g)\<rparr>
      else g\<lparr>g_detached := dict_set (g_detached g) (session_id r) r\<rparr>)"

section \<open>Creating sessions\<close>

text \<open>What a coroutine does next: return a result, or await the reply of a worker rank. The frame
  keeps the record for its fields that never change (identifier, environment, digest).\<close>

datatype create_step =
    CreateDone "SessionHandle Result"
  | AwaitBinding SessionRecord int "int set" "RuntimeErrorInfo option"

text \<open>The reply to \<open>CREATE_BINDING\<close> as \<open>_create_binding\<close> reads it.\<close>

definition binding_reply :: "int \<Rightarrow> ResultEnvelope \<Rightarrow> exn + string" where
  "binding_reply rank result =
     (if \<not> ResultEnvelope_ok result
      then Inl (RuntimeApiError (case res_error result of
                  Some e \<Rightarrow> e
                | None \<Rightarrow> make_error E_ENV_FAILURE [Text ''env worker rejected the binding request''] []))
      else
        (let token = (case res_value result of
                        PyDict d \<Rightarrow> dict_get_or d ''binding_token'' PyNone | v \<Rightarrow> v)
         in case token of
              PyStr s \<Rightarrow> if s = [] then Inl (RuntimeApiError (make_error E_ENV_FAILURE
                            [Text ''env worker returned no binding token''] [(''worker_rank'', PyInt rank)]))
                         else Inr s
            | _ \<Rightarrow> Inl (RuntimeApiError (make_error E_ENV_FAILURE
                    [Text ''env worker returned no binding token''] [(''worker_rank'', PyInt rank)]))))"

text \<open>The outer \<open>except\<close> block of \<open>_create_session\<close>.\<close>

definition create_failed ::
  "real \<Rightarrow> string \<Rightarrow> string \<Rightarrow> string option \<Rightarrow> RuntimeErrorInfo option \<Rightarrow> exn \<Rightarrow> RuntimeGateway
     \<Rightarrow> create_step \<times> RuntimeGateway" where
  "create_failed now tb app sid last_resource_error exc g =
     (let info = normalize_exception tb E_INTERNAL False True exc;
          info = (case last_resource_error of
                    Some e \<Rightarrow> if is_resource_exhausted info then e else info | None \<Rightarrow> info);
          g1 = g\<lparr>g_admission := AdmissionController_release_session app (g_admission g)\<rparr>;
          g2 = (case sid of
                  None \<Rightarrow> g1
                | Some s \<Rightarrow>
                    (case session_object g1 s of
                       Some record \<Rightarrow>
                         if s_state record = S_CREATING
                         then snd (on_sessions (SessionManager_fail now s info) g1) else g1
                     | None \<Rightarrow> g1))
      in (CreateDone (Err info), g2))"

text \<open>One turn of the \<open>while True\<close> loop up to the \<open>await\<close>: choose a rank and reserve it. Without a
  transport \<open>_create_binding\<close> raises at once, and the reservation is given back.\<close>

definition create_attempt ::
  "real \<Rightarrow> string \<Rightarrow> string \<Rightarrow> SessionRecord \<Rightarrow> int set \<Rightarrow> RuntimeErrorInfo option \<Rightarrow> RuntimeGateway
     \<Rightarrow> create_step \<times> RuntimeGateway" where
  "create_attempt now tb app record attempted lasterr g =
     (case EnvWorkerRegistry_select_rank (env_spec record) attempted (g_workers g) of
        Inl exc \<Rightarrow> create_failed now tb app (Some (session_id record)) lasterr exc g
      | Inr rank \<Rightarrow>
          (case on_workers (EnvWorkerRegistry_acquire rank (env_spec_digest record)) g of
             (Inl exc, g1) \<Rightarrow> create_failed now tb app (Some (session_id record)) lasterr exc g1
           | (Inr _, g1) \<Rightarrow>
               if g_attached g1 then (AwaitBinding record rank attempted lasterr, g1)
               else
                 create_failed now tb app (Some (session_id record)) lasterr
                   (RuntimeApiError (make_error E_WORKER_LOST
                     [Text ''gateway has no transport attached; call attach_transport first''] []))
                   (g1\<lparr>g_workers := EnvWorkerRegistry_release rank False (g_workers g1)\<rparr>)))"

definition create_session_start ::
  "digest_fn \<Rightarrow> real \<Rightarrow> string \<Rightarrow> string \<Rightarrow> CreateSessionRequest \<Rightarrow> RuntimeGateway
     \<Rightarrow> create_step \<times> RuntimeGateway" where
  "create_session_start H now tb fresh request g =
     (let app = req_application_id request in
      case on_admission (AdmissionController_admit_session app (req_auth_token request)) g of
        (Inl exc, g1) \<Rightarrow> (CreateDone (Err (normalize_exception tb E_INTERNAL False True exc)), g1)
      | (Inr _, g1) \<Rightarrow>
          (case on_sessions (SessionManager_create H now fresh None request) g1 of
             (Inl exc, g2) \<Rightarrow> create_failed now tb app None None exc g2
           | (Inr (record, created), g2) \<Rightarrow>
               if \<not> created
               then (CreateDone (Ok (SessionRecord_handle record)),
                     g2\<lparr>g_admission := AdmissionController_release_session app (g_admission g2)\<rparr>)
               else create_attempt now tb app record {} None g2))"

definition create_session_resume ::
  "real \<Rightarrow> string \<Rightarrow> string \<Rightarrow> SessionRecord \<Rightarrow> int \<Rightarrow> int set \<Rightarrow> RuntimeErrorInfo option
     \<Rightarrow> ResultEnvelope \<Rightarrow> RuntimeGateway \<Rightarrow> create_step \<times> RuntimeGateway" where
  "create_session_resume now tb app record rank attempted lasterr result g =
     (case binding_reply rank result of
        Inl exc \<Rightarrow>
          (let g1 = g\<lparr>g_workers := EnvWorkerRegistry_release rank False (g_workers g)\<rparr>;
               info = normalize_exception tb E_INTERNAL False True exc
           in if is_resource_exhausted info
              then create_attempt now tb app record (insert rank attempted) (Some info)
                     (g1\<lparr>g_workers := EnvWorkerRegistry_mark_cannot_create_slot rank (g_workers g1)\<rparr>)
              else create_failed now tb app (Some (session_id record)) lasterr exc g1)
      | Inr token \<Rightarrow>
          (case on_sessions (SessionManager_commit_binding now (session_id record) rank token None) g of
             (Inl exc, g1) \<Rightarrow> create_failed now tb app (Some (session_id record)) lasterr exc g1
           | (Inr bound, g1) \<Rightarrow> (CreateDone (Ok (SessionRecord_handle bound)), g1)))"

text \<open>A whole call that is not interrupted by other coroutines. \<open>reply\<close> is what the worker of a
  rank answers; the fuel bounds the turns of the loop.\<close>

fun create_loop ::
  "nat \<Rightarrow> real \<Rightarrow> string \<Rightarrow> string \<Rightarrow> (int \<Rightarrow> ResultEnvelope) \<Rightarrow> create_step \<times> RuntimeGateway
     \<Rightarrow> (SessionHandle Result \<times> RuntimeGateway) option" where
  "create_loop fuel now tb app reply (CreateDone r, g) = Some (r, g)"
| "create_loop 0 now tb app reply (AwaitBinding record rank attempted lasterr, g) = None"
| "create_loop (Suc fuel) now tb app reply (AwaitBinding record rank attempted lasterr, g) =
     create_loop fuel now tb app reply
       (create_session_resume now tb app record rank attempted lasterr (reply rank) g)"

definition create_session ::
  "nat \<Rightarrow> digest_fn \<Rightarrow> real \<Rightarrow> string \<Rightarrow> string \<Rightarrow> (int \<Rightarrow> ResultEnvelope) \<Rightarrow> CreateSessionRequest
     \<Rightarrow> RuntimeGateway \<Rightarrow> (SessionHandle Result \<times> RuntimeGateway) option" where
  "create_session fuel H now tb fresh reply request g =
     create_loop fuel now tb (req_application_id request) reply
       (create_session_start H now tb fresh request g)"

section \<open>Closing sessions\<close>

datatype close_step = CloseDone "unit Result" | AwaitRelease string int

text \<open>The end of \<open>_close_session\<close>: mark the session closed, then give back its worker slot and its
  quota.\<close>

definition close_session_finish :: "real \<Rightarrow> string \<Rightarrow> RuntimeGateway \<Rightarrow> unit Result \<times> RuntimeGateway" where
  "close_session_finish now sid g =
     (case on_sessions (SessionManager_finish_close now sid) g of
        (Inl exc, g1) \<Rightarrow> (Err (normalize_exception [] E_INTERNAL False True exc), g1)
      | (Inr record, g1) \<Rightarrow>
          (let g2 = (case worker_rank record of
                       None \<Rightarrow> g1
                     | Some rank \<Rightarrow> g1\<lparr>g_workers := EnvWorkerRegistry_release rank True (g_workers g1)\<rparr>);
               a1 = AdmissionController_forget_session sid (g_admission g2);
               a2 = AdmissionController_release_session (application_id record) a1
           in (Ok (), g2\<lparr>g_admission := a2\<rparr>)))"

definition close_done :: "unit Result \<times> RuntimeGateway \<Rightarrow> close_step \<times> RuntimeGateway" where
  "close_done rg = (CloseDone (fst rg), snd rg)"

text \<open>Whether \<open>_release_lost_binding\<close> sends a message: only to a rank that is healthy now.\<close>

definition sends_lost_release :: "SessionRecord \<Rightarrow> RuntimeGateway \<Rightarrow> int option" where
  "sends_lost_release record g =
     (if \<not> g_attached g \<or> worker_rank record = None \<or> binding_token record = None then None
      else
        (case dict_get (wr_entries (g_workers g)) (the (worker_rank record)) of
           None \<Rightarrow> None
         | Some entry \<Rightarrow> if we_healthy entry then worker_rank record else None))"

definition close_session_start :: "real \<Rightarrow> string \<Rightarrow> RuntimeGateway \<Rightarrow> close_step \<times> RuntimeGateway" where
  "close_session_start now sid g =
     (case SessionManager_get sid (g_sessions g) of
        Inl exc \<Rightarrow> (CloseDone (Err (normalize_exception [] E_INTERNAL False True exc)), g)
      | Inr record \<Rightarrow>
          if s_state record = S_CLOSED then (CloseDone (Ok ()), g)
          else if s_state record \<in> set [S_FAILED, S_LOST] then
            (case sends_lost_release record g of
               Some rank \<Rightarrow> (AwaitRelease sid rank, g)
             | None \<Rightarrow> close_done (close_session_finish now sid g))
          else
            (case on_sessions (SessionManager_begin_close now sid) g of
               (Inl exc, g1) \<Rightarrow> (CloseDone (Err (normalize_exception [] E_INTERNAL False True exc)), g1)
             | (Inr closing, g1) \<Rightarrow>
                 (case worker_rank closing of
                    Some rank \<Rightarrow> if g_attached g1 then (AwaitRelease sid rank, g1)
                                 else close_done (close_session_finish now sid g1)
                  | None \<Rightarrow> close_done (close_session_finish now sid g1))))"

text \<open>The reply to \<open>RELEASE_BINDING\<close> is not looked at: a dispatcher never raises and a timeout of the
  best-effort release is swallowed.\<close>

definition close_session_resume :: "real \<Rightarrow> string \<Rightarrow> RuntimeGateway \<Rightarrow> unit Result \<times> RuntimeGateway" where
  "close_session_resume now sid g = close_session_finish now sid g"

definition close_session :: "real \<Rightarrow> string \<Rightarrow> RuntimeGateway \<Rightarrow> unit Result \<times> RuntimeGateway" where
  "close_session now sid g =
     (case close_session_start now sid g of
        (CloseDone r, g1) \<Rightarrow> (r, g1)
      | (AwaitRelease s rank, g1) \<Rightarrow> close_session_resume now s g1)"

section \<open>Executing operations\<close>

record dispatch_frame =
  df_session :: SessionRecord
  df_application :: string
  df_request_id :: string
  df_operation :: EnvOperation
  df_payload :: py
  df_deadline :: "real option"

datatype dispatch_step =
    DispatchDone "py Result"
  | AwaitLock dispatch_frame
  | AwaitResult dispatch_frame CommandEnvelope int

text \<open>The record object a frame refers to, in its present state.\<close>

definition frame_session :: "dispatch_frame \<Rightarrow> RuntimeGateway \<Rightarrow> SessionRecord" where
  "frame_session f g =
     (case session_object g (session_id (df_session f)) of Some r \<Rightarrow> r | None \<Rightarrow> df_session f)"

text \<open>The \<open>finally\<close> block of \<open>_dispatch_one\<close> after an admitted operation.\<close>

definition dispatch_finally ::
  "dispatch_frame \<Rightarrow> py Result \<times> RuntimeGateway \<Rightarrow> dispatch_step \<times> RuntimeGateway" where
  "dispatch_finally f rg =
     (DispatchDone (fst rg),
      (snd rg)\<lparr>g_admission := AdmissionController_complete_operation (df_application f)
         (session_id (df_session f)) (g_admission (snd rg))\<rparr>)"

definition api_error :: "exn \<Rightarrow> 'a Result" where
  "api_error exc = Err (normalize_exception [] E_INTERNAL False True exc)"

definition require_session :: "string \<Rightarrow> EnvOperation \<Rightarrow> SessionManager \<Rightarrow> exn + SessionRecord" where
  "require_session sid operation m =
     (if operation \<in> set [Op_RESET, Op_EXTENSION_CALL] then SessionManager_require_ready sid m
      else SessionManager_require_episode sid m)"

definition cancelled_before_dispatch :: "string \<Rightarrow> OperationRegistry \<Rightarrow> RuntimeErrorInfo option" where
  "cancelled_before_dispatch rid m =
     (case OperationRegistry_find m rid of
        None \<Rightarrow> None
      | Some record \<Rightarrow>
          if \<not> is_terminal record then None
          else Some (case op_error record of
                 Some e \<Rightarrow> e
               | None \<Rightarrow> make_error_full E_CANCELLED
                   [Text ''request '', Text rid, Text '' was cancelled before dispatch''] None False
                   [(''request_id'', PyStr rid)]))"

definition synthesize_error :: "ResultEnvelope \<Rightarrow> RuntimeErrorInfo" where
  "synthesize_error result =
     (if res_state result = O_OUTCOME_UNKNOWN then
        make_error_full E_WORKER_LOST
          [Text ''env worker reported OUTCOME_UNKNOWN; the operation must not be replayed automatically'']
          None (res_side_effect_applied result)
          [(''state'', PyStr (OperationState_name (res_state result)))]
      else if res_state result = O_CANCELLED then
        make_error_full E_CANCELLED [Text ''env worker reported CANCELLED''] None
          (res_side_effect_applied result) []
      else
        make_error_full E_INTERNAL
          [Text ''env worker returned '', Text (OperationState_name (res_state result)),
           Text '' without an error payload''] None (res_side_effect_applied result) [])"

text \<open>\<open>getattr(value, "episode_id", None)\<close> when it is an \<open>int\<close>; a Python bool is one.\<close>

fun episode_of :: "py \<Rightarrow> int option" where
  "episode_of (PyObj c attrs) =
     (case dict_get attrs ''episode_id'' of
        Some (PyInt n) \<Rightarrow> Some n
      | Some (PyBool b) \<Rightarrow> Some (if b then 1 else 0)
      | _ \<Rightarrow> None)"
| "episode_of _ = None"

definition finish_failure ::
  "real \<Rightarrow> string \<Rightarrow> ResultEnvelope \<Rightarrow> RuntimeErrorInfo \<Rightarrow> (RuntimeGateway, exn, py Result) sem" where
  "finish_failure now rid result info g =
     (case on_operations
        (if res_state result = O_CANCELLED
         then OperationRegistry_cancel now rid (res_side_effect_applied result)
                [Text ''cancelled'']
         else if res_state result = O_OUTCOME_UNKNOWN
         then OperationRegistry_mark_outcome_unknown now rid (err_message info)
         else OperationRegistry_fail now rid info (Some (res_side_effect_applied result))) g of
        (Inl exc, g1) \<Rightarrow> (Inl exc, g1)
      | (Inr _, g1) \<Rightarrow> (Inr (Err info), g1))"

definition RuntimeGateway_finish ::
  "real \<Rightarrow> string \<Rightarrow> string \<Rightarrow> ResultEnvelope \<Rightarrow> (RuntimeGateway, exn, py Result) sem" where
  "RuntimeGateway_finish now sid rid result g =
     (let g1 = snd (on_sessions (SessionManager_set_worker_summary sid (res_worker_summary result)) g) in
      case res_error result of
        Some e \<Rightarrow>
          if res_state result = O_RUNNING \<and> err_code e = E_DEADLINE_EXCEEDED then (Inr (Err e), g1)
          else finish_failure now rid result e g1
      | None \<Rightarrow>
          if res_state result \<noteq> O_SUCCEEDED then finish_failure now rid result (synthesize_error result) g1
          else
            (case (case episode_of (res_value result) of
                     None \<Rightarrow> (Inr (), g1)
                   | Some ep \<Rightarrow> on_sessions (SessionManager_set_episode now sid ep) g1) of
               (Inl exc, g2) \<Rightarrow> (Inl exc, g2)
             | (Inr _, g2) \<Rightarrow>
                 (case on_operations (OperationRegistry_succeed now rid (res_value result)
                         (res_side_effect_applied result)) g2 of
                    (Inl exc, g3) \<Rightarrow> (Inl exc, g3)
                  | (Inr _, g3) \<Rightarrow> (Inr (Ok (res_value result)), g3))))"

text \<open>\<open>_execute\<close> up to its \<open>await\<close>. A mutating operation occupies the session and takes a sequence
  number first.\<close>

definition occupy_session :: "dispatch_frame \<Rightarrow> (RuntimeGateway, exn, int option) sem" where
  "occupy_session f g =
     (if df_operation f \<notin> set MUTATING_OPERATIONS then (Inr None, g)
      else
        (case SessionManager_begin_operation (df_request_id f) (frame_session f g) of
           Inl exc \<Rightarrow> (Inl exc, g)
         | Inr r \<Rightarrow>
             (case SessionManager_allocate_operation_seq r of
                (seq, r') \<Rightarrow> (Inr (Some seq), put_session_object r' g))))"

definition command_envelope ::
  "dispatch_frame \<Rightarrow> int option \<Rightarrow> RuntimeGateway \<Rightarrow> CommandEnvelope" where
  "command_envelope f seq g =
     (let record = frame_session f g in
      \<lparr>ce_request_id = df_request_id f, ce_session_id = session_id record,
       ce_binding_token = binding_token record, ce_episode_id = episode_id record,
       ce_operation_seq = seq, ce_operation = df_operation f, ce_deadline = df_deadline f,
       ce_priority = g_default_priority g, ce_payload = df_payload f,
       ce_trace_context = [(''application_id'', PyStr (application_id record))]\<rparr>)"

definition RuntimeGateway_execute ::
  "real \<Rightarrow> dispatch_frame \<Rightarrow> RuntimeGateway \<Rightarrow> dispatch_step \<times> RuntimeGateway" where
  "RuntimeGateway_execute now f g =
     (case cancelled_before_dispatch (df_request_id f) (g_operations g) of
        Some e \<Rightarrow> dispatch_finally f (Err e, g)
      | None \<Rightarrow>
          (case occupy_session f g of
             (Inl exc, g1) \<Rightarrow> dispatch_finally f (api_error exc, g1)
           | (Inr seq, g1) \<Rightarrow>
               (case worker_rank (frame_session f g1) of
                  None \<Rightarrow> dispatch_finally f
                    (Err (make_error E_WORKER_LOST
                       [Text ''session '', Text (session_id (df_session f)), Text '' has no worker binding'']
                       [(''session_id'', PyStr (session_id (df_session f)))]), g1)
                | Some rank \<Rightarrow>
                    if \<not> g_attached g1 then dispatch_finally f
                      (Err (make_error E_WORKER_LOST
                        [Text ''gateway has no transport attached; call attach_transport first''] []), g1)
                    else
                      (case on_operations
                              (OperationRegistry_mark_running now (df_request_id f) (Some rank)) g1 of
                         (Inl exc, g2) \<Rightarrow> dispatch_finally f (api_error exc, g2)
                       | (Inr _, g2) \<Rightarrow> (AwaitResult f (command_envelope f seq g1) rank, g2)))))"

definition dispatch_start ::
  "digest_fn \<Rightarrow> real \<Rightarrow> bool \<Rightarrow> string \<Rightarrow> EnvOperation \<Rightarrow> py \<Rightarrow> string \<Rightarrow> real option
     \<Rightarrow> RuntimeGateway \<Rightarrow> dispatch_step \<times> RuntimeGateway" where
  "dispatch_start H now take_lock sid operation payload rid deadline g =
     (case require_session sid operation (g_sessions g) of
        Inl exc \<Rightarrow> (DispatchDone (api_error exc), g)
      | Inr record \<Rightarrow>
          (let app = application_id record;
               f = \<lparr>df_session = record, df_application = app, df_request_id = rid,
                    df_operation = operation, df_payload = payload, df_deadline = deadline\<rparr>
           in
           case on_admission (AdmissionController_admit_operation now app sid deadline 0 None) g of
             (Inl exc, g1) \<Rightarrow> (DispatchDone (api_error exc), g1)
           | (Inr _, g1) \<Rightarrow>
               (case on_operations (OperationRegistry_begin H now rid (Some sid) operation payload None) g1 of
                  (Inl exc, g2) \<Rightarrow> dispatch_finally f (api_error exc, g2)
                | (Inr (record, created), g2) \<Rightarrow>
                    if \<not> created then
                      dispatch_finally f
                        (if is_terminal record
                         then (case op_error record of Some e \<Rightarrow> Err e | None \<Rightarrow> Ok (op_value record))
                         else Err (make_error E_SESSION_NOT_READY
                                [Text ''request '', Text rid, Text '' is still '',
                                 Text (OperationState_name (op_state record))]
                                [(''request_id'', PyStr rid),
                                 (''state'', PyStr (OperationState_name (op_state record)))]), g2)
                    else if take_lock then (AwaitLock f, g2)
                    else RuntimeGateway_execute now f g2)))"

text \<open>After the \<open>await\<close>: the session is released, the result is recorded and the in-flight units are
  given back.\<close>

definition dispatch_resume ::
  "real \<Rightarrow> dispatch_frame \<Rightarrow> ResultEnvelope \<Rightarrow> RuntimeGateway \<Rightarrow> dispatch_step \<times> RuntimeGateway" where
  "dispatch_resume now f result g =
     (let g1 = (if df_operation f \<in> set MUTATING_OPERATIONS
                then put_session_object
                  (SessionManager_end_operation (df_request_id f) (frame_session f g)) g
                else g)
      in case RuntimeGateway_finish now (session_id (df_session f)) (df_request_id f) result g1 of
           (Inl exc, g2) \<Rightarrow> dispatch_finally f (api_error exc, g2)
         | (Inr r, g2) \<Rightarrow> dispatch_finally f (r, g2))"

text \<open>The batch entry: one task per session, in input order.\<close>

datatype batch_payload = SharedPayload py | PayloadPerSession "py list"

datatype batch_plan =
    BatchRejected RuntimeErrorInfo
  | BatchRaise exn
  | BatchTasks "(string \<times> py \<times> string) list"

definition batch_tasks :: "string list \<Rightarrow> batch_payload \<Rightarrow> string list \<Rightarrow> batch_plan" where
  "batch_tasks sids payload rids =
     (let payloads = (case payload of
            SharedPayload p \<Rightarrow> replicate (length sids) p | PayloadPerSession ps \<Rightarrow> ps)
      in if length payloads < length sids
         then BatchRaise (PyExn K_Other ''IndexError'' [Text ''list index out of range''])
         else BatchTasks (map (\<lambda>i. (sids ! i, payloads ! i, rids ! i)) [0..<length sids]))"

definition dispatch_batch ::
  "string list \<Rightarrow> batch_payload \<Rightarrow> string list option \<Rightarrow> string list \<Rightarrow> batch_plan" where
  "dispatch_batch sids payload request_ids drawn =
     (case request_ids of
        Some rids \<Rightarrow>
          if length rids \<noteq> length sids
          then BatchRejected (make_error E_INVALID_ARGUMENT
                 [Text ''request_ids length '', IntF (int (length rids)), Text '' != session_ids length '',
                  IntF (int (length sids))] [])
          else batch_tasks sids payload rids
      | None \<Rightarrow> batch_tasks sids payload drawn)"

text \<open>The public operations: which batch each one hands to \<open>_dispatch_batch\<close>. \<open>drawn\<close> are the request
  identifiers \<open>new_request_id()\<close> would draw.\<close>

record batch_call =
  bc_operation :: EnvOperation
  bc_plan :: batch_plan
  bc_deadline :: "real option"
  bc_take_lock :: bool

definition RuntimeGateway_reset :: "string list \<Rightarrow> py \<Rightarrow> string list option \<Rightarrow> string list \<Rightarrow> batch_call" where
  "RuntimeGateway_reset sids reset_spec request_ids drawn =
     \<lparr>bc_operation = Op_RESET,
      bc_plan = dispatch_batch sids (SharedPayload (PyDict [(''reset_spec'', reset_spec)])) request_ids drawn,
      bc_deadline = None, bc_take_lock = True\<rparr>"

definition RuntimeGateway_observe :: "string list \<Rightarrow> string \<Rightarrow> string list \<Rightarrow> batch_call" where
  "RuntimeGateway_observe sids consistency drawn =
     \<lparr>bc_operation = Op_OBSERVE,
      bc_plan = dispatch_batch sids (SharedPayload (PyDict [(''consistency'', PyStr consistency)])) None drawn,
      bc_deadline = None, bc_take_lock = (consistency = ''linearizable'')\<rparr>"

definition RuntimeGateway_action_step ::
  "string list \<Rightarrow> py list \<Rightarrow> string list option \<Rightarrow> string list \<Rightarrow> batch_call" where
  "RuntimeGateway_action_step sids actions request_ids drawn =
     \<lparr>bc_operation = Op_ACTION_STEP,
      bc_plan =
        (if length actions \<noteq> length sids
         then BatchRejected (make_error E_INVALID_ARGUMENT
                [Text ''actions length '', IntF (int (length actions)), Text '' != session_ids length '',
                 IntF (int (length sids))] [])
         else dispatch_batch sids
                (PayloadPerSession (map (\<lambda>action. PyDict [(''actions'', action)]) actions)) request_ids drawn),
      bc_deadline = None, bc_take_lock = True\<rparr>"

definition RuntimeGateway_policy_step ::
  "string list \<Rightarrow> py \<Rightarrow> string list option \<Rightarrow> string list \<Rightarrow> batch_call" where
  "RuntimeGateway_policy_step sids policy_request request_ids drawn =
     \<lparr>bc_operation = Op_POLICY_STEP,
      bc_plan = dispatch_batch sids (SharedPayload (PyDict [(''policy_request'', policy_request)]))
        request_ids drawn,
      bc_deadline = None, bc_take_lock = True\<rparr>"

definition RuntimeGateway_policy_infer ::
  "string list \<Rightarrow> py \<Rightarrow> string list option \<Rightarrow> string list \<Rightarrow> batch_call" where
  "RuntimeGateway_policy_infer sids policy_request request_ids drawn =
     \<lparr>bc_operation = Op_POLICY_INFER,
      bc_plan = dispatch_batch sids (SharedPayload (PyDict [(''policy_request'', policy_request)]))
        request_ids drawn,
      bc_deadline = None, bc_take_lock = True\<rparr>"

definition RuntimeGateway_run_episode ::
  "string list \<Rightarrow> py \<Rightarrow> real option \<Rightarrow> string list option \<Rightarrow> string list \<Rightarrow> batch_call" where
  "RuntimeGateway_run_episode sids episode_request deadline request_ids drawn =
     \<lparr>bc_operation = Op_RUN_EPISODE,
      bc_plan = dispatch_batch sids (SharedPayload (PyDict [(''episode_request'', episode_request)]))
        request_ids drawn,
      bc_deadline = deadline, bc_take_lock = True\<rparr>"

definition RuntimeGateway_extension_call ::
  "string list \<Rightarrow> string \<Rightarrow> string \<Rightarrow> (string, py) dict \<Rightarrow> string list option \<Rightarrow> string list \<Rightarrow> batch_call" where
  "RuntimeGateway_extension_call sids namespace method args request_ids drawn =
     \<lparr>bc_operation = Op_EXTENSION_CALL,
      bc_plan = dispatch_batch sids
        (SharedPayload (PyDict [(''namespace'', PyStr namespace), (''method'', PyStr method),
                                (''args'', PyDict args)])) request_ids drawn,
      bc_deadline = None, bc_take_lock = True\<rparr>"

definition RuntimeGateway_get_session :: "string \<Rightarrow> RuntimeGateway \<Rightarrow> exn + SessionStatus" where
  "RuntimeGateway_get_session sid g = SessionManager_status sid (g_sessions g)"

definition RuntimeGateway_get_request_status :: "string \<Rightarrow> RuntimeGateway \<Rightarrow> exn + OperationStatus" where
  "RuntimeGateway_get_request_status rid g = OperationRegistry_status rid (g_operations g)"

text \<open>A batch that is dispatched has one task per session, in input order, each with its own action and
  request identifier.\<close>

lemma batch_tasks_shared:
  "batch_tasks sids (SharedPayload p) rids = BatchTasks (map (\<lambda>i. (sids ! i, p, rids ! i)) [0..<length sids])"
  by (simp add: batch_tasks_def)

lemma action_step_tasks:
  assumes "length actions = length sids" and "length rids = length sids"
  shows "bc_plan (RuntimeGateway_action_step sids actions (Some rids) drawn)
           = BatchTasks (zip sids (zip (map (\<lambda>a. PyDict [(''actions'', a)]) actions) rids))"
  using assms by (auto simp: RuntimeGateway_action_step_def dispatch_batch_def batch_tasks_def
    intro!: nth_equalityI)

section \<open>Late results and cancellation\<close>

text \<open>A result that comes back after its caller timed out. Any exception while it is recorded is
  swallowed and counted.\<close>

definition absorb_result :: "real \<Rightarrow> OperationRecord \<Rightarrow> ResultEnvelope \<Rightarrow> (RuntimeGateway, exn, unit) sem" where
  "absorb_result now record result g =
     (let sid = (case op_session_id record of None \<Rightarrow> [] | Some s \<Rightarrow> s);
          session_record = (if sid \<noteq> [] then SessionManager_find (g_sessions g) sid else None)
      in case session_record of
           Some sr \<Rightarrow>
             (case RuntimeGateway_finish now (session_id sr) (res_request_id result) result g of
                (Inl exc, g1) \<Rightarrow> (Inl exc, g1) | (Inr _, g1) \<Rightarrow> (Inr (), g1))
         | None \<Rightarrow>
             (case on_operations
                (if ResultEnvelope_ok result
                 then OperationRegistry_succeed now (res_request_id result) (res_value result)
                        (res_side_effect_applied result)
                 else OperationRegistry_fail now (res_request_id result)
                        (case res_error result of Some e \<Rightarrow> e | None \<Rightarrow> synthesize_error result)
                        (Some (res_side_effect_applied result))) g of
                (Inl exc, g1) \<Rightarrow> (Inl exc, g1) | (Inr _, g1) \<Rightarrow> (Inr (), g1)))"

definition absorb_late_result :: "real \<Rightarrow> ResultEnvelope \<Rightarrow> RuntimeGateway \<Rightarrow> RuntimeGateway" where
  "absorb_late_result now result g =
     (if res_operation result \<in> set CONTROL_PLANE_OPERATIONS then g
      else
        (let g1 = g\<lparr>g_late_result_count := g_late_result_count g + 1\<rparr>;
             orphan = (\<lambda>g. g\<lparr>g_orphan_result_count := g_orphan_result_count g + 1\<rparr>)
         in case OperationRegistry_find (g_operations g1) (res_request_id result) of
              None \<Rightarrow> orphan g1
            | Some record \<Rightarrow>
                if is_terminal record then orphan g1
                else (case absorb_result now record result g1 of
                        (Inl exc, g2) \<Rightarrow> orphan g2 | (Inr _, g2) \<Rightarrow> g2)))"

datatype cancel_step = CancelDone CancelOutcome | AwaitCancel OperationRecord CancelOutcome int

definition cancel_request_start ::
  "real \<Rightarrow> string \<Rightarrow> (RuntimeGateway, exn, cancel_step) sem" where
  "cancel_request_start now rid g =
     (case OperationRegistry_get rid (g_operations g) of
        Inl (RuntimeApiError info) \<Rightarrow>
          (Inr (CancelDone \<lparr>co_request_id = rid, co_state = O_OUTCOME_UNKNOWN,
                   co_side_effect_applied = False, co_message = err_message info\<rparr>), g)
      | Inl exc \<Rightarrow> (Inl exc, g)
      | Inr record \<Rightarrow>
          (case on_operations (OperationRegistry_request_cancel now rid) g of
             (Inl exc, g1) \<Rightarrow> (Inl exc, g1)
           | (Inr outcome, g1) \<Rightarrow>
               (case op_worker_rank record of
                  Some rank \<Rightarrow>
                    if co_state outcome \<noteq> O_RUNNING \<or> \<not> g_attached g1 then (Inr (CancelDone outcome), g1)
                    else (Inr (AwaitCancel record outcome rank), g1)
                | None \<Rightarrow> (Inr (CancelDone outcome), g1))))"

text \<open>\<open>str(detail.get("stage", "unknown"))\<close>: the text of a stage that is not a string is \<open>stage_text\<close>'s.\<close>

definition cancel_request_resume ::
  "(py \<Rightarrow> string) \<Rightarrow> string \<Rightarrow> OperationRecord \<Rightarrow> CancelOutcome \<Rightarrow> ResultEnvelope \<Rightarrow> RuntimeGateway
     \<Rightarrow> CancelOutcome" where
  "cancel_request_resume stage_text rid record outcome reply g =
     (let detail = (case res_value reply of PyDict d \<Rightarrow> d | _ \<Rightarrow> []);
          stage = (case dict_get detail ''stage'' of
                     None \<Rightarrow> ''unknown'' | Some (PyStr t) \<Rightarrow> t | Some v \<Rightarrow> stage_text v);
          now_record = OperationRegistry_find (g_operations g) rid;
          side = (case dict_get detail ''side_effect_applied'' of
                    Some v \<Rightarrow> py_truthy v
                  | None \<Rightarrow> (case now_record of Some r \<Rightarrow> op_side_effect_applied r
                              | None \<Rightarrow> op_side_effect_applied record));
          msg = (if py_truthy (dict_get_or detail ''cancelled'' PyNone)
                 then [Text ''cancel accepted at stage '', Repr stage, Text ''; no env step was started'']
                 else if side
                 then [Text ''env step already started (stage '', Repr stage,
                       Text ''); not rolled back, the operation will finish'']
                 else [Text ''cancel forwarded to env worker (stage '', Repr stage, Text '', best effort)''])
      in \<lparr>co_request_id = rid,
          co_state = (case now_record of Some r \<Rightarrow> op_state r | None \<Rightarrow> co_state outcome),
          co_side_effect_applied = side, co_message = msg\<rparr>)"

section \<open>Worker health, leases and maintenance\<close>

definition RuntimeGateway_register_env_worker ::
  "real \<Rightarrow> EnvWorkerInfo \<Rightarrow> RuntimeGateway \<Rightarrow> RuntimeGateway" where
  "RuntimeGateway_register_env_worker now info g =
     g\<lparr>g_workers := EnvWorkerRegistry_register now info (g_workers g)\<rparr>"

text \<open>The inner loop of \<open>_reap_stale_workers\<close> over the sessions of a rank; an exception ends it and
  the whole round.\<close>

fun lose_sessions :: "real \<Rightarrow> SessionRecord list \<Rightarrow> (RuntimeGateway, exn, unit) sem" where
  "lose_sessions now [] g = (Inr (), g)"
| "lose_sessions now (record # records) g =
     (if (case session_object g (session_id record) of Some r \<Rightarrow> s_state r | None \<Rightarrow> s_state record) = S_READY
      then (case on_sessions (SessionManager_mark_lost now (session_id record) None) g of
              (Inl exc, g1) \<Rightarrow> (Inl exc, g1)
            | (Inr _, g1) \<Rightarrow> lose_sessions now records g1)
      else lose_sessions now records g)"

fun reap_ranks_loop :: "real \<Rightarrow> int list \<Rightarrow> (RuntimeGateway, exn, unit) sem" where
  "reap_ranks_loop now [] g = (Inr (), g)"
| "reap_ranks_loop now (rank # ranks) g =
     (let g1 = g\<lparr>g_workers := EnvWorkerRegistry_mark_unhealthy rank (g_workers g)\<rparr>
      in case lose_sessions now (SessionManager_sessions_on_rank (g_sessions g1) rank) g1 of
           (Inl exc, g2) \<Rightarrow> (Inl exc, g2)
         | (Inr _, g2) \<Rightarrow> reap_ranks_loop now ranks g2)"

definition reap_stale_workers :: "real \<Rightarrow> (RuntimeGateway, exn, unit) sem" where
  "reap_stale_workers now g = reap_ranks_loop now (EnvWorkerRegistry_stale_ranks now (g_workers g)) g"

text \<open>Probing a rank: which ranks a round probes, and what a reply (or a timeout) does.\<close>

definition probe_targets :: "RuntimeGateway \<Rightarrow> int list" where
  "probe_targets g =
     (if \<not> g_attached g then []
      else filter (\<lambda>rank. rank \<notin> g_heartbeat_inflight g)
             (map WorkerEntry_worker_rank (dict_values (wr_entries (g_workers g)))))"

definition probe_rank_start :: "int \<Rightarrow> RuntimeGateway \<Rightarrow> RuntimeGateway" where
  "probe_rank_start rank g = g\<lparr>g_heartbeat_inflight := insert rank (g_heartbeat_inflight g)\<rparr>"

definition probe_rank_resume ::
  "real \<Rightarrow> int \<Rightarrow> EnvWorkerInfo option \<Rightarrow> RuntimeGateway \<Rightarrow> bool \<times> RuntimeGateway" where
  "probe_rank_resume now rank reply g =
     (case reply of
        None \<Rightarrow> (False, g\<lparr>g_heartbeat_failure_count := g_heartbeat_failure_count g + 1,
                         g_heartbeat_inflight := g_heartbeat_inflight g - {rank}\<rparr>)
      | Some info \<Rightarrow>
          (True, g\<lparr>g_workers := EnvWorkerRegistry_register now info (g_workers g),
                   g_heartbeat_ok_count := g_heartbeat_ok_count g + 1,
                   g_heartbeat_inflight := g_heartbeat_inflight g - {rank}\<rparr>))"

text \<open>One session of \<open>recover_expired_sessions\<close>: a busy one is marked, an idle one is closed. The
  result says whether its identifier is reported.\<close>

definition recover_one :: "real \<Rightarrow> SessionRecord \<Rightarrow> RuntimeGateway \<Rightarrow> bool \<times> RuntimeGateway" where
  "recover_one now record g =
     (let r = (case session_object g (session_id record) of Some r \<Rightarrow> r | None \<Rightarrow> record) in
      if active_operation r \<noteq> None then (False, put_session_object (r\<lparr>reap_pending := True\<rparr>) g)
      else (case close_session now (session_id record) g of (outcome, g1) \<Rightarrow> (is_ok outcome, g1)))"

fun recover_loop :: "real \<Rightarrow> SessionRecord list \<Rightarrow> RuntimeGateway \<Rightarrow> string list \<times> RuntimeGateway" where
  "recover_loop now [] g = ([], g)"
| "recover_loop now (record # records) g =
     (case recover_one now record g of
        (reported, g1) \<Rightarrow>
          (case recover_loop now records g1 of
             (rest, g2) \<Rightarrow> (if reported then session_id record # rest else rest, g2)))"

definition recover_expired_sessions :: "real \<Rightarrow> RuntimeGateway \<Rightarrow> string list \<times> RuntimeGateway" where
  "recover_expired_sessions now g =
     recover_loop now (SessionManager_expired_sessions now (g_sessions g)) g"

definition purge_sessions :: "real \<Rightarrow> RuntimeGateway \<Rightarrow> RuntimeGateway" where
  "purge_sessions now g =
     (case SessionManager_purge_terminal now (g_sessions g) of
        (r, m) \<Rightarrow>
          g\<lparr>g_sessions := m,
            g_detached := foldl (\<lambda>d (sid, r). dict_set d sid r) (g_detached g)
              (filter (\<lambda>(sid, r). purgeable now (g_sessions g) r) (sm_sessions (g_sessions g)))\<rparr>)"

definition purge_operations :: "real \<Rightarrow> RuntimeGateway \<Rightarrow> RuntimeGateway" where
  "purge_operations now g = snd (on_operations (OperationRegistry_purge now) g)"

text \<open>One round of \<open>_maintenance_loop\<close> that no other coroutine interrupts; an exception skips the rest
  of the round.\<close>

definition maintenance_round :: "real \<Rightarrow> RuntimeGateway \<Rightarrow> RuntimeGateway" where
  "maintenance_round now g =
     (case reap_stale_workers now (snd (recover_expired_sessions now g)) of
        (Inl exc, g1) \<Rightarrow> g1
      | (Inr _, g1) \<Rightarrow> purge_sessions now (purge_operations now g1))"

datatype renew_step = RenewDone "SessionStatus Result" | AwaitRenew SessionRecord int

definition renew_session :: "real \<Rightarrow> string \<Rightarrow> real \<Rightarrow> RuntimeGateway \<Rightarrow> renew_step \<times> RuntimeGateway" where
  "renew_session now sid lease_seconds g =
     (case on_sessions (SessionManager_renew now now sid lease_seconds None) g of
        (Inl exc, g1) \<Rightarrow> (RenewDone (api_error exc), g1)
      | (Inr record, g1) \<Rightarrow>
          (case worker_rank record of
             Some rank \<Rightarrow> if g_attached g1 then (AwaitRenew record rank, g1)
                          else (RenewDone (Ok (SessionRecord_status record)), g1)
           | None \<Rightarrow> (RenewDone (Ok (SessionRecord_status record)), g1)))"

definition renew_session_resume :: "SessionRecord \<Rightarrow> RuntimeGateway \<Rightarrow> SessionStatus Result" where
  "renew_session_resume record g =
     Ok (SessionRecord_status
       (case session_object g (session_id record) of Some r \<Rightarrow> r | None \<Rightarrow> record))"

end
