(* ===== verification/Gateway_Accounting.thy ===== *)
theory Gateway_Accounting
  imports Gateway
begin

text \<open>
  What a session costs and when it is given back: the Gateway takes one unit of the application's
  session quota and one unit of a rank's load per session. The lemmas follow a call of
  \<open>_create_session\<close> through its retry loop; the properties are that the loop ends, that a failed call
  takes nothing, that creating and closing cancel out, and a path on which the books do not balance.
\<close>

section \<open>Accounting of sessions\<close>

abbreviation quota :: "RuntimeGateway \<Rightarrow> string \<Rightarrow> int" where
  "quota g app \<equiv> count_of (ac_sessions (g_admission g)) app"

abbreviation load :: "RuntimeGateway \<Rightarrow> int \<Rightarrow> int" where
  "load g rank \<equiv> rank_load (g_workers g) rank"

abbreviation ranks :: "RuntimeGateway \<Rightarrow> int set" where
  "ranks g \<equiv> set (dict_keys (wr_entries (g_workers g)))"

text \<open>What one session costs: a unit of its application's quota and a unit of its rank's load.\<close>

definition unit_of :: "'a \<Rightarrow> 'a \<Rightarrow> int" where
  "unit_of x y = (if x = y then 1 else 0)"

lemma keys_put_known:
  "dict_get (wr_entries w) rank \<noteq> None \<Longrightarrow> dict_keys (wr_entries (put_entry rank e w)) = dict_keys (wr_entries w)"
  by (simp add: put_entry_def dict_set_keys_known)

lemma update_known_keys [simp]:
  "dict_keys (wr_entries (update_known rank f w)) = dict_keys (wr_entries w)"
  by (cases "dict_get (wr_entries w) rank") (simp_all add: update_known_def keys_put_known)

lemma release_load:
  "wr_ok w \<Longrightarrow> rank_load (EnvWorkerRegistry_release rank b w) k =
     (if k = rank then max 0 (rank_load w k - 1) else rank_load w k)"
  by (cases "dict_get (wr_entries w) rank")
    (auto simp: EnvWorkerRegistry_release_def update_known_def put_entry_def rank_load_def)

lemma mark_cannot_load [simp]:
  "rank_load (EnvWorkerRegistry_mark_cannot_create_slot rank w) k = rank_load w k"
  by (cases "dict_get (wr_entries w) rank")
    (auto simp: EnvWorkerRegistry_mark_cannot_create_slot_def update_known_def put_entry_def rank_load_def)

lemma rank_load_nonneg: "wr_ok w \<Longrightarrow> 0 \<le> rank_load w k"
  by (auto simp: rank_load_def wr_ok_def split: option.split)

lemma worker_keys [simp]:
  "dict_keys (wr_entries (EnvWorkerRegistry_release rank b w)) = dict_keys (wr_entries w)"
  "dict_keys (wr_entries (EnvWorkerRegistry_mark_cannot_create_slot rank w)) = dict_keys (wr_entries w)"
  by (simp_all add: EnvWorkerRegistry_release_def EnvWorkerRegistry_mark_cannot_create_slot_def)

lemma acquire_gateway:
  assumes "wr_ok (g_workers g)" "rank \<in> ranks g"
  obtains w where "on_workers (EnvWorkerRegistry_acquire rank digest) g = (Inr (), g\<lparr>g_workers := w\<rparr>)"
    "wr_ok w" "\<And>k. rank_load w k = load g k + unit_of rank k"
    "dict_keys (wr_entries w) = dict_keys (wr_entries (g_workers g))"
proof -
  obtain e where e: "dict_get (wr_entries (g_workers g)) rank = Some e"
    using assms(2) by (auto simp: dict_keys_iff)
  define w where "w = snd (EnvWorkerRegistry_acquire rank digest (g_workers g))"
  have "on_workers (EnvWorkerRegistry_acquire rank digest) g = (Inr (), g\<lparr>g_workers := w\<rparr>)"
    "rank_load w k = load g k + unit_of rank k"
    "dict_keys (wr_entries w) = dict_keys (wr_entries (g_workers g))" for k
    using e by (auto simp: on_workers_def acquire_known w_def keys_put_known unit_of_def)
      (auto simp: rank_load_def put_entry_def)
  moreover have "wr_ok w" unfolding w_def using assms(1) by (rule wr_ok_operations)
  ultimately show ?thesis using that by blast
qed

lemma release_quota:
  "counter_ok (ac_sessions a) \<Longrightarrow>
     counter_ok (ac_sessions (AdmissionController_release_session app a))
     \<and> count_of (ac_sessions (AdmissionController_release_session app a)) k
       = (if k = app then max 0 (count_of (ac_sessions a) k - 1) else count_of (ac_sessions a) k)"
  by (simp add: release_session_eq counter_ok_dec le1_ledger.count_release)

text \<open>A session that is being created by the running call.\<close>

definition being_created :: "string \<Rightarrow> string \<Rightarrow> SessionManager \<Rightarrow> bool" where
  "being_created sid app m \<longleftrightarrow>
     (\<exists>r. dict_get (sm_sessions m) sid = Some r \<and> s_state r = S_CREATING \<and> session_id r = sid
        \<and> application_id r = app \<and> worker_rank r = None)"

text \<open>Where a call of \<open>_create_session\<close> stands, measured against the Gateway \<open>g0\<close> it started from: it
  has taken one unit of quota and, while it awaits a rank, one unit of that rank's load; when it
  fails it has given everything back and the session has failed; when it succeeds the session is
  ready on the rank that carries its load.\<close>

fun creation_state :: "RuntimeGateway \<Rightarrow> string \<Rightarrow> string \<Rightarrow> create_step \<Rightarrow> RuntimeGateway \<Rightarrow> bool" where
  "creation_state g0 app sid (CreateDone (Err e)) g \<longleftrightarrow>
     (\<forall>a. quota g a = quota g0 a) \<and> (\<forall>k. load g k = load g0 k)
     \<and> (\<exists>r. dict_get (sm_sessions (g_sessions g)) sid = Some r \<and> s_state r = S_FAILED
          \<and> application_id r = app \<and> session_id r = sid \<and> s_error r = Some e \<and> worker_rank r = None)"
| "creation_state g0 app sid (CreateDone (Ok h)) g \<longleftrightarrow>
     h_session_id h = sid \<and> (\<forall>a. quota g a = quota g0 a + unit_of app a)
     \<and> (\<exists>r rank. dict_get (sm_sessions (g_sessions g)) sid = Some r \<and> s_state r = S_READY
          \<and> application_id r = app \<and> session_id r = sid \<and> worker_rank r = Some rank
          \<and> (\<forall>k. load g k = load g0 k + unit_of rank k))"
| "creation_state g0 app sid (AwaitBinding record rank attempted lasterr) g \<longleftrightarrow>
     session_id record = sid \<and> being_created sid app (g_sessions g) \<and> rank \<in> ranks g - attempted
     \<and> (\<forall>a. quota g a = quota g0 a + unit_of app a) \<and> (\<forall>k. load g k = load g0 k + unit_of rank k)"

lemma fail_creating:
  assumes "dict_get (sm_sessions m) sid = Some r" "s_state r = S_CREATING"
  shows "SessionManager_fail now sid e m =
    (Inr (transitioned now S_FAILED (Some e) r), put_session (transitioned now S_FAILED (Some e) r) m)"
  using assms by (simp add: SessionManager_fail_def SessionManager_transition_def Let_def)

lemma transitioned_more [simp]:
  "application_id (transitioned now t e r) = application_id r"
  "worker_rank (transitioned now t e r) = worker_rank r"
  "binding_token (transitioned now t e r) = binding_token r"
  "active_operation (transitioned now t e r) = active_operation r"
  "s_error (transitioned now t (Some x) r) = Some x"
  by (simp_all add: transitioned_def Let_def split: option.split)

text \<open>Between two attempts: the call holds its unit of quota and no load.\<close>

definition between_attempts :: "RuntimeGateway \<Rightarrow> string \<Rightarrow> string \<Rightarrow> RuntimeGateway \<Rightarrow> bool" where
  "between_attempts g0 app sid g \<longleftrightarrow>
     being_created sid app (g_sessions g) \<and> counter_ok (ac_sessions (g_admission g))
     \<and> wr_ok (g_workers g) \<and> ranks g = ranks g0
     \<and> (\<forall>a. quota g a = quota g0 a + unit_of app a) \<and> (\<forall>a. 0 \<le> quota g0 a)
     \<and> (\<forall>k. load g k = load g0 k)"

definition creation_ok :: "RuntimeGateway \<Rightarrow> string \<Rightarrow> string \<Rightarrow> create_step \<times> RuntimeGateway \<Rightarrow> bool" where
  "creation_ok g0 app sid sg \<longleftrightarrow>
     creation_state g0 app sid (fst sg) (snd sg) \<and> wr_ok (g_workers (snd sg))
     \<and> counter_ok (ac_sessions (g_admission (snd sg))) \<and> ranks (snd sg) = ranks g0"

lemma create_failed_ok:
  assumes "between_attempts g0 app sid g"
  shows "creation_ok g0 app sid (create_failed now tb app (Some sid) lasterr exc g)
    \<and> (\<exists>e. fst (create_failed now tb app (Some sid) lasterr exc g) = CreateDone (Err e))"
proof -
  obtain r where r: "dict_get (sm_sessions (g_sessions g)) sid = Some r" "s_state r = S_CREATING"
      "session_id r = sid" "application_id r = app" "worker_rank r = None"
    using assms by (auto simp: between_attempts_def being_created_def)
  define info where "info = (let i = normalize_exception tb E_INTERNAL False True exc in
     case lasterr of Some e \<Rightarrow> if is_resource_exhausted i then e else i | None \<Rightarrow> i)"
  define g' where "g' = g\<lparr>g_admission := AdmissionController_release_session app (g_admission g),
     g_sessions := put_session (transitioned now S_FAILED (Some info) r) (g_sessions g)\<rparr>"
  have eq: "create_failed now tb app (Some sid) lasterr exc g = (CreateDone (Err info), g')"
    using r(1,2) fail_creating [OF r(1,2)]
    by (simp add: create_failed_def Let_def info_def g'_def session_object_def on_sessions_def)
  have q: "counter_ok (ac_sessions (g_admission g))" "\<And>a. quota g a = quota g0 a + unit_of app a"
    "\<And>a. 0 \<le> quota g0 a" using assms by (auto simp: between_attempts_def)
  have "creation_state g0 app sid (CreateDone (Err info)) g'"
    using r release_quota [OF q(1), of app] q(2,3) assms
    by (simp add: g'_def unit_of_def between_attempts_def)
  then show ?thesis
    using release_quota [OF q(1)] assms unfolding eq creation_ok_def
    by (simp add: g'_def between_attempts_def)
qed

lemma select_rank_registered:
  "wr_ok (g_workers g) \<Longrightarrow> EnvWorkerRegistry_select_rank spec attempted (g_workers g) = Inr rank \<Longrightarrow>
     rank \<in> ranks g - attempted"
  using select_rank_least(1) by (fastforce simp: eligible_def dict_keys_iff)

lemma create_attempt_ok:
  assumes base: "between_attempts g0 app sid g" and sid: "session_id record = sid"
  shows "creation_ok g0 app sid (create_attempt now tb app record attempted lasterr g)
    \<and> (\<forall>r rank att e. fst (create_attempt now tb app record attempted lasterr g) = AwaitBinding r rank att e \<longrightarrow>
         r = record \<and> att = attempted)"
proof (cases "EnvWorkerRegistry_select_rank (env_spec record) attempted (g_workers g)")
  case (Inl exc)
  with create_failed_ok [OF base, of now tb lasterr exc] sid show ?thesis
    by (auto simp: create_attempt_def)
next
  case (Inr rank)
  have wr: "wr_ok (g_workers g)" using base by (simp add: between_attempts_def)
  have rank: "rank \<in> ranks g - attempted" using select_rank_registered [OF wr Inr] .
  then obtain w where acq: "on_workers (EnvWorkerRegistry_acquire rank (env_spec_digest record)) g
        = (Inr (), g\<lparr>g_workers := w\<rparr>)"
    and w: "wr_ok w" "\<And>k. rank_load w k = load g k + unit_of rank k"
      "dict_keys (wr_entries w) = dict_keys (wr_entries (g_workers g))"
    using acquire_gateway [OF wr] by blast
  show ?thesis
  proof (cases "g_attached g")
    case True
    then have "create_attempt now tb app record attempted lasterr g
        = (AwaitBinding record rank attempted lasterr, g\<lparr>g_workers := w\<rparr>)"
      using Inr acq by (simp add: create_attempt_def)
    then show ?thesis
      using base rank w sid by (simp add: creation_ok_def between_attempts_def)
  next
    case False
    define g1 where "g1 = g\<lparr>g_workers := EnvWorkerRegistry_release rank False w\<rparr>"
    have "between_attempts g0 app sid g1"
      using base w release_load [OF w(1), of rank False] rank_load_nonneg [OF wr]
      by (simp add: between_attempts_def g1_def wr_ok_operations unit_of_def)
    note failed = create_failed_ok [OF this]
    have "create_attempt now tb app record attempted lasterr g = create_failed now tb app (Some sid) lasterr
        (RuntimeApiError (make_error E_WORKER_LOST
          [Text ''gateway has no transport attached; call attach_transport first''] [])) g1"
      using False Inr acq sid by (simp add: create_attempt_def g1_def)
    with failed show ?thesis by (metis create_step.distinct(1))
  qed
qed

lemma create_resume_ok:
  assumes state: "creation_ok g0 app sid (AwaitBinding record rank attempted lasterr, g)"
    and nonneg: "\<And>a. 0 \<le> quota g0 a" "\<And>k. 0 \<le> load g0 k"
  shows "creation_ok g0 app sid (create_session_resume now tb app record rank attempted lasterr result g)
    \<and> (\<forall>r k att e. fst (create_session_resume now tb app record rank attempted lasterr result g)
          = AwaitBinding r k att e \<longrightarrow> att = insert rank attempted)"
proof -
  have sid: "session_id record = sid" and created: "being_created sid app (g_sessions g)"
    and wr: "wr_ok (g_workers g)" and rank: "rank \<in> ranks g"
    and q: "\<And>a. quota g a = quota g0 a + unit_of app a"
    and l: "\<And>k. load g k = load g0 k + unit_of rank k"
    using state by (auto simp: creation_ok_def)
  let ?g1 = "g\<lparr>g_workers := EnvWorkerRegistry_release rank False (g_workers g)\<rparr>"
  let ?g2 = "?g1\<lparr>g_workers := EnvWorkerRegistry_mark_cannot_create_slot rank (g_workers ?g1)\<rparr>"
  have given_back: "between_attempts g0 app sid ?g1"
    using state created wr q l nonneg release_load [OF wr, of rank False]
    by (simp add: between_attempts_def creation_ok_def wr_ok_operations unit_of_def)
  then have given_back2: "between_attempts g0 app sid ?g2"
    by (simp add: between_attempts_def wr_ok_operations)
  show ?thesis
  proof (cases "binding_reply rank result")
    case (Inl exc)
    show ?thesis
    proof (cases "is_resource_exhausted (normalize_exception tb E_INTERNAL False True exc)")
      case True
      with Inl have eq: "create_session_resume now tb app record rank attempted lasterr result g =
          create_attempt now tb app record (insert rank attempted)
            (Some (normalize_exception tb E_INTERNAL False True exc)) ?g2"
        by (simp add: create_session_resume_def Let_def)
      show ?thesis unfolding eq using create_attempt_ok [OF given_back2 sid] by blast
    next
      case False
      with Inl sid have eq: "create_session_resume now tb app record rank attempted lasterr result g =
          create_failed now tb app (Some sid) lasterr exc ?g1"
        by (simp add: create_session_resume_def Let_def)
      show ?thesis unfolding eq using create_failed_ok [OF given_back] by (metis create_step.distinct(1))
    qed
  next
    case (Inr token)
    obtain r where r: "dict_get (sm_sessions (g_sessions g)) sid = Some r" "s_state r = S_CREATING"
      "session_id r = sid" "application_id r = app"
      using created by (auto simp: being_created_def)
    define r1 where "r1 = transitioned now S_READY None (r\<lparr>worker_rank := Some rank, binding_token := Some token\<rparr>)"
    have "SessionManager_commit_binding now sid rank token None (g_sessions g) =
        (Inr r1, put_session r1 (put_session (r\<lparr>worker_rank := Some rank, binding_token := Some token\<rparr>)
           (g_sessions g)))"
      using r by (simp add: SessionManager_commit_binding_def SessionManager_transition_def Let_def r1_def)
    then have "create_session_resume now tb app record rank attempted lasterr result g =
        (CreateDone (Ok (SessionRecord_handle r1)),
         g\<lparr>g_sessions := put_session r1 (put_session (r\<lparr>worker_rank := Some rank, binding_token := Some token\<rparr>)
           (g_sessions g))\<rparr>)"
      using Inr sid by (simp add: create_session_resume_def on_sessions_def)
    moreover have "session_id r1 = sid" "application_id r1 = app" "s_state r1 = S_READY"
      "worker_rank r1 = Some rank"
      using r by (simp_all add: r1_def)
    ultimately show ?thesis
      using state q l by (simp add: creation_ok_def SessionRecord_handle_def)
  qed
qed

text \<open>The loop ends: every turn tries a rank that has not been tried in this call.\<close>

fun attempts_of :: "create_step \<Rightarrow> int set" where
  "attempts_of (CreateDone r) = {}"
| "attempts_of (AwaitBinding record rank attempted lasterr) = attempted"

lemma create_loop_returns:
  assumes "creation_ok g0 app sid (step, g)" "\<And>a. 0 \<le> quota g0 a" "\<And>k. 0 \<le> load g0 k"
    and "card (ranks g0 - attempts_of step) \<le> fuel"
  shows "\<exists>r g'. create_loop fuel now tb app reply (step, g) = Some (r, g')
    \<and> creation_ok g0 app sid (CreateDone r, g')"
  using assms
proof (induction fuel arbitrary: step g)
  case 0
  then show ?case
    by (cases step) (auto simp: creation_ok_def)
next
  case (Suc fuel)
  show ?case
  proof (cases step)
    case (CreateDone r)
    with Suc.prems(1) show ?thesis by auto
  next
    case here: (AwaitBinding rec rank attempted lasterr)
    obtain step' g' where next_step:
      "create_session_resume now tb app rec rank attempted lasterr (reply rank) g = (step', g')"
      by fastforce
    from create_resume_ok [OF Suc.prems(1) [unfolded here] Suc.prems(2,3), of now tb "reply rank"]
    have ok: "creation_ok g0 app sid (step', g')"
      and att: "\<And>r k a e. step' = AwaitBinding r k a e \<Longrightarrow> a = insert rank attempted"
      by (auto simp: next_step)
    have rank: "rank \<in> ranks g0 - attempted"
      using Suc.prems(1) here by (auto simp: creation_ok_def)
    have smaller: "card (ranks g0 - attempts_of step') \<le> fuel" if "step' = AwaitBinding r k a e" for r k a e
    proof -
      have "ranks g0 - attempts_of step' \<subset> ranks g0 - attempts_of step"
        using rank att [OF that] that here by auto
      then have "card (ranks g0 - attempts_of step') < card (ranks g0 - attempts_of step)"
        by (intro psubset_card_mono) simp_all
      with Suc.prems(4) show ?thesis by simp
    qed
    have "\<exists>r g''. create_loop fuel now tb app reply (step', g') = Some (r, g'')
        \<and> creation_ok g0 app sid (CreateDone r, g'')"
    proof (cases step')
      case (CreateDone r)
      with ok show ?thesis by auto
    next
      case (AwaitBinding r k a e)
      then show ?thesis
        using Suc.IH [OF ok Suc.prems(2,3)] smaller by blast
    qed
    then show ?thesis by (simp add: here next_step)
  qed
qed

text \<open>How a call starts.\<close>

lemma create_start_cases:
  assumes wr: "wr_ok (g_workers g)" and counter: "counter_ok (ac_sessions (g_admission g))"
  obtains (refused) e g' where "create_session_start H now tb fresh request g = (CreateDone (Err e), g')"
      "\<And>a. quota g' a = quota g a" "g_workers g' = g_workers g" "g_sessions g' = g_sessions g"
  | (known) r g' where "create_session_start H now tb fresh request g = (CreateDone (Ok (SessionRecord_handle r)), g')"
      "\<exists>sid. dict_get (sm_sessions (g_sessions g)) sid = Some r" "\<And>a. quota g' a = quota g a" "g_workers g' = g_workers g" "g_sessions g' = g_sessions g"
  | (created) "creation_ok g (req_application_id request) fresh
        (create_session_start H now tb fresh request g)"
      "card (ranks g - attempts_of (fst (create_session_start H now tb fresh request g)))
         \<le> length (wr_entries (g_workers g))"
proof -
  let ?app = "req_application_id request"
  have card: "card (ranks g - X) \<le> length (wr_entries (g_workers g))" for X
    by (metis card_length card_mono Diff_subset dict_keys_def finite_set le_trans length_map)
  show thesis
  proof (cases rule: admit_session_cases [of ?app "req_auth_token request" "g_admission g"])
    case (refused info code)
    then have "create_session_start H now tb fresh request g = (CreateDone (Err info),
        g\<lparr>g_admission := (g_admission g)\<lparr>ac_rejected :=
           counter_inc (ac_rejected (g_admission g)) (ErrorCode_name code)\<rparr>\<rparr>)"
      by (simp add: create_session_start_def on_admission_def)
    then show ?thesis by (rule that(1)) simp_all
  next
    case admitted
    define g1 where "g1 = g\<lparr>g_admission := (g_admission g)
        \<lparr>ac_sessions := counter_inc (ac_sessions (g_admission g)) ?app\<rparr>\<rparr>"
    have adm: "on_admission (AdmissionController_admit_session ?app (req_auth_token request)) g = (Inr (), g1)"
      using admitted(1) by (simp add: on_admission_def g1_def)
    have ok1: "counter_ok (ac_sessions (g_admission g1))"
      and q1: "quota g1 a = quota g a + unit_of ?app a" for a
      using counter by (auto simp: g1_def counter_ok_inc le1_ledger.count_acquire unit_of_def)
    have restored: "count_of (ac_sessions (AdmissionController_release_session ?app (g_admission g1))) a
        = quota g a" for a
      using release_quota [OF ok1, of ?app a] q1 [of a] count_of_nonneg [OF counter, of a]
      by (cases "a = ?app") (auto simp: unit_of_def)
    obtain res m where create: "SessionManager_create H now fresh None request (g_sessions g1) = (res, m)"
      by fastforce
    consider (error) exc where "res = Inl exc" "m = g_sessions g1"
      | (existing) r where "res = Inr (r, False)" "m = g_sessions g1"
          "\<exists>sid. dict_get (sm_sessions (g_sessions g1)) sid = Some r"
      | (new) r where "res = Inr (r, True)" "dict_get (sm_sessions m) fresh = Some r" "session_id r = fresh"
          "s_state r = S_CREATING" "application_id r = ?app" "worker_rank r = None"
      using create
      by (auto simp: SessionManager_create_def register_session_def Let_def new_session_record_def
          split: if_splits option.splits)
    then show ?thesis
    proof cases
      case (error exc)
      define g' where "g' = g1\<lparr>g_admission := AdmissionController_release_session ?app (g_admission g1)\<rparr>"
      have "create_session_start H now tb fresh request g =
          (CreateDone (Err (normalize_exception tb E_INTERNAL False True exc)), g')"
        using error create adm by (simp add: create_session_start_def on_sessions_def create_failed_def
            Let_def g'_def)
      then show ?thesis by (rule that(1)) (use restored in \<open>simp_all add: g'_def g1_def\<close>)
    next
      case (existing r)
      define g' where "g' = g1\<lparr>g_admission := AdmissionController_release_session ?app (g_admission g1)\<rparr>"
      have "create_session_start H now tb fresh request g =
          (CreateDone (Ok (SessionRecord_handle r)), g')"
        using existing create adm by (simp add: create_session_start_def on_sessions_def g'_def)
      then show ?thesis by (rule that(2)) (use existing(3) restored in \<open>simp_all add: g'_def g1_def\<close>)
    next
      case (new r)
      let ?g2 = "g1\<lparr>g_sessions := m\<rparr>"
      have "between_attempts g ?app fresh ?g2"
        using new ok1 q1 wr count_of_nonneg [OF counter]
        by (auto simp: between_attempts_def being_created_def g1_def)
      moreover have eq: "create_session_start H now tb fresh request g = create_attempt now tb ?app r {} None ?g2"
        using new(1) create adm by (simp add: create_session_start_def on_sessions_def)
      ultimately show ?thesis using create_attempt_ok new(3) card by (intro that(3)) auto
    qed
  qed
qed

lemma create_session_result:
  assumes wr: "wr_ok (g_workers g)" and counter: "counter_ok (ac_sessions (g_admission g))"
    and fuel: "length (wr_entries (g_workers g)) \<le> fuel"
  obtains (refused) e g' where "create_session fuel H now tb fresh reply request g = Some (Err e, g')"
      "\<And>a. quota g' a = quota g a" "\<And>k. load g' k = load g k" "g_sessions g' = g_sessions g"
  | (known) r g' where "create_session fuel H now tb fresh reply request g = Some (Ok (SessionRecord_handle r), g')"
      "\<exists>sid. dict_get (sm_sessions (g_sessions g)) sid = Some r" "\<And>a. quota g' a = quota g a" "\<And>k. load g' k = load g k" "g_sessions g' = g_sessions g"
  | (run) r g' where "create_session fuel H now tb fresh reply request g = Some (r, g')"
      "creation_ok g (req_application_id request) fresh (CreateDone r, g')"
  using wr counter
proof (cases rule: create_start_cases [where H = H and now = now and tb = tb
      and fresh = fresh and request = request])
  case (refused e g')
  then show ?thesis by (intro that(1) [of e g']) (simp_all add: create_session_def)
next
  case (known r g')
  then show ?thesis by (intro that(2) [of r g']) (simp_all add: create_session_def)
next
  case created
  obtain step g1 where start: "create_session_start H now tb fresh request g = (step, g1)" by fastforce
  from create_loop_returns [OF created(1) [unfolded start], of fuel now tb reply] created(2) fuel start
  show ?thesis
    using that(3) count_of_nonneg [OF counter] rank_load_nonneg [OF wr] by (auto simp: create_session_def)
qed

section \<open>Closing\<close>

lemma close_finish_effect:
  assumes r: "dict_get (sm_sessions (g_sessions g)) sid = Some r" "session_id r = sid"
    and state: "s_state r \<in> {S_CLOSING, S_FAILED, S_LOST}"
    and ok: "counter_ok (ac_sessions (g_admission g))" "wr_ok (g_workers g)"
  obtains g' where "close_session_finish now sid g = (Ok (), g')"
    "\<forall>a. quota g' a = (if a = application_id r then max 0 (quota g a - 1) else quota g a)"
    "\<forall>k. load g' k = (if worker_rank r = Some k then max 0 (load g k - 1) else load g k)"
    "map_option s_state (dict_get (sm_sessions (g_sessions g')) sid) = Some S_CLOSED"
proof -
  define r' where "r' = transitioned now S_CLOSED None r"
  have fin: "SessionManager_finish_close now sid (g_sessions g) = (Inr r', put_session r' (g_sessions g))"
    using r state by (auto simp: SessionManager_finish_close_def SessionManager_transition_def r'_def Let_def)
  define w where "w = (case worker_rank r of None \<Rightarrow> g_workers g
     | Some rank \<Rightarrow> EnvWorkerRegistry_release rank True (g_workers g))"
  define a where "a = AdmissionController_release_session (application_id r)
     (AdmissionController_forget_session sid (g_admission g))"
  have "close_session_finish now sid g =
      (Ok (), g\<lparr>g_sessions := put_session r' (g_sessions g), g_workers := w, g_admission := a\<rparr>)"
    using fin by (cases "worker_rank r")
      (simp_all add: close_session_finish_def on_sessions_def r'_def w_def a_def Let_def)
  moreover have "rank_load w k = (if worker_rank r = Some k then max 0 (load g k - 1) else load g k)" for k
    using release_load [OF ok(2)] by (cases "worker_rank r") (auto simp: w_def)
  moreover have "count_of (ac_sessions a) b
      = (if b = application_id r then max 0 (quota g b - 1) else quota g b)" for b
    using release_quota [of "AdmissionController_forget_session sid (g_admission g)"] ok(1)
    by (simp add: a_def AdmissionController_forget_session_def Let_def)
  ultimately show ?thesis
    using that r by (simp add: r'_def)
qed

lemma close_session_dead:
  assumes "dict_get (sm_sessions (g_sessions g)) sid = Some r" "s_state r \<in> {S_FAILED, S_LOST}"
  shows "close_session now sid g = close_session_finish now sid g"
  using assms by (auto simp: close_session_def close_session_start_def close_session_resume_def close_done_def
      split: option.split)

lemma close_session_ready:
  assumes "dict_get (sm_sessions (g_sessions g)) sid = Some r" "s_state r = S_READY"
  shows "close_session now sid g = close_session_finish now sid
    (g\<lparr>g_sessions := put_session (transitioned now S_CLOSING None r) (g_sessions g)\<rparr>)"
  using assms
  by (cases "worker_rank r")
    (auto simp: close_session_def close_session_start_def close_session_resume_def close_done_def
      SessionManager_begin_close_def SessionManager_transition_def on_sessions_def Let_def)

section \<open>Properties\<close>

text \<open>A Gateway with two ranks, and workers that accept or refuse a binding.\<close>

definition demo_gateway :: RuntimeGateway where
  "demo_gateway =
     (RuntimeGateway_init True default_admission_config 1 P_INTERACTIVE 600 300 30 300)
       \<lparr>g_workers := demo_workers\<rparr>"

definition demo_create :: CreateSessionRequest where
  "demo_create =
     \<lparr>req_application_id = ''app'', req_client_session_key = [], req_env_spec = demo_spec,
      req_default_policy_id = None, req_lease_seconds = 60, req_metadata = [], req_auth_token = None\<rparr>"

definition accepts :: "int \<Rightarrow> ResultEnvelope" where
  "accepts rank = \<lparr>res_request_id = ''q'', res_session_id = Some ''s'', res_operation = Op_CREATE_BINDING,
     res_state = O_SUCCEEDED, res_value = PyStr ''token'', res_error = None,
     res_side_effect_applied = False, res_worker_summary = None\<rparr>"

definition out_of_memory :: "int \<Rightarrow> ResultEnvelope" where
  "out_of_memory rank = (accepts rank)\<lparr>res_state := O_FAILED,
     res_error := Some (make_error E_RESOURCE_EXHAUSTED [Text ''OOM''] [])\<rparr>"

lemma demo_gateway_ok:
  "wr_ok (g_workers demo_gateway)" "counter_ok (ac_sessions (g_admission demo_gateway))"
  by (simp_all add: demo_gateway_def demo_workers_ok RuntimeGateway_init_def AdmissionController_init_def)

lemma demo_gateway_empty:
  "dict_get (sm_sessions (g_sessions demo_gateway)) sid = None" "length (wr_entries (g_workers demo_gateway)) = 2"
  "quota demo_gateway a = 0"
  by (simp_all add: demo_gateway_def RuntimeGateway_init_def SessionManager_init_def
      AdmissionController_init_def demo_workers_entries)

text \<open>C24: creating a session always comes to an end. The retry loop over ranks that run out of
  resources tries each registered rank at most once, so with as many turns as there are ranks the
  call has returned, whatever the workers answer.\<close>

theorem create_session_returns:
  assumes "wr_ok (g_workers g)" "counter_ok (ac_sessions (g_admission g))"
    and "length (wr_entries (g_workers g)) \<le> fuel"
  shows "\<exists>r g'. create_session fuel H now tb fresh reply request g = Some (r, g')"
  using assms by (cases rule: create_session_result [where H = H and now = now and tb = tb
        and fresh = fresh and request = request and reply = reply]) auto

theorem create_session_returns_witness:
  "\<exists>r g'. create_session 2 (\<lambda>d p. ''d'') 0 [] ''s'' out_of_memory demo_create demo_gateway = Some (r, g')"
  by (rule create_session_returns [OF demo_gateway_ok]) (simp add: demo_gateway_empty)

text \<open>C1: the books of a creation. A call that fails leaves every application's session quota and the
  load of every rank as they were, however many ranks it tried. A call that succeeds either returns
  the handle of a session that already existed and changes nothing, or leaves a session that is ready
  on one rank, with exactly one unit added to its application's quota and to that rank's load.\<close>

theorem create_session_accounting:
  assumes "wr_ok (g_workers g)" "counter_ok (ac_sessions (g_admission g))"
    and "length (wr_entries (g_workers g)) \<le> fuel"
    and "create_session fuel H now tb fresh reply request g = Some (r, g')"
  shows "case r of
      Err e \<Rightarrow> (\<forall>a. quota g' a = quota g a) \<and> (\<forall>k. load g' k = load g k)
    | Ok h \<Rightarrow> (\<forall>a. quota g' a = quota g a) \<and> (\<forall>k. load g' k = load g k) \<and> g_sessions g' = g_sessions g
        \<or> (\<exists>s rank. dict_get (sm_sessions (g_sessions g')) (h_session_id h) = Some s
             \<and> s_state s = S_READY \<and> worker_rank s = Some rank
             \<and> (\<forall>a. quota g' a = quota g a + (if a = req_application_id request then 1 else 0))
             \<and> (\<forall>k. load g' k = load g k + (if k = rank then 1 else 0)))"
  using assms(1-3)
proof (cases rule: create_session_result [where H = H and now = now and tb = tb
        and fresh = fresh and request = request and reply = reply])
  case (refused e g1)
  with assms(4) show ?thesis by auto
next
  case (known s g1)
  with assms(4) show ?thesis by auto
next
  case (run r1 g1)
  with assms(4) have same: "r1 = r" "g1 = g'" by simp_all
  show ?thesis
  proof (cases r)
    case (Ok h)
    with run(2) same show ?thesis by (auto simp: creation_ok_def unit_of_def)
  next
    case (Err e)
    with run(2) same show ?thesis by (auto simp: creation_ok_def)
  qed
qed

lemma demo_parts:
  "g_sessions demo_gateway = SessionManager_init 1 600 300" "g_workers demo_gateway = demo_workers"
  "g_admission demo_gateway = AdmissionController_init default_admission_config" "g_attached demo_gateway"
  by (simp_all add: demo_gateway_def RuntimeGateway_init_def)

lemma demo_admitted:
  "AdmissionController_admit_session ''app'' None (AdmissionController_init default_admission_config)
     = (Inr (), (AdmissionController_init default_admission_config)\<lparr>ac_sessions := [(''app'', 1)]\<rparr>)"
  by (simp add: AdmissionController_admit_session_def AdmissionController_authenticate_def sbind_def
      AdmissionController_init_def default_admission_config_def dict_set_def)

definition demo_session :: SessionRecord where
  "demo_session = new_session_record (\<lambda>d p. ''d'') 0 ''s'' demo_create (SessionManager_init 1 600 300)"

lemma demo_session_created:
  "SessionManager_create (\<lambda>d p. ''d'') 0 ''s'' None demo_create (SessionManager_init 1 600 300)
     = (Inr (demo_session, True), (SessionManager_init 1 600 300)\<lparr>sm_sessions := [(''s'', demo_session)]\<rparr>)"
  by (simp add: SessionManager_create_def register_session_def demo_create_def demo_session_def Let_def
      SessionManager_init_def put_session_def dict_set_def)

lemma demo_session_fields:
  "session_id demo_session = ''s''" "env_spec demo_session = demo_spec" "s_state demo_session = S_CREATING"
  "application_id demo_session = ''app''" "worker_rank demo_session = None"
  by (simp_all add: demo_session_def demo_create_def new_session_record_def Let_def)

definition demo_waiting :: RuntimeGateway where
  "demo_waiting = demo_gateway\<lparr>g_admission := (AdmissionController_init default_admission_config)
       \<lparr>ac_sessions := [(''app'', 1)]\<rparr>,
     g_sessions := (SessionManager_init 1 600 300)\<lparr>sm_sessions := [(''s'', demo_session)]\<rparr>,
     g_workers := snd (EnvWorkerRegistry_acquire 0 ''d'' demo_workers)\<rparr>"

lemma demo_start:
  "create_session_start (\<lambda>d p. ''d'') 0 [] ''s'' demo_create demo_gateway
     = (AwaitBinding demo_session 0 {} None, demo_waiting)"
proof -
  have app: "req_application_id demo_create = ''app''" "req_auth_token demo_create = None"
    by (simp_all add: demo_create_def)
  have dig: "env_spec_digest demo_session = ''d''"
    by (simp add: demo_session_def new_session_record_def Let_def EnvSpecMsg_digest_def)
  obtain w where acq: "EnvWorkerRegistry_acquire 0 ''d'' demo_workers = (Inr (), w)"
    by (simp add: EnvWorkerRegistry_acquire_def sbind_def asks_def modify_def EnvWorkerRegistry_get_def
        demo_workers_entries dict_get_def)
  show ?thesis
    by (simp add: create_session_start_def create_attempt_def on_defs app dig demo_parts demo_admitted
        demo_session_created demo_session_fields demo_select acq demo_waiting_def Let_def)
qed

lemma demo_created:
  "\<exists>h g'. create_session 2 (\<lambda>d p. ''d'') 0 [] ''s'' accepts demo_create demo_gateway = Some (Ok h, g')
     \<and> h_session_id h = ''s'' \<and> g_sessions g' \<noteq> g_sessions demo_gateway"
proof -
  have "binding_reply 0 (accepts 0) = Inr ''token''"
    by (simp add: binding_reply_def accepts_def ResultEnvelope_ok_def Let_def)
  moreover have "dict_get (sm_sessions (g_sessions demo_waiting)) ''s'' = Some demo_session"
    by (simp add: demo_waiting_def dict_get_def)
  ultimately show ?thesis
    by (simp add: create_session_def demo_start numeral_2_eq_2 create_session_resume_def on_sessions_def
      SessionManager_commit_binding_def SessionManager_transition_def Let_def demo_session_fields
      SessionRecord_handle_def demo_parts SessionManager_init_def put_session_def demo_waiting_def dict_get_def
      dict_set_def)
qed

theorem create_session_accounting_witness:
  "\<exists>h g'. create_session 2 (\<lambda>d p. ''d'') 0 [] ''s'' accepts demo_create demo_gateway = Some (Ok h, g')
     \<and> quota g' ''app'' = 1"
proof -
  obtain h g' where run: "create_session 2 (\<lambda>d p. ''d'') 0 [] ''s'' accepts demo_create demo_gateway
      = Some (Ok h, g')" "g_sessions g' \<noteq> g_sessions demo_gateway"
    using demo_created by blast
  have "length (wr_entries (g_workers demo_gateway)) \<le> 2" by (simp add: demo_gateway_empty)
  from create_session_accounting [OF demo_gateway_ok this run(1)] run(2)
  have "quota g' ''app'' = quota demo_gateway ''app'' + 1" by (auto simp: demo_create_def)
  with run(1) show ?thesis by (simp add: demo_gateway_empty)
qed

lemma demo_sessions_ok: "sm_ok (g_sessions demo_gateway)"
  by (simp add: demo_parts sm_ok_init)

text \<open>A call that was given a fresh identifier and ended with that session on record went through the
  retry loop.\<close>

lemma create_session_fresh:
  assumes "wr_ok (g_workers g)" "counter_ok (ac_sessions (g_admission g))" "sm_ok (g_sessions g)"
    and "length (wr_entries (g_workers g)) \<le> fuel"
    and fresh: "dict_get (sm_sessions (g_sessions g)) fresh = None"
    and run: "create_session fuel H now tb fresh reply request g = Some (r, g')"
    and held: "case r of Ok h \<Rightarrow> h_session_id h = fresh
      | Err e \<Rightarrow> dict_get (sm_sessions (g_sessions g')) fresh \<noteq> None"
  shows "creation_ok g (req_application_id request) fresh (CreateDone r, g')"
  using assms(1,2,4)
proof (cases rule: create_session_result [where H = H and now = now and tb = tb
        and fresh = fresh and request = request and reply = reply])
  case (refused e g1)
  with run held fresh show ?thesis by auto
next
  case (known s g1)
  then obtain sid where sid: "dict_get (sm_sessions (g_sessions g)) sid = Some s" by blast
  then have "session_id s = sid" using assms(3) by (simp add: sm_ok_def records_ok_def)
  with known run held fresh sid show ?thesis by (auto simp: SessionRecord_handle_def)
next
  case (run r1 g1)
  with assms(6) show ?thesis by simp
qed

lemma creation_ok_Ok:
  assumes "creation_ok g app sid (CreateDone (Ok h), g')"
  obtains s rank where "dict_get (sm_sessions (g_sessions g')) sid = Some s" "s_state s = S_READY"
      "application_id s = app" "session_id s = sid" "worker_rank s = Some rank"
      "\<forall>a. quota g' a = quota g a + unit_of app a" "\<forall>k. load g' k = load g k + unit_of rank k"
      "counter_ok (ac_sessions (g_admission g'))" "wr_ok (g_workers g')"
  using assms unfolding creation_ok_def fst_conv snd_conv creation_state.simps by blast

lemma creation_ok_Err:
  assumes "creation_ok g app sid (CreateDone (Err e), g')"
  obtains s where "dict_get (sm_sessions (g_sessions g')) sid = Some s" "s_state s = S_FAILED"
      "application_id s = app" "session_id s = sid" "worker_rank s = None"
      "\<forall>a. quota g' a = quota g a" "\<forall>k. load g' k = load g k"
      "counter_ok (ac_sessions (g_admission g'))" "wr_ok (g_workers g')"
  using assms unfolding creation_ok_def fst_conv snd_conv creation_state.simps by blast

text \<open>C22: creating a session and closing it again cancel out: the close succeeds, and every session
  quota and every rank's load are what they were before the session was created.\<close>

theorem create_close_roundtrip:
  assumes "wr_ok (g_workers g)" "counter_ok (ac_sessions (g_admission g))" "sm_ok (g_sessions g)"
    and "length (wr_entries (g_workers g)) \<le> fuel" "dict_get (sm_sessions (g_sessions g)) fresh = None"
    and "create_session fuel H now tb fresh reply request g = Some (Ok h, g1)" "h_session_id h = fresh"
    and "close_session now2 fresh g1 = (r, g2)"
  shows "r = Ok () \<and> (\<forall>a. quota g2 a = quota g a) \<and> (\<forall>k. load g2 k = load g k)"
proof -
  have ok: "creation_ok g (req_application_id request) fresh (CreateDone (Ok h), g1)"
    using create_session_fresh [OF assms(1-6)] assms(7) by simp
  then obtain s rank where s: "dict_get (sm_sessions (g_sessions g1)) fresh = Some s" "s_state s = S_READY"
      "application_id s = req_application_id request" "session_id s = fresh" "worker_rank s = Some rank"
    and q: "\<forall>a. quota g1 a = quota g a + unit_of (req_application_id request) a"
    and l: "\<forall>k. load g1 k = load g k + unit_of rank k"
    and wf: "counter_ok (ac_sessions (g_admission g1))" "wr_ok (g_workers g1)"
    by (rule creation_ok_Ok)
  let ?s = "transitioned now2 S_CLOSING None s"
  let ?g = "g1\<lparr>g_sessions := put_session ?s (g_sessions g1)\<rparr>"
  have "dict_get (sm_sessions (g_sessions ?g)) fresh = Some ?s" "session_id ?s = fresh"
    "s_state ?s \<in> {S_CLOSING, S_FAILED, S_LOST}" "counter_ok (ac_sessions (g_admission ?g))"
    "wr_ok (g_workers ?g)" using s wf by simp_all
  from this obtain g' where
    g': "close_session_finish now2 fresh ?g = (Ok (), g')"
      "\<forall>a. quota g' a = (if a = application_id ?s then max 0 (quota ?g a - 1) else quota ?g a)"
      "\<forall>k. load g' k = (if worker_rank ?s = Some k then max 0 (load ?g k - 1) else load ?g k)"
      "map_option s_state (dict_get (sm_sessions (g_sessions g')) fresh) = Some S_CLOSED"
    by (rule close_finish_effect [where now = now2])
  have rg: "r = Ok ()" "g2 = g'"
    using assms(8) g'(1) close_session_ready [OF s(1,2)] by simp_all
  have nonneg: "0 \<le> quota g a" "0 \<le> load g k" for a k
    using count_of_nonneg [OF assms(2)] rank_load_nonneg [OF assms(1)] by simp_all
  have "quota g' a = quota g a" for a
    using g'(2) q s(3) nonneg by (simp add: unit_of_def)
  moreover have "load g' k = load g k" for k
    using g'(3) l s(5) nonneg by (simp add: unit_of_def)
  ultimately show ?thesis using rg by simp
qed

theorem create_close_roundtrip_witness:
  "\<exists>h g1 g2. create_session 2 (\<lambda>d p. ''d'') 0 [] ''s'' accepts demo_create demo_gateway = Some (Ok h, g1)
     \<and> close_session 5 ''s'' g1 = (Ok (), g2) \<and> quota g2 ''app'' = quota demo_gateway ''app''"
proof -
  obtain h g1 where run: "create_session 2 (\<lambda>d p. ''d'') 0 [] ''s'' accepts demo_create demo_gateway
      = Some (Ok h, g1)" "h_session_id h = ''s''" using demo_created by blast
  obtain r g2 where close: "close_session 5 ''s'' g1 = (r, g2)" by fastforce
  have "length (wr_entries (g_workers demo_gateway)) \<le> 2" by (simp add: demo_gateway_empty)
  from create_close_roundtrip [OF demo_gateway_ok demo_sessions_ok this demo_gateway_empty(1) run close] run(1) close
  show ?thesis by auto
qed

text \<open>A failed creation can be released twice. When a creation fails after its session was put on
  record, its unit of quota is given back at once; the session stays on record as failed, and closing
  it gives back another unit. An application with \<open>n\<close> live sessions before the failed call is then
  counted with \<open>n - 1\<close>, so it can open one session more than its limit.\<close>

theorem failed_create_released_twice:
  assumes "wr_ok (g_workers g)" "counter_ok (ac_sessions (g_admission g))" "sm_ok (g_sessions g)"
    and "length (wr_entries (g_workers g)) \<le> fuel" "dict_get (sm_sessions (g_sessions g)) fresh = None"
    and "create_session fuel H now tb fresh reply request g = Some (Err e, g1)"
    and "dict_get (sm_sessions (g_sessions g1)) fresh \<noteq> None"
    and "close_session now2 fresh g1 = (r, g2)"
  shows "r = Ok () \<and> quota g1 (req_application_id request) = quota g (req_application_id request)
    \<and> quota g2 (req_application_id request) = max 0 (quota g (req_application_id request) - 1)
    \<and> (\<forall>k. load g2 k = load g k)"
proof -
  have ok: "creation_ok g (req_application_id request) fresh (CreateDone (Err e), g1)"
    using create_session_fresh [OF assms(1-6)] assms(7) by simp
  then obtain s where s: "dict_get (sm_sessions (g_sessions g1)) fresh = Some s" "s_state s = S_FAILED"
      "application_id s = req_application_id request" "session_id s = fresh" "worker_rank s = None"
    and q: "\<forall>a. quota g1 a = quota g a" and l: "\<forall>k. load g1 k = load g k"
    and wf: "counter_ok (ac_sessions (g_admission g1))" "wr_ok (g_workers g1)"
    by (rule creation_ok_Err)
  have dead: "s_state s \<in> {S_CLOSING, S_FAILED, S_LOST}" using s(2) by simp
  obtain g' where
    g': "close_session_finish now2 fresh g1 = (Ok (), g')"
      "\<forall>a. quota g' a = (if a = application_id s then max 0 (quota g1 a - 1) else quota g1 a)"
      "\<forall>k. load g' k = (if worker_rank s = Some k then max 0 (load g1 k - 1) else load g1 k)"
      "map_option s_state (dict_get (sm_sessions (g_sessions g')) fresh) = Some S_CLOSED"
    by (rule close_finish_effect [where now = now2, OF s(1,4) dead wf])
  have "close_session now2 fresh g1 = close_session_finish now2 fresh g1"
    using close_session_dead [OF s(1)] s(2) by simp
  with assms(8) g'(1) have "r = Ok ()" "g2 = g'" by simp_all
  with g'(2,3) s(3,5) q l show ?thesis by simp
qed

text \<open>One session of the application is counted, and no transport is attached.\<close>

definition demo_unattached :: RuntimeGateway where
  "demo_unattached = demo_gateway\<lparr>g_attached := False,
     g_admission := (AdmissionController_init default_admission_config)\<lparr>ac_sessions := [(''app'', 1)]\<rparr>\<rparr>"

lemma demo_unattached_ok:
  "wr_ok (g_workers demo_unattached)" "counter_ok (ac_sessions (g_admission demo_unattached))"
  "sm_ok (g_sessions demo_unattached)"
  by (simp_all add: demo_unattached_def demo_parts demo_workers_ok sm_ok_init)
    (auto simp: counter_ok_def dict_ok_def dict_get_def split: if_splits)

lemma demo_unattached_fails:
  "\<exists>e g1. create_session 2 (\<lambda>d p. ''d'') 0 [] ''s'' accepts demo_create demo_unattached = Some (Err e, g1)
     \<and> dict_get (sm_sessions (g_sessions g1)) ''s'' \<noteq> None"
proof -
  have app: "req_application_id demo_create = ''app''" "req_auth_token demo_create = None"
    by (simp_all add: demo_create_def)
  have adm: "AdmissionController_admit_session ''app'' None (g_admission demo_unattached)
      = (Inr (), (g_admission demo_unattached)\<lparr>ac_sessions := [(''app'', 2)]\<rparr>)"
    by (simp add: demo_unattached_def AdmissionController_admit_session_def sbind_def dict_set_def
        AdmissionController_authenticate_def AdmissionController_init_def default_admission_config_def
        count_of_def dict_get_or_def dict_get_def)
  obtain w where acq: "EnvWorkerRegistry_acquire 0 (env_spec_digest demo_session) demo_workers = (Inr (), w)"
    by (simp add: EnvWorkerRegistry_acquire_def sbind_def asks_def modify_def EnvWorkerRegistry_get_def
        demo_workers_entries dict_get_def)
  have parts: "g_sessions demo_unattached = SessionManager_init 1 600 300"
    "g_workers demo_unattached = demo_workers" "\<not> g_attached demo_unattached"
    by (simp_all add: demo_unattached_def demo_parts)
  show ?thesis
    by (simp add: create_session_def create_session_start_def create_attempt_def on_defs app adm parts
        demo_session_created demo_session_fields demo_select acq create_failed_def Let_def
        session_object_def dict_get_def dict_set_def SessionManager_fail_def SessionManager_transition_def)
qed

theorem failed_create_released_twice_witness:
  "\<exists>e g1 g2. create_session 2 (\<lambda>d p. ''d'') 0 [] ''s'' accepts demo_create demo_unattached = Some (Err e, g1)
     \<and> quota demo_unattached ''app'' = 1 \<and> close_session 5 ''s'' g1 = (Ok (), g2) \<and> quota g2 ''app'' = 0"
proof -
  obtain e g1 where run: "create_session 2 (\<lambda>d p. ''d'') 0 [] ''s'' accepts demo_create demo_unattached
      = Some (Err e, g1)" "dict_get (sm_sessions (g_sessions g1)) ''s'' \<noteq> None"
    using demo_unattached_fails by blast
  obtain r g2 where close: "close_session 5 ''s'' g1 = (r, g2)" by fastforce
  have "length (wr_entries (g_workers demo_unattached)) \<le> 2"
    "dict_get (sm_sessions (g_sessions demo_unattached)) ''s'' = None" and one: "quota demo_unattached ''app'' = 1"
    by (simp_all add: demo_unattached_def demo_gateway_empty demo_parts SessionManager_init_def
        count_of_def dict_get_or_def dict_get_def demo_workers_entries)
  from failed_create_released_twice [OF demo_unattached_ok this(1,2) run close] run close one
  show ?thesis by (auto simp: demo_create_def)
qed

end
