(* ===== verification/Gateway_Dispatch.thy ===== *)
theory Gateway_Dispatch
  imports Gateway_Accounting
begin

text \<open>
  What the Gateway guarantees about operations and about lost workers: a retried request never reaches
  a worker twice, at most one mutating operation holds a session, an RPC timeout is not a cancellation,
  and a stale worker's sessions are lost. The segments of an operation are described by case lemmas
  that the interleavings of \<^verbatim>\<open>Gateway_Flight\<close> build on.
\<close>

section \<open>In-flight units\<close>

text \<open>Only \<open>dispatch_finally\<close> touches admission after an operation was admitted.\<close>

lemma put_session_object_parts [simp]:
  "g_admission (put_session_object r g) = g_admission g"
  "g_operations (put_session_object r g) = g_operations g"
  "g_workers (put_session_object r g) = g_workers g"
  "g_attached (put_session_object r g) = g_attached g"
  by (simp_all add: put_session_object_def)

lemma occupy_parts:
  "occupy_session f g = (r, g') \<Longrightarrow> g_admission g' = g_admission g \<and> g_operations g' = g_operations g
     \<and> g_attached g' = g_attached g"
  by (auto simp: occupy_session_def split: if_splits sum.splits prod.splits)

lemma on_operations_admission [simp]: "g_admission (snd (on_operations f g)) = g_admission g"
  by (simp add: on_operations_def split: prod.split)

lemma on_operations_sessions [simp]: "g_sessions (snd (on_operations f g)) = g_sessions g"
  by (simp add: on_operations_def split: prod.split)

lemma on_sessions_parts [simp]:
  "g_admission (snd (on_sessions f g)) = g_admission g"
  "g_operations (snd (on_sessions f g)) = g_operations g"
  by (simp_all add: on_sessions_def split: prod.split)

lemma finish_admission: "g_admission (snd (RuntimeGateway_finish now sid rid result g)) = g_admission g"
proof -
  have fail: "g_admission (snd (finish_failure now rid result e h)) = g_admission h" for e h
    by (simp add: finish_failure_def on_operations_def split: prod.split sum.split)
  show ?thesis
    by (auto simp: RuntimeGateway_finish_def Let_def fail on_operations_def on_sessions_def
        split: option.split prod.split sum.split)
qed

abbreviation give_back :: "dispatch_frame \<Rightarrow> AdmissionController \<Rightarrow> AdmissionController" where
  "give_back f \<equiv> AdmissionController_complete_operation (df_application f) (session_id (df_session f))"

fun is_done :: "dispatch_step \<Rightarrow> bool" where
  "is_done (DispatchDone r) = True"
| "is_done (AwaitLock f) = False"
| "is_done (AwaitResult f e rank) = False"

lemma dispatch_finally_parts [simp]:
  "fst (dispatch_finally f rg) = DispatchDone (fst rg)"
  "g_admission (snd (dispatch_finally f rg)) = give_back f (g_admission (snd rg))"
  "g_operations (snd (dispatch_finally f rg)) = g_operations (snd rg)"
  "g_sessions (snd (dispatch_finally f rg)) = g_sessions (snd rg)"
  by (simp_all add: dispatch_finally_def)

lemma execute_cases:
  obtains (cancelled) e where "cancelled_before_dispatch (df_request_id f) (g_operations g) = Some e"
      "RuntimeGateway_execute now f g = dispatch_finally f (Err e, g)"
  | (refused) e g1 where "cancelled_before_dispatch (df_request_id f) (g_operations g) = None"
      "g_admission g1 = g_admission g" "RuntimeGateway_execute now f g = dispatch_finally f (Err e, g1)"
  | (sent) seq g1 g2 rank where "cancelled_before_dispatch (df_request_id f) (g_operations g) = None"
      "occupy_session f g = (Inr seq, g1)" "worker_rank (frame_session f g1) = Some rank"
      "RuntimeGateway_execute now f g = (AwaitResult f (command_envelope f seq g1) rank, g2)"
      "g_admission g2 = g_admission g" "g_sessions g2 = g_sessions g1"
proof (cases "cancelled_before_dispatch (df_request_id f) (g_operations g)")
  case (Some e)
  then show ?thesis by (intro that(1)) (simp_all add: RuntimeGateway_execute_def)
next
  case None
  obtain r g1 where occ: "occupy_session f g = (r, g1)" by fastforce
  note parts = occupy_parts [OF occ]
  show ?thesis
  proof (cases r)
    case (Inl exc)
    with None occ parts show ?thesis
      by (intro that(2) [of g1 "normalize_exception [] E_INTERNAL False True exc"])
        (simp_all add: RuntimeGateway_execute_def api_error_def)
  next
    case (Inr seq)
    obtain e g2 where mr: "on_operations (OperationRegistry_mark_running now (df_request_id f)
        (worker_rank (frame_session f g1))) g1 = (e, g2)" by fastforce
    have g2: "g_admission g2 = g_admission g1" "g_sessions g2 = g_sessions g1"
      using mr by (auto simp: on_operations_def split: prod.splits)
    show ?thesis
    proof (cases "worker_rank (frame_session f g1)")
      case lost: None
      show ?thesis
        by (rule that(2) [OF None, of g1]) (use lost None occ Inr parts in
            \<open>simp_all add: RuntimeGateway_execute_def\<close>)
    next
      case bound: (Some rank)
      show ?thesis
      proof (cases "g_attached g1")
        case False
        show ?thesis
          by (rule that(2) [OF None, of g1]) (use bound None occ Inr parts False in
              \<open>simp_all add: RuntimeGateway_execute_def\<close>)
      next
        case True
        show ?thesis
        proof (cases e)
          case err: (Inl exc)
          show ?thesis
            by (rule that(2) [OF None, of g2]) (use bound None occ Inr parts True err mr g2 in
                \<open>simp_all add: RuntimeGateway_execute_def api_error_def\<close>)
        next
          case (Inr v)
          with \<open>r = Inr seq\<close> bound None occ parts True mr g2 show ?thesis
            by (intro that(3) [of seq g1 rank g2]) (simp_all add: RuntimeGateway_execute_def)
        qed
      qed
    qed
  qed
qed

lemma execute_admission:
  "g_admission (snd (RuntimeGateway_execute now f g)) =
     (if is_done (fst (RuntimeGateway_execute now f g)) then give_back f (g_admission g) else g_admission g)"
  by (cases rule: execute_cases [of f g now]) simp_all

lemma resume_admission:
  "g_admission (snd (dispatch_resume now f result g)) = give_back f (g_admission g)"
  and resume_done: "is_done (fst (dispatch_resume now f result g))"
proof -
  define g1 where "g1 = (if df_operation f \<in> set MUTATING_OPERATIONS
      then put_session_object (SessionManager_end_operation (df_request_id f) (frame_session f g)) g else g)"
  obtain r g2 where fin: "RuntimeGateway_finish now (session_id (df_session f)) (df_request_id f) result g1 = (r, g2)"
    by fastforce
  have "g_admission g2 = g_admission g"
    using finish_admission [of now "session_id (df_session f)" "df_request_id f" result g1] fin
    by (simp add: g1_def)
  moreover have "dispatch_resume now f result g =
      dispatch_finally f (case r of Inl exc \<Rightarrow> api_error exc | Inr x \<Rightarrow> x, g2)"
    using fin by (simp add: dispatch_resume_def g1_def Let_def split: sum.split)
  ultimately show "g_admission (snd (dispatch_resume now f result g)) = give_back f (g_admission g)"
    "is_done (fst (dispatch_resume now f result g))" by simp_all
qed

text \<open>The start of an operation, by what admission and the registry say.\<close>

abbreviation start_frame ::
  "SessionRecord \<Rightarrow> string \<Rightarrow> EnvOperation \<Rightarrow> py \<Rightarrow> real option \<Rightarrow> dispatch_frame" where
  "start_frame rec rid operation payload deadline \<equiv>
     \<lparr>df_session = rec, df_application = application_id rec, df_request_id = rid,
      df_operation = operation, df_payload = payload, df_deadline = deadline\<rparr>"

definition admitted_gateway :: "string \<Rightarrow> string \<Rightarrow> RuntimeGateway \<Rightarrow> RuntimeGateway" where
  "admitted_gateway app sid g = g\<lparr>g_admission := (g_admission g)\<lparr>
     ac_inflight_app := counter_inc (ac_inflight_app (g_admission g)) app,
     ac_inflight_session := counter_inc (ac_inflight_session (g_admission g)) sid,
     ac_total_inflight := ac_total_inflight (g_admission g) + 1\<rparr>\<rparr>"

lemma dispatch_start_cases:
  obtains (rejected) e where "require_session sid operation (g_sessions g) = Inl e"
      "dispatch_start H now take_lock sid operation payload rid deadline g = (DispatchDone (api_error e), g)"
  | (refused) rec info code where "require_session sid operation (g_sessions g) = Inr rec"
      "operation_gate now (application_id rec) sid deadline 0 None (g_admission g) = Some code"
      "dispatch_start H now take_lock sid operation payload rid deadline g =
        (DispatchDone (Err info), g\<lparr>g_admission := (g_admission g)\<lparr>ac_rejected :=
           counter_inc (ac_rejected (g_admission g)) (ErrorCode_name code)\<rparr>\<rparr>)"
  | (conflict) rec existing where "require_session sid operation (g_sessions g) = Inr rec"
      "operation_gate now (application_id rec) sid deadline 0 None (g_admission g) = None"
      "dict_get (or_records (g_operations g)) rid = Some existing"
      "op_digest existing \<noteq> request_digest H operation (Some sid) payload"
      "dispatch_start H now take_lock sid operation payload rid deadline g =
        dispatch_finally (start_frame rec rid operation payload deadline)
          (Err (conflict_error rid existing), admitted_gateway (application_id rec) sid g)"
  | (repeated) rec existing r where "require_session sid operation (g_sessions g) = Inr rec"
      "operation_gate now (application_id rec) sid deadline 0 None (g_admission g) = None"
      "dict_get (or_records (g_operations g)) rid = Some existing"
      "op_digest existing = request_digest H operation (Some sid) payload"
      "dispatch_start H now take_lock sid operation payload rid deadline g =
        dispatch_finally (start_frame rec rid operation payload deadline)
          (r, admitted_gateway (application_id rec) sid g)"
      "is_terminal existing \<Longrightarrow> r = (case op_error existing of Some e \<Rightarrow> Err e | None \<Rightarrow> Ok (op_value existing))"
      "\<not> is_terminal existing \<Longrightarrow> \<exists>e. r = Err e \<and> err_code e = E_SESSION_NOT_READY"
  | (accepted) rec g1 where "require_session sid operation (g_sessions g) = Inr rec"
      "operation_gate now (application_id rec) sid deadline 0 None (g_admission g) = None"
      "dict_get (or_records (g_operations g)) rid = None"
      "g1 = (admitted_gateway (application_id rec) sid g)\<lparr>g_operations := put_operation
         (new_operation_record now rid (Some sid) operation (request_digest H operation (Some sid) payload))
         (g_operations g)\<rparr>"
      "dispatch_start H now take_lock sid operation payload rid deadline g =
        (if take_lock then (AwaitLock (start_frame rec rid operation payload deadline), g1)
         else RuntimeGateway_execute now (start_frame rec rid operation payload deadline) g1)"
proof (cases "require_session sid operation (g_sessions g)")
  case (Inl e)
  then show ?thesis by (intro that(1)) (simp_all add: dispatch_start_def)
next
  case (Inr rec)
  let ?app = "application_id rec"
  show ?thesis
  proof (cases rule: admit_operation_cases [of now ?app sid deadline 0 None "g_admission g"])
    case (refused info code)
    with Inr show ?thesis
      by (intro that(2)) (simp_all add: dispatch_start_def on_admission_def api_error_def Let_def)
  next
    case admitted
    then have adm: "on_admission (AdmissionController_admit_operation now ?app sid deadline 0 None) g
        = (Inr (), admitted_gateway ?app sid g)"
      by (simp add: on_admission_def admitted_gateway_def)
    show ?thesis
    proof (cases "dict_get (or_records (g_operations g)) rid")
      case None
      show ?thesis
        by (rule that(5) [OF Inr admitted(2) None HOL.refl])
          (use Inr adm None in \<open>simp add: dispatch_start_def on_operations_def OperationRegistry_begin_def
            Let_def admitted_gateway_def\<close>)
    next
      case (Some existing)
      show ?thesis
      proof (cases "op_digest existing = request_digest H operation (Some sid) payload")
        case False
        show ?thesis
          by (rule that(3) [OF Inr admitted(2) Some False])
            (use Inr adm Some False in \<open>simp add: dispatch_start_def on_operations_def
              OperationRegistry_begin_def Let_def admitted_gateway_def api_error_def\<close>)
      next
        case True
        show ?thesis
          by (rule that(4) [OF Inr admitted(2) Some True, of "if is_terminal existing
              then (case op_error existing of Some e \<Rightarrow> Err e | None \<Rightarrow> Ok (op_value existing))
              else Err (make_error E_SESSION_NOT_READY
                [Text ''request '', Text rid, Text '' is still '', Text (OperationState_name (op_state existing))]
                [(''request_id'', PyStr rid), (''state'', PyStr (OperationState_name (op_state existing)))])"])
            (use Inr adm Some True in \<open>simp_all add: dispatch_start_def on_operations_def
              OperationRegistry_begin_def Let_def admitted_gateway_def\<close>)
      qed
    qed
  qed
qed

lemma require_session_get:
  "require_session sid operation m = Inr r \<Longrightarrow> dict_get (sm_sessions m) sid = Some r \<and> s_state r = S_READY"
  by (auto simp: require_session_def SessionManager_require_ready_def SessionManager_require_episode_def
      split: if_splits sum.splits)

section \<open>Properties of operations\<close>

text \<open>A Gateway with one ready session that has an episode.\<close>

definition demo_ready_session :: SessionRecord where
  "demo_ready_session = demo_session\<lparr>s_state := S_READY, worker_rank := Some 0, binding_token := Some ''token'',
     episode_id := Some 1\<rparr>"

definition demo_busy_gateway :: RuntimeGateway where
  "demo_busy_gateway = demo_gateway\<lparr>g_sessions := (SessionManager_init 1 600 300)
     \<lparr>sm_sessions := [(''s'', demo_ready_session)]\<rparr>\<rparr>"

lemma demo_busy_parts:
  "sm_sessions (g_sessions demo_busy_gateway) = [(''s'', demo_ready_session)]"
  "g_admission demo_busy_gateway = AdmissionController_init default_admission_config"
  "g_operations demo_busy_gateway = OperationRegistry_init 300" "g_attached demo_busy_gateway"
  "g_detached demo_busy_gateway = []"
  by (simp_all add: demo_busy_gateway_def demo_parts) (simp_all add: demo_gateway_def RuntimeGateway_init_def)

lemma demo_ready_fields:
  "session_id demo_ready_session = ''s''" "s_state demo_ready_session = S_READY"
  "application_id demo_ready_session = ''app''" "worker_rank demo_ready_session = Some 0"
  "episode_id demo_ready_session = Some 1" "active_operation demo_ready_session = None"
  "next_operation_seq demo_ready_session = 1"
  by (simp_all add: demo_ready_session_def demo_session_fields)
    (simp_all add: demo_session_def new_session_record_def Let_def)

text \<open>A request identifier that is on record never reaches a worker again. The call returns
  without awaiting a worker and leaves the sessions and the registry alone; when the recorded request
  is the same and has ended, and admission lets the call through, it returns the recorded outcome.\<close>

theorem recorded_request_not_resent:
  assumes "dict_get (or_records (g_operations g)) rid = Some existing"
    and "dispatch_start H now take_lock sid operation payload rid deadline g = (step, g')"
  shows "is_done step \<and> g_operations g' = g_operations g \<and> g_sessions g' = g_sessions g
    \<and> (\<forall>r. require_session sid operation (g_sessions g) = Inr r
          \<and> operation_gate now (application_id r) sid deadline 0 None (g_admission g) = None
          \<and> op_digest existing = request_digest H operation (Some sid) payload \<and> is_terminal existing \<longrightarrow>
          step = DispatchDone (case op_error existing of Some e \<Rightarrow> Err e | None \<Rightarrow> Ok (op_value existing)))"
proof (cases rule: dispatch_start_cases [where sid = sid and operation = operation and g = g and H = H and now = now
      and take_lock = take_lock and payload = payload and rid = rid and deadline = deadline])
  case (rejected e)
  with assms(2) show ?thesis by auto
next
  case (refused rec info code)
  from refused(3) assms(2) have "step = DispatchDone (Err info)" "g_operations g' = g_operations g"
    "g_sessions g' = g_sessions g" by auto
  with refused(1,2) show ?thesis by simp
next
  case (conflict rec e)
  from conflict(5) assms(2) have "step = DispatchDone (Err (conflict_error rid e))"
    "g_operations g' = g_operations g" "g_sessions g' = g_sessions g"
    by (auto simp: dispatch_finally_def admitted_gateway_def)
  with conflict(3,4) assms(1) show ?thesis by simp
next
  case (repeated rec e r)
  from repeated(5) assms(2) have "step = DispatchDone r"
    "g_operations g' = g_operations g" "g_sessions g' = g_sessions g"
    by (auto simp: dispatch_finally_def admitted_gateway_def)
  moreover have "e = existing" using repeated(3) assms(1) by simp
  ultimately show ?thesis using repeated(6) by auto
next
  case (accepted rec g1)
  with assms(1) show ?thesis by simp
qed

definition demo_done_operation :: OperationRecord where
  "demo_done_operation = (new_operation_record 1 ''r1'' (Some ''s'') Op_ACTION_STEP ''d'')
     \<lparr>op_state := O_SUCCEEDED, op_value := PyInt 7, op_terminal_at := Some 2\<rparr>"

definition demo_answered_gateway :: RuntimeGateway where
  "demo_answered_gateway = demo_busy_gateway\<lparr>g_operations :=
     \<lparr>or_ttl = 300, or_records = [(''r1'', demo_done_operation)]\<rparr>\<rparr>"

theorem recorded_request_not_resent_witness:
  "fst (dispatch_start (\<lambda>d p. ''d'') 5 True ''s'' Op_ACTION_STEP PyNone ''r1'' None demo_answered_gateway)
     = DispatchDone (Ok (PyInt 7))"
proof -
  obtain step g' where run: "dispatch_start (\<lambda>d p. ''d'') 5 True ''s'' Op_ACTION_STEP PyNone ''r1'' None
      demo_answered_gateway = (step, g')" by fastforce
  have get: "dict_get (or_records (g_operations demo_answered_gateway)) ''r1'' = Some demo_done_operation"
    by (simp add: demo_answered_gateway_def dict_get_def)
  have "require_session ''s'' Op_ACTION_STEP (g_sessions demo_answered_gateway) = Inr demo_ready_session"
    by (simp add: demo_answered_gateway_def require_session_def SessionManager_require_episode_def
        SessionManager_require_ready_def SessionManager_get_def demo_busy_parts dict_get_def demo_ready_fields)
  moreover have "operation_gate 5 (application_id demo_ready_session) ''s'' None 0 None
      (g_admission demo_answered_gateway) = None"
    by (simp add: operation_gate_def demo_answered_gateway_def demo_busy_parts AdmissionController_init_def
        default_admission_config_def)
  moreover have "op_digest demo_done_operation = request_digest (\<lambda>d p. ''d'') Op_ACTION_STEP (Some ''s'') PyNone"
    "is_terminal demo_done_operation"
    by (simp_all add: demo_done_operation_def new_operation_record_def request_digest_def is_terminal_states)
  ultimately have "step = DispatchDone (case op_error demo_done_operation of Some e \<Rightarrow> Err e
      | None \<Rightarrow> Ok (op_value demo_done_operation))"
    using recorded_request_not_resent [OF get run] by blast
  with run show ?thesis by (simp add: demo_done_operation_def new_operation_record_def)
qed

text \<open>C25: at most one mutating operation holds a session. While a session's record names an active
  operation, another mutating operation that reaches its turn is refused with \<open>SESSION_NOT_READY\<close>
  (or as cancelled) and sends nothing; one that does send has become the active operation itself and
  carries the session's next sequence number, which is then used up.\<close>

theorem mutating_operations_exclusive:
  assumes "df_operation f \<in> set MUTATING_OPERATIONS"
    and "session_object g (session_id (df_session f)) = Some r" "session_id r = session_id (df_session f)"
    and "RuntimeGateway_execute now f g = (step, g')"
  shows "(active_operation r \<noteq> None \<longrightarrow>
      (\<exists>e. step = DispatchDone (Err e)) \<and> g_operations g' = g_operations g \<and> g_sessions g' = g_sessions g)
    \<and> (\<forall>f' envelope rank. step = AwaitResult f' envelope rank \<longrightarrow>
        active_operation r = None \<and> ce_operation_seq envelope = Some (next_operation_seq r)
        \<and> (\<exists>r'. session_object g' (session_id r) = Some r' \<and> active_operation r' = Some (df_request_id f)
             \<and> next_operation_seq r' = next_operation_seq r + 1))"
proof -
  have frame: "frame_session f g = r" using assms(2) by (simp add: frame_session_def)
  show ?thesis
  proof (cases "active_operation r")
    case (Some other)
    then have "occupy_session f g = (Inl (RuntimeApiError (make_error E_SESSION_NOT_READY
            [Text ''session '', Text (session_id r), Text '' already has an active operation'']
            [(''session_id'', PyStr (session_id r)), (''active_operation'', PyStr other)])), g)"
      using assms(1) frame by (simp add: occupy_session_def SessionManager_begin_operation_def)
    then have "\<exists>e. RuntimeGateway_execute now f g = dispatch_finally f (Err e, g)"
      by (cases "cancelled_before_dispatch (df_request_id f) (g_operations g)")
        (auto simp: RuntimeGateway_execute_def api_error_def)
    with assms(4) Some show ?thesis by (auto simp: dispatch_finally_def)
  next
    case None
    let ?r = "r\<lparr>active_operation := Some (df_request_id f), next_operation_seq := next_operation_seq r + 1\<rparr>"
    have occ: "occupy_session f g = (Inr (Some (next_operation_seq r)), put_session_object ?r g)"
      using assms(1) frame None by (simp add: occupy_session_def SessionManager_begin_operation_def
          SessionManager_allocate_operation_seq_def)
    have obj: "session_object (put_session_object ?r g) (session_id r) = Some ?r"
      by (simp add: session_object_def put_session_object_def split: option.split)
    show ?thesis
    proof (cases rule: execute_cases [of f g now])
      case (cancelled e)
      with assms(4) None show ?thesis by (auto simp: dispatch_finally_def)
    next
      case (refused e g1)
      with assms(4) None show ?thesis by (auto simp: dispatch_finally_def)
    next
      case (sent seq g1 g2 rank)
      then have g1: "g1 = put_session_object ?r g" "seq = Some (next_operation_seq r)" using occ by simp_all
      have detached: "g_detached g2 = g_detached g1"
        using sent(4) assms(4) occ g1 by (auto simp: RuntimeGateway_execute_def on_operations_def dispatch_finally_def
            split: option.splits if_splits prod.splits sum.splits)
      have "session_object g2 (session_id r) = session_object g1 (session_id r)"
        unfolding session_object_def sent(6) detached ..
      then have "session_object g2 (session_id r) = Some ?r" using obj g1(1) by (simp only:)
      moreover have "step = AwaitResult f (command_envelope f seq g1) rank" "g' = g2"
        using sent(4) assms(4) by simp_all
      ultimately show ?thesis using None g1 by (simp add: command_envelope_def Let_def)
    qed
  qed
qed

theorem mutating_operations_exclusive_witness:
  "\<exists>r. fst (RuntimeGateway_execute 5 (start_frame demo_ready_session ''r2'' Op_ACTION_STEP PyNone None)
      (put_session_object (demo_ready_session\<lparr>active_operation := Some ''r1''\<rparr>) demo_busy_gateway)) = DispatchDone r"
proof -
  let ?f = "start_frame demo_ready_session ''r2'' Op_ACTION_STEP PyNone None"
  let ?r = "demo_ready_session\<lparr>active_operation := Some ''r1''\<rparr>"
  let ?g = "put_session_object ?r demo_busy_gateway"
  obtain step g' where run: "RuntimeGateway_execute 5 ?f ?g = (step, g')" by fastforce
  have "df_operation ?f \<in> set MUTATING_OPERATIONS" by (simp add: MUTATING_OPERATIONS_def)
  moreover have "session_object ?g (session_id (df_session ?f)) = Some ?r" "session_id ?r = session_id (df_session ?f)"
    by (simp_all add: session_object_def put_session_object_def demo_busy_parts demo_ready_fields dict_get_def
        put_session_def dict_set_def)
  moreover have "active_operation ?r \<noteq> None" by simp
  ultimately have "\<exists>e. step = DispatchDone (Err e)" using mutating_operations_exclusive [OF _ _ _ run] by blast
  with run show ?thesis by auto
qed

section \<open>Timeouts and late results\<close>

abbreviation released :: "dispatch_frame \<Rightarrow> RuntimeGateway \<Rightarrow> RuntimeGateway" where
  "released f g \<equiv>
     (if df_operation f \<in> set MUTATING_OPERATIONS
      then put_session_object (SessionManager_end_operation (df_request_id f) (frame_session f g)) g else g)"

lemma end_operation_id [simp]: "session_id (SessionManager_end_operation rid r) = session_id r"
  by (simp add: SessionManager_end_operation_def)

lemma released_presence:
  assumes "session_id (frame_session f g) = session_id (df_session f)"
  shows "(dict_get (sm_sessions (g_sessions (released f g))) sid = None) =
    (dict_get (sm_sessions (g_sessions g)) sid = None)"
  using assms by (auto simp: put_session_object_def)

lemma summary_presence:
  "(dict_get (sm_sessions (g_sessions (snd (on_sessions (SessionManager_set_worker_summary x v) g)))) sid = None)
     = (dict_get (sm_sessions (g_sessions g)) sid = None)" if "records_ok (g_sessions g)"
  using that by (auto simp: on_sessions_def SessionManager_set_worker_summary_def records_ok_def
      split: option.splits prod.splits)

lemma succeed_running:
  assumes "dict_get (or_records m) rid = Some rec" "op_state rec = O_RUNNING" "op_request_id rec = rid"
  obtains rec' where "OperationRegistry_succeed now rid v b m = (Inr rec', put_operation rec' m)"
    "op_request_id rec' = rid" "op_state rec' = O_SUCCEEDED" "op_value rec' = v"
  using assms by (simp add: OperationRegistry_succeed_def OperationRegistry_transition_def Let_def)

lemma late_success_recorded:
  assumes op: "dict_get (or_records (g_operations g)) rid = Some rec" "op_state rec = O_RUNNING"
      "op_request_id rec = rid" "op_session_id rec = Some sid" "sid \<noteq> []"
    and session: "records_ok (g_sessions g)" "dict_get (sm_sessions (g_sessions g)) sid \<noteq> None"
    and late: "res_request_id late = rid" "res_operation late \<notin> set CONTROL_PLANE_OPERATIONS" "ResultEnvelope_ok late"
  shows "\<exists>rec'. dict_get (or_records (g_operations (absorb_late_result now late g))) rid = Some rec'
    \<and> op_state rec' = O_SUCCEEDED \<and> op_value rec' = res_value late
    \<and> g_orphan_result_count (absorb_late_result now late g) = g_orphan_result_count g"
proof -
  obtain sr where sr: "dict_get (sm_sessions (g_sessions g)) sid = Some sr" "session_id sr = sid"
    using session by (auto simp: records_ok_def)
  let ?g0 = "g\<lparr>g_late_result_count := g_late_result_count g + 1\<rparr>"
  define g1 where "g1 = snd (on_sessions (SessionManager_set_worker_summary sid (res_worker_summary late)) ?g0)"
  have g1: "g_operations g1 = g_operations g" "g_orphan_result_count g1 = g_orphan_result_count g"
    by (simp_all add: g1_def on_sessions_def split: prod.split)
  obtain r1 where r1: "dict_get (sm_sessions (g_sessions g1)) sid = Some r1"
    using summary_presence [of ?g0 sid "res_worker_summary late" sid] session(1) sr(1) by (auto simp: g1_def)
  define step where "step = (case episode_of (res_value late) of None \<Rightarrow> (Inr (), g1)
     | Some ep \<Rightarrow> on_sessions (SessionManager_set_episode now sid ep) g1)"
  obtain g2 where g2: "step = (Inr (), g2)" "g_operations g2 = g_operations g"
      "g_orphan_result_count g2 = g_orphan_result_count g"
    using r1 g1 by (cases "episode_of (res_value late)")
      (auto simp: step_def on_sessions_def SessionManager_set_episode_def)
  obtain rec' where rec': "OperationRegistry_succeed now rid (res_value late) (res_side_effect_applied late)
        (g_operations g) = (Inr rec', put_operation rec' (g_operations g))"
      "op_request_id rec' = rid" "op_state rec' = O_SUCCEEDED" "op_value rec' = res_value late"
    by (rule succeed_running [OF op(1-3)])
  have "RuntimeGateway_finish now sid rid late ?g0 =
      (Inr (Ok (res_value late)), g2\<lparr>g_operations := put_operation rec' (g_operations g)\<rparr>)"
    using late(3) g2 rec'(1) unfolding RuntimeGateway_finish_def Let_def g1_def [symmetric] step_def [symmetric]
    by (simp add: ResultEnvelope_ok_def on_operations_def step_def [symmetric])
  then have "absorb_late_result now late g = g2\<lparr>g_operations := put_operation rec' (g_operations g)\<rparr>"
    using op late sr by (simp add: absorb_late_result_def absorb_result_def OperationRegistry_find_def
        SessionManager_find_def is_terminal_states Let_def)
  with rec' g2(3) show ?thesis by simp
qed

lemma records_ok_put: "records_ok m \<Longrightarrow> record_ok r \<Longrightarrow> records_ok (put_session r m)"
  by (auto simp: records_ok_def)

lemma finish_timeout:
  assumes "res_state result = O_RUNNING" "res_error result = Some e" "err_code e = E_DEADLINE_EXCEEDED"
  shows "RuntimeGateway_finish now sid rid result g =
    (Inr (Err e), snd (on_sessions (SessionManager_set_worker_summary sid (res_worker_summary result)) g))"
  using assms by (simp add: RuntimeGateway_finish_def Let_def)

lemma summary_records_ok:
  "records_ok (g_sessions g) \<Longrightarrow>
     records_ok (g_sessions (snd (on_sessions (SessionManager_set_worker_summary x v) g)))"
  by (cases "dict_get (sm_sessions (g_sessions g)) x"; cases v)
    (auto simp: on_sessions_def SessionManager_set_worker_summary_def records_ok_def record_ok_def)

text \<open>An RPC timeout is not a cancellation. When the transport answers a mutating operation with
  \<open>DEADLINE_EXCEEDED\<close> while the operation is still running, the caller gets that error and the
  operation stays on record as running; when its successful result arrives later, the operation is
  recorded as succeeded with that value, and the late result is not counted as orphaned.\<close>

theorem timeout_is_not_cancellation:
  assumes "df_operation f \<in> set MUTATING_OPERATIONS" "session_id (df_session f) = sid" "sid \<noteq> []"
    and "records_ok (g_sessions g)" "dict_get (sm_sessions (g_sessions g)) sid = Some r"
    and "dict_get (or_records (g_operations g)) (df_request_id f) = Some rec" "op_state rec = O_RUNNING"
    and "op_request_id rec = df_request_id f" "op_session_id rec = Some sid"
    and "res_state result = O_RUNNING" "res_error result = Some e" "err_code e = E_DEADLINE_EXCEEDED"
    and "dispatch_resume now f result g = (step, g')"
    and "res_request_id late = df_request_id f" "res_operation late \<notin> set CONTROL_PLANE_OPERATIONS"
    and "ResultEnvelope_ok late"
  shows "step = DispatchDone (Err e) \<and> g_operations g' = g_operations g
    \<and> (\<exists>rec'. dict_get (or_records (g_operations (absorb_late_result later late g'))) (df_request_id f) = Some rec'
          \<and> op_state rec' = O_SUCCEEDED \<and> op_value rec' = res_value late
          \<and> g_orphan_result_count (absorb_late_result later late g') = g_orphan_result_count g')"
proof -
  let ?r = "SessionManager_end_operation (df_request_id f) r"
  let ?g1 = "g\<lparr>g_sessions := put_session ?r (g_sessions g)\<rparr>"
  let ?g2 = "snd (on_sessions (SessionManager_set_worker_summary sid (res_worker_summary result)) ?g1)"
  have r: "session_id r = sid" "record_ok r" using assms(4,5) by (auto simp: records_ok_def)
  then have "record_ok ?r" by (simp add: record_ok_def SessionManager_end_operation_def)
  then have rok1: "records_ok (g_sessions ?g1)" using assms(4) by (simp add: records_ok_put)
  have "released f g = ?g1"
    using assms(1,2,5) r by (simp add: put_session_object_def frame_session_def session_object_def)
  then have "dispatch_resume now f result g = dispatch_finally f (Err e, ?g2)"
    using finish_timeout [OF assms(10-12)] assms(2) by (simp add: dispatch_resume_def Let_def)
  with assms(13) have step: "step = DispatchDone (Err e)" "g' = snd (dispatch_finally f (Err e, ?g2))"
    by (simp_all add: dispatch_finally_def)
  then have ops: "g_operations g' = g_operations g" and ses: "g_sessions g' = g_sessions ?g2" by simp_all
  have "records_ok (g_sessions g')" unfolding ses using rok1 by (rule summary_records_ok)
  moreover have "dict_get (sm_sessions (g_sessions g')) sid \<noteq> None"
    unfolding ses using summary_presence [OF rok1] r by simp
  ultimately show ?thesis
    using step(1) ops late_success_recorded [of g' "df_request_id f" rec sid late later] assms(3,6-9,14-16)
    by simp
qed

definition demo_running_operation :: OperationRecord where
  "demo_running_operation = (new_operation_record 1 ''r1'' (Some ''s'') Op_ACTION_STEP ''d'')
     \<lparr>op_state := O_RUNNING, op_worker_rank := Some 0\<rparr>"

definition demo_running_gateway :: RuntimeGateway where
  "demo_running_gateway = demo_busy_gateway\<lparr>g_operations :=
     \<lparr>or_ttl = 300, or_records = [(''r1'', demo_running_operation)]\<rparr>\<rparr>"

definition demo_frame :: dispatch_frame where
  "demo_frame = start_frame demo_ready_session ''r1'' Op_ACTION_STEP PyNone None"

definition demo_result :: ResultEnvelope where
  "demo_result = \<lparr>res_request_id = ''r1'', res_session_id = Some ''s'', res_operation = Op_ACTION_STEP,
     res_state = O_SUCCEEDED, res_value = PyObj ''StepResult'' [(''episode_id'', PyInt 1)], res_error = None,
     res_side_effect_applied = True, res_worker_summary = None\<rparr>"

definition demo_timeout :: ResultEnvelope where
  "demo_timeout = demo_result\<lparr>res_state := O_RUNNING,
     res_error := Some (make_error E_DEADLINE_EXCEEDED [Text ''timeout''] [])\<rparr>"

lemma demo_records_ok: "records_ok (g_sessions demo_running_gateway)"
  by (auto simp: demo_running_gateway_def records_ok_def demo_busy_parts dict_get_def demo_ready_fields
      record_ok_def demo_ready_session_def demo_session_def new_session_record_def Let_def split: if_splits)

lemma demo_running_facts:
  "dict_get (or_records (g_operations demo_running_gateway)) ''r1'' = Some demo_running_operation"
  "dict_get (sm_sessions (g_sessions demo_running_gateway)) ''s'' = Some demo_ready_session"
  "op_state demo_running_operation = O_RUNNING" "op_request_id demo_running_operation = ''r1''"
  "op_session_id demo_running_operation = Some ''s''"
  "df_operation demo_frame \<in> set MUTATING_OPERATIONS" "session_id (df_session demo_frame) = ''s''"
  "df_request_id demo_frame = ''r1''" "df_session demo_frame = demo_ready_session"
  by (simp_all add: demo_running_gateway_def demo_busy_parts dict_get_def demo_running_operation_def
      new_operation_record_def demo_frame_def MUTATING_OPERATIONS_def demo_ready_fields)

theorem timeout_is_not_cancellation_witness:
  "\<exists>step g' rec'. dispatch_resume 9 demo_frame demo_timeout demo_running_gateway = (step, g')
     \<and> g_operations g' = g_operations demo_running_gateway
     \<and> dict_get (or_records (g_operations (absorb_late_result 20 demo_result g'))) ''r1'' = Some rec'
     \<and> op_state rec' = O_SUCCEEDED"
proof -
  obtain step g' where run: "dispatch_resume 9 demo_frame demo_timeout demo_running_gateway = (step, g')" by fastforce
  have t: "res_state demo_timeout = O_RUNNING"
    "res_error demo_timeout = Some (make_error E_DEADLINE_EXCEEDED [Text ''timeout''] [])"
    "err_code (make_error E_DEADLINE_EXCEEDED [Text ''timeout''] []) = E_DEADLINE_EXCEEDED"
    by (simp_all add: demo_timeout_def)
  have l: "res_request_id demo_result = df_request_id demo_frame"
    "res_operation demo_result \<notin> set CONTROL_PLANE_OPERATIONS" "ResultEnvelope_ok demo_result"
    by (simp_all add: demo_result_def demo_running_facts CONTROL_PLANE_OPERATIONS_def ResultEnvelope_ok_def)
  have op: "dict_get (or_records (g_operations demo_running_gateway)) (df_request_id demo_frame) = Some demo_running_operation"
    "op_request_id demo_running_operation = df_request_id demo_frame" "''s'' \<noteq> ([] :: string)"
    by (simp_all add: demo_running_facts)
  from timeout_is_not_cancellation [OF demo_running_facts(6,7) op(3) demo_records_ok demo_running_facts(2) op(1)
      demo_running_facts(3) op(2) demo_running_facts(5) t run l, of 20]
  show ?thesis using run by (auto simp: demo_running_facts)
qed

section \<open>Losing the sessions of a stale worker\<close>

text \<open>What reaping may do to the sessions: each keeps its identity, application and rank, and a ready
  session that satisfies the condition becomes lost.\<close>

definition sessions_lost :: "(SessionRecord \<Rightarrow> bool) \<Rightarrow> SessionManager \<Rightarrow> SessionManager \<Rightarrow> bool" where
  "sessions_lost P m m' \<longleftrightarrow>
     (dict_ok (sm_sessions m) \<longrightarrow> dict_ok (sm_sessions m'))
     \<and> (\<forall>sid. dict_get (sm_sessions m) sid = None \<longrightarrow> dict_get (sm_sessions m') sid = None)
     \<and> (\<forall>sid r. dict_get (sm_sessions m) sid = Some r \<longrightarrow>
          (\<exists>r'. dict_get (sm_sessions m') sid = Some r' \<and> session_id r' = session_id r
             \<and> worker_rank r' = worker_rank r
             \<and> s_state r' = (if s_state r = S_READY \<and> P r then S_LOST else s_state r)))"

abbreviation keyed :: "SessionManager \<Rightarrow> bool" where
  "keyed m \<equiv> \<forall>sid r. dict_get (sm_sessions m) sid = Some r \<longrightarrow> session_id r = sid"

lemma sessions_lost_keyed: "sessions_lost P m m' \<Longrightarrow> keyed m \<Longrightarrow> keyed m'"
  unfolding sessions_lost_def by (metis option.exhaust option.inject option.distinct(1))

lemma sessions_lostE:
  assumes "sessions_lost P m m'" "dict_get (sm_sessions m) sid = Some r"
  obtains r' where "dict_get (sm_sessions m') sid = Some r'" "session_id r' = session_id r"
    "worker_rank r' = worker_rank r" "s_state r' = (if s_state r = S_READY \<and> P r then S_LOST else s_state r)"
  using assms unfolding sessions_lost_def by blast

lemma sessions_lostI:
  assumes "dict_ok (sm_sessions m) \<Longrightarrow> dict_ok (sm_sessions m')"
    and "\<And>sid. dict_get (sm_sessions m) sid = None \<Longrightarrow> dict_get (sm_sessions m') sid = None"
    and "\<And>sid r. dict_get (sm_sessions m) sid = Some r \<Longrightarrow>
      \<exists>r'. dict_get (sm_sessions m') sid = Some r' \<and> session_id r' = session_id r \<and> worker_rank r' = worker_rank r
        \<and> s_state r' = (if s_state r = S_READY \<and> P r then S_LOST else s_state r)"
  shows "sessions_lost P m m'"
  using assms unfolding sessions_lost_def by blast

lemma sessions_lost_absent:
  assumes "sessions_lost P m m'"
  shows "dict_ok (sm_sessions m) \<Longrightarrow> dict_ok (sm_sessions m')"
    and "dict_get (sm_sessions m) sid = None \<Longrightarrow> dict_get (sm_sessions m') sid = None"
  using assms unfolding sessions_lost_def by blast+

lemma sessions_lost_cong:
  assumes "sessions_lost P m m'"
    and "\<And>sid r. dict_get (sm_sessions m) sid = Some r \<Longrightarrow> s_state r = S_READY \<Longrightarrow> P r = Q r"
  shows "sessions_lost Q m m'"
proof (rule sessions_lostI)
  fix sid r assume r: "dict_get (sm_sessions m) sid = Some r"
  from assms(1) r show "\<exists>r'. dict_get (sm_sessions m') sid = Some r' \<and> session_id r' = session_id r
      \<and> worker_rank r' = worker_rank r \<and> s_state r' = (if s_state r = S_READY \<and> Q r then S_LOST else s_state r)"
    by (rule sessions_lostE) (use assms(2) [OF r] in auto)
qed (use sessions_lost_absent [OF assms(1)] in auto)

lemma sessions_lost_trans:
  assumes "sessions_lost P m m'" "sessions_lost Q m' m''"
    and stable: "\<And>r r'. session_id r' = session_id r \<Longrightarrow> worker_rank r' = worker_rank r \<Longrightarrow> Q r' = Q r"
  shows "sessions_lost (\<lambda>r. P r \<or> Q r) m m''"
proof (rule sessions_lostI)
  fix sid r assume r: "dict_get (sm_sessions m) sid = Some r"
  obtain r' where r': "dict_get (sm_sessions m') sid = Some r'" "session_id r' = session_id r"
    "worker_rank r' = worker_rank r" "s_state r' = (if s_state r = S_READY \<and> P r then S_LOST else s_state r)"
    by (rule sessions_lostE [OF assms(1) r])
  obtain r'' where "dict_get (sm_sessions m'') sid = Some r''" "session_id r'' = session_id r'"
    "worker_rank r'' = worker_rank r'" "s_state r'' = (if s_state r' = S_READY \<and> Q r' then S_LOST else s_state r')"
    by (rule sessions_lostE [OF assms(2) r'(1)])
  with r' stable [OF r'(2,3)] show "\<exists>r''. dict_get (sm_sessions m'') sid = Some r'' \<and> session_id r'' = session_id r
      \<and> worker_rank r'' = worker_rank r
      \<and> s_state r'' = (if s_state r = S_READY \<and> (P r \<or> Q r) then S_LOST else s_state r)" by auto
qed (use sessions_lost_absent [OF assms(1)] sessions_lost_absent [OF assms(2)] in auto)

lemma mark_lost_ready:
  assumes "dict_get (sm_sessions m) sid = Some r" "s_state r = S_READY" "session_id r = sid" "keyed m"
  shows "\<exists>r' m'. SessionManager_mark_lost now sid None m = (Inr r', m') \<and> sessions_lost (\<lambda>r. session_id r = sid) m m'"
proof -
  obtain e where lost: "SessionManager_mark_lost now sid None m =
      (Inr (transitioned now S_LOST (Some e) r), put_session (transitioned now S_LOST (Some e) r) m)"
    using assms(1,2) by (auto simp: SessionManager_mark_lost_def SessionManager_transition_def Let_def)
  have "sessions_lost (\<lambda>r. session_id r = sid) m (put_session (transitioned now S_LOST (Some e) r) m)"
    using assms by (auto simp: sessions_lost_def)
  with lost show ?thesis by blast
qed

lemma lose_sessions_effect:
  assumes "\<forall>r \<in> set records. dict_get (sm_sessions (g_sessions g)) (session_id r) \<noteq> None" "keyed (g_sessions g)"
  shows "\<exists>m. lose_sessions now records g = (Inr (), g\<lparr>g_sessions := m\<rparr>)
    \<and> sessions_lost (\<lambda>r. session_id r \<in> session_id ` set records) (g_sessions g) m"
  using assms
proof (induction records arbitrary: g)
  case Nil
  show ?case by (rule exI [of _ "g_sessions g"]) (simp add: sessions_lost_def)
next
  case (Cons x records)
  obtain r where r: "dict_get (sm_sessions (g_sessions g)) (session_id x) = Some r" using Cons.prems(1) by auto
  have sid: "session_id r = session_id x" using Cons.prems(2) r by simp
  have obj: "session_object g (session_id x) = Some r" using r by (simp add: session_object_def)
  obtain m1 where run: "lose_sessions now (x # records) g = lose_sessions now records (g\<lparr>g_sessions := m1\<rparr>)"
    and one: "sessions_lost (\<lambda>r. session_id r = session_id x) (g_sessions g) m1"
  proof (cases "s_state r = S_READY")
    case True
    from mark_lost_ready [OF r True sid Cons.prems(2), of now] obtain r' m1 where
      "SessionManager_mark_lost now (session_id x) None (g_sessions g) = (Inr r', m1)"
      "sessions_lost (\<lambda>r. session_id r = session_id x) (g_sessions g) m1" by blast
    with obj True that [of m1] show ?thesis by (simp add: on_sessions_def)
  next
    case False
    have "sessions_lost (\<lambda>r. session_id r = session_id x) (g_sessions g) (g_sessions g)"
      by (rule sessions_lostI) (use r False Cons.prems(2) in auto)
    with obj False that [of "g_sessions g"] show ?thesis by simp
  qed
  have "\<forall>r \<in> set records. dict_get (sm_sessions m1) (session_id r) \<noteq> None"
    using Cons.prems(1) one by (fastforce simp: sessions_lost_def)
  then obtain m2 where m2: "lose_sessions now records (g\<lparr>g_sessions := m1\<rparr>) = (Inr (), g\<lparr>g_sessions := m2\<rparr>)"
    "sessions_lost (\<lambda>r. session_id r \<in> session_id ` set records) m1 m2"
    using Cons.IH [of "g\<lparr>g_sessions := m1\<rparr>"] sessions_lost_keyed [OF one Cons.prems(2)] by auto
  have "sessions_lost (\<lambda>r. session_id r = session_id x \<or> session_id r \<in> session_id ` set records) (g_sessions g) m2"
    using sessions_lost_trans [OF one m2(2)] by simp
  then have "sessions_lost (\<lambda>r. session_id r \<in> session_id ` set (x # records)) (g_sessions g) m2" by simp
  with run m2(1) show ?case by auto
qed

lemma reap_loop_effect:
  assumes "dict_ok (sm_sessions (g_sessions g))" "keyed (g_sessions g)"
  shows "\<exists>g'. reap_ranks_loop now stale g = (Inr (), g')
    \<and> sessions_lost (\<lambda>r. worker_rank r \<in> Some ` set stale) (g_sessions g) (g_sessions g')
    \<and> g_workers g' = foldl (\<lambda>w rank. EnvWorkerRegistry_mark_unhealthy rank w) (g_workers g) stale"
  using assms
proof (induction stale arbitrary: g)
  case Nil
  show ?case by (simp add: sessions_lost_def)
next
  case (Cons rank stale)
  define g1 where "g1 = g\<lparr>g_workers := EnvWorkerRegistry_mark_unhealthy rank (g_workers g)\<rparr>"
  let ?rs = "SessionManager_sessions_on_rank (g_sessions g1) rank"
  have rs: "r \<in> set ?rs \<longleftrightarrow> (\<exists>sid. dict_get (sm_sessions (g_sessions g)) sid = Some r) \<and> worker_rank r = Some rank
      \<and> s_state r \<in> {S_CREATING, S_READY}" for r
    using Cons.prems(1) by (auto simp: SessionManager_sessions_on_rank_def g1_def dict_values_iff)
  have "\<forall>r \<in> set ?rs. dict_get (sm_sessions (g_sessions g1)) (session_id r) \<noteq> None" "keyed (g_sessions g1)"
    using rs Cons.prems(2) by (auto simp: g1_def)
  from lose_sessions_effect [OF this, of now] obtain m where
    m: "lose_sessions now ?rs g1 = (Inr (), g1\<lparr>g_sessions := m\<rparr>)"
      "sessions_lost (\<lambda>r. session_id r \<in> session_id ` set ?rs) (g_sessions g) m"
    by (auto simp: g1_def)
  have one: "sessions_lost (\<lambda>r. worker_rank r = Some rank) (g_sessions g) m"
  proof (rule sessions_lost_cong [OF m(2)])
    fix sid r assume r: "dict_get (sm_sessions (g_sessions g)) sid = Some r" "s_state r = S_READY"
    have "r' = r" if "r' \<in> set ?rs" "session_id r' = session_id r" for r'
      using that rs Cons.prems(2) r(1) by (metis option.inject)
    then show "(session_id r \<in> session_id ` set ?rs) = (worker_rank r = Some rank)"
      using rs r by (auto simp: image_iff) metis
  qed
  let ?g = "g1\<lparr>g_sessions := m\<rparr>"
  have "dict_ok (sm_sessions (g_sessions ?g))" "keyed (g_sessions ?g)"
    using sessions_lost_absent(1) [OF one] sessions_lost_keyed [OF one] Cons.prems by simp_all
  from Cons.IH [OF this] obtain g' where g': "reap_ranks_loop now stale ?g = (Inr (), g')"
    "sessions_lost (\<lambda>r. worker_rank r \<in> Some ` set stale) m (g_sessions g')"
    "g_workers g' = foldl (\<lambda>w rank. EnvWorkerRegistry_mark_unhealthy rank w)
       (EnvWorkerRegistry_mark_unhealthy rank (g_workers g)) stale"
    by (auto simp: g1_def)
  have "sessions_lost (\<lambda>r. worker_rank r = Some rank \<or> worker_rank r \<in> Some ` set stale) (g_sessions g) (g_sessions g')"
    by (rule sessions_lost_trans [OF one g'(2)]) simp
  then have "sessions_lost (\<lambda>r. worker_rank r \<in> Some ` set (rank # stale)) (g_sessions g) (g_sessions g')" by simp
  moreover have "reap_ranks_loop now (rank # stale) g = (Inr (), g')"
    using m(1) g'(1) by (simp add: Let_def g1_def)
  ultimately show ?case using g'(3) by simp
qed

lemma no_stale_after_marking:
  assumes "wr_ok w" and "w' = foldl (\<lambda>w rank. EnvWorkerRegistry_mark_unhealthy rank w) w
    (EnvWorkerRegistry_stale_ranks now w)"
  shows "EnvWorkerRegistry_stale_ranks now w' = []"
proof (rule ccontr)
  assume "EnvWorkerRegistry_stale_ranks now w' \<noteq> []"
  then obtain r where r: "r \<in> set (EnvWorkerRegistry_stale_ranks now w')"
    by (meson hd_in_set)
  have "wr_ok w'" "wr_timeout w' = wr_timeout w"
    using mark_unhealthy_list_ok [OF assms(1)] by (simp_all add: assms(2))
  with r obtain e where e: "dict_get (wr_entries w') r = Some e" "we_healthy e"
    "now - we_heartbeat_at e > wr_timeout w"
    by (auto simp: stale_iff)
  then have fresh: "r \<notin> set (EnvWorkerRegistry_stale_ranks now w)"
    by (auto simp: assms(2) mark_unhealthy_list_get)
  with e(1) have "dict_get (wr_entries w) r = Some e" by (simp add: assms(2) mark_unhealthy_list_get)
  with fresh e(2,3) show False by (simp add: stale_iff [OF assms(1)])
qed

definition rank_is_stale :: "real \<Rightarrow> EnvWorkerRegistry \<Rightarrow> int option \<Rightarrow> bool" where
  "rank_is_stale now w rank \<longleftrightarrow>
     (case rank of
        None \<Rightarrow> False
      | Some k \<Rightarrow> (case dict_get (wr_entries w) k of
            None \<Rightarrow> False
          | Some e \<Rightarrow> we_healthy e \<and> now - we_heartbeat_at e > wr_timeout w))"

lemma rank_is_stale_iff:
  "wr_ok w \<Longrightarrow> rank_is_stale now w rank \<longleftrightarrow> rank \<in> Some ` set (EnvWorkerRegistry_stale_ranks now w)"
  by (auto simp: rank_is_stale_def stale_iff image_iff split: option.splits)

text \<open>C31: a reaping round always completes. It moves exactly the READY sessions bound to a rank whose
  heartbeat is older than the timeout to LOST and leaves the state of every other session alone;
  afterwards no rank is stale.\<close>

theorem reap_loses_sessions:
  assumes "dict_ok (sm_sessions (g_sessions g))"
    and "\<forall>sid r. dict_get (sm_sessions (g_sessions g)) sid = Some r \<longrightarrow> session_id r = sid"
    and "wr_ok (g_workers g)"
  shows "\<exists>g'. reap_stale_workers now g = (Inr (), g')
    \<and> (\<forall>sid r. dict_get (sm_sessions (g_sessions g)) sid = Some r \<longrightarrow>
         (\<exists>r'. dict_get (sm_sessions (g_sessions g')) sid = Some r' \<and> worker_rank r' = worker_rank r
            \<and> s_state r' = (if s_state r = S_READY \<and> rank_is_stale now (g_workers g) (worker_rank r)
                            then S_LOST else s_state r)))
    \<and> EnvWorkerRegistry_stale_ranks now (g_workers g') = []"
proof -
  let ?stale = "EnvWorkerRegistry_stale_ranks now (g_workers g)"
  from reap_loop_effect [OF assms(1,2), of now ?stale] obtain g' where
    run: "reap_ranks_loop now ?stale g = (Inr (), g')"
    and lost: "sessions_lost (\<lambda>r. worker_rank r \<in> Some ` set ?stale) (g_sessions g) (g_sessions g')"
    and workers: "g_workers g' = foldl (\<lambda>w rank. EnvWorkerRegistry_mark_unhealthy rank w) (g_workers g) ?stale"
    by blast
  have "\<exists>r'. dict_get (sm_sessions (g_sessions g')) sid = Some r' \<and> worker_rank r' = worker_rank r
      \<and> s_state r' = (if s_state r = S_READY \<and> rank_is_stale now (g_workers g) (worker_rank r)
                      then S_LOST else s_state r)"
    if "dict_get (sm_sessions (g_sessions g)) sid = Some r" for sid r
    using sessions_lostE [OF lost that] rank_is_stale_iff [OF assms(3), of now "worker_rank r"] by metis
  then show ?thesis
    using run no_stale_after_marking [OF assms(3) workers] by (auto simp: reap_stale_workers_def)
qed

definition demo_silent_gateway :: RuntimeGateway where
  "demo_silent_gateway = demo_busy_gateway\<lparr>g_workers := demo_workers\<rparr>"

theorem reap_loses_sessions_witness:
  "\<exists>g' r. reap_stale_workers 33 demo_silent_gateway = (Inr (), g')
     \<and> dict_get (sm_sessions (g_sessions g')) ''s'' = Some r \<and> s_state r = S_LOST"
proof -
  have facts: "dict_ok (sm_sessions (g_sessions demo_silent_gateway))"
    "\<forall>sid r. dict_get (sm_sessions (g_sessions demo_silent_gateway)) sid = Some r \<longrightarrow> session_id r = sid"
    "wr_ok (g_workers demo_silent_gateway)"
    "dict_get (sm_sessions (g_sessions demo_silent_gateway)) ''s'' = Some demo_ready_session"
    by (auto simp: demo_silent_gateway_def demo_busy_parts dict_ok_def dict_get_def demo_ready_fields demo_workers_ok
        split: if_splits)
  have "rank_is_stale 33 (g_workers demo_silent_gateway) (worker_rank demo_ready_session)"
    by (simp add: rank_is_stale_def demo_silent_gateway_def demo_workers_entries demo_ready_fields dict_get_def)
  with reap_loses_sessions [OF facts(1-3), of 33] facts(4) show ?thesis
    by (fastforce simp: demo_ready_fields)
qed

end
