(* ===== verification/Gateway_Flight.thy ===== *)
theory Gateway_Flight
  imports Gateway_Dispatch
begin

text \<open>
  The Gateway's operations in flight. Every coroutine of \<open>_dispatch_one\<close> is suspended at its lock or
  at the transport, and between any two of their segments every other coroutine of the Gateway may
  run: session creations and their replies, closings, lease recoveries, late results, cancellation
  requests, probes, and the maintenance of \<^verbatim>\<open>rollout_runtime/gateway/gateway.py\<close>. The theory gives the
  step relation of these interleavings and proves that the in-flight counters of admission are
  exactly the suspended operations, and that a stranded operation is never cleaned up.
\<close>

section \<open>Cancellation and the interleaved steps\<close>

text \<open>An exception that an \<open>await\<close> of the operation raises, cancellation included: the inner
  \<open>finally\<close> of \<open>_execute\<close> ends a mutating operation of the session if it was sent, the outer
  \<open>except\<close> turns the exception into an error and the outer \<open>finally\<close> gives the units back.\<close>

definition dispatch_abort :: "exn \<Rightarrow> dispatch_step \<Rightarrow> RuntimeGateway \<Rightarrow> dispatch_step \<times> RuntimeGateway" where
  "dispatch_abort exc s g =
     (case s of
        DispatchDone r \<Rightarrow> (DispatchDone r, g)
      | AwaitLock f \<Rightarrow> dispatch_finally f (api_error exc, g)
      | AwaitResult f envelope rank \<Rightarrow>
          dispatch_finally f (api_error exc,
            if df_operation f \<in> set MUTATING_OPERATIONS
            then put_session_object (SessionManager_end_operation (df_request_id f) (frame_session f g)) g
            else g))"

fun holds_session :: "string \<Rightarrow> dispatch_step \<Rightarrow> bool" where
  "holds_session sid (DispatchDone r) = False"
| "holds_session sid (AwaitLock f) = (session_id (df_session f) = sid)"
| "holds_session sid (AwaitResult f envelope rank) = (session_id (df_session f) = sid)"

fun holds_application :: "string \<Rightarrow> dispatch_step \<Rightarrow> bool" where
  "holds_application app (DispatchDone r) = False"
| "holds_application app (AwaitLock f) = (df_application f = app)"
| "holds_application app (AwaitResult f envelope rank) = (df_application f = app)"

definition suspended :: "dispatch_step \<Rightarrow> dispatch_step list \<Rightarrow> dispatch_step list" where
  "suspended s ss = (if is_done s then ss else s # ss)"

definition session_idle :: "string \<Rightarrow> dispatch_step list \<Rightarrow> bool" where
  "session_idle sid ss \<longleftrightarrow> \<not> (\<exists>s \<in> set ss. holds_session sid s)"

text \<open>A state is a Gateway and the operations suspended in it. A session is only closed or recovered
  while none of its operations is in flight; the Gateway itself does not check this.\<close>

type_synonym flight_state = "RuntimeGateway \<times> dispatch_step list"

inductive flight_step :: "digest_fn \<Rightarrow> flight_state \<Rightarrow> flight_state \<Rightarrow> bool" for H where
  start: "dispatch_start H now take_lock sid operation payload rid deadline g = (s, g') \<Longrightarrow>
     flight_step H (g, ss) (g', suspended s ss)"
| locked: "AwaitLock f \<in> set ss \<Longrightarrow> RuntimeGateway_execute now f g = (s, g') \<Longrightarrow>
     flight_step H (g, ss) (g', suspended s (remove1 (AwaitLock f) ss))"
| answered: "AwaitResult f envelope rank \<in> set ss \<Longrightarrow> dispatch_resume now f result g = (s, g') \<Longrightarrow>
     flight_step H (g, ss) (g', suspended s (remove1 (AwaitResult f envelope rank) ss))"
| aborted: "s0 \<in> set ss \<Longrightarrow> dispatch_abort exc s0 g = (s, g') \<Longrightarrow>
     flight_step H (g, ss) (g', suspended s (remove1 s0 ss))"
| create_started: "flight_step H (g, ss) (snd (create_session_start H now tb fresh request g), ss)"
| create_resumed: "flight_step H (g, ss)
     (snd (create_session_resume now tb app record rank attempted lasterr result g), ss)"
| close_started: "session_idle sid ss \<or> (\<exists>rank. fst (close_session_start now sid g) = AwaitRelease sid rank) \<Longrightarrow>
     flight_step H (g, ss) (snd (close_session_start now sid g), ss)"
| close_resumed: "session_idle sid ss \<Longrightarrow> flight_step H (g, ss) (snd (close_session_resume now sid g), ss)"
| recovered: "session_idle (session_id record) ss \<Longrightarrow> flight_step H (g, ss) (snd (recover_one now record g), ss)"
| late: "flight_step H (g, ss) (absorb_late_result now result g, ss)"
| cancel_requested: "flight_step H (g, ss) (snd (cancel_request_start now rid g), ss)"
| renewed: "flight_step H (g, ss) (snd (renew_session now sid lease g), ss)"
| reaped: "flight_step H (g, ss) (snd (reap_stale_workers now g), ss)"
| sessions_purged: "flight_step H (g, ss) (purge_sessions now g, ss)"
| operations_purged: "flight_step H (g, ss) (purge_operations now g, ss)"
| registered: "flight_step H (g, ss) (RuntimeGateway_register_env_worker now info g, ss)"
| probe_started: "flight_step H (g, ss) (probe_rank_start rank g, ss)"
| probe_resumed: "flight_step H (g, ss) (snd (probe_rank_resume now rank reply g), ss)"
| attached: "flight_step H (g, ss) (attach_transport g, ss)"

section \<open>Counting the operations in flight\<close>

definition flight_counted :: "AdmissionController \<Rightarrow> dispatch_step list \<Rightarrow> bool" where
  "flight_counted a ss \<longleftrightarrow>
     counter_ok (ac_inflight_app a) \<and> counter_ok (ac_inflight_session a)
     \<and> (\<forall>k. count_of (ac_inflight_app a) k = int (length (filter (holds_application k) ss)))
     \<and> (\<forall>k. count_of (ac_inflight_session a) k = int (length (filter (holds_session k) ss)))
     \<and> ac_total_inflight a = int (length ss) \<and> (\<forall>s \<in> set ss. \<not> is_done s)"

definition flight_of :: "AdmissionController \<Rightarrow> string counter \<times> string counter \<times> int" where
  "flight_of a = (ac_inflight_app a, ac_inflight_session a, ac_total_inflight a)"

lemma flight_counted_cong: "flight_of b = flight_of a \<Longrightarrow> flight_counted a ss \<Longrightarrow> flight_counted b ss"
  by (simp add: flight_counted_def flight_of_def)

text \<open>\<open>for_frame f s\<close>: the suspended step belongs to the frame.\<close>

definition for_frame :: "dispatch_frame \<Rightarrow> dispatch_step \<Rightarrow> bool" where
  "for_frame f s \<longleftrightarrow> \<not> is_done s \<and> (\<forall>k. holds_session k s \<longleftrightarrow> session_id (df_session f) = k)
     \<and> (\<forall>k. holds_application k s \<longleftrightarrow> df_application f = k)"

lemma for_frame_simps [simp]: "for_frame f (AwaitLock f)" "for_frame f (AwaitResult f envelope rank)"
  by (auto simp: for_frame_def)

lemma flight_taken:
  assumes "flight_counted (g_admission g) ss" "for_frame f s"
  shows "flight_counted (g_admission (admitted_gateway (df_application f) (session_id (df_session f)) g)) (s # ss)"
  using assms by (auto simp: flight_counted_def for_frame_def admitted_gateway_def counter_ok_inc
      le1_ledger.count_acquire)

lemma flight_given_back:
  assumes counted: "flight_counted a (s # ss)" and f: "for_frame f s"
  shows "flight_counted (give_back f a) ss"
proof -
  have ok: "counter_ok (ac_inflight_app a)" "counter_ok (ac_inflight_session a)"
    using counted by (simp_all add: flight_counted_def)
  show ?thesis
    using counted f le1_ledger.count_release [OF ok(1)] le1_ledger.count_release [OF ok(2)]
    by (simp add: flight_counted_def for_frame_def complete_operation_eq counter_ok_dec)
qed

lemma flight_swapped:
  "flight_counted a (s0 # ss) \<Longrightarrow> for_frame f s0 \<Longrightarrow> for_frame f s \<Longrightarrow> flight_counted a (s # ss)"
  by (simp add: flight_counted_def for_frame_def)

lemma flight_counted_rotate:
  assumes "flight_counted a ss" "s \<in> set ss"
  shows "flight_counted a (s # remove1 s ss)"
proof -
  have same: "mset (s # remove1 s ss) = mset ss" using assms(2) by simp
  have count: "length (filter P (s # remove1 s ss)) = length (filter P ss)" for P
    by (metis same mset_filter size_mset)
  have size: "length (s # remove1 s ss) = length ss" by (metis same size_mset)
  have elems: "set (s # remove1 s ss) = set ss" by (metis same set_mset_mset)
  show ?thesis using assms(1) unfolding flight_counted_def count size elems by blast
qed

section \<open>The segments of an operation\<close>

lemma flight_executed:
  assumes counted: "flight_counted (g_admission g) (s0 # ss)" and f: "for_frame f s0"
    and exec: "RuntimeGateway_execute now f g = (s, g')"
  shows "flight_counted (g_admission g') (suspended s ss)"
proof (cases rule: execute_cases [of f g now])
  case (cancelled e)
  with exec flight_given_back [OF counted f] show ?thesis by (auto simp: dispatch_finally_def suspended_def)
next
  case (refused e g1)
  with exec flight_given_back [OF counted f] show ?thesis by (auto simp: dispatch_finally_def suspended_def)
next
  case (sent seq g1 g2 rank)
  with exec flight_swapped [OF counted f] show ?thesis by (auto simp: suspended_def)
qed

lemma flight_started:
  assumes keyed: "keyed (g_sessions g)" and counted: "flight_counted (g_admission g) ss"
    and start: "dispatch_start H now take_lock sid operation payload rid deadline g = (s, g')"
  shows "flight_counted (g_admission g') (suspended s ss)"
proof -
  let ?f = "\<lambda>rec. start_frame rec rid operation payload deadline"
  have id: "session_id rec = sid" if "require_session sid operation (g_sessions g) = Inr rec" for rec
    using require_session_get [OF that] keyed by blast
  have taken: "flight_counted (g_admission (admitted_gateway (application_id rec) sid g)) (AwaitLock (?f rec) # ss)"
    if "require_session sid operation (g_sessions g) = Inr rec" for rec
    using flight_taken [OF counted, of "?f rec" "AwaitLock (?f rec)"] id [OF that] by simp
  note returned = flight_given_back [OF taken for_frame_simps(1)]
  show ?thesis
  proof (cases rule: dispatch_start_cases [where sid = sid and operation = operation and g = g and H = H
        and now = now and take_lock = take_lock and payload = payload and rid = rid and deadline = deadline])
    case (rejected e)
    with start counted show ?thesis by (auto simp: suspended_def)
  next
    case (refused rec info code)
    then have "flight_of (g_admission g') = flight_of (g_admission g)" "is_done s"
      using start by (auto simp: flight_of_def)
    with flight_counted_cong [OF _ counted] show ?thesis by (simp add: suspended_def)
  next
    case (conflict rec existing)
    with start returned [OF conflict(1)] show ?thesis by (auto simp: dispatch_finally_def suspended_def)
  next
    case (repeated rec existing r)
    with start returned [OF repeated(1)] show ?thesis by (auto simp: dispatch_finally_def suspended_def)
  next
    case (accepted rec g1)
    have g1: "flight_counted (g_admission g1) (AwaitLock (?f rec) # ss)"
      using taken [OF accepted(1)] accepted(4) by simp
    show ?thesis
    proof (cases take_lock)
      case True
      with start accepted(5) g1 show ?thesis by (auto simp: suspended_def)
    next
      case False
      with start accepted(5) have "RuntimeGateway_execute now (?f rec) g1 = (s, g')" by simp
      with flight_executed [OF g1 for_frame_simps(1)] show ?thesis by simp
    qed
  qed
qed

lemma flight_ended:
  assumes counted: "flight_counted (g_admission g) ss" and s0: "s0 \<in> set ss" "for_frame f s0"
    and gone: "g_admission g' = give_back f (g_admission g)" "is_done s"
  shows "flight_counted (g_admission g') (suspended s (remove1 s0 ss))"
  using flight_given_back [OF flight_counted_rotate [OF counted s0(1)] s0(2)] gone
  by (simp add: suspended_def)

lemma flight_aborted:
  assumes counted: "flight_counted (g_admission g) ss" and s0: "s0 \<in> set ss"
    and abort: "dispatch_abort exc s0 g = (s, g')"
  shows "flight_counted (g_admission g') (suspended s (remove1 s0 ss))"
proof (cases s0)
  case (DispatchDone r)
  with counted s0 show ?thesis by (auto simp: flight_counted_def)
next
  case (AwaitLock f)
  with abort show ?thesis
    by (intro flight_ended [OF counted s0, of f]) (auto simp: dispatch_abort_def dispatch_finally_def)
next
  case (AwaitResult f envelope rank)
  with abort show ?thesis
    by (intro flight_ended [OF counted s0, of f]) (auto simp: dispatch_abort_def dispatch_finally_def)
qed

section \<open>Records stay under their own identifier\<close>

definition records_keyed :: "SessionManager \<Rightarrow> bool" where
  "records_keyed m \<longleftrightarrow> keyed m"

named_theorems keyed_intros

lemma records_keyed_put [keyed_intros]: "records_keyed m \<Longrightarrow> records_keyed (put_session r m)"
  unfolding records_keyed_def by (simp only: put_session_sessions dict_get_set split: if_split) blast

lemma records_keyed_cong [keyed_intros]:
  "records_keyed m \<Longrightarrow> records_keyed (m\<lparr>sm_by_client_key := d\<rparr>)"
  by (simp add: records_keyed_def)

lemma records_keyed_purge_one: "records_keyed m \<Longrightarrow> records_keyed (purge_one m sid)"
  unfolding records_keyed_def
  by (simp only: purge_one_sessions dict_get_pop split: if_split) blast

lemma records_keyed_purge_list: "records_keyed m \<Longrightarrow> records_keyed (foldl purge_one m sids)"
  by (induction sids arbitrary: m) (simp_all add: records_keyed_purge_one)

lemma keyed_transition [keyed_intros]:
  "records_keyed m \<Longrightarrow> records_keyed (snd (SessionManager_transition now sid t e m))"
  by (auto simp: SessionManager_transition_def Let_def intro: keyed_intros split: sum.split)

lemma keyed_session_operations [keyed_intros]:
  assumes "records_keyed m"
  shows "records_keyed (snd (SessionManager_create H now fresh explicit request m))"
    "records_keyed (snd (SessionManager_commit_binding now sid rank token lease m))"
    "records_keyed (snd (SessionManager_fail now sid error m))"
    "records_keyed (snd (SessionManager_mark_lost now sid eo m))"
    "records_keyed (snd (SessionManager_begin_close now sid m))"
    "records_keyed (snd (SessionManager_finish_close now sid m))"
    "records_keyed (snd (SessionManager_renew now now2 sid lease_seconds ao m))"
    "records_keyed (snd (SessionManager_set_episode now sid ep m))"
    "records_keyed (snd (SessionManager_set_worker_summary sid summary m))"
    "records_keyed (snd (SessionManager_purge_terminal now m))"
  using assms
  by (auto simp: SessionManager_create_def register_session_def SessionManager_commit_binding_def
      SessionManager_fail_def SessionManager_mark_lost_def SessionManager_begin_close_def
      SessionManager_finish_close_def SessionManager_renew_def SessionManager_set_episode_def
      SessionManager_set_worker_summary_def SessionManager_purge_terminal_def Let_def
      intro!: keyed_intros records_keyed_purge_list split: option.split sum.split)

abbreviation gateway_keyed :: "RuntimeGateway \<Rightarrow> bool" where
  "gateway_keyed g \<equiv> records_keyed (g_sessions g)"

lemma keyed_on_sessions [keyed_intros]:
  "records_keyed (snd (f (g_sessions g))) \<Longrightarrow> gateway_keyed (snd (on_sessions f g))"
  by (cases "f (g_sessions g)") (simp add: on_sessions_def)

lemma keyed_put_object [keyed_intros]: "gateway_keyed g \<Longrightarrow> gateway_keyed (put_session_object r g)"
  by (auto simp: put_session_object_def intro: keyed_intros)

lemma keyed_results [keyed_intros]:
  "SessionManager_create H now fresh explicit request m = (r, m') \<Longrightarrow> records_keyed m \<Longrightarrow> records_keyed m'"
  "SessionManager_commit_binding now sid rank token lease m = (s, m') \<Longrightarrow> records_keyed m \<Longrightarrow> records_keyed m'"
  "SessionManager_fail now sid error m = (s, m') \<Longrightarrow> records_keyed m \<Longrightarrow> records_keyed m'"
  "SessionManager_begin_close now sid m = (s, m') \<Longrightarrow> records_keyed m \<Longrightarrow> records_keyed m'"
  "SessionManager_finish_close now sid m = (s, m') \<Longrightarrow> records_keyed m \<Longrightarrow> records_keyed m'"
  "SessionManager_mark_lost now sid eo m = (s, m') \<Longrightarrow> records_keyed m \<Longrightarrow> records_keyed m'"
  "SessionManager_renew now now2 sid lease_seconds ao m = (s, m') \<Longrightarrow> records_keyed m \<Longrightarrow> records_keyed m'"
  "SessionManager_set_episode now sid ep m = (u, m') \<Longrightarrow> records_keyed m \<Longrightarrow> records_keyed m'"
  "SessionManager_set_worker_summary sid summary m = (u, m') \<Longrightarrow> records_keyed m \<Longrightarrow> records_keyed m'"
  "SessionManager_purge_terminal now m = (l, m') \<Longrightarrow> records_keyed m \<Longrightarrow> records_keyed m'"
  by (metis keyed_session_operations snd_conv)+

section \<open>Every other step leaves the operations in flight alone\<close>

text \<open>\<open>steady g g'\<close>: the in-flight counters are the same and the records stay keyed.\<close>

definition steady :: "RuntimeGateway \<Rightarrow> RuntimeGateway \<Rightarrow> bool" where
  "steady g g' \<longleftrightarrow> flight_of (g_admission g') = flight_of (g_admission g)
     \<and> (gateway_keyed g \<longrightarrow> gateway_keyed g')"

lemma steady_refl [simp]: "steady g g"
  by (simp add: steady_def)

lemma steady_trans [trans]: "steady g g' \<Longrightarrow> steady g' g'' \<Longrightarrow> steady g g''"
  by (simp add: steady_def)

lemma flight_of_sessions [simp]:
  "flight_of (AdmissionController_release_session app a) = flight_of a"
  "flight_of (a\<lparr>ac_rejected := c\<rparr>) = flight_of a" "flight_of (a\<lparr>ac_sessions := d\<rparr>) = flight_of a"
  by (simp_all add: flight_of_def release_session_eq)

lemma steady_admit_session:
  "steady g (snd (on_admission (AdmissionController_admit_session app token) g))"
  by (cases rule: admit_session_cases [of app token "g_admission g"])
    (simp_all add: on_admission_def steady_def)

lemma steady_on_sessions:
  "(records_keyed (g_sessions g) \<Longrightarrow> records_keyed (snd (f (g_sessions g)))) \<Longrightarrow>
     steady g (snd (on_sessions f g))"
  by (cases "f (g_sessions g)") (auto simp: steady_def on_sessions_def)

lemma steady_on_operations: "steady g (snd (on_operations f g))"
  by (cases "f (g_operations g)") (simp add: steady_def on_operations_def)

lemma steady_on_workers: "steady g (snd (on_workers f g))"
  by (cases "f (g_workers g)") (simp add: steady_def on_workers_def)

lemma steady_fields:
  "steady g (g\<lparr>g_workers := w\<rparr>)" "steady g (g\<lparr>g_admission := AdmissionController_release_session app (g_admission g)\<rparr>)"
  "steady g (g\<lparr>g_late_result_count := n\<rparr>)" "steady g (g\<lparr>g_orphan_result_count := n\<rparr>)"
  by (simp_all add: steady_def)

text \<open>A step that runs \<open>f\<close> and then continues on the Gateway it left.\<close>

lemma steady_then: "f g = (r, g') \<Longrightarrow> steady g (snd (f g)) \<Longrightarrow> steady g' h \<Longrightarrow> steady g h"
  by (metis snd_conv steady_trans)

lemma steady_create_failed: "steady g (snd (create_failed now tb app sid lasterr exc g))"
proof -
  let ?g1 = "g\<lparr>g_admission := AdmissionController_release_session app (g_admission g)\<rparr>"
  let ?finish = "\<lambda>info. case sid of None \<Rightarrow> ?g1 | Some s \<Rightarrow>
     (case session_object ?g1 s of
        Some record \<Rightarrow> if s_state record = S_CREATING
                       then snd (on_sessions (SessionManager_fail now s info) ?g1) else ?g1
      | None \<Rightarrow> ?g1)"
  have fails: "steady ?g1 (snd (on_sessions (SessionManager_fail now s info) ?g1))" for s info
    by (rule steady_on_sessions) (rule keyed_intros)
  have "steady ?g1 (?finish info)" for info
    by (simp add: fails split: option.split)
  from steady_trans [OF steady_fields(2) this] show ?thesis
    unfolding create_failed_def Let_def snd_conv .
qed

lemma steady_create_attempt: "steady g (snd (create_attempt now tb app record attempted lasterr g))"
proof (cases "EnvWorkerRegistry_select_rank (env_spec record) attempted (g_workers g)")
  case (Inl exc)
  then show ?thesis by (simp add: create_attempt_def steady_create_failed)
next
  case (Inr rank)
  obtain e g1 where acq: "on_workers (EnvWorkerRegistry_acquire rank (env_spec_digest record)) g = (e, g1)"
    by fastforce
  have g1: "steady g g1" using steady_on_workers acq by (metis snd_conv)
  have returned: "steady g1 (snd (create_failed now tb app sid lasterr exc
      (g1\<lparr>g_workers := EnvWorkerRegistry_release rank False (g_workers g1)\<rparr>)))" for sid exc
    by (rule steady_trans [OF steady_fields(1) steady_create_failed])
  note failed = steady_trans [OF g1 steady_create_failed] and gave_back = steady_trans [OF g1 returned]
  from Inr acq show ?thesis
    by (simp add: create_attempt_def failed gave_back g1 split: sum.split)
qed

lemma steady_create_start: "steady g (snd (create_session_start H now tb fresh request g))"
proof -
  let ?app = "req_application_id request"
  obtain r1 g1 where adm: "on_admission (AdmissionController_admit_session ?app (req_auth_token request)) g = (r1, g1)"
    by fastforce
  have g1: "steady g g1" using steady_admit_session adm by (metis snd_conv)
  obtain r2 g2 where create: "on_sessions (SessionManager_create H now fresh None request) g1 = (r2, g2)"
    by fastforce
  have "steady g1 (snd (on_sessions (SessionManager_create H now fresh None request) g1))"
    by (rule steady_on_sessions) (rule keyed_intros)
  with g1 create have g2: "steady g g2" using steady_trans by fastforce
  note ends = steady_trans [OF g2 steady_create_failed] steady_trans [OF g2 steady_fields(2)]
      steady_trans [OF g2 steady_create_attempt]
  show ?thesis
    by (simp add: create_session_start_def Let_def adm create g1 ends split: sum.split)
qed

lemma steady_create_resume:
  "steady g (snd (create_session_resume now tb app record rank attempted lasterr result g))"
proof (cases "binding_reply rank result")
  case (Inl exc)
  note retried = steady_trans [OF steady_fields(1) steady_create_attempt]
    and failed = steady_trans [OF steady_fields(1) steady_create_failed]
  from Inl show ?thesis
    by (simp add: create_session_resume_def Let_def retried failed)
next
  case (Inr token)
  obtain r g1 where commit: "on_sessions (SessionManager_commit_binding now (session_id record) rank token None) g = (r, g1)"
    by fastforce
  have "steady g (snd (on_sessions (SessionManager_commit_binding now (session_id record) rank token None) g))"
    by (rule steady_on_sessions) (rule keyed_intros)
  with commit have g1: "steady g g1" by simp
  note failed = steady_trans [OF g1 steady_create_failed]
  from Inr commit show ?thesis
    by (simp add: create_session_resume_def g1 failed split: sum.split)
qed

lemma steady_lose_sessions: "steady g (snd (lose_sessions now records g))"
proof (induction records arbitrary: g)
  case (Cons r0 rs)
  obtain r g1 where lost: "on_sessions (SessionManager_mark_lost now (session_id r0) None) g = (r, g1)"
    by fastforce
  have "steady g (snd (on_sessions (SessionManager_mark_lost now (session_id r0) None) g))"
    by (rule steady_on_sessions) (rule keyed_intros)
  with lost have g1: "steady g g1" by simp
  note rest = steady_trans [OF g1 Cons.IH]
  from lost g1 rest Cons.IH show ?case by (simp split: sum.split)
qed simp

lemma steady_reap_ranks: "steady g (snd (reap_ranks_loop now rs g))"
proof (induction rs arbitrary: g)
  case (Cons rank rs)
  let ?g1 = "g\<lparr>g_workers := EnvWorkerRegistry_mark_unhealthy rank (g_workers g)\<rparr>"
  obtain r g2 where lose: "lose_sessions now (SessionManager_sessions_on_rank (g_sessions ?g1) rank) ?g1 = (r, g2)"
    by fastforce
  have g2: "steady g g2"
    using steady_trans [OF steady_fields(1) steady_lose_sessions] lose by (metis snd_conv)
  note rest = steady_trans [OF g2 Cons.IH]
  from lose g2 rest show ?case by (simp add: Let_def split: sum.split)
qed simp

lemma steady_finish: "steady g (snd (RuntimeGateway_finish now sid rid result g))"
proof -
  define g1 where "g1 = snd (on_sessions (SessionManager_set_worker_summary sid (res_worker_summary result)) g)"
  have g1: "steady g g1" unfolding g1_def by (rule steady_on_sessions) (rule keyed_intros)
  have fail: "steady h (snd (finish_failure now rid result e h))" for e h
  proof -
    obtain r h1 where "on_operations (if res_state result = O_CANCELLED
         then OperationRegistry_cancel now rid (res_side_effect_applied result) [Text ''cancelled'']
         else if res_state result = O_OUTCOME_UNKNOWN
         then OperationRegistry_mark_outcome_unknown now rid (err_message e)
         else OperationRegistry_fail now rid e (Some (res_side_effect_applied result))) h = (r, h1)"
      by fastforce
    moreover from this have "steady h h1" using steady_on_operations by (metis snd_conv)
    ultimately show ?thesis by (simp add: finish_failure_def split: sum.split)
  qed
  obtain r2 g2 where ep: "(case episode_of (res_value result) of None \<Rightarrow> (Inr (), g1)
      | Some ep \<Rightarrow> on_sessions (SessionManager_set_episode now sid ep) g1) = (r2, g2)" by fastforce
  have "steady g1 (snd (on_sessions (SessionManager_set_episode now sid x) g1))" for x
    by (rule steady_on_sessions) (rule keyed_intros)
  with ep have "steady g1 g2" by (cases "episode_of (res_value result)") (auto, metis snd_conv)
  with g1 have g2: "steady g g2" by (rule steady_trans)
  obtain r3 g3 where ops: "on_operations (OperationRegistry_succeed now rid (res_value result)
      (res_side_effect_applied result)) g2 = (r3, g3)" by fastforce
  have g3: "steady g g3" using steady_trans [OF g2 steady_on_operations] ops by (metis snd_conv)
  note failed = steady_trans [OF g1 fail]
  show ?thesis
    unfolding RuntimeGateway_finish_def g1_def [symmetric] Let_def ep
    by (simp add: g1 g2 g3 ops failed split: option.split sum.split)
qed

lemma steady_absorb: "steady g (snd (absorb_result now rec result g))"
proof -
  define sid where "sid = (case op_session_id rec of None \<Rightarrow> [] | Some s \<Rightarrow> s)"
  let ?fin = "\<lambda>x. RuntimeGateway_finish now x (res_request_id result) result g"
  obtain q g2 where ops: "on_operations (if ResultEnvelope_ok result
        then OperationRegistry_succeed now (res_request_id result) (res_value result) (res_side_effect_applied result)
        else OperationRegistry_fail now (res_request_id result)
          (case res_error result of Some e \<Rightarrow> e | None \<Rightarrow> synthesize_error result)
          (Some (res_side_effect_applied result))) g = (q, g2)" by fastforce
  have "steady g (snd (case ?fin x of (Inl exc, g1) \<Rightarrow> (Inl exc, g1) | (Inr _, g1) \<Rightarrow> (Inr (), g1)))" for x
    using steady_finish [of g now x "res_request_id result" result]
    by (cases "?fin x") (simp split: sum.split)
  moreover have "steady g g2" using steady_on_operations ops by (metis snd_conv)
  ultimately show ?thesis
    unfolding absorb_result_def Let_def sid_def [symmetric] ops
    by (simp split: option.split sum.split)
qed

lemma steady_late: "steady g (absorb_late_result now result g)"
proof -
  let ?g1 = "g\<lparr>g_late_result_count := g_late_result_count g + 1\<rparr>"
  have absorbed: "steady g (snd (absorb_result now rec result ?g1))" for rec
    by (rule steady_trans [OF steady_fields(3) steady_absorb])
  have "steady g (case absorb_result now rec result ?g1 of
      (Inl exc, g2) \<Rightarrow> g2\<lparr>g_orphan_result_count := g_orphan_result_count g2 + 1\<rparr> | (Inr x, g2) \<Rightarrow> g2)" for rec
    using absorbed [of rec] steady_trans [OF absorbed [of rec] steady_fields(4)]
    by (cases "absorb_result now rec result ?g1") (simp split: sum.split)
  moreover have "steady g (?g1\<lparr>g_orphan_result_count := n\<rparr>)" for n
    by (rule steady_trans [OF steady_fields(3,4)])
  ultimately show ?thesis
    by (simp add: absorb_late_result_def Let_def split: option.split)
qed

lemma steady_cancel: "steady g (snd (cancel_request_start now rid g))"
proof -
  obtain r g1 where ops: "on_operations (OperationRegistry_request_cancel now rid) g = (r, g1)" by fastforce
  have "steady g g1" using steady_on_operations ops by (metis snd_conv)
  then show ?thesis
    by (simp add: cancel_request_start_def ops split: sum.split exn.split option.split)
qed

lemma steady_renew: "steady g (snd (renew_session now sid lease g))"
proof -
  obtain r g1 where ops: "on_sessions (SessionManager_renew now now sid lease None) g = (r, g1)" by fastforce
  have "steady g (snd (on_sessions (SessionManager_renew now now sid lease None) g))"
    by (rule steady_on_sessions) (rule keyed_intros)
  with ops show ?thesis by (simp add: renew_session_def split: sum.split option.split)
qed

lemma steady_purge_sessions: "steady g (purge_sessions now g)"
proof -
  obtain l m where "SessionManager_purge_terminal now (g_sessions g) = (l, m)" by fastforce
  with keyed_results show ?thesis by (auto simp: purge_sessions_def steady_def)
qed

lemma steady_maintenance: "steady g (snd (reap_stale_workers now g))" "steady g (purge_operations now g)"
  by (simp_all add: reap_stale_workers_def steady_reap_ranks purge_operations_def steady_on_operations)

lemma steady_workers:
  "steady g (RuntimeGateway_register_env_worker now info g)" "steady g (probe_rank_start rank g)"
  "steady g (snd (probe_rank_resume now rank reply g))" "steady g (attach_transport g)"
  "steady g (put_session_object r g)"
  by (simp_all add: RuntimeGateway_register_env_worker_def probe_rank_start_def probe_rank_resume_def attach_transport_def
      steady_def keyed_put_object split: option.split)

lemmas steady_others = steady_create_start steady_create_resume steady_late steady_cancel steady_renew
  steady_purge_sessions steady_maintenance steady_workers

section \<open>Closing an idle session\<close>

lemma flight_forgotten:
  assumes "flight_counted a ss" "session_idle sid ss"
  shows "flight_counted (AdmissionController_release_session app (AdmissionController_forget_session sid a)) ss"
proof -
  have "filter (holds_session sid) ss = []" using assms(2) by (simp add: session_idle_def filter_empty_conv)
  then have zero: "count_of (ac_inflight_session a) sid = 0"
    using assms(1) by (simp add: flight_counted_def)
  have "count_of (dict_pop (ac_inflight_session a) sid) k = count_of (ac_inflight_session a) k" for k
    using zero by simp
  with assms(1) zero show ?thesis
    by (simp add: flight_counted_def release_session_eq AdmissionController_forget_session_def)
qed

text \<open>\<open>calm g ss g'\<close>: the step keeps the count of the suspended operations \<open>ss\<close> and the keys.\<close>

definition calm :: "RuntimeGateway \<Rightarrow> dispatch_step list \<Rightarrow> RuntimeGateway \<Rightarrow> bool" where
  "calm g ss g' \<longleftrightarrow> (flight_counted (g_admission g) ss \<longrightarrow> flight_counted (g_admission g') ss)
     \<and> (gateway_keyed g \<longrightarrow> gateway_keyed g')"

lemma calm_steady: "steady g g' \<Longrightarrow> calm g ss g'"
  by (simp add: calm_def steady_def) (blast intro: flight_counted_cong)

lemma calm_trans: "calm g ss g' \<Longrightarrow> calm g' ss g'' \<Longrightarrow> calm g ss g''"
  by (simp add: calm_def)

lemma calm_close_finish:
  assumes "session_idle sid ss"
  shows "calm g ss (snd (close_session_finish now sid g))"
proof -
  obtain r g1 where fin: "on_sessions (SessionManager_finish_close now sid) g = (r, g1)" by fastforce
  have "steady g (snd (on_sessions (SessionManager_finish_close now sid) g))"
    by (rule steady_on_sessions) (rule keyed_intros)
  with fin have g1: "calm g ss g1" using calm_steady by simp
  have "calm g1 ss (h\<lparr>g_admission := AdmissionController_release_session app
      (AdmissionController_forget_session sid (g_admission h))\<rparr>)"
    if "g_admission h = g_admission g1" "g_sessions h = g_sessions g1" for h app
    using that flight_forgotten [OF _ assms] by (simp add: calm_def)
  note finished = calm_trans [OF g1 this]
  from fin g1 show ?thesis
    by (simp add: close_session_finish_def Let_def finished split: sum.split option.split)
qed

lemma calm_close_start:
  assumes "session_idle sid ss \<or> (\<exists>rank. fst (close_session_start now sid g) = AwaitRelease sid rank)"
  shows "calm g ss (snd (close_session_start now sid g))"
proof -
  obtain r g1 where beg: "on_sessions (SessionManager_begin_close now sid) g = (r, g1)" by fastforce
  have "steady g (snd (on_sessions (SessionManager_begin_close now sid) g))"
    by (rule steady_on_sessions) (rule keyed_intros)
  with beg have g1: "calm g ss g1" using calm_steady by simp
  have self: "calm g ss g" by (simp add: calm_def)
  have ends: "calm g ss (snd (close_session_finish now sid g))" "calm g ss (snd (close_session_finish now sid g1))"
    if "session_idle sid ss"
    using calm_close_finish [OF that] calm_trans [OF g1 calm_close_finish [OF that]] by blast+
  show ?thesis
    using assms self g1 ends
    by (auto simp: close_session_start_def beg close_done_def split: sum.split option.split if_splits)
qed

lemma calm_recover:
  assumes "session_idle (session_id rec) ss"
  shows "calm g ss (snd (recover_one now rec g))"
proof -
  let ?sid = "session_id rec"
  obtain st g1 where start: "close_session_start now ?sid g = (st, g1)" by fastforce
  have g1: "calm g ss g1" using calm_close_start [of ?sid ss now g] assms start by simp
  have resumed: "calm g ss (snd (close_session_finish now s g1))" if "st = AwaitRelease s rank" for s rank
  proof -
    have "s = ?sid" using start that
      by (auto simp: close_session_start_def close_done_def split: sum.splits option.splits if_splits prod.splits)
    with calm_trans [OF g1 calm_close_finish [OF assms]] show ?thesis by simp
  qed
  have "calm g ss (snd (close_session now ?sid g))"
    using g1 resumed by (simp add: close_session_def start close_session_resume_def split: close_step.split)
  moreover have "calm g ss (put_session_object r g)" for r
    by (rule calm_steady) (rule steady_workers)
  ultimately show ?thesis
    by (cases "close_session now ?sid g") (simp add: recover_one_def Let_def)
qed

section \<open>The invariant of the interleavings\<close>

lemma keyed_occupy: "gateway_keyed g \<Longrightarrow> gateway_keyed (snd (occupy_session f g))"
  by (auto simp: occupy_session_def SessionManager_allocate_operation_seq_def intro: keyed_put_object
      split: sum.split)

lemma keyed_execute:
  assumes "gateway_keyed g"
  shows "gateway_keyed (snd (RuntimeGateway_execute now f g))"
proof -
  obtain r g1 where occ: "occupy_session f g = (r, g1)" by fastforce
  then have g1: "gateway_keyed g1" using keyed_occupy [OF assms, of f] by simp
  obtain e g2 where mark: "on_operations (OperationRegistry_mark_running now (df_request_id f)
      (worker_rank (frame_session f g1))) g1 = (e, g2)" by fastforce
  then have g2: "g_sessions g2 = g_sessions g1" using on_operations_sessions by (metis snd_conv)
  show ?thesis
    by (cases "worker_rank (frame_session f g1)")
      (use mark g1 g2 assms in \<open>simp_all add: RuntimeGateway_execute_def occ split: option.split sum.split\<close>)
qed

lemma admitted_sessions [simp]: "g_sessions (admitted_gateway app sid g) = g_sessions g"
  by (simp add: admitted_gateway_def)

lemma keyed_start:
  assumes "gateway_keyed g"
  shows "gateway_keyed (snd (dispatch_start H now take_lock sid operation payload rid deadline g))"
proof (cases rule: dispatch_start_cases [where sid = sid and operation = operation and g = g and H = H
      and now = now and take_lock = take_lock and payload = payload and rid = rid and deadline = deadline])
  case (accepted rec g1)
  with assms show ?thesis by (simp add: keyed_execute)
qed (use assms in simp_all)

lemma keyed_resume: "gateway_keyed g \<Longrightarrow> gateway_keyed (snd (dispatch_resume now f result g))"
proof -
  assume g: "gateway_keyed g"
  define g1 where "g1 = released f g"
  have g1: "gateway_keyed g1" using g by (simp add: g1_def keyed_put_object)
  obtain r g2 where fin: "RuntimeGateway_finish now (session_id (df_session f)) (df_request_id f) result g1 = (r, g2)"
    by fastforce
  then have "gateway_keyed g2" using steady_finish g1 by (metis snd_conv steady_def)
  with fin show ?thesis
    by (simp add: dispatch_resume_def Let_def g1_def [symmetric] split: sum.split)
qed

lemma keyed_abort: "gateway_keyed g \<Longrightarrow> gateway_keyed (snd (dispatch_abort exc s g))"
  by (auto simp: dispatch_abort_def keyed_put_object split: dispatch_step.split)

definition flight_ok :: "flight_state \<Rightarrow> bool" where
  "flight_ok x \<longleftrightarrow> gateway_keyed (fst x) \<and> flight_counted (g_admission (fst x)) (snd x)"

lemma flight_ok_calm: "calm g ss g' \<Longrightarrow> flight_ok (g, ss) \<Longrightarrow> flight_ok (g', ss)"
  by (simp add: flight_ok_def calm_def)

lemmas flight_ok_steady = flight_ok_calm [OF calm_steady]

lemma flight_ok_step: "flight_step H x y \<Longrightarrow> flight_ok x \<Longrightarrow> flight_ok y"
proof (induction rule: flight_step.induct)
  case (start now take_lock sid operation payload rid deadline g s g' ss)
  have "keyed (g_sessions g)" using start.prems by (simp add: flight_ok_def records_keyed_def)
  from flight_started [OF this _ start.hyps] keyed_start start show ?case
    by (metis flight_ok_def fst_conv snd_conv)
next
  case (locked f ss now g s g')
  have counted: "flight_counted (g_admission g) (AwaitLock f # remove1 (AwaitLock f) ss)"
    using locked by (intro flight_counted_rotate) (simp_all add: flight_ok_def)
  from flight_executed [OF this for_frame_simps(1) locked.hyps(2)] keyed_execute locked show ?case
    by (metis flight_ok_def fst_conv snd_conv)
next
  case (answered f envelope rank ss now result g s g')
  have "is_done s" "g_admission g' = give_back f (g_admission g)"
    using resume_done resume_admission answered.hyps(2) by (metis fst_conv, metis snd_conv)
  with flight_ended [OF _ answered.hyps(1) for_frame_simps(2)] keyed_resume answered show ?case
    by (metis flight_ok_def fst_conv snd_conv)
next
  case (aborted s0 ss exc g s g')
  from flight_aborted [OF _ aborted.hyps] keyed_abort aborted show ?case
    by (metis flight_ok_def fst_conv snd_conv)
next
  case (close_started sid ss now g)
  from flight_ok_calm [OF calm_close_start [OF close_started.hyps]] close_started.prems show ?case .
next
  case (close_resumed sid ss g now)
  from flight_ok_calm [OF calm_close_finish [OF close_resumed.hyps]] close_resumed.prems show ?case
    by (simp add: close_session_resume_def)
next
  case (recovered rec ss g now)
  from flight_ok_calm [OF calm_recover [OF recovered.hyps]] recovered.prems show ?case .
qed (erule flight_ok_steady [rotated], rule steady_others)+

lemma flight_ok_run:
  assumes "(flight_step H)\<^sup>*\<^sup>* x y" "flight_ok x"
  shows "flight_ok y"
  using assms by (induction rule: rtranclp_induct) (simp_all add: flight_ok_step)

lemma flight_ok_init:
  "flight_ok (RuntimeGateway_init transport admission epoch priority retention ttl heartbeat lease, [])"
  by (simp add: flight_ok_def flight_counted_def records_keyed_def RuntimeGateway_init_def
      SessionManager_init_def AdmissionController_init_def)

section \<open>Properties\<close>

text \<open>C5: the in-flight counters are exact. Take any run of the Gateway in which operations start, obtain
  their session's lock, are answered, time out or are cancelled in any order, interleaved with session
  creations and their replies, lease renewals, late results, cancellation requests, probes, reaping
  and purging, and with closings and recoveries of sessions that have no operation in flight at that
  moment. Then at every point of the run the counter of each application, the counter of each session
  and the global counter are exactly the numbers of suspended operations; so when none is suspended
  every unit has been given back, whatever the operations met on their way. The proviso is needed:
  closing a session under a running operation breaks the count.\<close>

theorem operation_gives_back_units:
  assumes "(flight_step H)\<^sup>*\<^sup>*
    (RuntimeGateway_init transport admission epoch priority retention ttl heartbeat lease, []) (g, ss)"
  shows "(\<forall>app. count_of (ac_inflight_app (g_admission g)) app = int (length (filter (holds_application app) ss)))
    \<and> (\<forall>sid. count_of (ac_inflight_session (g_admission g)) sid = int (length (filter (holds_session sid) ss)))
    \<and> ac_total_inflight (g_admission g) = int (length ss)"
  using flight_ok_run [OF assms flight_ok_init] by (simp add: flight_ok_def flight_counted_def)

text \<open>A run from an empty Gateway: two workers register, a session is created and bound, a reset waits
  for the session's lock and is then cancelled.\<close>

definition demo_ready :: RuntimeGateway where
  "demo_ready = snd (create_session_resume 0 [] ''app'' demo_session 0 {} None (accepts 0) demo_waiting)"

lemma demo_ready_session_get:
  "dict_get (sm_sessions (g_sessions demo_ready)) ''s'' = Some (transitioned 0 S_READY None
     (demo_session\<lparr>worker_rank := Some 0, binding_token := Some ''token''\<rparr>))"
  "g_admission demo_ready = (AdmissionController_init default_admission_config)\<lparr>ac_sessions := [(''app'', 1)]\<rparr>"
  "g_operations demo_ready = OperationRegistry_init 300"
proof -
  have "binding_reply 0 (accepts 0) = Inr ''token''"
    by (simp add: binding_reply_def accepts_def ResultEnvelope_ok_def Let_def)
  moreover have "dict_get (sm_sessions (g_sessions demo_waiting)) ''s'' = Some demo_session"
    by (simp add: demo_waiting_def dict_get_def)
  moreover have "g_operations demo_waiting = OperationRegistry_init 300"
    by (simp add: demo_waiting_def demo_gateway_def RuntimeGateway_init_def)
  ultimately show "dict_get (sm_sessions (g_sessions demo_ready)) ''s'' = Some (transitioned 0 S_READY None
     (demo_session\<lparr>worker_rank := Some 0, binding_token := Some ''token''\<rparr>))"
    "g_admission demo_ready = (AdmissionController_init default_admission_config)\<lparr>ac_sessions := [(''app'', 1)]\<rparr>"
    "g_operations demo_ready = OperationRegistry_init 300"
    by (simp_all add: demo_ready_def create_session_resume_def on_sessions_def Let_def
        SessionManager_commit_binding_def SessionManager_transition_def demo_session_fields)
      (simp_all add: demo_waiting_def)
qed

lemma demo_reset_waits:
  "\<exists>f g. dispatch_start (\<lambda>d p. ''d'') 1 True ''s'' Op_RESET PyNone ''r1'' None demo_ready = (AwaitLock f, g)"
proof -
  let ?r = "transitioned 0 S_READY None (demo_session\<lparr>worker_rank := Some 0, binding_token := Some ''token''\<rparr>)"
  have "require_session ''s'' Op_RESET (g_sessions demo_ready) = Inr ?r"
    by (simp add: require_session_def SessionManager_require_ready_def SessionManager_get_def
        demo_ready_session_get transitioned_def)
  moreover have "operation_gate 1 a ''s'' None 0 None (g_admission demo_ready) = None" for a
    by (simp add: operation_gate_def demo_ready_session_get AdmissionController_init_def
        default_admission_config_def)
  ultimately show ?thesis
    by (simp add: dispatch_start_def Let_def on_admission_def admit_operation_admitted on_operations_def
        OperationRegistry_begin_def demo_ready_session_get OperationRegistry_init_def)
qed

theorem operation_gives_back_units_witness:
  "\<exists>g ss. (flight_step (\<lambda>d p. ''d''))\<^sup>*\<^sup>*
       (RuntimeGateway_init True default_admission_config 1 P_INTERACTIVE 600 300 30 300, []) (g, ss)
     \<and> length ss = 1 \<and> ac_total_inflight (g_admission g) = 1"
proof -
  obtain f g where waits: "dispatch_start (\<lambda>d p. ''d'') 1 True ''s'' Op_RESET PyNone ''r1'' None demo_ready
      = (AwaitLock f, g)" using demo_reset_waits by blast
  let ?step = "flight_step (\<lambda>d p. ''d'')"
  let ?init = "RuntimeGateway_init True default_admission_config 1 P_INTERACTIVE 600 300 30 300"
  have demo: "demo_gateway = RuntimeGateway_register_env_worker 5 (demo_info 1)
      (RuntimeGateway_register_env_worker 0 (demo_info 0) ?init)"
    by (simp add: RuntimeGateway_register_env_worker_def demo_gateway_def demo_workers_def RuntimeGateway_init_def)
  have "?step (RuntimeGateway_register_env_worker 0 (demo_info 0) ?init, []) (demo_gateway, [])"
    unfolding demo by (rule flight_step.registered)
  moreover have "?step (?init, []) (RuntimeGateway_register_env_worker 0 (demo_info 0) ?init, [])"
    by (rule flight_step.registered)
  ultimately have "?step\<^sup>*\<^sup>* (?init, []) (demo_gateway, [])"
    by (meson converse_rtranclp_into_rtranclp rtranclp.rtrancl_refl)
  moreover have "?step (demo_gateway, []) (demo_waiting, [])"
    using flight_step.create_started [of "\<lambda>d p. ''d''" demo_gateway "[]" 0 "[]" "''s''" demo_create]
    by (simp add: demo_start)
  moreover have "?step (demo_waiting, []) (demo_ready, [])"
    unfolding demo_ready_def by (rule flight_step.create_resumed)
  moreover have "?step (demo_ready, []) (g, [AwaitLock f])"
    using flight_step.start [OF waits, of "[]"] by (simp add: suspended_def)
  ultimately have run: "?step\<^sup>*\<^sup>* (?init, []) (g, [AwaitLock f])"
    by (meson rtranclp.rtrancl_into_rtrancl)
  from operation_gives_back_units [OF this] have "ac_total_inflight (g_admission g) = 1" by simp
  with run show ?thesis by (intro exI [of _ g] exI [of _ "[AwaitLock f]"]) simp
qed

section \<open>What no later round of maintenance repairs\<close>

lemma close_finish_operations [simp]: "g_operations (snd (close_session_finish now sid g)) = g_operations g"
proof -
  obtain r g1 where fin: "on_sessions (SessionManager_finish_close now sid) g = (r, g1)" by fastforce
  then have "g_operations g1 = g_operations g" using on_sessions_parts(2) by (metis snd_conv)
  with fin show ?thesis
    by (simp add: close_session_finish_def Let_def split: sum.split option.split)
qed

lemma close_start_operations [simp]: "g_operations (snd (close_session_start now sid g)) = g_operations g"
proof -
  obtain r g1 where beg: "on_sessions (SessionManager_begin_close now sid) g = (r, g1)" by fastforce
  then have "g_operations g1 = g_operations g" using on_sessions_parts(2) by (metis snd_conv)
  with beg show ?thesis
    by (simp add: close_session_start_def close_done_def split: sum.split option.split)
qed

lemma close_session_operations [simp]: "g_operations (snd (close_session now sid g)) = g_operations g"
proof -
  obtain st g1 where start: "close_session_start now sid g = (st, g1)" by fastforce
  then have "g_operations g1 = g_operations g" using close_start_operations by (metis snd_conv)
  with start show ?thesis
    by (cases st) (simp_all add: close_session_def close_session_resume_def)
qed

lemma recover_operations [simp]: "g_operations (snd (recover_expired_sessions now g)) = g_operations g"
proof -
  have one: "g_operations (snd (recover_one now rec h)) = g_operations h" for rec h
  proof (cases "close_session now (session_id rec) h")
    case (Pair a b)
    then have "g_operations b = g_operations h" using close_session_operations by (metis snd_conv)
    with Pair show ?thesis by (simp add: recover_one_def Let_def)
  qed
  have "g_operations (snd (recover_loop now rs h)) = g_operations h" for rs h
  proof (induction rs arbitrary: h)
    case (Cons r0 rs)
    obtain b h1 where "recover_one now r0 h = (b, h1)" by fastforce
    with one [of r0 h] Cons.IH [of h1] show ?case
      by (cases "recover_loop now rs h1") simp
  qed simp
  then show ?thesis by (simp add: recover_expired_sessions_def)
qed

lemma reap_operations [simp]: "g_operations (snd (reap_stale_workers now g)) = g_operations g"
proof -
  have lose: "g_operations (snd (lose_sessions now rs h)) = g_operations h" for rs h
  proof (induction rs arbitrary: h)
    case (Cons r0 rs)
    obtain r h1 where lost: "on_sessions (SessionManager_mark_lost now (session_id r0) None) h = (r, h1)" by fastforce
    then have "g_operations h1 = g_operations h" using on_sessions_parts(2) by (metis snd_conv)
    with lost Cons.IH show ?case by (simp split: sum.split)
  qed simp
  have "g_operations (snd (reap_ranks_loop now rs h)) = g_operations h" for rs h
  proof (induction rs arbitrary: h)
    case (Cons rank rs)
    let ?h = "h\<lparr>g_workers := EnvWorkerRegistry_mark_unhealthy rank (g_workers h)\<rparr>"
    obtain r h1 where "lose_sessions now (SessionManager_sessions_on_rank (g_sessions ?h) rank) ?h = (r, h1)" by fastforce
    with lose [of "SessionManager_sessions_on_rank (g_sessions ?h) rank" ?h] Cons.IH show ?case
      by (simp add: Let_def split: sum.split)
  qed simp
  then show ?thesis by (simp add: reap_stale_workers_def)
qed

lemma purge_operations_operations:
  "g_operations (purge_operations now g) = snd (OperationRegistry_purge now (g_operations g))"
  by (cases "OperationRegistry_purge now (g_operations g)") (simp add: purge_operations_def on_operations_def)

lemma round_keeps_running:
  assumes "dict_ok (or_records (g_operations g))" "dict_get (or_records (g_operations g)) rid = Some rec"
    and "\<not> is_terminal rec"
  shows "dict_ok (or_records (g_operations (maintenance_round now g)))
    \<and> dict_get (or_records (g_operations (maintenance_round now g))) rid = Some rec"
proof -
  obtain r g1 where reap: "reap_stale_workers now (snd (recover_expired_sessions now g)) = (r, g1)" by fastforce
  then have g1: "g_operations g1 = g_operations g"
    using reap_operations recover_operations by (metis snd_conv)
  have "dict_get (or_records (g_operations (purge_operations now g1))) rid = Some rec"
    using assms purge_get [of "g_operations g1" rid rec now] g1
    by (simp add: purge_operations_operations op_expired_def)
  moreover have "dict_ok (or_records (g_operations (purge_operations now g1)))"
    using assms(1) g1
    by (simp add: purge_operations_operations OperationRegistry_purge_def Let_def alist_dict.wf_drop_list)
  moreover have "g_operations (purge_sessions now h) = g_operations h" for h
    by (simp add: purge_sessions_def split: prod.split)
  ultimately show ?thesis
    using assms(1,2) g1 by (simp add: maintenance_round_def reap split: sum.split)
qed

lemma rounds_keep_running:
  assumes "dict_ok (or_records (g_operations g))" "dict_get (or_records (g_operations g)) rid = Some rec"
    and "\<not> is_terminal rec"
  shows "dict_get (or_records (g_operations (fold maintenance_round moments g))) rid = Some rec"
  using assms
proof (induction moments arbitrary: g)
  case (Cons now moments)
  with round_keeps_running [OF Cons.prems, of now] show ?case by simp
qed simp

text \<open>C35: a successful result with an episode number that arrives after its session was closed and
  purged strands its operation. The step was executed, but recording its result fails: the caller is
  told \<open>UNKNOWN_SESSION\<close> and the operation stays on record as running. Only ended operations are
  purged, so it stays there, running, through every later round of maintenance, however many there
  are and whenever they run.\<close>

theorem result_after_purge_strands_operation:
  assumes "dict_get (sm_sessions (g_sessions g)) sid = None" "session_id (df_session f) = sid"
    and "session_id (frame_session f g) = sid"
    and "dict_get (or_records (g_operations g)) (df_request_id f) = Some rec" "op_state rec = O_RUNNING"
    and "dict_ok (or_records (g_operations g))"
    and "ResultEnvelope_ok result" "episode_of (res_value result) = Some ep"
    and "dispatch_resume now f result g = (step, g')"
  shows "(\<exists>e. step = DispatchDone (Err e) \<and> err_code e = E_UNKNOWN_SESSION)
    \<and> g_operations g' = g_operations g
    \<and> (\<forall>moments. dict_get (or_records (g_operations (fold maintenance_round moments g'))) (df_request_id f)
          = Some rec)"
proof -
  let ?e = "make_error E_UNKNOWN_SESSION [Text ''unknown session: '', Text sid] [(''session_id'', PyStr sid)]"
  let ?g1 = "released f g"
  have gone: "dict_get (sm_sessions (g_sessions ?g1)) sid = None"
    using assms(1-3) by (simp add: put_session_object_def)
  have "on_sessions (SessionManager_set_worker_summary sid (res_worker_summary result)) ?g1 = (Inr (), ?g1)"
    using gone by (simp add: on_sessions_def SessionManager_set_worker_summary_def)
  moreover have "on_sessions (SessionManager_set_episode now sid ep) ?g1 = (Inl (RuntimeApiError ?e), ?g1)"
    using gone by (simp add: on_sessions_def SessionManager_set_episode_def SessionManager_get_def)
  ultimately have "RuntimeGateway_finish now sid (df_request_id f) result ?g1 = (Inl (RuntimeApiError ?e), ?g1)"
    using assms(7,8) by (simp add: RuntimeGateway_finish_def ResultEnvelope_ok_def Let_def)
  then have resume: "dispatch_resume now f result g = dispatch_finally f (Err ?e, ?g1)"
    using assms(2) by (simp add: dispatch_resume_def Let_def api_error_def)
  have "g' = snd (dispatch_finally f (Err ?e, ?g1))" "step = fst (dispatch_finally f (Err ?e, ?g1))"
    using assms(9) resume by simp_all
  then have same: "g_operations g' = g_operations g" and ended: "step = DispatchDone (Err ?e)"
    by simp_all
  have "\<not> is_terminal rec" using assms(5) by (simp add: is_terminal_states)
  then show ?thesis
    using ended same assms(4,6) rounds_keep_running [of g' "df_request_id f" rec] by simp
qed

definition demo_purged_gateway :: RuntimeGateway where
  "demo_purged_gateway = demo_running_gateway\<lparr>g_sessions := SessionManager_init 1 600 300,
     g_detached := [(''s'', demo_ready_session\<lparr>s_state := S_CLOSED\<rparr>)]\<rparr>"

theorem result_after_purge_strands_operation_witness:
  "\<exists>step g'. dispatch_resume 9 demo_frame demo_result demo_purged_gateway = (step, g')
     \<and> dict_get (or_records (g_operations (fold maintenance_round [400, 9999] g'))) ''r1''
         = Some demo_running_operation"
proof -
  obtain step g' where run: "dispatch_resume 9 demo_frame demo_result demo_purged_gateway = (step, g')" by fastforce
  have facts: "dict_get (sm_sessions (g_sessions demo_purged_gateway)) ''s'' = None"
    "session_id (frame_session demo_frame demo_purged_gateway) = ''s''"
    "dict_get (or_records (g_operations demo_purged_gateway)) (df_request_id demo_frame) = Some demo_running_operation"
    "dict_ok (or_records (g_operations demo_purged_gateway))"
    by (simp_all add: demo_purged_gateway_def SessionManager_init_def frame_session_def session_object_def
        demo_running_facts demo_ready_fields dict_get_def dict_ok_def demo_running_gateway_def)
  have res: "ResultEnvelope_ok demo_result" "episode_of (res_value demo_result) = Some 1"
    by (simp_all add: demo_result_def ResultEnvelope_ok_def dict_get_def)
  note stranded = result_after_purge_strands_operation [OF facts(1) demo_running_facts(7) facts(2,3)
      demo_running_facts(3) facts(4) res run]
  then have "dict_get (or_records (g_operations (fold maintenance_round [400, 9999] g'))) (df_request_id demo_frame)
      = Some demo_running_operation" by blast
  then show ?thesis using run by (auto simp: demo_running_facts)
qed

text \<open>A Gateway with no session left.\<close>

lemma close_unknown:
  assumes "dict_get (sm_sessions (g_sessions g)) sid = None"
  shows "close_session now sid g = (Err (make_error E_UNKNOWN_SESSION
    [Text ''unknown session: '', Text sid] [(''session_id'', PyStr sid)]), g)"
  using assms by (simp add: close_session_def close_session_start_def SessionManager_get_def)

lemma empty_round:
  assumes "sm_sessions (g_sessions g) = []"
  shows "sm_sessions (g_sessions (maintenance_round now g)) = []
    \<and> quota (maintenance_round now g) a = quota g a \<and> load (maintenance_round now g) k = load g k"
proof -
  have rec: "recover_expired_sessions now g = ([], g)"
    using assms by (simp add: recover_expired_sessions_def SessionManager_expired_sessions_def dict_values_def)
  have reap: "\<exists>g1. reap_ranks_loop now rs h = (Inr (), g1) \<and> g_sessions g1 = g_sessions h
      \<and> g_admission g1 = g_admission h \<and> (\<forall>k. load g1 k = load h k)"
    if "sm_sessions (g_sessions h) = []" for rs h
    using that
  proof (induction rs arbitrary: h)
    case (Cons rank rs)
    let ?h = "h\<lparr>g_workers := EnvWorkerRegistry_mark_unhealthy rank (g_workers h)\<rparr>"
    have "load ?h k = load h k" for k
      by (cases "dict_get (wr_entries (g_workers h)) rank")
        (auto simp: EnvWorkerRegistry_mark_unhealthy_def update_known_def put_entry_def rank_load_def)
    with Cons.IH [of ?h] Cons.prems show ?case
      by (simp add: Let_def SessionManager_sessions_on_rank_def dict_values_def)
  qed simp
  obtain g1 where g1: "reap_stale_workers now g = (Inr (), g1)" "g_sessions g1 = g_sessions g"
      "g_admission g1 = g_admission g" "\<forall>k. load g1 k = load g k"
    using reap [OF assms] by (metis reap_stale_workers_def)
  have "sm_sessions (g_sessions (purge_sessions now h)) = []" "g_admission (purge_sessions now h) = g_admission h"
    "g_workers (purge_sessions now h) = g_workers h" if "sm_sessions (g_sessions h) = []" for h
    using that by (simp_all add: purge_sessions_def SessionManager_purge_terminal_def Let_def)
  moreover have "g_sessions (purge_operations now h) = g_sessions h"
    "g_admission (purge_operations now h) = g_admission h" "g_workers (purge_operations now h) = g_workers h" for h
    by (simp_all add: purge_operations_def on_operations_def split: prod.split)
  ultimately show ?thesis
    using assms g1 by (simp add: maintenance_round_def rec)
qed

text \<open>C34: a lost session that nobody closes in time keeps its quota for ever. Take a Gateway whose only
  session is lost. When the retention time is over the session is purged and the Gateway holds no
  session at all, but its unit of the application's quota and of its rank's load stay taken: after any
  number of further attempts to close it, each of which fails with \<open>UNKNOWN_SESSION\<close>, and any number
  of further rounds of maintenance, the Gateway still has no session and still counts the same quota
  and the same loads.\<close>

theorem purged_lost_session_keeps_quota:
  assumes "sm_sessions (g_sessions g) = [(sid, r)]" "s_state r = S_LOST"
    and "now - terminal_moment r \<ge> sm_error_retention_seconds (g_sessions g)"
  shows "\<forall>moments. let g' = fold (\<lambda>t h. maintenance_round t (snd (close_session t sid h))) moments
        (purge_sessions now g)
      in sm_sessions (g_sessions g') = [] \<and> quota g' a = quota g a \<and> load g' k = load g k
        \<and> (\<forall>later. \<exists>e. close_session later sid g' = (Err e, g') \<and> err_code e = E_UNKNOWN_SESSION)"
proof -
  let ?g = "purge_sessions now g"
  have "purgeable now (g_sessions g) r" using assms(2,3) by (simp add: purgeable_def)
  then have "g_sessions ?g = purge_one (g_sessions g) sid"
    using assms(1) by (simp add: purge_sessions_def SessionManager_purge_terminal_def Let_def)
  then have "dict_get (sm_sessions (g_sessions ?g)) x = None" for x
    using assms(1) by (simp add: purge_one_sessions) (simp add: dict_get_def)
  then have "map_of (sm_sessions (g_sessions ?g)) = Map.empty" by (intro ext) (simp only: dict_get_def)
  then have start: "sm_sessions (g_sessions ?g) = []" by (simp only: map_of_eq_empty_iff)
  have same: "g_admission ?g = g_admission g" "g_workers ?g = g_workers g"
    by (simp_all add: purge_sessions_def split: prod.split)
  have fold: "sm_sessions (g_sessions (fold (\<lambda>t h. maintenance_round t (snd (close_session t sid h))) moments h)) = []
      \<and> quota (fold (\<lambda>t h. maintenance_round t (snd (close_session t sid h))) moments h) a = quota h a
      \<and> load (fold (\<lambda>t h. maintenance_round t (snd (close_session t sid h))) moments h) k = load h k"
    if "sm_sessions (g_sessions h) = []" for moments h
    using that
  proof (induction moments arbitrary: h)
    case (Cons t moments)
    have "close_session t sid h = (Err (make_error E_UNKNOWN_SESSION
        [Text ''unknown session: '', Text sid] [(''session_id'', PyStr sid)]), h)"
      using Cons.prems by (intro close_unknown) (simp add: dict_get_def)
    with Cons.IH [of "maintenance_round t h"] empty_round [OF Cons.prems, of t a k] show ?case by simp
  qed simp
  show ?thesis
    using fold [OF start] same close_unknown by (auto simp: Let_def dict_get_def)
qed

definition demo_lost :: RuntimeGateway where
  "demo_lost = demo_gateway\<lparr>g_admission := (AdmissionController_init default_admission_config)
       \<lparr>ac_sessions := [(''app'', 1)]\<rparr>,
     g_sessions := (SessionManager_init 1 600 300)\<lparr>sm_sessions :=
       [(''s'', transitioned 10 S_LOST None (demo_session\<lparr>worker_rank := Some 0\<rparr>))]\<rparr>\<rparr>"

theorem purged_lost_session_keeps_quota_witness:
  "sm_sessions (g_sessions (fold (\<lambda>t h. maintenance_round t (snd (close_session t ''s'' h))) [700, 9999]
       (purge_sessions 610 demo_lost))) = []
   \<and> quota (fold (\<lambda>t h. maintenance_round t (snd (close_session t ''s'' h))) [700, 9999]
       (purge_sessions 610 demo_lost)) ''app'' = 1"
proof -
  let ?r = "transitioned 10 S_LOST None (demo_session\<lparr>worker_rank := Some 0\<rparr>)"
  have "sm_sessions (g_sessions demo_lost) = [(''s'', ?r)]" "s_state ?r = S_LOST"
    "610 - terminal_moment ?r \<ge> sm_error_retention_seconds (g_sessions demo_lost)"
    by (simp_all add: demo_lost_def SessionManager_init_def terminal_moment_def transitioned_def)
  note kept = purged_lost_session_keeps_quota [OF this, of "''app''" 0, rule_format, of "[700, 9999]"]
  have "quota demo_lost ''app'' = 1"
    by (simp add: demo_lost_def count_of_def dict_get_or_def dict_get_def)
  with kept show ?thesis by (simp only: Let_def)
qed

end
