(* ===== verification/Batch_Scheduler.thy ===== *)
theory Batch_Scheduler
  imports Api "HOL-Library.Sublist"
begin

text \<open>
  \<^verbatim>\<open>rollout_runtime/workers/batch_scheduler.py\<close>: the micro-batching scheduler inside a RolloutWorker
  rank. Requests wait in one bucket per \<open>compat_key\<close>; \<open>next_batch\<close> picks the bucket whose first
  selectable request is most urgent. A \<open>PendingRequest\<close> object carries its identity
  (Python's \<open>id\<close>) as a field, because the code removes a batch from its bucket by identity.
  The lemmas cover fairness quotas, that no request is lost or served twice, urgency order, the
  wait estimate and the version fence. Times are exact reals where the code adds and subtracts floats, so the
  wait estimate is exact up to the rounding of the clock arithmetic.
\<close>

section \<open>Data\<close>

text \<open>A float that may be \<open>float("inf")\<close>.\<close>

datatype ext_time = Finite real | Inf_time

instantiation ext_time :: linorder
begin

fun less_eq_ext_time :: "ext_time \<Rightarrow> ext_time \<Rightarrow> bool" where
  "less_eq_ext_time (Finite x) (Finite y) = (x \<le> y)"
| "less_eq_ext_time _ Inf_time = True"
| "less_eq_ext_time Inf_time (Finite y) = False"

definition less_ext_time :: "ext_time \<Rightarrow> ext_time \<Rightarrow> bool" where
  "less_ext_time x y \<longleftrightarrow> x \<le> y \<and> \<not> y \<le> x"

instance
proof
  fix x y z :: ext_time
  show "x < y \<longleftrightarrow> x \<le> y \<and> \<not> y \<le> x" by (rule less_ext_time_def)
  show "x \<le> x" by (cases x) simp_all
  show "x \<le> y \<Longrightarrow> y \<le> z \<Longrightarrow> x \<le> z" by (cases x; cases y; cases z) simp_all
  show "x \<le> y \<Longrightarrow> y \<le> x \<Longrightarrow> x = y" by (cases x; cases y) simp_all
  show "x \<le> y \<or> y \<le> x" by (cases x; cases y) auto
qed

end

record SchedulerConfig =
  max_batch_size :: int
  max_wait_ms :: real
  max_queue_depth :: int
  max_inflight_per_application :: int
  max_inflight_per_session :: int
  fixed_batch_size :: "int option"

record InferenceRequest =
  ir_request_id :: string
  ir_session_id :: string
  ir_binding_token :: "string option"
  ir_episode_id :: "int option"
  ir_operation_seq :: "int option"
  ir_policy_id :: string
  ir_model_version_hint :: "string option"
  ir_observation :: py
  ir_instruction_override :: "string option"
  ir_inference_parameters :: "(string, py) dict"
  ir_routing_token :: string
  ir_compat_key :: string
  ir_deadline :: "real option"
  ir_priority :: Priority
  ir_application_id :: string

record PendingRequest =
  pr_object :: nat
  pr_request :: InferenceRequest
  pr_enqueued_at :: real
  pr_routing_token :: string

record InferenceBatchScheduler =
  bs_config :: SchedulerConfig
  bs_buckets :: "(string, PendingRequest list) dict"
  bs_inflight_app :: "string counter"
  bs_inflight_session :: "string counter"
  bs_inflight_total :: int
  bs_enqueued_count :: int
  bs_batched_count :: int
  bs_batch_count :: int
  bs_completed_count :: int
  bs_fence_version :: "string option"

definition default_scheduler_config :: SchedulerConfig where
  "default_scheduler_config =
     \<lparr>max_batch_size = 8, max_wait_ms = 20, max_queue_depth = 256,
      max_inflight_per_application = 64, max_inflight_per_session = 4, fixed_batch_size = None\<rparr>"

definition InferenceBatchScheduler_init :: "SchedulerConfig option \<Rightarrow> InferenceBatchScheduler" where
  "InferenceBatchScheduler_init config =
     \<lparr>bs_config = (case config of None \<Rightarrow> default_scheduler_config | Some c \<Rightarrow> c),
      bs_buckets = [], bs_inflight_app = [], bs_inflight_session = [], bs_inflight_total = 0,
      bs_enqueued_count = 0, bs_batched_count = 0, bs_batch_count = 0, bs_completed_count = 0,
      bs_fence_version = None\<rparr>"

abbreviation pr_compat_key :: "PendingRequest \<Rightarrow> string" where
  "pr_compat_key p \<equiv> ir_compat_key (pr_request p)"

abbreviation pr_app :: "PendingRequest \<Rightarrow> string" where
  "pr_app p \<equiv> ir_application_id (pr_request p)"

abbreviation pr_session :: "PendingRequest \<Rightarrow> string" where
  "pr_session p \<equiv> ir_session_id (pr_request p)"

definition PendingRequest_sort_key :: "PendingRequest \<Rightarrow> int \<times> ext_time" where
  "PendingRequest_sort_key p =
     (Priority_sort_key (ir_priority (pr_request p)),
      case ir_deadline (pr_request p) of Some d \<Rightarrow> Finite d | None \<Rightarrow> Inf_time)"

section \<open>Operations\<close>

definition queue_depth :: "InferenceBatchScheduler \<Rightarrow> int" where
  "queue_depth s = sum_list (map (\<lambda>bucket. int (length bucket)) (dict_values (bs_buckets s)))"

definition accepts_more :: "InferenceBatchScheduler \<Rightarrow> bool" where
  "accepts_more s \<longleftrightarrow> queue_depth s < max_queue_depth (bs_config s)"

definition fenced :: "InferenceBatchScheduler \<Rightarrow> bool" where
  "fenced s \<longleftrightarrow> bs_fence_version s \<noteq> None"

definition begin_version_fence :: "string \<Rightarrow> InferenceBatchScheduler \<Rightarrow> InferenceBatchScheduler" where
  "begin_version_fence model_version s = s\<lparr>bs_fence_version := Some model_version\<rparr>"

definition end_version_fence :: "InferenceBatchScheduler \<Rightarrow> InferenceBatchScheduler" where
  "end_version_fence s = s\<lparr>bs_fence_version := None\<rparr>"

definition enqueue :: "PendingRequest \<Rightarrow> InferenceBatchScheduler \<Rightarrow> InferenceBatchScheduler" where
  "enqueue p s =
     (let bucket = dict_get_or (bs_buckets s) (pr_compat_key p) [] in
      s\<lparr>bs_buckets := dict_set (bs_buckets s) (pr_compat_key p) (bucket @ [p]),
        bs_enqueued_count := bs_enqueued_count s + 1\<rparr>)"

definition has_quota ::
  "InferenceBatchScheduler \<Rightarrow> PendingRequest \<Rightarrow> string counter \<Rightarrow> string counter \<Rightarrow> bool" where
  "has_quota s p extra_application extra_session =
     (if pr_app p \<noteq> [] \<and> count_of (bs_inflight_app s) (pr_app p) + count_of extra_application (pr_app p)
            \<ge> max_inflight_per_application (bs_config s) then False
      else count_of (bs_inflight_session s) (pr_session p) + count_of extra_session (pr_session p)
            < max_inflight_per_session (bs_config s))"

text \<open>The loop of \<open>_selectable\<close> over the sorted candidates.\<close>

fun select_loop ::
  "InferenceBatchScheduler \<Rightarrow> int \<Rightarrow> PendingRequest list \<Rightarrow> string counter \<Rightarrow> string counter \<Rightarrow>
   PendingRequest list \<Rightarrow> PendingRequest list" where
  "select_loop s limit [] ea es picked = picked"
| "select_loop s limit (item # rest) ea es picked =
     (if int (length picked) \<ge> limit then picked
      else if \<not> has_quota s item ea es then select_loop s limit rest ea es picked
      else select_loop s limit rest
             (if pr_app item \<noteq> [] then dict_set ea (pr_app item) (count_of ea (pr_app item) + 1) else ea)
             (dict_set es (pr_session item) (count_of es (pr_session item) + 1))
             (picked @ [item]))"

definition order_key :: "PendingRequest \<Rightarrow> (int \<times> ext_time) \<times> real" where
  "order_key p = (PendingRequest_sort_key p, pr_enqueued_at p)"

definition selectable ::
  "InferenceBatchScheduler \<Rightarrow> PendingRequest list \<Rightarrow> int \<Rightarrow> PendingRequest list" where
  "selectable s bucket limit = select_loop s limit (sort_key order_key bucket) [] [] []"

definition acquire_quota :: "InferenceBatchScheduler \<Rightarrow> PendingRequest \<Rightarrow> InferenceBatchScheduler" where
  "acquire_quota s p =
     (let s1 = (if pr_app p \<noteq> []
                then s\<lparr>bs_inflight_app := dict_set (bs_inflight_app s) (pr_app p)
                         (count_of (bs_inflight_app s) (pr_app p) + 1)\<rparr> else s)
      in s1\<lparr>bs_inflight_session := dict_set (bs_inflight_session s1) (pr_session p)
              (count_of (bs_inflight_session s1) (pr_session p) + 1),
            bs_inflight_total := bs_inflight_total s1 + 1\<rparr>)"

text \<open>\<open>self.config.fixed_batch_size or self.config.max_batch_size\<close>, at least one.\<close>

definition batch_limit :: "SchedulerConfig \<Rightarrow> int" where
  "batch_limit c =
     max 1 (case fixed_batch_size c of None \<Rightarrow> max_batch_size c
            | Some n \<Rightarrow> if n = 0 then max_batch_size c else n)"

definition wait_seconds :: "SchedulerConfig \<Rightarrow> real" where
  "wait_seconds c = max 0 (max_wait_ms c / 1000)"

definition oldest :: "PendingRequest list \<Rightarrow> real" where
  "oldest items = Min (set (map pr_enqueued_at items))"

definition batch_ready :: "InferenceBatchScheduler \<Rightarrow> real \<Rightarrow> PendingRequest list \<Rightarrow> bool" where
  "batch_ready s now items \<longleftrightarrow> int (length items) \<ge> batch_limit (bs_config s)
     \<or> now - oldest items \<ge> wait_seconds (bs_config s)"

text \<open>The loop of \<open>next_batch\<close> over the buckets; the accumulator is \<open>best_key\<close>, \<open>best_rank\<close>,
  \<open>best_items\<close>.\<close>

fun scan_buckets ::
  "InferenceBatchScheduler \<Rightarrow> real \<Rightarrow> (string \<times> PendingRequest list) list \<Rightarrow>
   (string \<times> (int \<times> ext_time) \<times> PendingRequest list) option \<Rightarrow>
   (string \<times> (int \<times> ext_time) \<times> PendingRequest list) option" where
  "scan_buckets s now [] best = best"
| "scan_buckets s now ((key, bucket) # rest) best =
     (let items = selectable s bucket (batch_limit (bs_config s)) in
      if items = [] then scan_buckets s now rest best
      else if \<not> batch_ready s now items then scan_buckets s now rest best
      else
        (let rank = PendingRequest_sort_key (hd items) in
         case best of
           None \<Rightarrow> scan_buckets s now rest (Some (key, rank, items))
         | Some (bk, br, bi) \<Rightarrow>
             if rank < br then scan_buckets s now rest (Some (key, rank, items))
             else scan_buckets s now rest best))"

definition remove_batch :: "string \<Rightarrow> PendingRequest list \<Rightarrow> InferenceBatchScheduler \<Rightarrow> InferenceBatchScheduler" where
  "remove_batch key batch s =
     (let bucket = dict_get_or (bs_buckets s) key [];
          chosen = set (map pr_object batch);
          remaining = filter (\<lambda>item. pr_object item \<notin> chosen) bucket
      in if remaining \<noteq> [] then s\<lparr>bs_buckets := dict_set (bs_buckets s) key remaining\<rparr>
         else s\<lparr>bs_buckets := dict_pop (bs_buckets s) key\<rparr>)"

definition next_batch ::
  "real \<Rightarrow> InferenceBatchScheduler \<Rightarrow> PendingRequest list \<times> InferenceBatchScheduler" where
  "next_batch now s =
     (if fenced s \<and> bs_inflight_total s > 0 then ([], s)
      else
        (case scan_buckets s now (bs_buckets s) None of
           None \<Rightarrow> ([], s)
         | Some (key, rank, items) \<Rightarrow>
             (let batch = take (nat (batch_limit (bs_config s))) items;
                  s1 = foldl acquire_quota (remove_batch key batch s) batch
              in (batch, s1\<lparr>bs_batch_count := bs_batch_count s1 + 1,
                            bs_batched_count := bs_batched_count s1 + int (length batch)\<rparr>))))"

fun ready_loop :: "InferenceBatchScheduler \<Rightarrow> real \<Rightarrow> PendingRequest list list \<Rightarrow> real option \<Rightarrow> real option" where
  "ready_loop s now [] best = best"
| "ready_loop s now (bucket # rest) best =
     (let items = selectable s bucket (batch_limit (bs_config s)) in
      if items = [] then ready_loop s now rest best
      else if int (length items) \<ge> batch_limit (bs_config s) then Some 0
      else
        (let remaining = max 0 (wait_seconds (bs_config s) - (now - oldest items)) in
         ready_loop s now rest
           (Some (case best of None \<Rightarrow> remaining | Some b \<Rightarrow> min b remaining))))"

definition time_until_ready :: "real \<Rightarrow> InferenceBatchScheduler \<Rightarrow> real option" where
  "time_until_ready now s =
     (if fenced s \<and> bs_inflight_total s > 0 then None
      else ready_loop s now (dict_values (bs_buckets s)) None)"

definition complete :: "PendingRequest \<Rightarrow> InferenceBatchScheduler \<Rightarrow> InferenceBatchScheduler" where
  "complete p s =
     (let s1 = (if pr_app p \<noteq> [] then
                  (let left = count_of (bs_inflight_app s) (pr_app p) - 1 in
                   if left > 0 then s\<lparr>bs_inflight_app := dict_set (bs_inflight_app s) (pr_app p) left\<rparr>
                   else s\<lparr>bs_inflight_app := dict_pop (bs_inflight_app s) (pr_app p)\<rparr>)
                else s);
          left = count_of (bs_inflight_session s1) (pr_session p) - 1;
          sessions = (if left > 0 then dict_set (bs_inflight_session s1) (pr_session p) left
                      else dict_pop (bs_inflight_session s1) (pr_session p))
      in s1\<lparr>bs_inflight_session := sessions,
            bs_inflight_total := max 0 (bs_inflight_total s1 - 1),
            bs_completed_count := bs_completed_count s1 + 1\<rparr>)"

section \<open>Selection within a bucket\<close>

definition app_count :: "string \<Rightarrow> PendingRequest list \<Rightarrow> int" where
  "app_count a ps = int (length (filter (\<lambda>p. pr_app p = a) ps))"

definition session_count :: "string \<Rightarrow> PendingRequest list \<Rightarrow> int" where
  "session_count sid ps = int (length (filter (\<lambda>p. pr_session p = sid) ps))"

lemma app_count_simps [simp]:
  "app_count a [] = 0"
  "app_count a (p # ps) = (if pr_app p = a then 1 else 0) + app_count a ps"
  "app_count a (ps @ qs) = app_count a ps + app_count a qs"
  by (simp_all add: app_count_def)

lemma session_count_simps [simp]:
  "session_count a [] = 0"
  "session_count a (p # ps) = (if pr_session p = a then 1 else 0) + session_count a ps"
  "session_count a (ps @ qs) = session_count a ps + session_count a qs"
  by (simp_all add: session_count_def)

lemma counts_nonneg: "0 \<le> app_count a ps" "0 \<le> session_count a ps"
  by (simp_all add: app_count_def session_count_def)

text \<open>The fairness rule the incremental check implements: a request may join a batch when its
  application and its session have room beside what is in flight and what the batch already holds.\<close>

definition quota_left :: "InferenceBatchScheduler \<Rightarrow> PendingRequest \<Rightarrow> PendingRequest list \<Rightarrow> bool" where
  "quota_left s p batch \<longleftrightarrow>
     (pr_app p = [] \<or> count_of (bs_inflight_app s) (pr_app p) + app_count (pr_app p) batch
        < max_inflight_per_application (bs_config s))
     \<and> count_of (bs_inflight_session s) (pr_session p) + session_count (pr_session p) batch
        < max_inflight_per_session (bs_config s)"

fun select_ref ::
  "InferenceBatchScheduler \<Rightarrow> int \<Rightarrow> PendingRequest list \<Rightarrow> PendingRequest list \<Rightarrow> PendingRequest list" where
  "select_ref s limit [] picked = picked"
| "select_ref s limit (x # xs) picked =
     (if int (length picked) \<ge> limit then picked
      else if quota_left s x picked then select_ref s limit xs (picked @ [x])
      else select_ref s limit xs picked)"

lemma select_loop_ref:
  assumes "\<And>a. a \<noteq> [] \<Longrightarrow> count_of ea a = app_count a picked"
    and "\<And>x. count_of es x = session_count x picked"
  shows "select_loop s limit xs ea es picked = select_ref s limit xs picked"
  using assms
proof (induction s limit xs ea es picked rule: select_loop.induct)
  case (2 s limit item rest ea es picked)
  have q: "has_quota s item ea es \<longleftrightarrow> quota_left s item picked"
    using 2(3,4) by (cases "pr_app item = []") (auto simp: has_quota_def quota_left_def)
  show ?case
    using 2(1) [OF _ _ 2(3,4)] 2(2) q 2(3,4) by auto
qed simp

lemma selectable_ref: "selectable s bucket limit = select_ref s limit (sort_key order_key bucket) []"
  by (simp add: selectable_def select_loop_ref)

lemma select_ref_extends: "\<exists>new. select_ref s limit xs picked = picked @ new \<and> subseq new xs"
proof (induction xs arbitrary: picked)
  case (Cons x xs)
  obtain new where a: "select_ref s limit xs (picked @ [x]) = (picked @ [x]) @ new" "subseq new xs"
    using Cons.IH by blast
  obtain new' where b: "select_ref s limit xs picked = picked @ new'" "subseq new' xs"
    using Cons.IH by blast
  show ?case
    using a b by (auto intro: exI [of _ "x # new"] exI [of _ new'])
qed simp

lemma select_ref_length:
  "int (length (select_ref s limit xs picked)) \<le> max (int (length picked)) limit"
proof (induction xs arbitrary: picked)
  case (Cons x xs)
  from Cons.IH [of picked] Cons.IH [of "picked @ [x]"] show ?case
    by (cases "limit \<le> int (length picked)") auto
qed simp

lemma select_ref_quota:
  "a \<noteq> [] \<Longrightarrow> count_of (bs_inflight_app s) a + app_count a (select_ref s limit xs picked)
     \<le> max (count_of (bs_inflight_app s) a + app_count a picked) (max_inflight_per_application (bs_config s))"
  "count_of (bs_inflight_session s) x + session_count x (select_ref s limit xs picked)
     \<le> max (count_of (bs_inflight_session s) x + session_count x picked) (max_inflight_per_session (bs_config s))"
proof (induction xs arbitrary: picked)
  case (Cons y ys)
  {
    case 1
    with Cons.IH(1) [OF 1, of picked] Cons.IH(1) [OF 1, of "picked @ [y]"]
    show ?case by (cases "pr_app y = a") (auto simp: quota_left_def)
  next
    case 2
    with Cons.IH(2) [of picked] Cons.IH(2) [of "picked @ [y]"]
    show ?case by (cases "pr_session y = x") (auto simp: quota_left_def)
  }
qed simp_all

lemma quota_left_mono: "quota_left s p (xs @ ys) \<Longrightarrow> quota_left s p xs"
  using counts_nonneg(1) [of "pr_app p" ys] counts_nonneg(2) [of "pr_session p" ys]
  by (auto simp: quota_left_def)

lemma select_ref_skips:
  "x \<in> set xs \<Longrightarrow> x \<notin> set (select_ref s limit xs picked) \<Longrightarrow> sorted (map order_key xs) \<Longrightarrow>
   \<forall>p \<in> set picked. \<forall>y \<in> set xs. order_key p \<le> order_key y \<Longrightarrow>
   \<not> quota_left s x (select_ref s limit xs picked)
   \<or> limit \<le> int (length (select_ref s limit xs picked))
     \<and> (\<forall>p \<in> set (select_ref s limit xs picked). order_key p \<le> order_key x)"
proof (induction xs arbitrary: picked)
  case (Cons y ys)
  consider (full) "int (length picked) \<ge> limit"
    | (take) "int (length picked) < limit" "quota_left s y picked"
    | (skip) "int (length picked) < limit" "\<not> quota_left s y picked" by linarith
  then show ?case
  proof cases
    case full
    with Cons.prems show ?thesis by auto
  next
    case take
    obtain new where new: "select_ref s limit ys (picked @ [y]) = picked @ [y] @ new"
      using select_ref_extends [of s limit ys "picked @ [y]"] by auto
    with take Cons.prems have "x \<in> set ys" "x \<notin> set (select_ref s limit ys (picked @ [y]))" by auto
    from Cons.IH [OF this] take Cons.prems(3,4) show ?thesis by auto
  next
    case skip
    obtain new where new: "select_ref s limit ys picked = picked @ new"
      using select_ref_extends by blast
    show ?thesis
    proof (cases "x \<in> set ys")
      case True
      from Cons.IH [OF True, of picked] skip Cons.prems show ?thesis by auto
    next
      case False
      with Cons.prems(1) have "x = y" by simp
      with skip new quota_left_mono [of s x picked new] show ?thesis by auto
    qed
  qed
qed simp

lemma subseq_mset: "subseq xs ys \<Longrightarrow> mset xs \<subseteq># mset ys"
proof (induction rule: list_emb.induct)
  case (list_emb_Cons xs ys y)
  then show ?case
    using subset_mset.order_trans [OF _ mset_subset_eq_add_right [of "mset ys" "{#y#}"]] by simp
qed auto

lemma subseq_keeps:
  "subseq xs ys \<Longrightarrow> (distinct ys \<longrightarrow> distinct xs) \<and> (sorted ys \<longrightarrow> sorted xs) \<and> set xs \<subseteq> set ys"
  for xs ys :: "'a :: linorder list"
  by (induction rule: list_emb.induct) auto

lemma selectable_subseq: "subseq (selectable s bucket limit) (sort_key order_key bucket)"
  using select_ref_extends [of s limit "sort_key order_key bucket" "[]"] by (auto simp: selectable_ref)

lemma selectable_subset: "mset (selectable s bucket limit) \<subseteq># mset bucket"
  using subseq_mset [OF selectable_subseq, of s bucket limit] by simp

lemma selectable_props:
  shows "int (length (selectable s bucket (batch_limit c))) \<le> batch_limit c"
    and "set (selectable s bucket limit) \<subseteq> set bucket"
    and "distinct (map pr_object bucket) \<Longrightarrow> distinct (map pr_object (selectable s bucket limit))"
    and "sorted (map order_key (selectable s bucket limit))"
proof -
  have "1 \<le> batch_limit c" by (simp add: batch_limit_def)
  then show "int (length (selectable s bucket (batch_limit c))) \<le> batch_limit c"
    using select_ref_length [of s "batch_limit c" "sort_key order_key bucket" "[]"]
    by (simp add: selectable_ref)
  note sub = subseq_map [OF selectable_subseq, of _ s bucket limit]
  show "set (selectable s bucket limit) \<subseteq> set bucket"
    using set_mset_mono [OF selectable_subset] by simp
  show "distinct (map pr_object (selectable s bucket limit))" if "distinct (map pr_object bucket)"
  proof -
    have "mset (map pr_object (sort_key order_key bucket)) = mset (map pr_object bucket)" by simp
    then have "distinct (map pr_object (sort_key order_key bucket))"
      using that mset_eq_imp_distinct_iff by blast
    then show ?thesis using subseq_keeps [OF sub] by blast
  qed
  show "sorted (map order_key (selectable s bucket limit))"
    using subseq_keeps [OF sub [of order_key]] by simp
qed

section \<open>Choosing a bucket\<close>

definition ready_bucket :: "InferenceBatchScheduler \<Rightarrow> real \<Rightarrow> PendingRequest list \<Rightarrow> bool" where
  "ready_bucket s now bucket \<longleftrightarrow>
     (let items = selectable s bucket (batch_limit (bs_config s))
      in items \<noteq> [] \<and> batch_ready s now items)"

abbreviation bucket_rank :: "InferenceBatchScheduler \<Rightarrow> PendingRequest list \<Rightarrow> int \<times> ext_time" where
  "bucket_rank s bucket \<equiv>
     PendingRequest_sort_key (hd (selectable s bucket (batch_limit (bs_config s))))"

lemma scan_Cons:
  "scan_buckets s now ((key, bucket) # rest) best =
     scan_buckets s now rest
       (if ready_bucket s now bucket
           \<and> (case best of None \<Rightarrow> True | Some (k, r, i) \<Rightarrow> bucket_rank s bucket < r)
        then Some (key, bucket_rank s bucket, selectable s bucket (batch_limit (bs_config s)))
        else best)"
  by (cases best) (auto simp: ready_bucket_def Let_def split: prod.split)

lemma scan_buckets_None:
  "scan_buckets s now l best = None \<longleftrightarrow>
     best = None \<and> (\<forall>(key, bucket) \<in> set l. \<not> ready_bucket s now bucket)"
proof (induction l arbitrary: best)
  case (Cons kb l)
  obtain key bucket where "kb = (key, bucket)" by (cases kb)
  with Cons.IH show ?case by (auto simp: scan_Cons simp del: scan_buckets.simps)
qed simp

lemma scan_buckets_Some:
  assumes "scan_buckets s now l best = Some (key, rank, items)"
  shows "(best = Some (key, rank, items) \<or>
      (\<exists>bucket. (key, bucket) \<in> set l \<and> ready_bucket s now bucket \<and> rank = bucket_rank s bucket
         \<and> items = selectable s bucket (batch_limit (bs_config s))))
    \<and> (\<forall>k b. (k, b) \<in> set l \<and> ready_bucket s now b \<longrightarrow> rank \<le> bucket_rank s b)
    \<and> (\<forall>k r i. best = Some (k, r, i) \<longrightarrow> rank \<le> r)"
  using assms
proof (induction l arbitrary: best)
  case (Cons kb l)
  obtain k b where kb: "kb = (k, b)" by (cases kb)
  show ?case
  proof (cases "ready_bucket s now b
      \<and> (case best of None \<Rightarrow> True | Some (k, r, i) \<Rightarrow> bucket_rank s b < r)")
    case True
    with Cons.prems kb have "scan_buckets s now l (Some (k, bucket_rank s b,
        selectable s b (batch_limit (bs_config s)))) = Some (key, rank, items)"
      by (simp add: scan_Cons del: scan_buckets.simps)
    note * = Cons.IH [OF this]
    then have le: "rank \<le> bucket_rank s b" by blast
    have "rank \<le> r" if "best = Some (k, r, i)" for k r i
    proof -
      from True that have "bucket_rank s b < r" by simp
      with le show ?thesis by (rule order_trans [OF _ less_imp_le])
    qed
    moreover have "rank \<le> bucket_rank s b'" if "(k', b') \<in> set (kb # l)" "ready_bucket s now b'" for k' b'
    proof (cases "(k', b') = kb")
      case True
      with kb le show ?thesis by simp
    next
      case False
      with that * show ?thesis by fastforce
    qed
    moreover have "\<exists>bucket. (key, bucket) \<in> set (kb # l) \<and> ready_bucket s now bucket
        \<and> rank = bucket_rank s bucket \<and> items = selectable s bucket (batch_limit (bs_config s))"
      using * True kb by auto
    ultimately show ?thesis by blast
  next
    case False
    with Cons.prems kb have "scan_buckets s now l best = Some (key, rank, items)"
      by (simp add: scan_Cons del: scan_buckets.simps)
    note * = Cons.IH [OF this]
    have "rank \<le> bucket_rank s b" if "ready_bucket s now b"
      using False that * by (auto split: option.splits)
    with * kb show ?thesis by auto
  qed
qed simp

lemma next_batch_Nil:
  "fst (next_batch now s) = [] \<longleftrightarrow>
     fenced s \<and> 0 < bs_inflight_total s
     \<or> (\<forall>(key, bucket) \<in> set (bs_buckets s). \<not> ready_bucket s now bucket)"
proof (cases "scan_buckets s now (bs_buckets s) None")
  case None
  then show ?thesis using scan_buckets_None [of s now "bs_buckets s" None] by (simp add: next_batch_def)
next
  case (Some best)
  obtain key rank items where best: "best = (key, rank, items)" by (cases best)
  have "items \<noteq> []" "0 < nat (batch_limit (bs_config s))"
    using scan_buckets_Some [OF Some [unfolded best]]
    by (auto simp: ready_bucket_def Let_def batch_limit_def)
  moreover have "\<not> (\<forall>(key, bucket) \<in> set (bs_buckets s). \<not> ready_bucket s now bucket)"
    using Some scan_buckets_None [of s now "bs_buckets s" None] by simp
  ultimately show ?thesis using Some best by (simp add: next_batch_def Let_def)
qed

lemma next_batch_empty: "next_batch now s = ([], s') \<Longrightarrow> s' = s"
proof -
  assume eq: "next_batch now s = ([], s')"
  then have "fenced s \<and> 0 < bs_inflight_total s \<or> scan_buckets s now (bs_buckets s) None = None"
    using next_batch_Nil [of now s] scan_buckets_None [of s now "bs_buckets s" None] by auto
  with eq show ?thesis by (auto simp: next_batch_def split: if_splits)
qed

lemma next_batch_cases:
  assumes "next_batch now s = (batch, s')" "batch \<noteq> []"
  obtains key bucket where "(key, bucket) \<in> set (bs_buckets s)" "ready_bucket s now bucket"
    "batch = selectable s bucket (batch_limit (bs_config s))"
    "\<And>k b. (k, b) \<in> set (bs_buckets s) \<Longrightarrow> ready_bucket s now b \<Longrightarrow>
       PendingRequest_sort_key (hd batch) \<le> bucket_rank s b"
    "s' = (foldl acquire_quota (remove_batch key batch s) batch)
            \<lparr>bs_batch_count := bs_batch_count (foldl acquire_quota (remove_batch key batch s) batch) + 1,
             bs_batched_count := bs_batched_count (foldl acquire_quota (remove_batch key batch s) batch)
               + int (length batch)\<rparr>"
    "\<not> (fenced s \<and> 0 < bs_inflight_total s)"
proof -
  from assms obtain key rank items where
    scan: "scan_buckets s now (bs_buckets s) None = Some (key, rank, items)"
    and batch: "batch = take (nat (batch_limit (bs_config s))) items"
    and s': "s' = (foldl acquire_quota (remove_batch key batch s) batch)
            \<lparr>bs_batch_count := bs_batch_count (foldl acquire_quota (remove_batch key batch s) batch) + 1,
             bs_batched_count := bs_batched_count (foldl acquire_quota (remove_batch key batch s) batch)
               + int (length batch)\<rparr>"
    and fence: "\<not> (fenced s \<and> 0 < bs_inflight_total s)"
    by (auto simp: next_batch_def Let_def split: if_splits option.splits)
  from scan_buckets_Some [OF scan] obtain bucket where
    b: "(key, bucket) \<in> set (bs_buckets s)" "ready_bucket s now bucket" "rank = bucket_rank s bucket"
      "items = selectable s bucket (batch_limit (bs_config s))"
    and least: "\<And>k b. (k, b) \<in> set (bs_buckets s) \<Longrightarrow> ready_bucket s now b \<Longrightarrow> rank \<le> bucket_rank s b"
    by auto
  have "int (length items) \<le> batch_limit (bs_config s)"
    using selectable_props(1) b(4) by simp
  then have "batch = items" using batch by simp
  with b least s' fence that show ?thesis by metis
qed

section \<open>Steps and invariant\<close>

definition waiting :: "InferenceBatchScheduler \<Rightarrow> PendingRequest multiset" where
  "waiting s = dict_bag (bs_buckets s)"

definition buckets_ok :: "InferenceBatchScheduler \<Rightarrow> bool" where
  "buckets_ok s \<longleftrightarrow> dict_ok (bs_buckets s)
     \<and> (\<forall>key bucket. dict_get (bs_buckets s) key = Some bucket \<longrightarrow>
          bucket \<noteq> [] \<and> (\<forall>p \<in> set bucket. pr_compat_key p = key))"

text \<open>The counters of a scheduler agree with the requests that are in flight.\<close>

definition counters_exact :: "InferenceBatchScheduler \<Rightarrow> PendingRequest list \<Rightarrow> bool" where
  "counters_exact s running \<longleftrightarrow>
     counter_ok (bs_inflight_app s) \<and> counter_ok (bs_inflight_session s)
     \<and> (\<forall>a. a \<noteq> [] \<longrightarrow> count_of (bs_inflight_app s) a = app_count a running)
     \<and> (\<forall>x. count_of (bs_inflight_session s) x = session_count x running)
     \<and> bs_inflight_total s = int (length running)"

definition quotas_kept :: "InferenceBatchScheduler \<Rightarrow> PendingRequest list \<Rightarrow> bool" where
  "quotas_kept s running \<longleftrightarrow>
     (\<forall>a. a \<noteq> [] \<longrightarrow> app_count a running \<le> max 0 (max_inflight_per_application (bs_config s)))
     \<and> (\<forall>x. session_count x running \<le> max 0 (max_inflight_per_session (bs_config s)))"

text \<open>A run of the scheduler: \<open>all\<close> are the requests enqueued so far, \<open>running\<close> those handed out in a
  batch and not completed, \<open>finished\<close> the completed ones. Each enqueued object is new.\<close>

inductive sched_run ::
  "SchedulerConfig option \<Rightarrow> InferenceBatchScheduler \<Rightarrow> PendingRequest list \<Rightarrow> PendingRequest list \<Rightarrow>
   PendingRequest list \<Rightarrow> bool" for config where
  start: "sched_run config (InferenceBatchScheduler_init config) [] [] []"
| enqueue: "sched_run config s all running finished \<Longrightarrow> pr_object p \<notin> pr_object ` set all \<Longrightarrow>
    sched_run config (enqueue p s) (p # all) running finished"
| batch: "sched_run config s all running finished \<Longrightarrow> next_batch now s = (batch, s') \<Longrightarrow>
    sched_run config s' all (running @ batch) finished"
| complete: "sched_run config s all running finished \<Longrightarrow> p \<in> set running \<Longrightarrow>
    sched_run config (complete p s) all (remove1 p running) (p # finished)"
| fence: "sched_run config s all running finished \<Longrightarrow>
    sched_run config (begin_version_fence version s) all running finished"
| unfence: "sched_run config s all running finished \<Longrightarrow>
    sched_run config (end_version_fence s) all running finished"

text \<open>The quota bodies are the shared ledger operations.\<close>

lemma acquire_quota_eq:
  "acquire_quota s p =
     s\<lparr>bs_inflight_app := (if pr_app p \<noteq> [] then counter_inc (bs_inflight_app s) (pr_app p)
                          else bs_inflight_app s),
       bs_inflight_session := counter_inc (bs_inflight_session s) (pr_session p),
       bs_inflight_total := bs_inflight_total s + 1\<rparr>"
  by (simp add: acquire_quota_def counter_inc_def)

lemma complete_eq:
  "complete p s =
     s\<lparr>bs_inflight_app := (if pr_app p \<noteq> [] then counter_dec_left (bs_inflight_app s) (pr_app p)
                          else bs_inflight_app s),
       bs_inflight_session := counter_dec_left (bs_inflight_session s) (pr_session p),
       bs_inflight_total := max 0 (bs_inflight_total s - 1),
       bs_completed_count := bs_completed_count s + 1\<rparr>"
  by (simp add: complete_def counter_dec_left_def Let_def)

lemma acquire_quota_exact: "counters_exact s running \<Longrightarrow> counters_exact (acquire_quota s p) (running @ [p])"
  by (auto simp: counters_exact_def acquire_quota_eq counter_ok_inc left_ledger.count_acquire)

lemma acquire_list_exact:
  "counters_exact s running \<Longrightarrow> counters_exact (foldl acquire_quota s batch) (running @ batch)"
proof (induction batch arbitrary: s running)
  case (Cons p batch)
  from Cons.IH [OF acquire_quota_exact [OF Cons.prems]] show ?case by simp
qed simp

lemma acquire_list_keeps [simp]:
  "bs_config (foldl acquire_quota s batch) = bs_config s"
  "bs_buckets (foldl acquire_quota s batch) = bs_buckets s"
  "bs_enqueued_count (foldl acquire_quota s batch) = bs_enqueued_count s"
  "bs_batched_count (foldl acquire_quota s batch) = bs_batched_count s"
  "bs_completed_count (foldl acquire_quota s batch) = bs_completed_count s"
  "bs_fence_version (foldl acquire_quota s batch) = bs_fence_version s"
  by (induction batch arbitrary: s) (simp_all add: acquire_quota_eq)

lemma remove_batch_keeps [simp]:
  "bs_config (remove_batch key batch s) = bs_config s"
  "bs_inflight_app (remove_batch key batch s) = bs_inflight_app s"
  "bs_inflight_session (remove_batch key batch s) = bs_inflight_session s"
  "bs_inflight_total (remove_batch key batch s) = bs_inflight_total s"
  "bs_enqueued_count (remove_batch key batch s) = bs_enqueued_count s"
  "bs_batched_count (remove_batch key batch s) = bs_batched_count s"
  "bs_completed_count (remove_batch key batch s) = bs_completed_count s"
  "bs_fence_version (remove_batch key batch s) = bs_fence_version s"
  by (simp_all add: remove_batch_def Let_def)

lemma count_remove1:
  "p \<in> set ps \<Longrightarrow> app_count a (remove1 p ps) = app_count a ps - (if pr_app p = a then 1 else 0)"
  "p \<in> set ps \<Longrightarrow> session_count x (remove1 p ps) = session_count x ps - (if pr_session p = x then 1 else 0)"
  by (induction ps) auto

lemma complete_exact:
  assumes "counters_exact s running" "p \<in> set running"
  shows "counters_exact (complete p s) (remove1 p running)"
proof -
  have "0 < session_count (pr_session p) running" "0 < app_count (pr_app p) running"
    using assms(2) by (induction running) (auto intro: add_pos_nonneg simp: counts_nonneg add_nonneg_pos)
  moreover have "int (length running) - 1 = int (length running - 1)" "1 \<le> int (length running)"
    using assms(2) by (cases running; auto)+
  ultimately show ?thesis
    using assms by (auto simp: counters_exact_def complete_eq counter_dec_eq counter_ok_dec
        le1_ledger.count_release count_remove1 length_remove1)
qed

lemma quotas_kept_remove: "quotas_kept s running \<Longrightarrow> p \<in> set running \<Longrightarrow> quotas_kept s (remove1 p running)"
proof -
  assume kept: "quotas_kept s running" and p: "p \<in> set running"
  have "app_count a (remove1 p running) \<le> app_count a running"
    "session_count a (remove1 p running) \<le> session_count a running" for a
    using p by (simp_all add: count_remove1)
  with kept show ?thesis unfolding quotas_kept_def by (meson order_trans)
qed

lemma buckets_ok_enqueue: "buckets_ok s \<Longrightarrow> buckets_ok (enqueue p s)"
  by (auto simp: buckets_ok_def enqueue_def Let_def dict_get_or_def split: option.splits)
    metis

lemma waiting_enqueue: "waiting (enqueue p s) = add_mset p (waiting s)"
  using dict_bag_set [of "bs_buckets s" "pr_compat_key p"
      "dict_get_or (bs_buckets s) (pr_compat_key p) [] @ [p]"]
  by (simp add: waiting_def enqueue_def Let_def)

lemma buckets_ok_remove: "buckets_ok s \<Longrightarrow> buckets_ok (remove_batch key batch s)"
  by (auto simp: buckets_ok_def remove_batch_def Let_def dict_get_or_def split: option.splits if_splits)

lemma remove_batch_bucket:
  assumes "dict_ok (bs_buckets s)"
  shows "waiting (remove_batch key batch s) + mset (dict_get_or (bs_buckets s) key [])
    = waiting s + mset (filter (\<lambda>x. pr_object x \<notin> pr_object ` set batch) (dict_get_or (bs_buckets s) key []))"
  using dict_bag_set [of "bs_buckets s" key] dict_bag_pop [OF assms, of key]
  by (cases "filter (\<lambda>x. pr_object x \<notin> pr_object ` set batch) (dict_get_or (bs_buckets s) key []) = []")
    (simp_all add: waiting_def remove_batch_def Let_def del: mset_filter)

lemma filter_chosen:
  assumes "distinct (map pr_object bucket)" "set batch \<subseteq> set bucket" "distinct (map pr_object batch)"
  shows "mset (filter (\<lambda>x. pr_object x \<notin> pr_object ` set batch) bucket) + mset batch = mset bucket"
proof -
  have same: "pr_object x \<in> pr_object ` set batch \<longleftrightarrow> x \<in> set batch" if "x \<in> set bucket" for x
    using that assms(1,2) by (auto simp: distinct_map dest: inj_onD)
  have "distinct bucket" "distinct batch" using assms(1,3) by (simp_all add: distinct_map)
  then have "mset batch = mset (filter (\<lambda>x. x \<in> set batch) bucket)"
    using assms(2) by (subst set_eq_iff_mset_eq_distinct [symmetric]) auto
  also have "\<dots> = mset (filter (\<lambda>x. pr_object x \<in> pr_object ` set batch) bucket)"
    using same by (metis (mono_tags, lifting) filter_cong)
  finally show ?thesis by (simp add: multiset_partition [symmetric] union_commute)
qed

lemma waiting_remove:
  assumes "buckets_ok s" "dict_get (bs_buckets s) key = Some bucket"
    "distinct (map pr_object bucket)" "batch = selectable s bucket limit"
  shows "waiting (remove_batch key batch s) + mset batch = waiting s"
proof -
  let ?rest = "filter (\<lambda>x. pr_object x \<notin> pr_object ` set batch) bucket"
  have part: "mset ?rest + mset batch = mset bucket"
    using filter_chosen [OF assms(3)] selectable_props(2,3) assms(3,4) by blast
  have "dict_ok (bs_buckets s)" using assms(1) by (simp add: buckets_ok_def)
  from remove_batch_bucket [OF this, of key batch] assms(2)
  have "waiting (remove_batch key batch s) + (mset ?rest + mset batch) = waiting s + mset ?rest"
    unfolding part by (simp add: dict_get_or_def)
  then have "(waiting (remove_batch key batch s) + mset batch) + mset ?rest = waiting s + mset ?rest"
    by (simp only: ac_simps)
  then show ?thesis by simp
qed

lemma bucket_in_waiting:
  "dict_get (bs_buckets s) key = Some bucket \<Longrightarrow> mset bucket \<subseteq># waiting s"
proof -
  assume "dict_get (bs_buckets s) key = Some bucket"
  then obtain xs ys where "bs_buckets s = xs @ (key, bucket) # ys"
    using dict_get_SomeD by (meson split_list)
  then show ?thesis by (simp add: waiting_def dict_bag_def dict_values_def)
qed

text \<open>Everything known of a run, by rule induction.\<close>

definition run_ok ::
  "InferenceBatchScheduler \<Rightarrow> PendingRequest list \<Rightarrow> PendingRequest list \<Rightarrow> PendingRequest list \<Rightarrow> bool" where
  "run_ok s all running finished \<longleftrightarrow>
     buckets_ok s \<and> counters_exact s running \<and> quotas_kept s running
     \<and> mset all = waiting s + mset running + mset finished \<and> distinct (map pr_object all)
     \<and> bs_enqueued_count s = int (length all)
     \<and> bs_batched_count s = int (length running) + int (length finished)
     \<and> bs_completed_count s = int (length finished)"

lemma distinct_submset:
  assumes "distinct ys" "mset xs \<subseteq># mset ys"
  shows "distinct xs"
proof -
  have "count (mset ys) a \<le> 1" for a
    using assms(1) unfolding distinct_count_atmost_1 by (metis order_refl zero_le_one)
  then have "count (mset xs) a \<le> 1" for a
    using mset_subset_eq_count [OF assms(2), of a] order_trans by blast
  moreover have "count (mset xs) a \<noteq> 0" if "a \<in> set xs" for a
    using that by simp
  ultimately show ?thesis
    unfolding distinct_count_atmost_1 by (metis One_nat_def le_Suc_eq le_zero_eq count_mset_0_iff)
qed

lemma run_ok_bucket_distinct:
  assumes "run_ok s all running finished" "dict_get (bs_buckets s) key = Some bucket"
  shows "distinct (map pr_object bucket)"
proof -
  have "mset bucket \<subseteq># mset all"
    using assms bucket_in_waiting [OF assms(2)]
    by (metis run_ok_def mset_subset_eq_add_left subset_mset.order_trans union_assoc)
  then have "mset (map pr_object bucket) \<subseteq># mset (map pr_object all)"
    by (simp add: image_mset_subseteq_mono)
  moreover have "distinct (map pr_object all)" using assms(1) by (simp add: run_ok_def)
  ultimately show ?thesis by (rule distinct_submset [rotated])
qed

lemma run_ok_start: "run_ok (InferenceBatchScheduler_init config) [] [] []"
  by (simp add: run_ok_def InferenceBatchScheduler_init_def buckets_ok_def counters_exact_def
      quotas_kept_def waiting_def dict_bag_def dict_values_def)

lemma run_ok_enqueue:
  "run_ok s all running finished \<Longrightarrow> pr_object p \<notin> pr_object ` set all \<Longrightarrow>
     run_ok (enqueue p s) (p # all) running finished"
  unfolding run_ok_def
  by (simp add: waiting_enqueue buckets_ok_enqueue)
    (simp add: enqueue_def Let_def counters_exact_def quotas_kept_def)

lemma run_ok_complete:
  assumes "run_ok s all running finished" "p \<in> set running"
  shows "run_ok (complete p s) all (remove1 p running) (p # finished)"
proof -
  have "mset running = add_mset p (mset (remove1 p running))" using assms(2) by simp
  then have "mset running + mset finished = mset (remove1 p running) + mset (p # finished)"
    by (metis mset.simps(2) union_mset_add_mset_left union_mset_add_mset_right)
  moreover have "int (length running) = int (length (remove1 p running)) + 1"
    using assms(2) length_pos_if_in_set [OF assms(2)] by (simp add: length_remove1 Suc_le_eq)
  moreover have "bs_buckets (complete p s) = bs_buckets s" "bs_config (complete p s) = bs_config s"
    "bs_enqueued_count (complete p s) = bs_enqueued_count s"
    "bs_batched_count (complete p s) = bs_batched_count s"
    "bs_completed_count (complete p s) = bs_completed_count s + 1"
    by (simp_all add: complete_eq)
  ultimately show ?thesis
    using assms complete_exact [OF _ assms(2)] quotas_kept_remove [OF _ assms(2)]
    by (simp add: run_ok_def buckets_ok_def waiting_def quotas_kept_def union_assoc)
qed

lemma bounded_by_max: "a + b \<le> max a m \<Longrightarrow> a \<le> max 0 m \<Longrightarrow> a + b \<le> max 0 m" for a b m :: int
  by (auto simp: max_def split: if_splits)

lemma selectable_within_quota:
  assumes "counters_exact s running" "quotas_kept s running" "batch = selectable s bucket limit"
  shows "quotas_kept s (running @ batch)"
proof -
  have "count_of (bs_inflight_app s) a = app_count a running" if "a \<noteq> []" for a
    using assms(1) that by (simp add: counters_exact_def)
  moreover have "count_of (bs_inflight_session s) x = session_count x running" for x
    using assms(1) by (simp add: counters_exact_def)
  moreover have "count_of (bs_inflight_app s) a + app_count a batch
      \<le> max (count_of (bs_inflight_app s) a) (max_inflight_per_application (bs_config s))" if "a \<noteq> []" for a
    using select_ref_quota(1) [OF that, of s limit "sort_key order_key bucket" "[]"] assms(3)
    by (simp add: selectable_ref)
  moreover have "count_of (bs_inflight_session s) x + session_count x batch
      \<le> max (count_of (bs_inflight_session s) x) (max_inflight_per_session (bs_config s))" for x
    using select_ref_quota(2) [of s x limit "sort_key order_key bucket" "[]"] assms(3)
    by (simp add: selectable_ref)
  moreover have "app_count a running \<le> max 0 (max_inflight_per_application (bs_config s))" if "a \<noteq> []" for a
    using assms(2) that by (simp add: quotas_kept_def)
  moreover have "session_count x running \<le> max 0 (max_inflight_per_session (bs_config s))" for x
    using assms(2) by (simp add: quotas_kept_def)
  ultimately show ?thesis
    unfolding quotas_kept_def by (simp add: bounded_by_max)
qed

lemma run_ok_batch:
  assumes ok: "run_ok s all running finished" and step: "next_batch now s = (batch, s')"
  shows "run_ok s' all (running @ batch) finished"
proof (cases "batch = []")
  case True
  with step have "s' = s" using next_batch_empty by simp
  with True ok show ?thesis by simp
next
  case False
  obtain key bucket where member: "(key, bucket) \<in> set (bs_buckets s)"
    and batch: "batch = selectable s bucket (batch_limit (bs_config s))"
    and s': "s' = (foldl acquire_quota (remove_batch key batch s) batch)
            \<lparr>bs_batch_count := bs_batch_count (foldl acquire_quota (remove_batch key batch s) batch) + 1,
             bs_batched_count := bs_batched_count (foldl acquire_quota (remove_batch key batch s) batch)
               + int (length batch)\<rparr>"
    using next_batch_cases [OF step False] by metis
  let ?r = "remove_batch key batch s"
  have bok: "buckets_ok s" and exact: "counters_exact s running" and kept: "quotas_kept s running"
    using ok by (simp_all add: run_ok_def)
  have get: "dict_get (bs_buckets s) key = Some bucket"
    using bok member by (simp add: buckets_ok_def dict_get_in)
  have "counters_exact ?r running" using exact by (simp add: counters_exact_def)
  from acquire_list_exact [OF this, of batch]
  have "counters_exact s' (running @ batch)" by (simp add: s' counters_exact_def)
  moreover have "quotas_kept s' (running @ batch)"
    using selectable_within_quota [OF exact kept batch] by (simp add: s' quotas_kept_def)
  moreover have "buckets_ok s'"
    using buckets_ok_remove [OF bok, of key batch] by (simp add: s' buckets_ok_def)
  moreover have "waiting s' + mset batch = waiting s"
    using waiting_remove [OF bok get run_ok_bucket_distinct [OF ok get] batch]
    by (simp add: s' waiting_def)
  then have "mset all = waiting s' + mset (running @ batch) + mset finished"
    using ok by (simp add: run_ok_def ac_simps)
  ultimately show ?thesis using ok by (simp add: run_ok_def s')
qed

lemma sched_run_ok: "sched_run config s all running finished \<Longrightarrow> run_ok s all running finished"
proof (induction rule: sched_run.induct)
  case (fence s all running finished version)
  then show ?case by (simp add: run_ok_def begin_version_fence_def buckets_ok_def counters_exact_def
        quotas_kept_def waiting_def)
next
  case (unfence s all running finished)
  then show ?case by (simp add: run_ok_def end_version_fence_def buckets_ok_def counters_exact_def
        quotas_kept_def waiting_def)
qed (simp_all add: run_ok_start run_ok_enqueue run_ok_batch run_ok_complete)

section \<open>Waiting for a batch\<close>

text \<open>The seconds a bucket still has to wait, when it has something selectable.\<close>

definition bucket_wait :: "InferenceBatchScheduler \<Rightarrow> real \<Rightarrow> PendingRequest list \<Rightarrow> real" where
  "bucket_wait s now bucket =
     (let items = selectable s bucket (batch_limit (bs_config s)) in
      if int (length items) \<ge> batch_limit (bs_config s) then 0
      else max 0 (wait_seconds (bs_config s) - (now - oldest items)))"

abbreviation has_selectable :: "InferenceBatchScheduler \<Rightarrow> PendingRequest list \<Rightarrow> bool" where
  "has_selectable s bucket \<equiv> selectable s bucket (batch_limit (bs_config s)) \<noteq> []"

lemma bucket_wait_nonneg: "0 \<le> bucket_wait s now bucket"
  by (simp add: bucket_wait_def Let_def)

lemma ready_bucket_wait:
  "now \<le> t \<Longrightarrow> ready_bucket s t bucket \<longleftrightarrow> has_selectable s bucket \<and> now + bucket_wait s now bucket \<le> t"
  by (auto simp: ready_bucket_def bucket_wait_def batch_ready_def Let_def)

text \<open>What the loop of \<open>time_until_ready\<close> computes: the least wait of the buckets and of \<open>best\<close>.\<close>

definition least_wait ::
  "InferenceBatchScheduler \<Rightarrow> real \<Rightarrow> PendingRequest list list \<Rightarrow> real option \<Rightarrow> real option \<Rightarrow> bool" where
  "least_wait s now l best result \<longleftrightarrow>
     (case result of
        None \<Rightarrow> best = None \<and> (\<forall>b \<in> set l. \<not> has_selectable s b)
      | Some d \<Rightarrow> 0 \<le> d \<and> (\<forall>b \<in> set l. has_selectable s b \<longrightarrow> d \<le> bucket_wait s now b)
          \<and> (\<forall>x. best = Some x \<longrightarrow> d \<le> x)
          \<and> (best = Some d \<or> (\<exists>b \<in> set l. has_selectable s b \<and> d = bucket_wait s now b)))"

lemma least_wait_Cons:
  assumes "least_wait s now l (Some m) r" "has_selectable s b" "m \<le> bucket_wait s now b"
    and "\<And>x. best = Some x \<Longrightarrow> m \<le> x" and "m = bucket_wait s now b \<or> best = Some m"
  shows "least_wait s now (b # l) best r"
proof (cases r)
  case None
  with assms(1) show ?thesis by (simp add: least_wait_def)
next
  case (Some d)
  with assms(1) have d: "0 \<le> d" "d \<le> m" "\<forall>b \<in> set l. has_selectable s b \<longrightarrow> d \<le> bucket_wait s now b"
    "d = m \<or> (\<exists>b \<in> set l. has_selectable s b \<and> d = bucket_wait s now b)"
    by (auto simp: least_wait_def)
  have "d \<le> bucket_wait s now b" "\<And>x. best = Some x \<Longrightarrow> d \<le> x"
    using d(2) assms(3,4) order_trans by blast+
  moreover have "best = Some d \<or> (\<exists>b' \<in> set (b # l). has_selectable s b' \<and> d = bucket_wait s now b')"
    using d(4) assms(2,5) by auto
  ultimately show ?thesis using d Some by (simp add: least_wait_def)
qed

lemma ready_loop_least:
  "(\<And>x. best = Some x \<Longrightarrow> 0 \<le> x) \<Longrightarrow> least_wait s now l best (ready_loop s now l best)"
proof (induction l arbitrary: best)
  case Nil
  then show ?case by (cases best) (auto simp: least_wait_def)
next
  case (Cons b l)
  let ?items = "selectable s b (batch_limit (bs_config s))"
  consider (none) "?items = []" | (full) "?items \<noteq> []" "int (length ?items) \<ge> batch_limit (bs_config s)"
    | (wait) "?items \<noteq> []" "int (length ?items) < batch_limit (bs_config s)" by linarith
  then show ?case
  proof cases
    case none
    have "least_wait s now l best (ready_loop s now l best)" by (rule Cons.IH) (rule Cons.prems)
    with none show ?thesis by (simp add: Let_def least_wait_def split: option.splits)
  next
    case full
    then have "bucket_wait s now b = 0" by (simp add: bucket_wait_def)
    with full Cons.prems show ?thesis by (auto simp: Let_def bucket_wait_nonneg least_wait_def)
  next
    case wait
    define m where "m = (case best of None \<Rightarrow> bucket_wait s now b | Some x \<Rightarrow> min x (bucket_wait s now b))"
    have "ready_loop s now (b # l) best = ready_loop s now l (Some m)"
      using wait by (cases best) (simp_all add: Let_def bucket_wait_def m_def)
    moreover have "0 \<le> m"
      using Cons.prems bucket_wait_nonneg [of s now b] by (simp add: m_def split: option.splits)
    then have "least_wait s now l (Some m) (ready_loop s now l (Some m))" by (intro Cons.IH) simp
    ultimately show ?thesis
      using wait(1) by (auto intro!: least_wait_Cons simp: m_def min_def split: option.splits)
  qed
qed

lemma next_batch_Nil_time:
  assumes "now \<le> t" "\<not> (fenced s \<and> 0 < bs_inflight_total s)"
  shows "fst (next_batch t s) \<noteq> [] \<longleftrightarrow>
    (\<exists>b \<in> set (dict_values (bs_buckets s)). has_selectable s b \<and> now + bucket_wait s now b \<le> t)"
proof -
  have "fst (next_batch t s) \<noteq> [] \<longleftrightarrow> (\<exists>b \<in> set (dict_values (bs_buckets s)). ready_bucket s t b)"
    using assms(2) next_batch_Nil [of t s] by (force simp: dict_values_def)
  then show ?thesis using assms(1) by (simp add: ready_bucket_wait)
qed

text \<open>Selection does not look at the fence.\<close>

lemma selectable_fence:
  "selectable (s\<lparr>bs_fence_version := u\<rparr>) b limit = selectable (s\<lparr>bs_fence_version := w\<rparr>) b limit"
proof -
  have "select_loop (s\<lparr>bs_fence_version := u\<rparr>) limit xs ea es picked
      = select_loop (s\<lparr>bs_fence_version := w\<rparr>) limit xs ea es picked" for xs ea es picked
    by (induction xs arbitrary: ea es picked) (simp_all add: has_quota_def)
  then show ?thesis by (simp add: selectable_def)
qed

lemma scan_fence:
  "scan_buckets (s\<lparr>bs_fence_version := u\<rparr>) now l best
     = scan_buckets (s\<lparr>bs_fence_version := w\<rparr>) now l best"
proof (induction l arbitrary: best)
  case (Cons kb l)
  obtain k b where kb: "kb = (k, b)" by (cases kb)
  have "ready_bucket (s\<lparr>bs_fence_version := u\<rparr>) now b = ready_bucket (s\<lparr>bs_fence_version := w\<rparr>) now b"
    unfolding ready_bucket_def batch_ready_def selectable_fence [where s = s and u = u and w = w] by simp
  then show ?case
    unfolding kb scan_Cons selectable_fence [where s = s and u = u and w = w]
    by (cases best) (auto simp: Cons.IH)
qed simp

section \<open>Properties\<close>

definition demo_pending :: "nat \<Rightarrow> string \<Rightarrow> Priority \<Rightarrow> PendingRequest" where
  "demo_pending n sid prio =
     \<lparr>pr_object = n,
      pr_request = \<lparr>ir_request_id = ''r'', ir_session_id = sid, ir_binding_token = None,
        ir_episode_id = None, ir_operation_seq = None, ir_policy_id = ''p'',
        ir_model_version_hint = None, ir_observation = PyNone, ir_instruction_override = None,
        ir_inference_parameters = [], ir_routing_token = ''t'', ir_compat_key = ''k'',
        ir_deadline = None, ir_priority = prio, ir_application_id = ''app''\<rparr>,
      pr_enqueued_at = 0, pr_routing_token = ''t''\<rparr>"

text \<open>One in-flight request per session; two requests of one session and one of another wait.\<close>

definition demo_config :: SchedulerConfig where
  "demo_config = default_scheduler_config\<lparr>max_inflight_per_session := 1\<rparr>"

definition demo_scheduler :: InferenceBatchScheduler where
  "demo_scheduler =
     enqueue (demo_pending 3 ''s2'' P_BATCH) (enqueue (demo_pending 2 ''s1'' P_INTERACTIVE)
       (enqueue (demo_pending 1 ''s1'' P_INTERACTIVE) (InferenceBatchScheduler_init (Some demo_config))))"

lemma demo_run:
  "sched_run (Some demo_config) demo_scheduler
     [demo_pending 3 ''s2'' P_BATCH, demo_pending 2 ''s1'' P_INTERACTIVE,
      demo_pending 1 ''s1'' P_INTERACTIVE] [] []"
  unfolding demo_scheduler_def
  by (intro sched_run.enqueue sched_run.start) (simp_all add: demo_pending_def)

lemma demo_scheduler_eq:
  "demo_scheduler =
     \<lparr>bs_config = demo_config,
      bs_buckets = [(''k'', [demo_pending 1 ''s1'' P_INTERACTIVE, demo_pending 2 ''s1'' P_INTERACTIVE,
        demo_pending 3 ''s2'' P_BATCH])],
      bs_inflight_app = [], bs_inflight_session = [], bs_inflight_total = 0, bs_enqueued_count = 3,
      bs_batched_count = 0, bs_batch_count = 0, bs_completed_count = 0, bs_fence_version = None\<rparr>"
  by (simp add: demo_scheduler_def enqueue_def Let_def InferenceBatchScheduler_init_def dict_get_or_def
      dict_get_def dict_set_def demo_pending_def)

lemma demo_next_batch:
  "fst (next_batch 1 demo_scheduler) = [demo_pending 1 ''s1'' P_INTERACTIVE, demo_pending 3 ''s2'' P_BATCH]"
proof -
  have sorted: "sort_key order_key [demo_pending 1 ''s1'' P_INTERACTIVE, demo_pending 2 ''s1'' P_INTERACTIVE,
      demo_pending 3 ''s2'' P_BATCH]
    = [demo_pending 1 ''s1'' P_INTERACTIVE, demo_pending 2 ''s1'' P_INTERACTIVE, demo_pending 3 ''s2'' P_BATCH]"
    by (simp add: order_key_def PendingRequest_sort_key_def demo_pending_def)
  have "selectable demo_scheduler [demo_pending 1 ''s1'' P_INTERACTIVE, demo_pending 2 ''s1'' P_INTERACTIVE,
      demo_pending 3 ''s2'' P_BATCH] (batch_limit demo_config)
    = [demo_pending 1 ''s1'' P_INTERACTIVE, demo_pending 3 ''s2'' P_BATCH]"
    unfolding selectable_def sorted
    by (simp add: demo_scheduler_eq has_quota_def demo_config_def default_scheduler_config_def
        batch_limit_def demo_pending_def)
  then show ?thesis
    by (simp add: next_batch_def demo_scheduler_eq fenced_def Let_def batch_ready_def oldest_def
        wait_seconds_def demo_config_def default_scheduler_config_def batch_limit_def demo_pending_def)
qed

text \<open>C2: fairness. In every run of the scheduler the counters are exactly the numbers of requests
  in flight, and no application and no session ever has more requests in flight than its limit,
  also when several of them enter one batch.\<close>

theorem inflight_quotas_hold:
  assumes "sched_run config s all running finished" "a \<noteq> []"
  shows "count_of (bs_inflight_app s) a = app_count a running
    \<and> app_count a running \<le> max 0 (max_inflight_per_application (bs_config s))
    \<and> count_of (bs_inflight_session s) x = session_count x running
    \<and> session_count x running \<le> max 0 (max_inflight_per_session (bs_config s))
    \<and> bs_inflight_total s = int (length running)"
  using sched_run_ok [OF assms(1)] assms(2)
  by (simp add: run_ok_def counters_exact_def quotas_kept_def)

theorem inflight_quotas_hold_witness:
  "\<exists>s batch. next_batch 1 demo_scheduler = (batch, s) \<and> length batch = 2
     \<and> count_of (bs_inflight_session s) ''s1'' \<le> max 0 (max_inflight_per_session (bs_config s))
     \<and> bs_inflight_total s = 2"
proof -
  obtain batch s where nb: "next_batch 1 demo_scheduler = (batch, s)" by fastforce
  then have "length batch = 2" using demo_next_batch by simp
  with inflight_quotas_hold [OF sched_run.batch [OF demo_run nb], of "''app''" "''s1''"] nb
  show ?thesis by auto
qed

text \<open>C16: no request is lost, invented or served twice. The requests enqueued are exactly those
  waiting in a bucket, those in flight and those completed, each once, and the three statistics
  counters count them.\<close>

theorem no_request_lost:
  assumes "sched_run config s all running finished"
  shows "mset all = waiting s + mset running + mset finished
    \<and> distinct (map pr_object (running @ finished))
    \<and> bs_enqueued_count s = int (length all)
    \<and> bs_batched_count s = int (length (running @ finished))
    \<and> bs_completed_count s = int (length finished)"
proof -
  have ok: "run_ok s all running finished" using assms by (rule sched_run_ok)
  then have "mset (running @ finished) \<subseteq># mset all"
    by (simp add: run_ok_def union_assoc)
  then have "mset (map pr_object (running @ finished)) \<subseteq># mset (map pr_object all)"
    unfolding mset_map by (rule image_mset_subseteq_mono)
  moreover have "distinct (map pr_object all)" using ok by (simp add: run_ok_def)
  ultimately have "distinct (map pr_object (running @ finished))" by (rule distinct_submset [rotated])
  with ok show ?thesis by (simp add: run_ok_def)
qed

theorem no_request_lost_witness:
  "\<exists>s batch. next_batch 1 demo_scheduler = (batch, s) \<and> bs_enqueued_count s = 3
     \<and> bs_batched_count s = 2 \<and> size (waiting s) = 1"
proof -
  obtain batch s where nb: "next_batch 1 demo_scheduler = (batch, s)" by fastforce
  then have len: "length batch = 2" using demo_next_batch by simp
  note lost = no_request_lost [OF sched_run.batch [OF demo_run nb]]
  then have "size (mset [demo_pending 3 ''s2'' P_BATCH, demo_pending 2 ''s1'' P_INTERACTIVE,
      demo_pending 1 ''s1'' P_INTERACTIVE]) = size (waiting s + mset batch)" by simp
  then have "size (waiting s) = 1" using len unfolding size_union by simp
  moreover have "bs_enqueued_count s = 3" "bs_batched_count s = 2" using lost len by simp_all
  ultimately show ?thesis using nb by blast
qed

text \<open>A batch is well formed and the most urgent one. Its requests share one \<open>compat_key\<close>, there
  are at least one and at most \<open>limit\<close> of them, all of them were waiting, they are sorted by
  priority, deadline and age, and no bucket that is ready has a more urgent first request.\<close>

theorem batch_correct:
  assumes "sched_run config s all running finished" "next_batch now s = (batch, s')" "batch \<noteq> []"
  shows "int (length batch) \<le> batch_limit (bs_config s)
    \<and> (\<exists>key. \<forall>p \<in> set batch. pr_compat_key p = key)
    \<and> mset batch \<subseteq># waiting s
    \<and> sorted (map order_key batch)
    \<and> (\<forall>key bucket. (key, bucket) \<in> set (bs_buckets s) \<and> ready_bucket s now bucket \<longrightarrow>
         PendingRequest_sort_key (hd batch)
           \<le> PendingRequest_sort_key (hd (selectable s bucket (batch_limit (bs_config s)))))"
proof -
  obtain key bucket where b: "(key, bucket) \<in> set (bs_buckets s)"
    "batch = selectable s bucket (batch_limit (bs_config s))"
    and least: "\<And>k b. (k, b) \<in> set (bs_buckets s) \<Longrightarrow> ready_bucket s now b \<Longrightarrow>
       PendingRequest_sort_key (hd batch) \<le> bucket_rank s b"
    using next_batch_cases [OF assms(2,3)] by metis
  have bok: "buckets_ok s" using sched_run_ok [OF assms(1)] by (simp add: run_ok_def)
  then have get: "dict_get (bs_buckets s) key = Some bucket"
    using b(1) by (simp add: buckets_ok_def dict_get_in)
  have "\<forall>p \<in> set batch. pr_compat_key p = key"
    using bok get selectable_props(2) b(2) by (fastforce simp: buckets_ok_def)
  moreover have "mset batch \<subseteq># waiting s"
    using selectable_subset bucket_in_waiting [OF get] b(2) subset_mset.order_trans by blast
  ultimately show ?thesis
    using selectable_props(1,4) b(2) least by blast
qed

theorem batch_correct_witness:
  "\<exists>s batch. next_batch 1 demo_scheduler = (batch, s) \<and> sorted (map order_key batch)
     \<and> int (length batch) \<le> 8"
proof -
  obtain batch s where nb: "next_batch 1 demo_scheduler = (batch, s)" by fastforce
  then have "batch \<noteq> []" using demo_next_batch by auto
  from batch_correct [OF demo_run nb this] nb show ?thesis
    by (auto simp: demo_scheduler_eq batch_limit_def demo_config_def default_scheduler_config_def)
qed

text \<open>No priority inversion within a bucket. A request that stays behind while a less urgent
  request of its bucket enters the batch has no quota left beside what is in flight and what the
  batch holds; when quota is left for it, the batch is full of requests at least as urgent.\<close>

theorem no_priority_inversion:
  assumes "sched_run config s all running finished" "next_batch now s = (batch, s')" "batch \<noteq> []"
    and "dict_get (bs_buckets s) (pr_compat_key (hd batch)) = Some bucket"
    and "x \<in> set bucket" "x \<notin> set batch" "quota_left s x batch"
  shows "int (length batch) = batch_limit (bs_config s) \<and> (\<forall>y \<in> set batch. order_key y \<le> order_key x)"
proof -
  obtain key bucket' where b: "(key, bucket') \<in> set (bs_buckets s)"
    "batch = selectable s bucket' (batch_limit (bs_config s))"
    using next_batch_cases [OF assms(2,3)] by metis
  have bok: "buckets_ok s" using sched_run_ok [OF assms(1)] by (simp add: run_ok_def)
  then have get: "dict_get (bs_buckets s) key = Some bucket'"
    using b(1) by (simp add: buckets_ok_def dict_get_in)
  have "hd batch \<in> set bucket'" using assms(3) selectable_props(2) b(2) hd_in_set by blast
  with bok get assms(4) have "bucket' = bucket" by (auto simp: buckets_ok_def)
  then have batch: "batch = select_ref s (batch_limit (bs_config s)) (sort_key order_key bucket) []"
    using b(2) by (simp add: selectable_ref)
  have "int (length batch) \<le> batch_limit (bs_config s)" using selectable_props(1) b(2) by blast
  with select_ref_skips [of x "sort_key order_key bucket" s "batch_limit (bs_config s)" "[]"]
    assms(5-7) batch show ?thesis by fastforce
qed

theorem no_priority_inversion_witness:
  "\<exists>s batch. next_batch 1 demo_scheduler = (batch, s)
     \<and> \<not> quota_left demo_scheduler (demo_pending 2 ''s1'' P_INTERACTIVE) batch
     \<and> demo_pending 2 ''s1'' P_INTERACTIVE \<notin> set batch"
proof -
  obtain batch s where nb: "next_batch 1 demo_scheduler = (batch, s)" by fastforce
  then have batch: "batch = [demo_pending 1 ''s1'' P_INTERACTIVE, demo_pending 3 ''s2'' P_BATCH]"
    using demo_next_batch by simp
  let ?bucket = "[demo_pending 1 ''s1'' P_INTERACTIVE, demo_pending 2 ''s1'' P_INTERACTIVE,
        demo_pending 3 ''s2'' P_BATCH]"
  let ?x = "demo_pending 2 ''s1'' P_INTERACTIVE"
  have out: "?x \<notin> set batch" by (simp add: batch demo_pending_def)
  have get: "dict_get (bs_buckets demo_scheduler) (pr_compat_key (hd batch)) = Some ?bucket"
    by (simp add: demo_scheduler_eq batch dict_get_def demo_pending_def)
  have "batch \<noteq> []" "?x \<in> set ?bucket" by (simp_all add: batch)
  note inv = no_priority_inversion [OF demo_run nb this(1) get this(2) out]
  have "int (length batch) \<noteq> batch_limit (bs_config demo_scheduler)"
    by (simp add: batch demo_scheduler_eq batch_limit_def demo_config_def default_scheduler_config_def)
  with inv nb out show ?thesis by blast
qed

text \<open>C29: the wait estimate is exact. When \<open>time_until_ready\<close> gives \<open>d\<close> seconds, a batch comes out of
  \<open>next_batch\<close> at every moment from \<open>now + d\<close> on and at none before; when it gives nothing, no batch
  comes out at any later moment while the scheduler is unchanged. So a loop that sleeps exactly that
  long never polls in vain and never oversleeps.\<close>

theorem time_until_ready_exact:
  assumes "now \<le> t"
  shows "(fst (next_batch t s) \<noteq> []) = (\<exists>d. time_until_ready now s = Some d \<and> now + d \<le> t)"
proof (cases "fenced s \<and> 0 < bs_inflight_total s")
  case True
  then show ?thesis by (simp add: next_batch_def time_until_ready_def)
next
  case False
  let ?l = "dict_values (bs_buckets s)"
  have least: "least_wait s now ?l None (time_until_ready now s)"
    using False unfolding time_until_ready_def by (simp only: if_False) (rule ready_loop_least, simp)
  show ?thesis
    unfolding next_batch_Nil_time [OF assms False]
    using least by (cases "time_until_ready now s") (force simp: least_wait_def)+
qed

theorem time_until_ready_exact_witness:
  "\<exists>d. time_until_ready 0 demo_scheduler = Some d \<and> 0 + d \<le> 1"
  using time_until_ready_exact [of 0 1 demo_scheduler] demo_next_batch by simp

text \<open>The version fence only holds back batches while requests are in flight. A fenced scheduler
  with requests in flight issues nothing and stays as it is; a fenced scheduler that has drained
  issues the same batch as an unfenced one, although the weights have not been switched yet.\<close>

theorem fence_holds_until_drained:
  "(0 < bs_inflight_total s \<longrightarrow> next_batch now (begin_version_fence v s) = ([], begin_version_fence v s))
   \<and> (bs_inflight_total s = 0 \<longrightarrow>
        fst (next_batch now (begin_version_fence v s)) = fst (next_batch now (end_version_fence s)))"
  using scan_fence [where s = s and u = "Some v" and w = None and l = "bs_buckets s" and best = None]
  by (simp add: next_batch_def begin_version_fence_def end_version_fence_def fenced_def Let_def
      split: option.split prod.split)

theorem fence_holds_until_drained_witness:
  "fst (next_batch 1 (begin_version_fence ''v2'' demo_scheduler))
     = fst (next_batch 1 (end_version_fence demo_scheduler))"
proof -
  have "bs_inflight_total demo_scheduler = 0" by (simp add: demo_scheduler_eq)
  then show ?thesis using fence_holds_until_drained [of demo_scheduler 1 "''v2''"] by simp
qed

end
