(* ===== verification/Evolution_Models.thy ===== *)
theory Evolution_Models
  imports Api
begin

text \<open>
  \<^verbatim>\<open>zetta/evolution/models.py\<close>: the versioned data contracts of a rollout-evolution campaign, as records,
  with the checks each dataclass makes in \<open>__post_init__\<close> as functions into \<open>exn + unit\<close>. SHA-256 of
  canonical JSON is a parameter of the definitions that use it. Error texts that end in a list of
  offending identifiers are kept without that list.
\<close>

section \<open>Text helpers\<close>

text \<open>\<open>str(int)\<close> and the part of \<open>str.strip()\<close> and \<open>int(s, 16)\<close> that concerns ASCII text.\<close>

fun nat_str :: "nat \<Rightarrow> string" where
  "nat_str n = (if n < 10 then [char_of (48 + n)] else nat_str (n div 10) @ [char_of (48 + n mod 10)])"

declare nat_str.simps [simp del]

definition int_str :: "int \<Rightarrow> string" where
  "int_str i = (if i < 0 then CHR ''-'' # nat_str (nat (- i)) else nat_str (nat i))"

definition is_space :: "char \<Rightarrow> bool" where
  "is_space c \<longleftrightarrow> (let n = of_char c :: nat in n = 32 \<or> (9 \<le> n \<and> n \<le> 13) \<or> (28 \<le> n \<and> n \<le> 31))"

definition py_strip :: "string \<Rightarrow> string" where
  "py_strip s = rev (dropWhile is_space (rev (dropWhile is_space s)))"

definition is_hex :: "char \<Rightarrow> bool" where
  "is_hex c \<longleftrightarrow>
     (let n = of_char c :: nat in (48 \<le> n \<and> n \<le> 57) \<or> (65 \<le> n \<and> n \<le> 70) \<or> (97 \<le> n \<and> n \<le> 102))"

text \<open>Digits with single underscores between them; the flag says that a digit came just before.\<close>

fun hex_run :: "bool \<Rightarrow> string \<Rightarrow> bool" where
  "hex_run after [] = after"
| "hex_run after (c # cs) =
     (if is_hex c then hex_run True cs else c = CHR ''_'' \<and> after \<and> hex_run False cs)"

definition hex_literal :: "string \<Rightarrow> bool" where
  "hex_literal s =
     (let body = py_strip s;
          unsigned = (case body of c # cs \<Rightarrow> if c = CHR ''+'' \<or> c = CHR ''-'' then cs else body | [] \<Rightarrow> [])
      in case unsigned of
           z # x # cs \<Rightarrow>
             if z = CHR ''0'' \<and> (x = CHR ''x'' \<or> x = CHR ''X'')
             then (case cs of u # ds \<Rightarrow> if u = CHR ''_'' then hex_run False ds else hex_run False cs
                   | [] \<Rightarrow> False)
             else hex_run False unsigned
         | _ \<Rightarrow> hex_run False unsigned)"

section \<open>Digests and seed lists\<close>

definition SHA256_LENGTH :: nat where
  "SHA256_LENGTH = 64"

definition require_sha :: "string \<Rightarrow> string option \<Rightarrow> bool \<Rightarrow> exn + unit" where
  "require_sha name v optional =
     (case v of
        None \<Rightarrow> if optional then Inr ()
                else Inl (ValueError [Text name, Text '' must be a 64-character sha256''])
      | Some s \<Rightarrow>
          if length s \<noteq> SHA256_LENGTH then Inl (ValueError [Text name, Text '' must be a 64-character sha256''])
          else guard (hex_literal s) (ValueError [Text name, Text '' must be hexadecimal'']))"

definition require_unique :: "string \<Rightarrow> int list \<Rightarrow> int \<Rightarrow> exn + unit" where
  "require_unique name vs expected =
     rbind (guard (int (length vs) = expected)
              (ValueError [Text name, Text '' must contain exactly '', IntF expected, Text '' entries'']))
       (\<lambda>_. guard (card (set vs) = length vs)
              (ValueError [Text name, Text '' must not contain duplicates'']))"

section \<open>Campaigns\<close>

datatype CampaignPhase =
    Ph_ROLLOUT | Ph_CLUSTER | Ph_DIAGNOSE | Ph_PROPOSE | Ph_SAME_SEED_GATE | Ph_REGRESSION_GATE
  | Ph_HELDOUT_GATE | Ph_PROMOTE | Ph_COMPLETE

record SafetyLayerConfig =
  action_contract :: string
  control_limits :: string
  simulation_health :: string
  joint_limit_shield :: string
  contact_policy :: string

definition default_safety_layer :: SafetyLayerConfig where
  "default_safety_layer =
     \<lparr>action_contract = ''robocasa_named_action_v1'',
      control_limits = ''normalized_input_and_post_scale_clip_v1'',
      simulation_health = ''finite_observation_state_v1'', joint_limit_shield = ''not_implemented'',
      contact_policy = ''environment_native_only''\<rparr>"

definition SafetyLayerConfig_check :: "SafetyLayerConfig \<Rightarrow> exn + unit" where
  "SafetyLayerConfig_check c =
     guard (\<forall>v \<in> set [action_contract c, control_limits c, simulation_health c, joint_limit_shield c,
              contact_policy c]. v \<noteq> [])
       (ValueError [Text ''every safety-layer field must be a non-empty string''])"

text \<open>The fields of \<open>CampaignManifest\<close>; \<open>baseline_mode\<close> is a text, as in the JSON artifact.\<close>

record CampaignManifest =
  campaign_id :: string
  cm_environment :: string
  cm_task :: string
  cm_generation :: int
  code_commit :: string
  prompt_sha256 :: string
  cm_model :: string
  tool_catalog_sha256 :: string
  rollout_seeds :: "int list"
  heldout_seeds :: "int list"
  policy_rng_by_seed :: "(string, int) dict"
  parent_bundle_sha256 :: "string option"
  baseline_mode :: "string option"
  active_bundle_sha256 :: "string option"
  safety_layer :: SafetyLayerConfig
  expected_rollouts :: int
  expected_heldout :: int
  initial_logical_slots :: int
  maximum_logical_slots :: int
  continuous_logical_slots :: int
  maximum_api_concurrency :: int
  episode_timeout_s :: int
  no_progress_timeout_s :: int
  target_valid_episodes_per_hour :: real
  max_infrastructure_attempts :: int
  reasoning_effort :: "string option"
  cm_runtime :: "(string, py) dict"
  cm_schema_version :: int
  protocol_explicit :: bool

text \<open>\<open>not value\<close> of an optional text.\<close>

definition blank :: "string option \<Rightarrow> bool" where
  "blank v \<longleftrightarrow> v = None \<or> v = Some []"

text \<open>What \<open>__post_init__\<close> fills in before it checks the baseline: the mode follows the parent, and in
  active mode the active bundle is the parent's.\<close>

definition fill_baseline :: "CampaignManifest \<Rightarrow> CampaignManifest" where
  "fill_baseline m =
     (let m1 = (if baseline_mode m = None
                then m\<lparr>baseline_mode :=
                  Some (if blank (parent_bundle_sha256 m) then ''strict_pure_vla'' else ''active_bundle'')\<rparr>
                else m)
      in if active_bundle_sha256 m1 = None \<and> baseline_mode m1 = Some ''active_bundle''
            \<and> parent_bundle_sha256 m1 \<noteq> None
         then m1\<lparr>active_bundle_sha256 := parent_bundle_sha256 m1\<rparr> else m1)"

definition check_baseline :: "CampaignManifest \<Rightarrow> exn + unit" where
  "check_baseline m =
     (if baseline_mode m = Some ''strict_pure_vla'' then
        rbind (guard (active_bundle_sha256 m = None)
                 (ValueError [Text ''strict pure-VLA baseline cannot activate a bundle'']))
          (\<lambda>_. guard (cm_generation m = 0 \<and> parent_bundle_sha256 m = None)
                 (ValueError [Text ''strict pure-VLA baseline is only valid for generation 0'']))
      else if baseline_mode m = Some ''active_bundle'' then
        rbind (guard (active_bundle_sha256 m \<noteq> None)
                 (ValueError [Text ''active-bundle mode requires active_bundle_sha256'']))
          (\<lambda>_. guard (active_bundle_sha256 m = parent_bundle_sha256 m)
                 (ValueError [Text ''active bundle must be the frozen campaign parent'']))
      else Inl (ValueError [Text ''unsupported baseline_mode'']))"

definition check_seeds :: "CampaignManifest \<Rightarrow> exn + unit" where
  "check_seeds m =
     rbind (require_unique ''rollout_seeds'' (rollout_seeds m) (expected_rollouts m)) (\<lambda>_.
     rbind (require_unique ''heldout_seeds'' (heldout_seeds m) (expected_heldout m)) (\<lambda>_.
     rbind (guard (set (rollout_seeds m) \<inter> set (heldout_seeds m) = {})
              (ValueError [Text ''rollout and heldout seeds must be disjoint''])) (\<lambda>_.
     guard (set (dict_keys (policy_rng_by_seed m)) = set (map int_str (rollout_seeds m @ heldout_seeds m)))
       (ValueError [Text ''policy_rng_by_seed must exactly cover every preregistered seed'']))))"

definition check_limits :: "CampaignManifest \<Rightarrow> exn + unit" where
  "check_limits m =
     rbind (guard (1 \<le> continuous_logical_slots m \<and> continuous_logical_slots m \<le> initial_logical_slots m
              \<and> initial_logical_slots m \<le> maximum_logical_slots m)
              (ValueError [Text ''logical slot limits are inconsistent''])) (\<lambda>_.
     rbind (guard (\<not> episode_timeout_s m \<le> no_progress_timeout_s m)
              (ValueError [Text ''episode timeout must exceed no-progress timeout''])) (\<lambda>_.
     rbind (guard (\<not> maximum_api_concurrency m < 1)
              (ValueError [Text ''maximum_api_concurrency must be positive''])) (\<lambda>_.
     rbind (guard (\<not> (protocol_explicit m \<and> maximum_api_concurrency m > 20))
              (ValueError [Text ''maximum_api_concurrency must not exceed 20''])) (\<lambda>_.
     rbind (guard (\<not> max_infrastructure_attempts m < 1)
              (ValueError [Text ''max_infrastructure_attempts must be positive''])) (\<lambda>_.
     guard (reasoning_effort m \<in> set (None # map Some [''low'', ''medium'', ''high'', ''xhigh'']))
       (ValueError [Text ''unsupported campaign reasoning_effort'']))))))"

definition CampaignManifest_make :: "CampaignManifest \<Rightarrow> exn + CampaignManifest" where
  "CampaignManifest_make m0 =
     rbind (guard (cm_schema_version m0 = 1) (ValueError [Text ''unsupported campaign manifest schema''])) (\<lambda>_.
     rbind (guard (campaign_id m0 \<noteq> [] \<and> cm_environment m0 \<noteq> [] \<and> cm_task m0 \<noteq> [])
              (ValueError [Text ''campaign_id, environment, and task are required''])) (\<lambda>_.
     rbind (guard (0 \<le> cm_generation m0) (ValueError [Text ''generation must be non-negative''])) (\<lambda>_.
     rbind (guard (length (code_commit m0) = 40)
              (ValueError [Text ''code_commit must be a full 40-character git sha''])) (\<lambda>_.
     rbind (require_sha ''prompt_sha256'' (Some (prompt_sha256 m0)) False) (\<lambda>_.
     rbind (require_sha ''tool_catalog_sha256'' (Some (tool_catalog_sha256 m0)) False) (\<lambda>_.
     rbind (require_sha ''parent_bundle_sha256'' (parent_bundle_sha256 m0) True) (\<lambda>_.
     (let m = fill_baseline m0 in
      rbind (require_sha ''active_bundle_sha256'' (active_bundle_sha256 m) True) (\<lambda>_.
      rbind (check_baseline m) (\<lambda>_.
      rbind (check_seeds m) (\<lambda>_.
      rbind (check_limits m) (\<lambda>_. Inr m))))))))))))"

section \<open>Episodes\<close>

record FailureSegment =
  fs_segment_id :: string
  fs_episode_id :: string
  failure_class :: string
  fs_stage :: string
  fs_tool :: "string option"
  fs_summary :: string
  earliest_divergence_step :: "int option"
  start_step :: int
  end_step :: int
  severity :: real
  state_signature :: "real list"
  embedding :: "real list"
  artifact_paths :: "string list"

definition FailureSegment_check :: "FailureSegment \<Rightarrow> exn + unit" where
  "FailureSegment_check s =
     rbind (guard (fs_segment_id s \<noteq> [] \<and> fs_episode_id s \<noteq> [] \<and> failure_class s \<noteq> [])
              (ValueError [Text ''failure segment identifiers are required''])) (\<lambda>_.
     rbind (case earliest_divergence_step s of
              None \<Rightarrow> guard (0 \<le> start_step s \<and> start_step s \<le> end_step s)
                        (ValueError [Text ''unknown-divergence segment step interval is inconsistent''])
            | Some e \<Rightarrow> guard (0 \<le> start_step s \<and> start_step s \<le> e \<and> e \<le> end_step s)
                        (ValueError [Text ''failure segment step interval is inconsistent''])) (\<lambda>_.
     guard (0 \<le> severity s \<and> severity s \<le> 1) (ValueError [Text ''severity must be in [0, 1]''])))"

datatype EpisodeStatus = Valid | InfraInvalid

record EpisodeRecord =
  ep_episode_id :: string
  ep_logical_id :: string
  ep_generation :: int
  ep_seed :: int
  ep_policy_rng :: int
  ep_bundle_sha256 :: "string option"
  ep_status :: EpisodeStatus
  ep_success :: "bool option"
  ep_started_at :: string
  ep_finished_at :: string
  ep_elapsed_s :: real
  artifact_index :: "(string, py) dict"
  safety_events :: "string list"
  failure_segment :: "FailureSegment option"
  failure_segments :: "FailureSegment list"
  invalid_reason :: "string option"
  ep_attempt_index :: int
  ep_schema_version :: int

definition EpisodeRecord_check :: "EpisodeRecord \<Rightarrow> exn + unit" where
  "EpisodeRecord_check r =
     rbind (require_sha ''bundle_sha256'' (ep_bundle_sha256 r) True) (\<lambda>_.
     rbind (guard (\<not> (ep_status r = Valid \<and> ep_success r = None))
              (ValueError [Text ''valid episode requires a boolean success value''])) (\<lambda>_.
     rbind (guard (\<not> (ep_status r = InfraInvalid \<and> ep_success r \<noteq> None))
              (ValueError [Text ''infra-invalid episode cannot carry a success value''])) (\<lambda>_.
     rbind (guard (\<not> (ep_status r = InfraInvalid \<and> blank (invalid_reason r)))
              (ValueError [Text ''infra-invalid episode requires invalid_reason''])) (\<lambda>_.
     rbind (guard (\<not> (ep_success r = Some True \<and> (failure_segment r \<noteq> None \<or> failure_segments r \<noteq> [])))
              (ValueError [Text ''successful episode cannot carry failure segments''])) (\<lambda>_.
     rbind (guard (\<not> (ep_status r = InfraInvalid \<and> (failure_segment r \<noteq> None \<or> failure_segments r \<noteq> [])))
              (ValueError [Text ''infra-invalid episode cannot carry failure segments''])) (\<lambda>_.
     rbind (guard (case failure_segment r of None \<Rightarrow> True | Some s \<Rightarrow> fs_episode_id s = ep_episode_id r)
              (ValueError [Text ''primary failure segment belongs to another episode''])) (\<lambda>_.
     rbind (guard (list_all (\<lambda>s. fs_episode_id s = ep_episode_id r) (failure_segments r))
              (ValueError [Text ''failure segment belongs to another episode''])) (\<lambda>_.
     rbind (guard (length (failure_segments r) = card (set (map fs_segment_id (failure_segments r))))
              (ValueError [Text ''failure segment identifiers must be unique per episode''])) (\<lambda>_.
     rbind (guard (case failure_segment r of None \<Rightarrow> True
              | Some s \<Rightarrow> failure_segments r = [] \<or> s = hd (failure_segments r))
              (ValueError [Text ''primary failure segment must be the first full segment''])) (\<lambda>_.
     rbind (guard (0 \<le> ep_elapsed_s r) (ValueError [Text ''elapsed_s must be non-negative''])) (\<lambda>_.
     guard (0 \<le> ep_attempt_index r) (ValueError [Text ''attempt_index must be non-negative'']))))))))))))"

definition all_failure_segments :: "EpisodeRecord \<Rightarrow> FailureSegment list" where
  "all_failure_segments r =
     (if failure_segments r \<noteq> [] then failure_segments r
      else case failure_segment r of Some s \<Rightarrow> [s] | None \<Rightarrow> [])"

record FailureCluster =
  fc_cluster_id :: string
  hard_key :: "string \<times> string \<times> string"
  member_segment_ids :: "string list"
  fc_episode_ids :: "string list"
  representative_segment_ids :: "string list"
  medoid_segment_id :: string
  fc_summary :: string
  prevalence :: real
  mean_severity :: real

section \<open>Candidate bundles\<close>

datatype CriticOperator = Cop_lt | Cop_le | Cop_gt | Cop_ge | Cop_eq | Cop_ne | Cop_stagnant

record CriticPredicate =
  cp_feature :: string
  cp_operator :: CriticOperator
  cp_threshold :: py

record CriticRule =
  rule_id :: string
  cr_title :: string
  cr_feature :: string
  cr_operator :: CriticOperator
  cr_threshold :: py
  dwell_steps :: int
  cooldown_steps :: int
  cr_proposal :: string
  cr_evidence_ids :: "string list"
  safety_only :: bool
  activation_conditions :: "CriticPredicate list"

definition CriticPredicate_check :: "CriticPredicate \<Rightarrow> exn + unit" where
  "CriticPredicate_check p =
     guard (py_strip (cp_feature p) \<noteq> []) (ValueError [Text ''critic predicate feature is required''])"

definition CriticRule_check :: "CriticRule \<Rightarrow> exn + unit" where
  "CriticRule_check r =
     rbind (guard (py_strip (cr_feature r) \<noteq> []) (ValueError [Text ''critic feature is required''])) (\<lambda>_.
     rbind (guard (\<not> (dwell_steps r < 1 \<or> cooldown_steps r < 0))
              (ValueError [Text ''critic dwell/cooldown values are invalid''])) (\<lambda>_.
     guard (cr_evidence_ids r \<noteq> []) (ValueError [Text ''critic rule requires evidence''])))"

record RecoveryStep =
  rs_tool :: string
  rs_parameters :: "(string, py) dict"
  stop_when :: string

record RecoveryRule =
  recovery_id :: string
  rr_title :: string
  trigger_rule_ids :: "string list"
  rr_precondition :: string
  rr_steps :: "RecoveryStep list"
  safety_constraints :: "string list"
  stop_condition :: string
  rr_fallback :: string
  rr_evidence_ids :: "string list"

definition RecoveryRule_check :: "RecoveryRule \<Rightarrow> exn + unit" where
  "RecoveryRule_check r =
     rbind (guard (trigger_rule_ids r \<noteq> [])
              (ValueError [Text ''recovery rule requires at least one critic trigger''])) (\<lambda>_.
     rbind (guard (rr_steps r \<noteq> []) (ValueError [Text ''recovery rule requires at least one actor step''])) (\<lambda>_.
     guard (rr_evidence_ids r \<noteq> []) (ValueError [Text ''recovery rule requires evidence''])))"

record CandidateBundle =
  candidate_id :: string
  cb_generation :: int
  cb_parent_sha256 :: "string option"
  diagnosis_sha256 :: string
  causal_hypothesis :: string
  mechanism_change :: string
  validation_plan :: string
  critic_rules :: "CriticRule list"
  recovery_rules :: "RecoveryRule list"
  tool_plugin :: "(string, py) dict option"
  cb_schema_version :: int

definition has_plugin :: "CandidateBundle \<Rightarrow> bool" where
  "has_plugin b \<longleftrightarrow> (case tool_plugin b of None \<Rightarrow> False | Some d \<Rightarrow> d \<noteq> [])"

definition CandidateBundle_check :: "CandidateBundle \<Rightarrow> exn + unit" where
  "CandidateBundle_check b =
     (let rule_ids = map rule_id (critic_rules b);
          recovery_ids = map recovery_id (recovery_rules b);
          triggers = concat (map trigger_rule_ids (recovery_rules b));
          unknown = set triggers - set rule_ids;
          uncovered = set rule_ids - set triggers
      in
      rbind (require_sha ''parent_sha256'' (cb_parent_sha256 b) True) (\<lambda>_.
      rbind (require_sha ''diagnosis_sha256'' (Some (diagnosis_sha256 b)) False) (\<lambda>_.
      rbind (guard (py_strip (causal_hypothesis b) \<noteq> [])
               (ValueError [Text ''candidate must bind exactly one causal hypothesis''])) (\<lambda>_.
      rbind (guard (py_strip (mechanism_change b) \<noteq> [] \<and> py_strip (validation_plan b) \<noteq> [])
               (ValueError [Text ''candidate requires one mechanism change and validation plan''])) (\<lambda>_.
      rbind (guard (\<not> (critic_rules b = [] \<and> recovery_rules b = [] \<and> \<not> has_plugin b))
               (ValueError [Text ''candidate bundle must change one auditable behavior''])) (\<lambda>_.
      rbind (guard (\<not> (has_plugin b \<and> (critic_rules b \<noteq> [] \<or> recovery_rules b \<noteq> [])))
               (ValueError [Text ''an isolated tool-plugin candidate cannot mix critic/recovery changes''])) (\<lambda>_.
      rbind (guard (card (set rule_ids) = length rule_ids \<and> card (set recovery_ids) = length recovery_ids)
               (ValueError [Text ''candidate rule identifiers must be unique''])) (\<lambda>_.
      rbind (guard (unknown = {})
               (ValueError [Text ''recovery rules reference unknown critic rules''])) (\<lambda>_.
      guard (uncovered = {})
        (ValueError [Text ''every critic rejection must have a frozen executable recovery path'']))))))))))"

section \<open>Gate decisions\<close>

datatype GateKind = SameSeed | Regression | Heldout10 | Heldout20 | Heldout50

fun GateKind_name :: "GateKind \<Rightarrow> string" where
  "GateKind_name SameSeed = ''same_seed''"
| "GateKind_name Regression = ''regression''"
| "GateKind_name Heldout10 = ''heldout_10''"
| "GateKind_name Heldout20 = ''heldout_20''"
| "GateKind_name Heldout50 = ''heldout_50''"

record GateDecision =
  decision_id :: string
  gd_candidate_sha256 :: string
  gd_parent_sha256 :: "string option"
  gd_kind :: GateKind
  gd_passed :: bool
  gd_conclusive :: bool
  gd_candidate_successes :: int
  gd_parent_successes :: int
  gd_paired_count :: int
  gd_candidate_wins :: int
  gd_parent_wins :: int
  gd_p_value :: "real option"
  gd_alpha :: "real option"
  gd_candidate_safety_events :: int
  gd_parent_safety_events :: int
  gd_rationale :: message

definition GateDecision_make :: "GateDecision \<Rightarrow> exn + GateDecision" where
  "GateDecision_make d =
     rbind (require_sha ''candidate_sha256'' (Some (gd_candidate_sha256 d)) False) (\<lambda>_.
     rbind (require_sha ''parent_sha256'' (gd_parent_sha256 d) True) (\<lambda>_.
     rbind (guard (\<not> gd_paired_count d < 1)
              (ValueError [Text ''gate requires at least one paired episode''])) (\<lambda>_.
     rbind (guard (\<not> (gd_passed d \<and> \<not> gd_conclusive d))
              (ValueError [Text ''an inconclusive gate cannot pass''])) (\<lambda>_.
     Inr d))))"

section \<open>Lemmas\<close>

lemma GateDecision_make_Inr:
  "GateDecision_make d = Inr d' \<longleftrightarrow>
     d' = d \<and> require_sha ''candidate_sha256'' (Some (gd_candidate_sha256 d)) False = Inr ()
     \<and> require_sha ''parent_sha256'' (gd_parent_sha256 d) True = Inr ()
     \<and> 1 \<le> gd_paired_count d \<and> (gd_passed d \<longrightarrow> gd_conclusive d)"
  by (auto simp: GateDecision_make_def rbind_Inr_iff)

lemma require_unique_Inr:
  "require_unique name vs n = Inr u \<longleftrightarrow> int (length vs) = n \<and> distinct vs"
  by (auto simp: require_unique_def card_distinct distinct_card)

text \<open>The seed plan of an accepted manifest: rollout and held-out seeds are distinct, disjoint and
  complete, and the policy generator of every seed is fixed.\<close>

lemma check_seeds_Inr:
  "check_seeds m = Inr u \<longleftrightarrow>
     int (length (rollout_seeds m)) = expected_rollouts m \<and> distinct (rollout_seeds m)
     \<and> int (length (heldout_seeds m)) = expected_heldout m \<and> distinct (heldout_seeds m)
     \<and> set (rollout_seeds m) \<inter> set (heldout_seeds m) = {}
     \<and> set (dict_keys (policy_rng_by_seed m)) = int_str ` (set (rollout_seeds m) \<union> set (heldout_seeds m))"
  by (auto simp: check_seeds_def rbind_Inr_iff require_unique_Inr image_Un)

text \<open>A bundle that passes its checks is closed: its rule identifiers are distinct, every critic rule
  has a recovery rule, and no recovery rule names an unknown critic rule.\<close>

lemma CandidateBundle_closed:
  assumes "CandidateBundle_check b = Inr u"
  shows "distinct (map rule_id (critic_rules b))"
    and "(\<Union>r \<in> set (recovery_rules b). set (trigger_rule_ids r)) = rule_id ` set (critic_rules b)"
  using assms by (auto simp: CandidateBundle_check_def Let_def rbind_Inr_iff intro: card_distinct)

end
