(* ===== verification/Gating.thy ===== *)
theory Gating
  imports Evolution_Models
begin

text \<open>
  \<^verbatim>\<open>zetta/evolution/gating.py\<close>: the paired gates a candidate bundle has to pass. Both arms run the same
  preregistered seeds; a gate compares them seed by seed. \<open>H\<close> is \<open>canonical_sha256\<close>, the hexadecimal
  digest of a value's canonical JSON. Artifact values come from JSON, so a text is a \<open>PyStr\<close>. Rates and
  p-values are exact reals: a rate stands for the value of the float, and where the source rounds a
  product of floats (\<open>math.ceil(n * rate)\<close>) the model takes the ceiling of the exact product, so the
  two required counts can differ by one when the float product rounds across an integer.
\<close>

section \<open>The exact test\<close>

definition one_sided_exact_mcnemar :: "int \<Rightarrow> int \<Rightarrow> exn + real" where
  "one_sided_exact_mcnemar candidate_wins parent_wins =
     (if candidate_wins < 0 \<or> parent_wins < 0
      then Inl (ValueError [Text ''paired win counts must be non-negative''])
      else
        (let discordant = nat (candidate_wins + parent_wins) in
         if discordant = 0 then Inr 1
         else
           (let numerator = sum_list (map (\<lambda>v. discordant choose v) [nat candidate_wins ..< discordant + 1])
            in Inr (real numerator / 2 ^ discordant))))"

section \<open>Records by seed\<close>

fun valid_by_seed_loop ::
  "EpisodeRecord list \<Rightarrow> (int, EpisodeRecord) dict \<Rightarrow> exn + (int, EpisodeRecord) dict" where
  "valid_by_seed_loop [] result = Inr result"
| "valid_by_seed_loop (r # rs) result =
     (if ep_status r \<noteq> Valid then valid_by_seed_loop rs result
      else if dict_get result (ep_seed r) \<noteq> None
      then Inl (ValueError [Text ''duplicate valid paired seed: '', IntF (ep_seed r)])
      else valid_by_seed_loop rs (dict_set result (ep_seed r) r))"

definition valid_by_seed :: "EpisodeRecord list \<Rightarrow> exn + (int, EpisodeRecord) dict" where
  "valid_by_seed records = valid_by_seed_loop records []"

definition assert_bundle_binding ::
  "(int, EpisodeRecord) dict \<Rightarrow> string option \<Rightarrow> string \<Rightarrow> exn + unit" where
  "assert_bundle_binding records expected_sha256 arm =
     (let mismatched = sort (map fst (filter (\<lambda>(seed, r). ep_bundle_sha256 r \<noteq> expected_sha256) records))
      in guard (mismatched = [])
           (ValueError ([Text arm, Text '' gate records are not bound to the declared bundle: '']
              @ map IntF mismatched)))"

section \<open>Evidence of a pair\<close>

definition action_artifact_sha :: "EpisodeRecord \<Rightarrow> string option" where
  "action_artifact_sha r =
     (case dict_get (artifact_index r) ''trajectory_index'' of
        Some (PyDict trajectory) \<Rightarrow>
          (case dict_get trajectory ''artifact_sha256'' of
             Some (PyDict hashes) \<Rightarrow>
               (case dict_get hashes ''actions'' of Some (PyStr s) \<Rightarrow> Some s | _ \<Rightarrow> None)
           | _ \<Rightarrow> None)
      | _ \<Rightarrow> None)"

definition candidate_intervened :: "EpisodeRecord \<Rightarrow> bool" where
  "candidate_intervened r =
     (let declared = dict_get_or (artifact_index r) ''candidate_intervention'' PyNone in
      if declared \<noteq> PyNone then py_truthy declared
      else list_ex (\<lambda>key. take 6 key = ''role1:'') (dict_keys (artifact_index r)))"

fun nonempty_text :: "py \<Rightarrow> bool" where
  "nonempty_text (PyStr s) = (s \<noteq> [])"
| "nonempty_text _ = False"

definition same_physical_reset ::
  "(py \<Rightarrow> string) \<Rightarrow> (string, py) dict \<Rightarrow> (string, py) dict \<Rightarrow> exn + bool \<times> bool" where
  "same_physical_reset H candidate_identity parent_identity =
     (let candidate_state = dict_get_or candidate_identity ''state_sha256'' PyNone;
          parent_state = dict_get_or parent_identity ''state_sha256'' PyNone
      in
      if candidate_state = PyNone \<and> parent_state = PyNone
      then Inr (H (PyDict candidate_identity) = H (PyDict parent_identity), False)
      else
        rbind (guard (nonempty_text candidate_state)
                 (ValueError [Text ''candidate reset identity has no physical state digest''])) (\<lambda>_.
        rbind (guard (nonempty_text parent_state)
                 (ValueError [Text ''parent reset identity has no physical state digest''])) (\<lambda>_.
        (let camera_mismatch =
               H (dict_get_or candidate_identity ''camera_sha256'' (PyDict []))
               \<noteq> H (dict_get_or parent_identity ''camera_sha256'' (PyDict []))
         in Inr (candidate_state = parent_state, camera_mismatch)))))"

definition initial_identity :: "EpisodeRecord \<Rightarrow> (string, py) dict" where
  "initial_identity r =
     (case dict_get (artifact_index r) ''initial_observation_identity'' of
        Some (PyDict d) \<Rightarrow> d | _ \<Rightarrow> [])"

definition assert_paired_evidence ::
  "(py \<Rightarrow> string) \<Rightarrow> EpisodeRecord \<Rightarrow> EpisodeRecord \<Rightarrow> bool \<Rightarrow> exn + bool \<times> bool" where
  "assert_paired_evidence H candidate parent require_divergence =
     rbind (guard (ep_policy_rng candidate = ep_policy_rng parent)
              (ValueError [Text ''paired gate requires identical policy RNG per seed''])) (\<lambda>_.
     rbind (guard (initial_identity candidate \<noteq> [])
              (ValueError [Text ''candidate is missing initial observation identity''])) (\<lambda>_.
     rbind (guard (initial_identity parent \<noteq> [])
              (ValueError [Text ''parent is missing initial observation identity''])) (\<lambda>_.
     rbind (same_physical_reset H (initial_identity candidate) (initial_identity parent))
       (\<lambda>(same_reset, camera_mismatch).
     rbind (guard same_reset (ValueError [Text ''paired gate initial observation identity differs''])) (\<lambda>_.
     if require_divergence then
       (let candidate_actions = action_artifact_sha candidate; parent_actions = action_artifact_sha parent in
        rbind (guard (\<not> blank candidate_actions \<and> \<not> blank parent_actions)
                 (ValueError [Text ''same-seed gate requires action trajectory digests'']))
          (\<lambda>_. Inr (candidate_actions \<noteq> parent_actions, camera_mismatch)))
     else Inr (False, camera_mismatch))))))"

text \<open>The two arms by seed and what the loop over the seeds recorded for each.\<close>

record paired_arms =
  pa_candidate :: "(int, EpisodeRecord) dict"
  pa_parent :: "(int, EpisodeRecord) dict"
  pa_divergence :: "(int, bool) dict"
  pa_camera :: "(int, bool) dict"
  pa_intervention :: "(int, bool) dict"

definition getitem :: "(int, 'v) dict \<Rightarrow> int \<Rightarrow> exn + 'v" where
  "getitem d k = (case dict_get d k of
     Some v \<Rightarrow> Inr v | None \<Rightarrow> Inl (PyExn K_KeyError ''KeyError'' [IntF k]))"

fun evidence_loop :: "(py \<Rightarrow> string) \<Rightarrow> GateKind \<Rightarrow> int list \<Rightarrow> paired_arms \<Rightarrow> exn + paired_arms" where
  "evidence_loop H kind [] arms = Inr arms"
| "evidence_loop H kind (seed # seeds) arms =
     rbind (getitem (pa_candidate arms) seed) (\<lambda>c.
     rbind (getitem (pa_parent arms) seed) (\<lambda>p.
     rbind (assert_paired_evidence H c p (kind = SameSeed)) (\<lambda>(divergence, camera_mismatch).
     evidence_loop H kind seeds
       (arms\<lparr>pa_divergence := dict_set (pa_divergence arms) seed divergence,
             pa_camera := dict_set (pa_camera arms) seed camera_mismatch,
             pa_intervention := dict_set (pa_intervention arms) seed (candidate_intervened c)\<rparr>))))"

definition pair_arms ::
  "(py \<Rightarrow> string) \<Rightarrow> GateKind \<Rightarrow> string \<Rightarrow> string option \<Rightarrow> EpisodeRecord list \<Rightarrow> EpisodeRecord list
     \<Rightarrow> int list \<Rightarrow> real \<Rightarrow> exn + paired_arms" where
  "pair_arms H kind candidate_sha256 parent_sha256 candidate_records parent_records expected_seeds rate =
     rbind (valid_by_seed candidate_records) (\<lambda>candidate.
     rbind (valid_by_seed parent_records) (\<lambda>parent.
     rbind (assert_bundle_binding candidate (Some candidate_sha256) ''candidate'') (\<lambda>_.
     rbind (assert_bundle_binding parent parent_sha256 ''parent'') (\<lambda>_.
     rbind (guard (set (dict_keys candidate) = set expected_seeds \<and> set (dict_keys parent) = set expected_seeds)
              (ValueError ([Text ''paired gate requires exactly one valid result per seed; candidate_missing='']
                 @ map IntF (sorted_list_of_set (set expected_seeds - set (dict_keys candidate)))
                 @ [Text '', parent_missing='']
                 @ map IntF (sorted_list_of_set (set expected_seeds - set (dict_keys parent)))))) (\<lambda>_.
     rbind (guard (0 < rate \<and> rate \<le> 1) (ValueError [Text ''same-seed pass rate must be in (0, 1]''])) (\<lambda>_.
     evidence_loop H kind expected_seeds
       \<lparr>pa_candidate = candidate, pa_parent = parent, pa_divergence = [], pa_camera = [],
        pa_intervention = []\<rparr>))))))"

section \<open>Counts over the seeds\<close>

text \<open>\<open>bool(arm[seed].success)\<close>, \<open>len(arm[seed].safety_events)\<close> and the flags of a seed. Every seed is a key
  once the loop has run.\<close>

definition succeeded :: "(int, EpisodeRecord) dict \<Rightarrow> int \<Rightarrow> bool" where
  "succeeded arm seed = (case dict_get arm seed of Some r \<Rightarrow> ep_success r = Some True | None \<Rightarrow> False)"

definition safety_count :: "(int, EpisodeRecord) dict \<Rightarrow> int list \<Rightarrow> int" where
  "safety_count arm seeds =
     sum_list (map (\<lambda>seed. case dict_get arm seed of Some r \<Rightarrow> int (length (safety_events r)) | None \<Rightarrow> 0) seeds)"

definition count_seeds :: "(int \<Rightarrow> bool) \<Rightarrow> int list \<Rightarrow> int" where
  "count_seeds P seeds = int (length (filter P seeds))"

definition flag :: "(int, bool) dict \<Rightarrow> int \<Rightarrow> bool" where
  "flag d seed = dict_get_or d seed False"

definition causal :: "paired_arms \<Rightarrow> int \<Rightarrow> bool" where
  "causal arms seed \<longleftrightarrow> flag (pa_divergence arms) seed \<and> flag (pa_intervention arms) seed"

definition mechanism_diverged :: "paired_arms \<Rightarrow> int list \<Rightarrow> bool" where
  "mechanism_diverged arms seeds = list_ex (causal arms) seeds"

definition candidate_successes :: "paired_arms \<Rightarrow> int list \<Rightarrow> int" where
  "candidate_successes arms = count_seeds (succeeded (pa_candidate arms))"

definition parent_successes :: "paired_arms \<Rightarrow> int list \<Rightarrow> int" where
  "parent_successes arms = count_seeds (succeeded (pa_parent arms))"

definition rescued :: "paired_arms \<Rightarrow> int \<Rightarrow> bool" where
  "rescued arms seed \<longleftrightarrow> succeeded (pa_candidate arms) seed \<and> \<not> succeeded (pa_parent arms) seed"

definition regressed :: "paired_arms \<Rightarrow> int \<Rightarrow> bool" where
  "regressed arms seed \<longleftrightarrow> succeeded (pa_parent arms) seed \<and> \<not> succeeded (pa_candidate arms) seed"

definition no_safety_regression :: "paired_arms \<Rightarrow> int list \<Rightarrow> bool" where
  "no_safety_regression arms seeds \<longleftrightarrow>
     safety_count (pa_candidate arms) seeds \<le> safety_count (pa_parent arms) seeds"

section \<open>Verdicts\<close>

record verdict =
  v_passed :: bool
  v_conclusive :: bool
  v_p_value :: "real option"
  v_rationale :: message

abbreviation bool_text :: "bool \<Rightarrow> frag" where
  "bool_text b \<equiv> Text (if b then ''True'' else ''False'')"

definition same_seed_verdict :: "paired_arms \<Rightarrow> int list \<Rightarrow> real \<Rightarrow> verdict" where
  "same_seed_verdict arms seeds rate =
     (let n = int (length seeds);
          cs = candidate_successes arms seeds;
          never = [Text ''candidate never changed the failed parent action trajectory'']
      in if rate = 1 then
           (let passed = (mechanism_diverged arms seeds \<and> cs = n \<and> parent_successes arms seeds = 0
                          \<and> no_safety_regression arms seeds)
            in \<lparr>v_passed = passed, v_conclusive = True, v_p_value = None,
                v_rationale =
                  (if \<not> mechanism_diverged arms seeds then never
                   else if passed then
                     [Text ''candidate met the frozen same-seed threshold: '', IntF cs, Text ''/'', IntF n,
                      Text '' >= '', IntF n, Text ''/'', IntF n]
                   else
                     [Text ''candidate did not meet the frozen same-seed improvement threshold ('', IntF cs,
                      Text ''/'', IntF n, Text '', required '', IntF n,
                      Text ''), rescued trajectories did not diverge, or safety regressed''])\<rparr>)
         else
           (let required = ceiling (of_int n * rate);
                rescued_seeds = filter (rescued arms) seeds;
                causally_rescued = filter (causal arms) rescued_seeds;
                passed = (cs \<ge> required \<and> cs > parent_successes arms seeds \<and> causally_rescued \<noteq> []
                          \<and> no_safety_regression arms seeds)
            in \<lparr>v_passed = passed, v_conclusive = True, v_p_value = None,
                v_rationale =
                  (if \<not> mechanism_diverged arms seeds then never
                   else if passed then
                     [Text ''candidate met the frozen same-seed threshold: '', IntF cs, Text ''/'', IntF n,
                      Text '' >= '', IntF required, Text ''/'', IntF n, Text ''; causally attributed rescues '',
                      IntF (int (length causally_rescued)), Text ''/'', IntF (int (length rescued_seeds))]
                   else
                     [Text ''candidate did not meet the frozen same-seed improvement threshold ('', IntF cs,
                      Text ''/'', IntF n, Text '', required '', IntF required,
                      Text ''), had no causally attributed rescue, or safety regressed''])\<rparr>))"

definition regression_verdict :: "paired_arms \<Rightarrow> int list \<Rightarrow> verdict" where
  "regression_verdict arms seeds =
     (let n = int (length seeds);
          cs = candidate_successes arms seeds;
          passed = (cs = n \<and> no_safety_regression arms seeds)
      in \<lparr>v_passed = passed, v_conclusive = True, v_p_value = None,
          v_rationale =
            (if passed then
               [Text ''candidate resolved every historical regression seed without a safety regression'']
             else
               [Text ''candidate did not resolve every historical regression seed ('', IntF cs, Text ''/'',
                IntF n, Text '') or safety regressed''])\<rparr>)"

definition heldout_verdict ::
  "paired_arms \<Rightarrow> int list \<Rightarrow> real option \<Rightarrow> int \<Rightarrow> real \<Rightarrow> bool \<Rightarrow> exn + verdict" where
  "heldout_verdict arms seeds alpha_arg min_gain min_success_rate require_significance =
     (case alpha_arg of
        None \<Rightarrow> Inl (ValueError [Text ''heldout gate requires alpha in (0, 1)''])
      | Some alpha \<Rightarrow>
          rbind (guard (0 < alpha \<and> alpha < 1)
                   (ValueError [Text ''heldout gate requires alpha in (0, 1)''])) (\<lambda>_.
          rbind (guard (\<not> min_gain < 0) (ValueError [Text ''heldout_min_gain must be non-negative''])) (\<lambda>_.
          rbind (guard (0 \<le> min_success_rate \<and> min_success_rate \<le> 1)
                   (ValueError [Text ''heldout_min_success_rate must be in [0, 1]''])) (\<lambda>_.
          rbind (one_sided_exact_mcnemar (count_seeds (rescued arms) seeds) (count_seeds (regressed arms) seeds))
            (\<lambda>p_value.
          rbind (guard (seeds \<noteq> []) (PyExn K_Other ''ZeroDivisionError'' [Text ''division by zero''])) (\<lambda>_.
          (let conclusive = (if require_significance then p_value < alpha else True);
               success_rate = of_int (candidate_successes arms seeds) / real (length seeds);
               gain = candidate_successes arms seeds - parent_successes arms seeds;
               safe = no_safety_regression arms seeds
           in Inr \<lparr>v_passed = (conclusive \<and> gain \<ge> min_gain \<and> success_rate \<ge> min_success_rate \<and> safe),
                   v_conclusive = conclusive, v_p_value = Some p_value,
                   v_rationale =
                     [Text ''paired one-sided exact McNemar p='', FloatF p_value, Text ''; alpha='', FloatF alpha,
                      Text ''; require_significance='', bool_text require_significance,
                      Text ''; gain='', IntF gain, Text ''; min_gain='', IntF min_gain,
                      Text ''; success_rate='', FloatF success_rate,
                      Text ''; min_success_rate='', FloatF min_success_rate,
                      Text ''; no_safety_regression='', bool_text safe]\<rparr>)))))))"

section \<open>Decisions\<close>

definition is_heldout :: "GateKind \<Rightarrow> bool" where
  "is_heldout kind \<longleftrightarrow> take 7 (GateKind_name kind) = ''heldout''"

definition opt_py :: "('a \<Rightarrow> py) \<Rightarrow> 'a option \<Rightarrow> py" where
  "opt_py f v = (case v of None \<Rightarrow> PyNone | Some x \<Rightarrow> f x)"

definition decision_payload ::
  "(py \<Rightarrow> string) \<Rightarrow> GateKind \<Rightarrow> string \<Rightarrow> string option \<Rightarrow> paired_arms \<Rightarrow> int list \<Rightarrow> real option \<Rightarrow> real
     \<Rightarrow> int \<Rightarrow> real \<Rightarrow> bool \<Rightarrow> (string, py) dict" where
  "decision_payload H kind candidate_sha256 parent_sha256 arms seeds alpha rate min_gain min_success_rate
       require_significance =
     [(''kind'', PyStr (GateKind_name kind)), (''candidate'', PyStr candidate_sha256),
      (''parent'', opt_py PyStr parent_sha256), (''seeds_digest'', PyStr (H (PyList (map PyInt seeds)))),
      (''candidate_successes'', PyInt (candidate_successes arms seeds)),
      (''parent_successes'', PyInt (parent_successes arms seeds)),
      (''mechanism_diverged'', PyBool (mechanism_diverged arms seeds))]
     @ (if is_heldout kind
           \<and> (alpha \<noteq> Some (25/1000) \<or> min_gain \<noteq> 1 \<or> min_success_rate \<noteq> 0 \<or> \<not> require_significance)
        then [(''heldout_policy'', PyDict
                [(''alpha'', opt_py PyFloat alpha), (''min_gain'', PyInt min_gain),
                 (''min_success_rate'', PyFloat min_success_rate),
                 (''require_significance'', PyBool require_significance)])] else [])
     @ (if kind = SameSeed \<and> rate \<noteq> 1
        then [(''causal_attribution_policy'', PyStr ''at_least_one_attributed_rescue_v2'')] else [])
     @ (if kind = Regression
        then [(''regression_policy'', PyStr ''all_historical_rollouts_must_succeed_v2'')] else [])"

definition camera_note :: "paired_arms \<Rightarrow> int list \<Rightarrow> message" where
  "camera_note arms seeds =
     (let mismatches = length (filter id (dict_values (pa_camera arms))) in
      if mismatches \<noteq> 0
      then [Text ''; reset state binding matched for all pairs while exact camera digests differed for '',
            IntF (int mismatches), Text ''/'', IntF (int (length seeds)), Text '' pairs'']
      else [])"

definition gate_verdict ::
  "GateKind \<Rightarrow> paired_arms \<Rightarrow> int list \<Rightarrow> real option \<Rightarrow> real \<Rightarrow> int \<Rightarrow> real \<Rightarrow> bool \<Rightarrow> exn + verdict" where
  "gate_verdict kind arms seeds alpha rate min_gain min_success_rate require_significance =
     (if kind = SameSeed then Inr (same_seed_verdict arms seeds rate)
      else if kind = Regression then Inr (regression_verdict arms seeds)
      else heldout_verdict arms seeds alpha min_gain min_success_rate require_significance)"

definition evaluate_paired_gate ::
  "(py \<Rightarrow> string) \<Rightarrow> GateKind \<Rightarrow> string \<Rightarrow> string option \<Rightarrow> EpisodeRecord list \<Rightarrow> EpisodeRecord list
     \<Rightarrow> int list \<Rightarrow> real option \<Rightarrow> real \<Rightarrow> int \<Rightarrow> real \<Rightarrow> bool \<Rightarrow> exn + GateDecision" where
  "evaluate_paired_gate H kind candidate_sha256 parent_sha256 candidate_records parent_records
       expected_seeds alpha same_seed_pass_rate heldout_min_gain heldout_min_success_rate
       heldout_require_significance =
     rbind (pair_arms H kind candidate_sha256 parent_sha256 candidate_records parent_records expected_seeds
              same_seed_pass_rate) (\<lambda>arms.
     rbind (gate_verdict kind arms expected_seeds alpha same_seed_pass_rate heldout_min_gain
              heldout_min_success_rate heldout_require_significance) (\<lambda>v.
     GateDecision_make
       \<lparr>decision_id = ''gate-'' @ take 20 (H (PyDict (decision_payload H kind candidate_sha256 parent_sha256 arms
            expected_seeds alpha same_seed_pass_rate heldout_min_gain heldout_min_success_rate
            heldout_require_significance))),
        gd_candidate_sha256 = candidate_sha256, gd_parent_sha256 = parent_sha256, gd_kind = kind,
        gd_passed = v_passed v, gd_conclusive = v_conclusive v,
        gd_candidate_successes = candidate_successes arms expected_seeds,
        gd_parent_successes = parent_successes arms expected_seeds,
        gd_paired_count = int (length expected_seeds),
        gd_candidate_wins = count_seeds (rescued arms) expected_seeds,
        gd_parent_wins = count_seeds (regressed arms) expected_seeds,
        gd_p_value = v_p_value v, gd_alpha = alpha,
        gd_candidate_safety_events = safety_count (pa_candidate arms) expected_seeds,
        gd_parent_safety_events = safety_count (pa_parent arms) expected_seeds,
        gd_rationale = v_rationale v @ camera_note arms expected_seeds\<rparr>))"

definition evaluate_two_stage_heldout ::
  "(py \<Rightarrow> string) \<Rightarrow> string \<Rightarrow> string option \<Rightarrow> EpisodeRecord list \<Rightarrow> EpisodeRecord list \<Rightarrow> int list \<Rightarrow> int
     \<Rightarrow> real \<Rightarrow> int \<Rightarrow> real \<Rightarrow> bool \<Rightarrow> exn + GateDecision" where
  "evaluate_two_stage_heldout H candidate_sha256 parent_sha256 candidate_records parent_records
       preregistered_seeds stage alpha min_gain min_success_rate require_significance =
     (if length preregistered_seeds \<noteq> 50
      then Inl (ValueError [Text ''two-stage heldout gate requires 50 preregistered seeds''])
      else if stage = 1
      then evaluate_paired_gate H Heldout10 candidate_sha256 parent_sha256 candidate_records parent_records
             (take 10 preregistered_seeds) (Some alpha) 1 min_gain min_success_rate require_significance
      else if stage = 2
      then evaluate_paired_gate H Heldout50 candidate_sha256 parent_sha256 candidate_records parent_records
             preregistered_seeds (Some alpha) 1 min_gain min_success_rate require_significance
      else Inl (ValueError [Text ''heldout stage must be 1 or 2'']))"

definition evaluate_fixed_heldout_20 ::
  "(py \<Rightarrow> string) \<Rightarrow> string \<Rightarrow> string option \<Rightarrow> EpisodeRecord list \<Rightarrow> EpisodeRecord list \<Rightarrow> int list
     \<Rightarrow> real \<Rightarrow> int \<Rightarrow> real \<Rightarrow> bool \<Rightarrow> exn + GateDecision" where
  "evaluate_fixed_heldout_20 H candidate_sha256 parent_sha256 candidate_records parent_records
       preregistered_seeds alpha min_gain min_success_rate require_significance =
     (if length preregistered_seeds \<noteq> 20
      then Inl (ValueError [Text ''fixed heldout_20 gate requires exactly 20 preregistered seeds''])
      else evaluate_paired_gate H Heldout20 candidate_sha256 parent_sha256 candidate_records parent_records
             preregistered_seeds (Some alpha) 1 min_gain min_success_rate require_significance)"

section \<open>The test as a tail probability\<close>

text \<open>Sign patterns of \<open>n\<close> discordant pairs in which the candidate wins at least \<open>c\<close>.\<close>

definition win_patterns :: "nat \<Rightarrow> nat \<Rightarrow> nat set set" where
  "win_patterns n c = {S. S \<subseteq> {..<n} \<and> c \<le> card S}"

lemma finite_win_patterns [simp]: "finite (win_patterns n c)"
  by (rule finite_subset [of _ "Pow {..<n}"]) (auto simp: win_patterns_def)

lemma card_win_patterns: "card (win_patterns n c) = sum_list (map (\<lambda>v. n choose v) [c ..< n + 1])"
proof -
  let ?layer = "\<lambda>v. {S. S \<subseteq> {..<n} \<and> card S = v}"
  have "win_patterns n c = (\<Union>v \<in> set [c ..< n + 1]. ?layer v)"
  proof (rule set_eqI)
    fix S
    have "card S \<le> n" if "S \<subseteq> {..<n}" using card_mono [OF _ that] by simp
    then show "S \<in> win_patterns n c \<longleftrightarrow> S \<in> (\<Union>v \<in> set [c ..< n + 1]. ?layer v)"
      by (auto simp: win_patterns_def less_Suc_eq_le)
  qed
  also have "card \<dots> = (\<Sum>v \<in> set [c ..< n + 1]. card (?layer v))"
    by (rule card_UN_disjoint) auto
  also have "\<dots> = (\<Sum>v \<in> set [c ..< n + 1]. n choose v)"
    by (simp add: n_subsets del: set_upt)
  finally show ?thesis by (simp add: sum_list_distinct_conv_sum_set del: set_upt upt_Suc)
qed

lemma win_patterns_le: "card (win_patterns n c) \<le> 2 ^ n"
proof -
  have "card (win_patterns n c) \<le> card (Pow {..<n})"
    by (rule card_mono) (auto simp: win_patterns_def)
  then show ?thesis by (simp add: card_Pow)
qed

lemma win_patterns_pos: "c \<le> n \<Longrightarrow> 0 < card (win_patterns n c)"
  by (auto simp: card_gt_0_iff win_patterns_def intro!: exI [of _ "{..<n}"])

text \<open>Swapping winners and losers maps the patterns with fewer than \<open>c\<close> wins into those with more than
  \<open>w\<close>.\<close>

lemma win_patterns_half:
  assumes "c \<le> w"
  shows "2 ^ (c + w) \<le> 2 * card (win_patterns (c + w) c)"
proof -
  let ?n = "c + w" and ?few = "{S. S \<subseteq> {..<c + w} \<and> card S < c}"
  have "card ?few \<le> card (win_patterns ?n c)"
  proof (rule card_inj_on_le [of "\<lambda>S. {..<?n} - S"])
    show "inj_on (\<lambda>S. {..<?n} - S) ?few"
      by (rule inj_onI) (metis (no_types, lifting) double_diff mem_Collect_eq subset_refl)
    have "c \<le> card ({..<?n} - S)" if "S \<subseteq> {..<?n}" "card S < c" for S
      using that assms by (simp add: card_Diff_subset finite_subset [OF that(1)])
    then show "(\<lambda>S. {..<?n} - S) ` ?few \<subseteq> win_patterns ?n c" by (auto simp: win_patterns_def)
  qed simp
  moreover have "card (Pow {..<?n}) = card ?few + card (win_patterns ?n c)"
    by (subst card_Un_disjoint [symmetric])
      (auto simp: win_patterns_def finite_subset [of _ "Pow {..<?n}"] intro!: arg_cong [where f = card])
  ultimately show ?thesis by (simp add: card_Pow)
qed

lemma mcnemar_value:
  assumes "0 \<le> c" "0 \<le> w"
  shows "one_sided_exact_mcnemar c w = Inr (real (card (win_patterns (nat (c + w)) (nat c))) / 2 ^ nat (c + w))"
proof (cases "nat (c + w) = 0")
  case True
  then have "c = 0" "w = 0" using assms by auto
  then show ?thesis by (simp add: one_sided_exact_mcnemar_def card_win_patterns)
next
  case False
  then show ?thesis using assms by (simp add: one_sided_exact_mcnemar_def card_win_patterns Let_def)
qed

text \<open>C27: the p-value is the exact one-sided tail. It is the share of all sign patterns of the discordant
  pairs in which the candidate wins at least as often as it did, so it lies in (0, 1]; it is below one
  half only when the candidate won strictly more pairs than the parent, and a call with a negative count
  is refused.\<close>

theorem mcnemar_exact_tail:
  "(case one_sided_exact_mcnemar c w of
      Inl e \<Rightarrow> c < 0 \<or> w < 0
    | Inr p \<Rightarrow> 0 \<le> c \<and> 0 \<le> w
        \<and> p = real (card {S. S \<subseteq> {..<nat (c + w)} \<and> nat c \<le> card S}) / real (card (Pow {..<nat (c + w)}))
        \<and> 0 < p \<and> p \<le> 1 \<and> (1/2 \<le> p \<or> w < c))"
proof (cases "0 \<le> c \<and> 0 \<le> w")
  case True
  let ?n = "nat (c + w)"
  have pos: "0 < card (win_patterns ?n (nat c))" using True by (intro win_patterns_pos) auto
  have half: "real (2 ^ ?n) \<le> real (2 * card (win_patterns ?n (nat c)))" if "c \<le> w"
    using win_patterns_half [of "nat c" "nat w"] that True by (subst of_nat_le_iff) (simp add: nat_add_distrib)
  have le1: "real (card (win_patterns ?n (nat c))) \<le> 2 ^ ?n"
    using win_patterns_le [of ?n "nat c"] by (metis of_nat_le_iff of_nat_numeral of_nat_power)
  show ?thesis
    using True pos half le1
    by (cases "c \<le> w") (auto simp: mcnemar_value card_Pow win_patterns_def [symmetric] field_simps)
next
  case False
  then show ?thesis by (auto simp: one_sided_exact_mcnemar_def)
qed

section \<open>What a gate decides\<close>

text \<open>The same in terms of the records handed in: the valid records of a seed, the seeds an arm won, the
  safety events of an arm, and the seeds where the candidate intervened and changed the actions.\<close>

definition valid_records :: "EpisodeRecord list \<Rightarrow> int \<Rightarrow> EpisodeRecord list" where
  "valid_records records seed = filter (\<lambda>r. ep_status r = Valid \<and> ep_seed r = seed) records"

definition won_seeds :: "EpisodeRecord list \<Rightarrow> int set \<Rightarrow> int set" where
  "won_seeds records S = {s \<in> S. \<exists>r \<in> set (valid_records records s). ep_success r = Some True}"

definition arm_events :: "EpisodeRecord list \<Rightarrow> int set \<Rightarrow> int" where
  "arm_events records S =
     (\<Sum>s \<in> S. sum_list (map (\<lambda>r. int (length (safety_events r))) (valid_records records s)))"

definition attributed :: "EpisodeRecord list \<Rightarrow> EpisodeRecord list \<Rightarrow> int \<Rightarrow> bool" where
  "attributed candidate_records parent_records s \<longleftrightarrow>
     (\<exists>c \<in> set (valid_records candidate_records s). \<exists>p \<in> set (valid_records parent_records s).
        candidate_intervened c \<and> action_artifact_sha c \<noteq> action_artifact_sha p)"

text \<open>Both episodes of a pair started from the same physical state: each names an initial observation
  identity, and either both give the same non-empty digest of the physical state, or neither gives one
  and the identities have the same digest as a whole.\<close>

definition equally_reset :: "(py \<Rightarrow> string) \<Rightarrow> EpisodeRecord \<Rightarrow> EpisodeRecord \<Rightarrow> bool" where
  "equally_reset H c p \<longleftrightarrow>
     initial_identity c \<noteq> [] \<and> initial_identity p \<noteq> []
     \<and> (let state = (\<lambda>r. dict_get_or (initial_identity r) ''state_sha256'' PyNone)
        in if state c = PyNone \<and> state p = PyNone
           then H (PyDict (initial_identity c)) = H (PyDict (initial_identity p))
           else \<exists>digest. digest \<noteq> [] \<and> state c = PyStr digest \<and> state p = PyStr digest)"

definition gate_criteria ::
  "GateKind \<Rightarrow> EpisodeRecord list \<Rightarrow> EpisodeRecord list \<Rightarrow> int set \<Rightarrow> real option \<Rightarrow> real \<Rightarrow> int \<Rightarrow> real \<Rightarrow> bool
     \<Rightarrow> bool" where
  "gate_criteria kind crecs precs S alpha rate min_gain min_rate significant \<longleftrightarrow>
     arm_events crecs S \<le> arm_events precs S \<and>
     (let C = won_seeds crecs S; P = won_seeds precs S in
      case kind of
        SameSeed \<Rightarrow>
          (\<exists>s \<in> C - P. attributed crecs precs s)
          \<and> (if rate = 1 then C = S \<and> P = {} else rate * real (card S) \<le> real (card C) \<and> card P < card C)
      | Regression \<Rightarrow> C = S
      | _ \<Rightarrow>
          (significant \<longrightarrow>
             (\<exists>a p. alpha = Some a \<and> one_sided_exact_mcnemar (card (C - P)) (card (P - C)) = Inr p \<and> p < a))
          \<and> int (card P) + min_gain \<le> int (card C) \<and> min_rate * real (card S) \<le> real (card C))"

lemma valid_by_seed_loop_Inr:
  assumes "valid_by_seed_loop records acc = Inr d"
  shows "(dict_get acc s = None \<longrightarrow>
            valid_records records s = (case dict_get d s of None \<Rightarrow> [] | Some r \<Rightarrow> [r]))
    \<and> (\<forall>r. dict_get acc s = Some r \<longrightarrow> valid_records records s = [] \<and> dict_get d s = Some r)
    \<and> (dict_ok acc \<longrightarrow> dict_ok d)"
  using assms
proof (induction records acc rule: valid_by_seed_loop.induct)
  case (1 result)
  then show ?case by (auto simp: valid_records_def)
next
  case (2 r rs result)
  show ?case
  proof (cases "ep_status r = Valid")
    case True
    with 2(3) have new: "dict_get result (ep_seed r) = None"
      and rest: "valid_by_seed_loop rs (dict_set result (ep_seed r) r) = Inr d" by (auto split: if_splits)
    show ?thesis using 2(2) [OF _ _ rest] True new
      by (cases "ep_seed r = s") (auto simp: valid_records_def)
  next
    case False
    with 2(1) [OF False] 2(3) show ?thesis by (simp add: valid_records_def)
  qed
qed

lemma valid_by_seed_Inr:
  assumes "valid_by_seed records = Inr d"
  shows "valid_records records s = (case dict_get d s of None \<Rightarrow> [] | Some r \<Rightarrow> [r])" and "dict_ok d"
  using valid_by_seed_loop_Inr [OF assms [unfolded valid_by_seed_def], of s] by simp_all

lemma bundle_binding_Inr:
  assumes "assert_bundle_binding d sha arm = Inr u" "dict_get d s = Some r"
  shows "ep_bundle_sha256 r = sha"
proof -
  have "sort (map fst (filter (\<lambda>(seed, r). ep_bundle_sha256 r \<noteq> sha) d)) = []"
    using assms(1) by (simp add: assert_bundle_binding_def Let_def)
  then have "filter (\<lambda>(seed, r). ep_bundle_sha256 r \<noteq> sha) d = []"
    by (metis length_0_conv length_map length_sort)
  moreover have "(s, r) \<in> set d" using assms(2) by (rule dict_get_SomeD)
  ultimately show ?thesis by (fastforce simp: filter_empty_conv)
qed

lemma paired_evidence_Inr:
  assumes "assert_paired_evidence H c p required = Inr (divergence, camera)"
  shows "ep_policy_rng c = ep_policy_rng p"
    and "divergence \<longleftrightarrow> required \<and> action_artifact_sha c \<noteq> action_artifact_sha p"
    and "required \<Longrightarrow> \<not> blank (action_artifact_sha c) \<and> \<not> blank (action_artifact_sha p)"
  using assms by (auto simp: assert_paired_evidence_def rbind_Inr_iff Let_def split: if_splits prod.splits)

lemma nonempty_text_iff: "nonempty_text v \<longleftrightarrow> (\<exists>t. t \<noteq> [] \<and> v = PyStr t)"
  by (cases v) auto

lemma paired_evidence_reset:
  assumes "assert_paired_evidence H c p required = Inr (divergence, camera)"
  shows "equally_reset H c p"
proof -
  from assms obtain mismatch where ids: "initial_identity c \<noteq> []" "initial_identity p \<noteq> []"
    and reset: "same_physical_reset H (initial_identity c) (initial_identity p) = Inr (True, mismatch)"
    by (auto simp: assert_paired_evidence_def rbind_Inr_iff split: if_splits prod.splits)
  from reset show ?thesis
    unfolding equally_reset_def same_physical_reset_def Let_def
    by (auto simp: ids rbind_Inr_iff nonempty_text_iff split: if_splits)
qed

text \<open>What the loop over the seeds establishes.\<close>

definition seed_checked :: "(py \<Rightarrow> string) \<Rightarrow> GateKind \<Rightarrow> paired_arms \<Rightarrow> int \<Rightarrow> bool" where
  "seed_checked H kind arms s \<longleftrightarrow>
     (\<exists>c p. dict_get (pa_candidate arms) s = Some c \<and> dict_get (pa_parent arms) s = Some p
        \<and> ep_policy_rng c = ep_policy_rng p \<and> equally_reset H c p
        \<and> (kind = SameSeed \<longrightarrow> \<not> blank (action_artifact_sha c) \<and> \<not> blank (action_artifact_sha p))
        \<and> flag (pa_divergence arms) s = (kind = SameSeed \<and> action_artifact_sha c \<noteq> action_artifact_sha p)
        \<and> flag (pa_intervention arms) s = candidate_intervened c)"

lemma evidence_loop_Inr:
  assumes "evidence_loop H kind seeds arms = Inr arms'"
  shows "pa_candidate arms' = pa_candidate arms \<and> pa_parent arms' = pa_parent arms
    \<and> (\<forall>s. s \<notin> set seeds \<longrightarrow> flag (pa_divergence arms') s = flag (pa_divergence arms) s
            \<and> flag (pa_intervention arms') s = flag (pa_intervention arms) s)
    \<and> (\<forall>s \<in> set seeds. seed_checked H kind arms' s)"
  using assms
proof (induction seeds arbitrary: arms)
  case Nil
  then show ?case by simp
next
  case (Cons seed seeds)
  from Cons.prems obtain c p divergence camera where
    c: "dict_get (pa_candidate arms) seed = Some c" and p: "dict_get (pa_parent arms) seed = Some p"
    and ev: "assert_paired_evidence H c p (kind = SameSeed) = Inr (divergence, camera)"
    by (auto simp: rbind_Inr_iff getitem_def split: option.splits)
  let ?next = "arms\<lparr>pa_divergence := dict_set (pa_divergence arms) seed divergence,
    pa_camera := dict_set (pa_camera arms) seed camera,
    pa_intervention := dict_set (pa_intervention arms) seed (candidate_intervened c)\<rparr>"
  have rest: "evidence_loop H kind seeds ?next = Inr arms'"
    using Cons.prems c p ev by (simp add: getitem_def)
  have IH': "pa_candidate arms' = pa_candidate arms" "pa_parent arms' = pa_parent arms"
    "\<forall>s. s \<notin> set seeds \<longrightarrow> flag (pa_divergence arms') s = flag (pa_divergence ?next) s
            \<and> flag (pa_intervention arms') s = flag (pa_intervention ?next) s"
    "\<forall>s \<in> set seeds. seed_checked H kind arms' s"
    using Cons.IH [OF rest] by simp_all
  have "seed_checked H kind arms' seed" if "seed \<notin> set seeds"
    using IH'(1-3) that c p paired_evidence_Inr [OF ev] paired_evidence_reset [OF ev]
    by (auto simp: seed_checked_def flag_def dict_get_or_def)
  with IH' show ?case by (auto simp: flag_def dict_get_or_def)
qed

text \<open>The facts about a pair of arms the verdicts are read from.\<close>

lemma pair_arms_seed:
  assumes "pair_arms H kind csha psha crecs precs seeds rate = Inr arms" "s \<in> set seeds"
  obtains c p where "valid_records crecs s = [c]" "valid_records precs s = [p]"
    "dict_get (pa_candidate arms) s = Some c" "dict_get (pa_parent arms) s = Some p"
    "ep_bundle_sha256 c = Some csha" "ep_bundle_sha256 p = psha" "ep_policy_rng c = ep_policy_rng p"
    "equally_reset H c p"
    "kind = SameSeed \<Longrightarrow> \<not> blank (action_artifact_sha c) \<and> \<not> blank (action_artifact_sha p)"
    "flag (pa_divergence arms) s = (kind = SameSeed \<and> action_artifact_sha c \<noteq> action_artifact_sha p)"
    "flag (pa_intervention arms) s = candidate_intervened c"
proof -
  from assms(1) obtain cd pd where d: "valid_by_seed crecs = Inr cd" "valid_by_seed precs = Inr pd"
    "assert_bundle_binding cd (Some csha) ''candidate'' = Inr ()" "assert_bundle_binding pd psha ''parent'' = Inr ()"
    and loop: "evidence_loop H kind seeds \<lparr>pa_candidate = cd, pa_parent = pd, pa_divergence = [],
        pa_camera = [], pa_intervention = []\<rparr> = Inr arms"
    by (auto simp: pair_arms_def rbind_Inr_iff)
  have same: "pa_candidate arms = cd" "pa_parent arms = pd" and checked: "seed_checked H kind arms s"
    using evidence_loop_Inr [OF loop] assms(2) by simp_all
  from checked obtain c p where cp: "dict_get cd s = Some c" "dict_get pd s = Some p"
    "ep_policy_rng c = ep_policy_rng p" "equally_reset H c p"
    "kind = SameSeed \<Longrightarrow> \<not> blank (action_artifact_sha c) \<and> \<not> blank (action_artifact_sha p)"
    "flag (pa_divergence arms) s = (kind = SameSeed \<and> action_artifact_sha c \<noteq> action_artifact_sha p)"
    "flag (pa_intervention arms) s = candidate_intervened c"
    unfolding seed_checked_def same by blast
  show ?thesis
    using that [of c p] cp same bundle_binding_Inr [OF d(3) cp(1)] bundle_binding_Inr [OF d(4) cp(2)]
      valid_by_seed_Inr(1) [OF d(1), of s] valid_by_seed_Inr(1) [OF d(2), of s] by simp
qed

lemma count_seeds_card: "distinct seeds \<Longrightarrow> count_seeds P seeds = card {s \<in> set seeds. P s}"
  by (simp add: count_seeds_def distinct_length_filter Collect_conj_eq Int_commute)

lemma pair_arms_succeeded:
  assumes "pair_arms H kind csha psha crecs precs seeds rate = Inr arms" "s \<in> set seeds"
  shows "succeeded (pa_candidate arms) s \<longleftrightarrow> s \<in> won_seeds crecs (set seeds)"
    and "succeeded (pa_parent arms) s \<longleftrightarrow> s \<in> won_seeds precs (set seeds)"
    and "kind = SameSeed \<Longrightarrow> causal arms s \<longleftrightarrow> attributed crecs precs s"
  by (rule pair_arms_seed [OF assms];
      use assms(2) in \<open>simp add: succeeded_def won_seeds_def causal_def attributed_def conj_commute\<close>)+

lemma pair_arms_counts:
  assumes "pair_arms H kind csha psha crecs precs seeds rate = Inr arms" "distinct seeds"
  shows "candidate_successes arms seeds = card (won_seeds crecs (set seeds))"
    and "parent_successes arms seeds = card (won_seeds precs (set seeds))"
    and "count_seeds (rescued arms) seeds = card (won_seeds crecs (set seeds) - won_seeds precs (set seeds))"
    and "count_seeds (regressed arms) seeds = card (won_seeds precs (set seeds) - won_seeds crecs (set seeds))"
  using assms(2) pair_arms_succeeded(1,2) [OF assms(1)]
  by (auto simp: candidate_successes_def parent_successes_def count_seeds_card rescued_def regressed_def
      won_seeds_def intro!: arg_cong [where f = card])

lemma pair_arms_events:
  assumes "pair_arms H kind csha psha crecs precs seeds rate = Inr arms" "distinct seeds"
  shows "no_safety_regression arms seeds \<longleftrightarrow> arm_events crecs (set seeds) \<le> arm_events precs (set seeds)"
proof -
  have "safety_count (pa_candidate arms) seeds = arm_events crecs (set seeds)"
    and "safety_count (pa_parent arms) seeds = arm_events precs (set seeds)"
    unfolding safety_count_def arm_events_def sum_list_distinct_conv_sum_set [OF assms(2)]
    by (rule sum.cong [OF HOL.refl], rule pair_arms_seed [OF assms(1)], assumption, simp)+
  then show ?thesis by (simp add: no_safety_regression_def)
qed

lemma won_seeds_subset: "won_seeds records S \<subseteq> S"
  by (auto simp: won_seeds_def)

lemma won_all_iff:
  assumes "finite S"
  shows "card (won_seeds records S) = card S \<longleftrightarrow> won_seeds records S = S"
  using card_subset_eq [OF assms won_seeds_subset] by auto

lemma same_seed_verdict_passed:
  assumes "pair_arms H SameSeed csha psha crecs precs seeds rate = Inr arms" "distinct seeds"
  shows "v_passed (same_seed_verdict arms seeds rate) \<longleftrightarrow>
    gate_criteria SameSeed crecs precs (set seeds) alpha rate min_gain min_rate significant"
proof -
  let ?S = "set seeds" and ?C = "won_seeds crecs (set seeds)" and ?P = "won_seeds precs (set seeds)"
  note counts = pair_arms_counts [OF assms] pair_arms_events [OF assms]
  note member = pair_arms_succeeded [OF assms(1)]
  have size: "int (length seeds) = card ?S" using assms(2) by (simp add: distinct_card)
  have diverge: "mechanism_diverged arms seeds \<longleftrightarrow> (\<exists>s \<in> ?S. attributed crecs precs s)"
    using member(3) by (auto simp: mechanism_diverged_def list_ex_iff)
  have rescue: "filter (causal arms) (filter (rescued arms) seeds) \<noteq> [] \<longleftrightarrow> (\<exists>s \<in> ?C - ?P. attributed crecs precs s)"
    using member won_seeds_subset by (auto simp: filter_empty_conv rescued_def) blast
  show ?thesis
  proof (cases "rate = 1")
    case True
    have "?P = {} \<longleftrightarrow> card ?P = 0" by (simp add: finite_subset [OF won_seeds_subset])
    then show ?thesis
      using True won_all_iff [of ?S crecs]
      by (auto simp: same_seed_verdict_def gate_criteria_def Let_def counts size diverge)
  next
    case False
    have "\<lceil>real_of_int (card ?S) * rate\<rceil> \<le> int (card ?C) \<longleftrightarrow> rate * real (card ?S) \<le> real (card ?C)"
      by (simp add: ceiling_le_iff mult.commute)
    with False show ?thesis
      by (auto simp: same_seed_verdict_def gate_criteria_def Let_def counts size rescue simp del: filter_filter)
  qed
qed

lemma regression_verdict_passed:
  assumes "pair_arms H Regression csha psha crecs precs seeds rate = Inr arms" "distinct seeds"
  shows "v_passed (regression_verdict arms seeds) \<longleftrightarrow>
    gate_criteria Regression crecs precs (set seeds) alpha rate min_gain min_rate significant"
  using won_all_iff [of "set seeds" crecs] assms(2)
  by (auto simp: regression_verdict_def gate_criteria_def Let_def pair_arms_counts [OF assms]
      pair_arms_events [OF assms] distinct_card)

lemma heldout_verdict_passed:
  assumes "pair_arms H kind csha psha crecs precs seeds rate = Inr arms" "distinct seeds"
    and "heldout_verdict arms seeds alpha min_gain min_rate significant = Inr v"
    and "kind \<noteq> SameSeed" "kind \<noteq> Regression"
  shows "v_passed v \<longleftrightarrow> gate_criteria kind crecs precs (set seeds) alpha rate min_gain min_rate significant"
proof -
  let ?C = "won_seeds crecs (set seeds)" and ?P = "won_seeds precs (set seeds)"
  note counts = pair_arms_counts [OF assms(1,2)] pair_arms_events [OF assms(1,2)]
  from assms(3) obtain a p where a: "alpha = Some a"
    and p: "one_sided_exact_mcnemar (card (?C - ?P)) (card (?P - ?C)) = Inr p" and ne: "seeds \<noteq> []"
    and v: "v_passed v \<longleftrightarrow> (significant \<longrightarrow> p < a) \<and> int (card ?C) - int (card ?P) \<ge> min_gain
       \<and> real (card ?C) / real (length seeds) \<ge> min_rate
       \<and> arm_events crecs (set seeds) \<le> arm_events precs (set seeds)"
    by (auto simp: heldout_verdict_def counts rbind_Inr_iff Let_def split: option.splits)
  have "real (card ?C) / real (length seeds) \<ge> min_rate \<longleftrightarrow> min_rate * real (card (set seeds)) \<le> real (card ?C)"
    using ne assms(2) by (simp add: distinct_card le_divide_eq)
  with v a p assms(4,5) show ?thesis by (cases kind) (auto simp: gate_criteria_def Let_def)
qed

lemma gate_verdict_passed:
  assumes "pair_arms H kind csha psha crecs precs seeds rate = Inr arms" "distinct seeds"
    and "gate_verdict kind arms seeds alpha rate min_gain min_rate significant = Inr v"
  shows "v_passed v \<longleftrightarrow> gate_criteria kind crecs precs (set seeds) alpha rate min_gain min_rate significant"
proof (cases "kind = SameSeed \<or> kind = Regression")
  case True
  then show ?thesis
    using assms same_seed_verdict_passed [of H csha psha crecs precs seeds rate arms]
      regression_verdict_passed [of H csha psha crecs precs seeds rate arms]
    by (auto simp: gate_verdict_def)
next
  case False
  then show ?thesis
    using assms heldout_verdict_passed [OF assms(1,2)] by (simp add: gate_verdict_def)
qed

text \<open>C6: a gate that returns a decision has compared complete pairs, and passes exactly on its criteria.
  Every preregistered seed has exactly one valid record in each arm, each bound to the declared bundle,
  both with the same policy generator, both reset to the same physical state, and for the same-seed gate
  both with a digest of their actions. The gate passes if and only if safety did not regress and: for the
  same-seed gate, some seed the parent failed was won by a candidate that intervened and changed the
  actions, and enough seeds were won (all of them, with none for the parent, at rate one); for the
  regression gate, every seed was won; for a held-out gate, the gain and the success rate reach their
  minima and, where required, the exact test is significant.\<close>

theorem paired_gate_correct:
  assumes "distinct seeds"
    and "evaluate_paired_gate H kind csha psha crecs precs seeds alpha rate min_gain min_rate significant = Inr d"
  shows "(gd_passed d \<longleftrightarrow>
            gate_criteria kind crecs precs (set seeds) alpha rate min_gain min_rate significant)
    \<and> (\<forall>s \<in> set seeds. \<exists>c p. valid_records crecs s = [c] \<and> valid_records precs s = [p]
          \<and> ep_bundle_sha256 c = Some csha \<and> ep_bundle_sha256 p = psha \<and> ep_policy_rng c = ep_policy_rng p
          \<and> equally_reset H c p
          \<and> (kind = SameSeed \<longrightarrow> \<not> blank (action_artifact_sha c) \<and> \<not> blank (action_artifact_sha p)))"
proof -
  from assms(2) obtain arms v where arms: "pair_arms H kind csha psha crecs precs seeds rate = Inr arms"
    and v: "gate_verdict kind arms seeds alpha rate min_gain min_rate significant = Inr v"
    and d: "gd_passed d = v_passed v"
    by (auto simp: evaluate_paired_gate_def rbind_Inr_iff GateDecision_make_Inr)
  have "\<exists>c p. valid_records crecs s = [c] \<and> valid_records precs s = [p]
      \<and> ep_bundle_sha256 c = Some csha \<and> ep_bundle_sha256 p = psha \<and> ep_policy_rng c = ep_policy_rng p
      \<and> equally_reset H c p
      \<and> (kind = SameSeed \<longrightarrow> \<not> blank (action_artifact_sha c) \<and> \<not> blank (action_artifact_sha p))"
    if "s \<in> set seeds" for s
    by (rule pair_arms_seed [OF arms that]) blast
  with d gate_verdict_passed [OF arms assms(1) v] show ?thesis by blast
qed

text \<open>One seed that the parent failed and the candidate, having intervened, won.\<close>

definition demo_sha :: "char \<Rightarrow> string" where
  "demo_sha c = replicate 64 c"

definition demo_episode :: "string option \<Rightarrow> bool \<Rightarrow> string \<Rightarrow> bool \<Rightarrow> EpisodeRecord" where
  "demo_episode sha success actions intervened =
     \<lparr>ep_episode_id = ''e'', ep_logical_id = ''l'', ep_generation = 0, ep_seed = 1, ep_policy_rng = 7,
      ep_bundle_sha256 = sha, ep_status = Valid, ep_success = Some success, ep_started_at = [],
      ep_finished_at = [], ep_elapsed_s = 1,
      artifact_index =
        [(''initial_observation_identity'', PyDict [(''state_sha256'', PyStr ''state'')]),
         (''trajectory_index'', PyDict [(''artifact_sha256'', PyDict [(''actions'', PyStr actions)])]),
         (''candidate_intervention'', PyBool intervened)],
      safety_events = [], failure_segment = None, failure_segments = [], invalid_reason = None,
      ep_attempt_index = 0, ep_schema_version = 1\<rparr>"

definition demo_candidate :: EpisodeRecord where
  "demo_candidate = demo_episode (Some (demo_sha CHR ''a'')) True ''new'' True"

definition demo_parent :: EpisodeRecord where
  "demo_parent = demo_episode None False ''old'' False"

lemma demo_sha_ok: "require_sha name (Some (demo_sha CHR ''a'')) False = Inr ()"
proof -
  have "hex_literal (demo_sha CHR ''a'')" by code_simp
  then show ?thesis by (simp add: require_sha_def SHA256_LENGTH_def demo_sha_def)
qed

definition demo_arms :: paired_arms where
  "demo_arms = \<lparr>pa_candidate = [(1, demo_candidate)], pa_parent = [(1, demo_parent)],
     pa_divergence = [(1, True)], pa_camera = [(1, False)], pa_intervention = [(1, True)]\<rparr>"

lemma demo_pair:
  "pair_arms (\<lambda>v. ''h'') SameSeed (demo_sha CHR ''a'') None [demo_candidate] [demo_parent] [1] 1 = Inr demo_arms"
  by (simp add: pair_arms_def valid_by_seed_def assert_bundle_binding_def demo_candidate_def demo_parent_def
      demo_episode_def dict_get_def dict_set_def dict_keys_def getitem_def assert_paired_evidence_def
      initial_identity_def same_physical_reset_def action_artifact_sha_def candidate_intervened_def blank_def
      dict_get_or_def guard_def Let_def demo_arms_def)

lemma demo_verdict:
  "v_passed (same_seed_verdict demo_arms [1] 1)" "v_conclusive (same_seed_verdict demo_arms [1] 1)"
  by (simp_all add: same_seed_verdict_def Let_def mechanism_diverged_def causal_def flag_def
      candidate_successes_def parent_successes_def count_seeds_def succeeded_def no_safety_regression_def
      safety_count_def demo_arms_def demo_candidate_def demo_parent_def demo_episode_def dict_get_def dict_get_or_def)

theorem paired_gate_correct_witness:
  "gate_criteria SameSeed [demo_candidate] [demo_parent] (set [1]) None 1 1 0 True"
proof -
  obtain d where d: "evaluate_paired_gate (\<lambda>v. ''h'') SameSeed (demo_sha CHR ''a'') None [demo_candidate]
      [demo_parent] [1] None 1 1 0 True = Inr d" "gd_passed d"
    unfolding evaluate_paired_gate_def demo_pair gate_verdict_def rbind_simps
    using demo_verdict demo_sha_ok
    by (simp add: GateDecision_make_Inr require_sha_def [of _ None])
  with paired_gate_correct [OF _ d(1)] show ?thesis by simp
qed

end
