(* ===== verification/Temporal_Critic.thy ===== *)
theory Temporal_Critic
  imports Evolution_Models
begin

text \<open>
  \<^verbatim>\<open>zetta/evolution/critic.py\<close>: the temporal critic that reads each observation of an episode and proposes a
  recovery when a frozen rule's condition has held long enough. Numbers are exact reals, so the check
  for infinities and NaN has nothing to reject. A dictionary key that is missing is a \<open>KeyError\<close>.
\<close>

section \<open>Features\<close>

abbreviation KeyError :: "message \<Rightarrow> exn" where
  "KeyError m \<equiv> PyExn K_KeyError ''KeyError'' m"

abbreviation TypeError :: "message \<Rightarrow> exn" where
  "TypeError m \<equiv> PyExn K_TypeError ''TypeError'' m"

fun split_dots :: "string \<Rightarrow> string list" where
  "split_dots [] = [[]]"
| "split_dots (c # cs) =
     (if c = CHR ''.'' then [] # split_dots cs
      else case split_dots cs of part # parts \<Rightarrow> (c # part) # parts | [] \<Rightarrow> [[c]])"

fun descend :: "string \<Rightarrow> string list \<Rightarrow> py \<Rightarrow> exn + py" where
  "descend path [] v = Inr v"
| "descend path (part # parts) v =
     (case v of
        PyDict d \<Rightarrow> (case dict_get d part of
            Some w \<Rightarrow> descend path parts w
          | None \<Rightarrow> Inl (KeyError [Text ''critic feature is unavailable: '', Text path]))
      | _ \<Rightarrow> Inl (KeyError [Text ''critic feature is unavailable: '', Text path]))"

definition resolve_feature :: "(string, py) dict \<Rightarrow> string \<Rightarrow> exn + py" where
  "resolve_feature observation path =
     (case dict_get observation path of
        Some v \<Rightarrow> Inr v
      | None \<Rightarrow> descend path (split_dots path) (PyDict observation))"

definition numeric :: "py \<Rightarrow> exn + real" where
  "numeric v =
     (case v of
        PyInt i \<Rightarrow> Inr (of_int i)
      | PyFloat x \<Rightarrow> Inr x
      | _ \<Rightarrow> Inl (TypeError [Text ''critic numeric operator received a value that is not a number'']))"

section \<open>Conditions\<close>

text \<open>The table of comparisons both kinds of condition end in.\<close>

definition compare_numeric :: "CriticOperator \<Rightarrow> py \<Rightarrow> py \<Rightarrow> exn + bool" where
  "compare_numeric operator v threshold =
     rbind (numeric v) (\<lambda>observed.
     rbind (numeric threshold) (\<lambda>limit.
     case operator of
       Cop_lt \<Rightarrow> Inr (observed < limit)
     | Cop_le \<Rightarrow> Inr (observed \<le> limit)
     | Cop_gt \<Rightarrow> Inr (observed > limit)
     | Cop_ge \<Rightarrow> Inr (observed \<ge> limit)
     | _ \<Rightarrow> Inl (KeyError [Text ''operator''])))"

definition critic_predicate :: "CriticPredicate \<Rightarrow> (string, py) dict \<Rightarrow> exn + bool" where
  "critic_predicate predicate observation =
     (case resolve_feature observation (cp_feature predicate) of
        Inl e \<Rightarrow> Inr False
      | Inr v \<Rightarrow>
          if cp_operator predicate = Cop_eq then Inr (py_eq v (cp_threshold predicate))
          else if cp_operator predicate = Cop_ne then Inr (\<not> py_eq v (cp_threshold predicate))
          else compare_numeric (cp_operator predicate) v (cp_threshold predicate))"

fun numeric_list :: "py list \<Rightarrow> exn + real list" where
  "numeric_list [] = Inr []"
| "numeric_list (v # vs) = rbind (numeric v) (\<lambda>x. rbind (numeric_list vs) (\<lambda>xs. Inr (x # xs)))"

definition critic_condition :: "CriticRule \<Rightarrow> py \<Rightarrow> py list \<Rightarrow> exn + bool" where
  "critic_condition rule v history =
     (if cr_operator rule = Cop_stagnant then
        (if int (length history) < dwell_steps rule then Inr False
         else rbind (numeric_list history) (\<lambda>numbers.
              if numbers = [] then Inl (ValueError [Text ''max() iterable argument is empty''])
              else rbind (numeric (cr_threshold rule)) (\<lambda>limit.
                Inr (Max (set numbers) - Min (set numbers) \<le> limit))))
      else if cr_operator rule = Cop_eq then Inr (py_eq v (cr_threshold rule))
      else if cr_operator rule = Cop_ne then Inr (\<not> py_eq v (cr_threshold rule))
      else compare_numeric (cr_operator rule) v (cr_threshold rule))"

text \<open>\<open>all(self._predicate(c, observation) for c in conditions)\<close>: stops at the first false guard.\<close>

fun guards_hold :: "CriticPredicate list \<Rightarrow> (string, py) dict \<Rightarrow> exn + bool" where
  "guards_hold [] observation = Inr True"
| "guards_hold (c # cs) observation =
     rbind (critic_predicate c observation) (\<lambda>b. if b then guards_hold cs observation else Inr False)"

section \<open>Evaluation\<close>

record RuleState =
  consecutive :: int
  cooldown_remaining :: int
  history :: "py list"

definition fresh_state :: RuleState where
  "fresh_state = \<lparr>consecutive = 0, cooldown_remaining = 0, history = []\<rparr>"

record CriticProposal =
  prop_rule_id :: string
  prop_step_index :: int
  prop_feature :: string
  prop_observed_value :: py
  prop_conditions :: "(CriticPredicate \<times> py) list"
  prop_proposal :: string
  prop_safety_only :: bool
  prop_environment_write :: bool

fun observed_guards :: "CriticPredicate list \<Rightarrow> (string, py) dict \<Rightarrow> exn + (CriticPredicate \<times> py) list" where
  "observed_guards [] observation = Inr []"
| "observed_guards (c # cs) observation =
     rbind (resolve_feature observation (cp_feature c)) (\<lambda>v.
     rbind (observed_guards cs observation) (\<lambda>rest. Inr ((c, v) # rest)))"

definition required_consecutive :: "CriticRule \<Rightarrow> int" where
  "required_consecutive rule = (if cr_operator rule = Cop_stagnant then 1 else dwell_steps rule)"

definition push_history :: "CriticRule \<Rightarrow> py \<Rightarrow> py list \<Rightarrow> py list" where
  "push_history rule v h =
     (let h' = h @ [v] in if int (length h') > dwell_steps rule then tl h' else h')"

text \<open>The body of the loop over the rules, on the state of one rule: a proposal, nothing, or an exception,
  and the state left behind.\<close>

definition evaluate_rule ::
  "CriticRule \<Rightarrow> (string, py) dict \<Rightarrow> int \<Rightarrow> RuleState \<Rightarrow> (exn + CriticProposal option) \<times> RuleState" where
  "evaluate_rule rule observation step_index st =
     (case guards_hold (activation_conditions rule) observation of
        Inl e \<Rightarrow> (Inl e, st)
      | Inr active \<Rightarrow>
          if \<not> active then (Inr None, fresh_state)
          else
            (case resolve_feature observation (cr_feature rule) of
               Inl e \<Rightarrow> (Inl e, st)
             | Inr v \<Rightarrow>
                 (let st1 = st\<lparr>history := push_history rule v (history st)\<rparr> in
                  if cooldown_remaining st1 > 0
                  then (Inr None, st1\<lparr>cooldown_remaining := cooldown_remaining st1 - 1, consecutive := 0\<rparr>)
                  else
                    (case critic_condition rule v (history st1) of
                       Inl e \<Rightarrow> (Inl e, st1)
                     | Inr condition \<Rightarrow>
                         (let st2 = st1\<lparr>consecutive := (if condition then consecutive st1 + 1 else 0)\<rparr> in
                          if consecutive st2 \<ge> required_consecutive rule
                          then
                            (case observed_guards (activation_conditions rule) observation of
                               Inl e \<Rightarrow> (Inl e, st2)
                             | Inr conditions \<Rightarrow>
                                 (Inr (Some \<lparr>prop_rule_id = rule_id rule, prop_step_index = step_index,
                                     prop_feature = cr_feature rule, prop_observed_value = v,
                                     prop_conditions = conditions, prop_proposal = cr_proposal rule,
                                     prop_safety_only = safety_only rule, prop_environment_write = False\<rparr>),
                                  st2\<lparr>consecutive := 0, cooldown_remaining := cooldown_steps rule\<rparr>))
                          else (Inr None, st2))))))"

record TemporalCritic =
  tc_rules :: "CriticRule list"
  tc_state :: "(string, RuleState) dict"

definition TemporalCritic_init :: "CriticRule list \<Rightarrow> TemporalCritic" where
  "TemporalCritic_init rules =
     \<lparr>tc_rules = rules, tc_state = foldl (\<lambda>d rule. dict_set d (rule_id rule) fresh_state) [] rules\<rparr>"

definition TemporalCritic_reset :: "TemporalCritic \<Rightarrow> TemporalCritic" where
  "TemporalCritic_reset c = TemporalCritic_init (tc_rules c)"

fun evaluate_loop ::
  "CriticRule list \<Rightarrow> (string, py) dict \<Rightarrow> int \<Rightarrow> CriticProposal list \<Rightarrow> (string, RuleState) dict
     \<Rightarrow> (exn + CriticProposal list) \<times> (string, RuleState) dict" where
  "evaluate_loop [] observation step_index proposals states = (Inr proposals, states)"
| "evaluate_loop (rule # rules) observation step_index proposals states =
     (case dict_get states (rule_id rule) of
        None \<Rightarrow> (Inl (KeyError [Text (rule_id rule)]), states)
      | Some st \<Rightarrow>
          (case evaluate_rule rule observation step_index st of
             (Inl e, st') \<Rightarrow> (Inl e, dict_set states (rule_id rule) st')
           | (Inr p, st') \<Rightarrow>
               evaluate_loop rules observation step_index
                 (case p of None \<Rightarrow> proposals | Some x \<Rightarrow> proposals @ [x])
                 (dict_set states (rule_id rule) st')))"

definition TemporalCritic_evaluate ::
  "(string, py) dict \<Rightarrow> int \<Rightarrow> (TemporalCritic, exn, CriticProposal list) sem" where
  "TemporalCritic_evaluate observation step_index c =
     (case evaluate_loop (tc_rules c) observation step_index [] (tc_state c) of
        (r, states) \<Rightarrow> (r, c\<lparr>tc_state := states\<rparr>))"

section \<open>Dwell and cooldown as an automaton\<close>

text \<open>What an observation is for a rule: its guard is off, or its condition holds, or it does not.\<close>

datatype critic_event = Inactive | Holds | Fails

text \<open>A detector with a dwell time and a cooldown. The client learns when it can fire and when it must.\<close>

locale dwell_detector =
  fixes required cooldown :: int
  assumes required_pos: "1 \<le> required" and cooldown_nonneg: "0 \<le> cooldown"
begin

definition tick :: "critic_event \<Rightarrow> int \<times> int \<Rightarrow> bool \<times> int \<times> int" where
  "tick ev s =
     (case s of (k, cd) \<Rightarrow>
        if ev = Inactive then (False, 0, 0)
        else if cd > 0 then (False, 0, cd - 1)
        else
          (let k' = (if ev = Holds then k + 1 else 0) in
           if k' \<ge> required then (True, 0, cooldown) else (False, k', 0)))"

primrec state_at :: "(nat \<Rightarrow> critic_event) \<Rightarrow> int \<times> int \<Rightarrow> nat \<Rightarrow> int \<times> int" where
  "state_at ev s 0 = s"
| "state_at ev s (Suc n) = snd (tick (ev n) (state_at ev s n))"

definition fires_at :: "(nat \<Rightarrow> critic_event) \<Rightarrow> int \<times> int \<Rightarrow> nat \<Rightarrow> bool" where
  "fires_at ev s n = fst (tick (ev n) (state_at ev s n))"

lemma state_at_shift: "state_at ev s (Suc n) = state_at (\<lambda>i. ev (Suc i)) (snd (tick (ev 0) s)) n"
  by (induction n) simp_all

lemma fires_at_shift: "fires_at ev s (Suc n) = fires_at (\<lambda>i. ev (Suc i)) (snd (tick (ev 0) s)) n"
  unfolding fires_at_def state_at_shift ..

lemma fires_iff:
  "fires_at ev s n \<longleftrightarrow> ev n \<noteq> Inactive \<and> snd (state_at ev s n) \<le> 0
     \<and> required \<le> (if ev n = Holds then fst (state_at ev s n) + 1 else 0)"
  by (auto simp: fires_at_def tick_def Let_def split: prod.split)

lemma fires_Holds: "fires_at ev s n \<Longrightarrow> ev n = Holds"
  using required_pos by (auto simp: fires_iff split: if_splits)

lemma tick_cases:
  obtains (inactive) "ev = Inactive" "tick ev (k, cd) = (False, 0, 0)"
  | (cooling) "ev \<noteq> Inactive" "cd > 0" "tick ev (k, cd) = (False, 0, cd - 1)"
  | (fire) "ev = Holds" "cd \<le> 0" "required \<le> k + 1" "tick ev (k, cd) = (True, 0, cooldown)"
  | (count) "ev = Holds" "cd \<le> 0" "k + 1 < required" "tick ev (k, cd) = (False, k + 1, 0)"
  | (miss) "ev = Fails" "cd \<le> 0" "tick ev (k, cd) = (False, 0, 0)"
  using required_pos by (cases ev; cases "cd > 0"; cases "required \<le> k + 1") (auto simp: tick_def Let_def)

text \<open>The counters never leave their ranges.\<close>

lemma state_range:
  "state_at ev (0, 0) n = (k, cd) \<Longrightarrow> 0 \<le> k \<and> k < required \<and> 0 \<le> cd \<and> cd \<le> cooldown"
proof (induction n arbitrary: k cd)
  case 0
  then show ?case using required_pos cooldown_nonneg by simp
next
  case (Suc n)
  obtain k0 cd0 where s: "state_at ev (0, 0) n = (k0, cd0)" by fastforce
  note IH = Suc.IH [OF s]
  show ?case
    by (rule tick_cases [of "ev n" k0 cd0]) (use Suc.prems s IH required_pos cooldown_nonneg in auto)
qed

text \<open>The counter counts the observations just before, all of which held.\<close>

lemma counter_window:
  "state_at ev (0, 0) n = (k, cd) \<Longrightarrow> k \<le> int n \<and> (\<forall>i < n. int n - k \<le> int i \<longrightarrow> ev i = Holds)"
proof (induction n arbitrary: k cd)
  case 0
  then show ?case by simp
next
  case (Suc n)
  obtain k0 cd0 where s: "state_at ev (0, 0) n = (k0, cd0)" by fastforce
  note IH = Suc.IH [OF s]
  show ?case
    by (rule tick_cases [of "ev n" k0 cd0]) (use Suc.prems s IH in \<open>auto simp: less_Suc_eq\<close>)
qed

lemma fires_after_dwell:
  assumes "fires_at ev (0, 0) n"
  shows "required \<le> int n + 1" and "i \<le> n \<Longrightarrow> int n + 1 - required \<le> int i \<Longrightarrow> ev i = Holds"
proof -
  obtain k cd where s: "state_at ev (0, 0) n = (k, cd)" by fastforce
  have "ev n = Holds" by (rule fires_Holds [OF assms])
  then have k: "required \<le> k + 1" using assms s by (simp add: fires_iff)
  show "required \<le> int n + 1" using k counter_window [OF s] by simp
  show "i \<le> n \<Longrightarrow> int n + 1 - required \<le> int i \<Longrightarrow> ev i = Holds"
    using k counter_window [OF s] \<open>ev n = Holds\<close> by (cases "i = n") auto
qed

text \<open>Time since the last firing, as long as the guard stayed on.\<close>

lemma time_since_fire:
  "state_at ev (0, 0) n = (k, cd) \<Longrightarrow> m < n \<Longrightarrow> fires_at ev (0, 0) m \<Longrightarrow>
     (\<forall>i. m < i \<and> i < n \<longrightarrow> ev i \<noteq> Inactive) \<Longrightarrow> int m + 1 + (cooldown - cd) + k \<le> int n"
proof (induction n arbitrary: k cd)
  case 0
  then show ?case by simp
next
  case (Suc n)
  obtain k0 cd0 where s: "state_at ev (0, 0) n = (k0, cd0)" by fastforce
  show ?case
  proof (cases "m = n")
    case True
    with Suc.prems(3) s have "fst (tick (ev n) (k0, cd0))" by (simp add: fires_at_def)
    then show ?thesis
      by - (rule tick_cases [of "ev n" k0 cd0]; use Suc.prems(1) s True in simp)
  next
    case False
    then have m: "m < n" using Suc.prems(2) by simp
    note IH = Suc.IH [OF s m Suc.prems(3)]
    have "ev n \<noteq> Inactive" using Suc.prems(4) m by simp
    then show ?thesis
      by - (rule tick_cases [of "ev n" k0 cd0]; use Suc.prems(1,4) s IH m state_range [OF s] in auto)
  qed
qed

lemma firings_spaced:
  assumes "fires_at ev (0, 0) m" "fires_at ev (0, 0) n" "m < n" "\<forall>i. m < i \<and> i \<le> n \<longrightarrow> ev i \<noteq> Inactive"
  shows "int m + cooldown + required \<le> int n"
proof -
  obtain k cd where s: "state_at ev (0, 0) n = (k, cd)" by fastforce
  have "int m + 1 + (cooldown - cd) + k \<le> int n"
    using time_since_fire [OF s assms(3,1)] assms(4) by simp
  moreover have "required \<le> k + 1" "cd \<le> 0"
    using assms(2) s fires_Holds [OF assms(2)] by (auto simp: fires_iff)
  ultimately show ?thesis by simp
qed

text \<open>Enough observations in a row that hold make it fire.\<close>

lemma no_fire_counts:
  assumes "state_at ev (0, 0) n = (k, cd)" "\<forall>i < j. ev (n + i) = Holds \<and> \<not> fires_at ev (0, 0) (n + i)"
  shows "snd (state_at ev (0, 0) (n + j)) = max 0 (cd - int j)
    \<and> int j - cd \<le> fst (state_at ev (0, 0) (n + j))"
  using assms(2)
proof (induction j)
  case 0
  then show ?case using assms(1) state_range [OF assms(1)] by simp
next
  case (Suc j)
  obtain k0 cd0 where s: "state_at ev (0, 0) (n + j) = (k0, cd0)" by fastforce
  have IH: "cd0 = max 0 (cd - int j)" "int j - cd \<le> k0" using Suc s by auto
  have "\<not> fst (tick (ev (n + j)) (k0, cd0))" "ev (n + j) = Holds"
    using Suc.prems s by (auto simp: fires_at_def)
  then show ?case
    by - (rule tick_cases [of "ev (n + j)" k0 cd0]; use s IH state_range [OF s] in auto)
qed

lemma fires_within:
  assumes "\<forall>i < nat (cooldown + required). ev (n + i) = Holds"
  shows "\<exists>i < nat (cooldown + required). fires_at ev (0, 0) (n + i)"
proof (rule ccontr)
  assume none: "\<not> ?thesis"
  let ?j = "nat (cooldown + required)"
  obtain k cd where s: "state_at ev (0, 0) n = (k, cd)" by fastforce
  obtain k' cd' where s': "state_at ev (0, 0) (n + ?j) = (k', cd')" by fastforce
  have "int ?j - cd \<le> k'" using no_fire_counts [OF s, of ?j] assms none s' by auto
  then show False
    using state_range [OF s] state_range [OF s'] required_pos cooldown_nonneg by auto
qed

end

interpretation critic: dwell_detector "max 1 (required_consecutive rule)" "max 0 (cooldown_steps rule)" for rule
  by unfold_locales simp_all

section \<open>A rule over an episode\<close>

definition rule_event :: "CriticRule \<Rightarrow> (string, py) dict \<Rightarrow> RuleState \<Rightarrow> critic_event" where
  "rule_event rule observation st =
     (if guards_hold (activation_conditions rule) observation = Inr False then Inactive
      else case resolve_feature observation (cr_feature rule) of
             Inl e \<Rightarrow> Fails
           | Inr v \<Rightarrow> if critic_condition rule v (push_history rule v (history st)) = Inr True then Holds else Fails)"

text \<open>The events of a rule over the observations of an episode, each with whether it made a proposal;
  nothing if an evaluation raised.\<close>

fun rule_trace ::
  "CriticRule \<Rightarrow> (string, py) dict list \<Rightarrow> int \<Rightarrow> RuleState \<Rightarrow> (critic_event \<times> bool) list option" where
  "rule_trace rule [] n st = Some []"
| "rule_trace rule (observation # rest) n st =
     (case evaluate_rule rule observation n st of
        (Inl e, st') \<Rightarrow> None
      | (Inr p, st') \<Rightarrow>
          map_option ((#) (rule_event rule observation st, p \<noteq> None)) (rule_trace rule rest (n + 1) st'))"

lemma CriticRule_check_ok:
  assumes "CriticRule_check rule = Inr u"
  shows "max 1 (required_consecutive rule) = required_consecutive rule"
    and "max 0 (cooldown_steps rule) = cooldown_steps rule"
  using assms by (auto simp: CriticRule_check_def required_consecutive_def rbind_Inr_iff)

text \<open>One evaluation implements one tick of the detector.\<close>

lemma evaluate_rule_refines:
  assumes "CriticRule_check rule = Inr u" "0 \<le> cooldown_remaining st"
    and "evaluate_rule rule observation n st = (Inr p, st')"
  shows "critic.tick rule (rule_event rule observation st) (consecutive st, cooldown_remaining st)
      = (p \<noteq> None, consecutive st', cooldown_remaining st')"
    and "0 \<le> cooldown_remaining st'"
proof -
  note rule = CriticRule_check_ok [OF assms(1)]
  have nonneg: "0 \<le> cooldown_steps rule" "1 \<le> required_consecutive rule" using rule by simp_all
  have tick: "critic.tick rule ev (k, cd) =
      (if ev = Inactive then (False, 0, 0)
       else if cd > 0 then (False, 0, cd - 1)
       else if (if ev = Holds then k + 1 else 0) \<ge> required_consecutive rule then (True, 0, cooldown_steps rule)
       else (False, if ev = Holds then k + 1 else 0, 0))" for ev k cd
    unfolding critic.tick_def by (simp only: rule Let_def prod.case)
  obtain active where g: "guards_hold (activation_conditions rule) observation = Inr active"
    using assms(3) by (auto simp: evaluate_rule_def split: sum.splits)
  have "critic.tick rule (rule_event rule observation st) (consecutive st, cooldown_remaining st)
      = (p \<noteq> None, consecutive st', cooldown_remaining st') \<and> 0 \<le> cooldown_remaining st'"
  proof (cases active)
    case False
    with assms(3) g show ?thesis
      by (auto simp: evaluate_rule_def rule_event_def tick fresh_state_def)
  next
    case True
    then obtain v where v: "resolve_feature observation (cr_feature rule) = Inr v"
      using assms(3) g by (auto simp: evaluate_rule_def split: sum.splits)
    show ?thesis
    proof (cases "cooldown_remaining st > 0")
      case cooling: True
      with assms(3) g True v show ?thesis
        by (auto simp: evaluate_rule_def rule_event_def tick Let_def)
    next
      case idle: False
      then obtain b where b: "critic_condition rule v (push_history rule v (history st)) = Inr b"
        using assms(3) g True v by (auto simp: evaluate_rule_def Let_def split: sum.splits)
      show ?thesis
        using assms(2,3) g True v idle b nonneg
        by (auto simp: evaluate_rule_def rule_event_def tick tick [unfolded rule] Let_def split: sum.splits if_splits)
    qed
  qed
  then show "critic.tick rule (rule_event rule observation st) (consecutive st, cooldown_remaining st)
      = (p \<noteq> None, consecutive st', cooldown_remaining st')" and "0 \<le> cooldown_remaining st'" by blast+
qed

lemma rule_trace_fires:
  assumes "CriticRule_check rule = Inr u" "0 \<le> cooldown_remaining st"
    and "rule_trace rule observations n st = Some tr" "i < length tr"
  shows "snd (tr ! i) = critic.fires_at rule (\<lambda>i. fst (tr ! i)) (consecutive st, cooldown_remaining st) i"
  using assms(2-4)
proof (induction observations arbitrary: n st tr i)
  case Nil
  then show ?case by simp
next
  case (Cons observation rest)
  from Cons.prems(2) obtain p st' tr' where
    eval: "evaluate_rule rule observation n st = (Inr p, st')"
    and rest: "rule_trace rule rest (n + 1) st' = Some tr'"
    and tr: "tr = (rule_event rule observation st, p \<noteq> None) # tr'"
    by (auto split: prod.splits sum.splits)
  note tick = evaluate_rule_refines [OF assms(1) Cons.prems(1) eval]
  show ?case
  proof (cases i)
    case 0
    then show ?thesis using tick(1) by (simp add: tr critic.fires_at_def)
  next
    case (Suc j)
    then have "snd (tr' ! j) =
        critic.fires_at rule (\<lambda>i. fst (tr' ! i)) (consecutive st', cooldown_remaining st') j"
      using Cons.IH [OF tick(2) rest] Cons.prems(3) by (simp add: tr)
    then show ?thesis
      using tick(1) by (simp add: Suc tr critic.fires_at_shift del: critic.state_at.simps)
  qed
qed

text \<open>The state of a rule after an episode, and the values its guard and feature have shown.\<close>

fun rule_after :: "CriticRule \<Rightarrow> (string, py) dict list \<Rightarrow> int \<Rightarrow> RuleState \<Rightarrow> RuleState" where
  "rule_after rule [] n st = st"
| "rule_after rule (observation # rest) n st = rule_after rule rest (n + 1) (snd (evaluate_rule rule observation n st))"

lemma rule_after_snoc:
  "rule_after rule (os @ [observation]) n st
     = snd (evaluate_rule rule observation (n + int (length os)) (rule_after rule os n st))"
  by (induction os arbitrary: n st) (simp_all add: add.assoc)

lemma rule_trace_nth:
  assumes "rule_trace rule observations n st = Some tr"
  shows "length tr = length observations"
    and "i < length tr \<Longrightarrow> \<exists>p. fst (evaluate_rule rule (observations ! i) (n + int i) (rule_after rule (take i observations) n st)) = Inr p
      \<and> tr ! i = (rule_event rule (observations ! i) (rule_after rule (take i observations) n st), p \<noteq> None)"
  using assms
proof (induction observations arbitrary: n st tr i)
  case (Cons observation rest)
  { case 1 then show ?case using Cons.IH(1) by (fastforce split: prod.splits sum.splits)
  next
    case 2
    then obtain p st' tr' where e: "evaluate_rule rule observation n st = (Inr p, st')"
      and r: "rule_trace rule rest (n + 1) st' = Some tr'" "tr = (rule_event rule observation st, p \<noteq> None) # tr'"
      by (auto split: prod.splits sum.splits)
    show ?case
    proof (cases i)
      case (Suc j)
      then show ?thesis using Cons.IH(2) [of j tr' "n + 1" st'] 2(1) r e by (simp add: add.commute add.left_commute)
    qed (use e r(2) in simp) }
qed simp_all

abbreviation shown :: "CriticRule \<Rightarrow> (string, py) dict \<Rightarrow> py \<Rightarrow> bool" where
  "shown rule observation v \<equiv> guards_hold (activation_conditions rule) observation = Inr True
     \<and> resolve_feature observation (cr_feature rule) = Inr v"

text \<open>The history is what the feature was at the last observations, all with the guard on.\<close>

definition history_ok :: "CriticRule \<Rightarrow> (string, py) dict list \<Rightarrow> py list \<Rightarrow> bool" where
  "history_ok rule os h \<longleftrightarrow> int (length h) \<le> dwell_steps rule \<and> length h \<le> length os
     \<and> list_all2 (shown rule) (drop (length os - length h) os) h"

lemma history_push:
  assumes "history_ok rule os h" "shown rule observation v" "1 \<le> dwell_steps rule"
  shows "history_ok rule (os @ [observation]) (push_history rule v h)"
proof -
  have h: "int (length h) \<le> dwell_steps rule" "length h \<le> length os"
    "list_all2 (shown rule) (drop (length os - length h) os) h"
    using assms(1) by (simp_all add: history_ok_def)
  have all: "list_all2 (shown rule) (drop (length os - length h) (os @ [observation])) (h @ [v])"
    using h(3) assms(2) by (simp add: list_all2_appendI)
  show ?thesis
  proof (cases "int (length h) + 1 > dwell_steps rule")
    case True
    then have n: "0 < length h" using assms(3) by (cases h) simp_all
    have "Suc (length os - length h) = length (os @ [observation]) - length h" using n h(2) by simp
    then have "list_all2 (shown rule) (drop (length (os @ [observation]) - length h) (os @ [observation])) (tl (h @ [v]))"
      using list_all2_dropI [OF all, of 1] by (simp only: drop_drop drop_Suc [of 0] drop_0 add_Suc add_0 One_nat_def)
    then show ?thesis using True h n by (cases h) (simp_all add: history_ok_def push_history_def Let_def)
  next
    case False
    then show ?thesis using all h by (simp add: history_ok_def push_history_def Let_def)
  qed
qed

text \<open>What the values in the dwell window of a proposal satisfy.\<close>

definition dwelt :: "CriticRule \<Rightarrow> py list \<Rightarrow> bool" where
  "dwelt rule vs = (case cr_operator rule of
     Cop_stagnant \<Rightarrow> (\<exists>numbers limit. numeric_list vs = Inr numbers \<and> numeric (cr_threshold rule) = Inr limit
         \<and> (\<forall>x \<in> set numbers. \<forall>y \<in> set numbers. x - y \<le> limit))
   | Cop_eq \<Rightarrow> (\<forall>v \<in> set vs. py_eq v (cr_threshold rule))
   | Cop_ne \<Rightarrow> (\<forall>v \<in> set vs. \<not> py_eq v (cr_threshold rule))
   | operator \<Rightarrow> (\<forall>v \<in> set vs. compare_numeric operator v (cr_threshold rule) = Inr True))"

lemma guards_of_result:
  assumes "fst (evaluate_rule rule observation n st) = Inr p" "rule_event rule observation st \<noteq> Inactive"
  obtains v where "shown rule observation v"
    "history (snd (evaluate_rule rule observation n st)) = push_history rule v (history st)"
proof -
  obtain b where b: "guards_hold (activation_conditions rule) observation = Inr b"
    using assms(1) by (auto simp: evaluate_rule_def split: sum.splits)
  moreover have b using b assms(2) by (cases b) (simp_all add: rule_event_def)
  ultimately have g: "guards_hold (activation_conditions rule) observation = Inr True" by simp
  then obtain v where v: "resolve_feature observation (cr_feature rule) = Inr v"
    using assms(1) by (auto simp: evaluate_rule_def split: sum.splits)
  have "history (snd (evaluate_rule rule observation n st)) = push_history rule v (history st)"
    using g v by (simp add: evaluate_rule_def Let_def split: sum.split)
  with g v show ?thesis by (intro that [of v]) simp_all
qed

lemma rule_event_off: "guards_hold (activation_conditions rule) observation = Inr False \<longleftrightarrow> rule_event rule observation st = Inactive"
  by (auto simp: rule_event_def split: sum.splits)

lemma rule_trace_active:
  assumes "rule_trace rule observations start st = Some tr" "i < length tr"
  shows "fst (tr ! i) = Inactive \<longleftrightarrow> guards_hold (activation_conditions rule) (observations ! i) = Inr False"
  using rule_trace_nth(2) [OF assms(1,2)] by (metis fst_conv rule_event_off)

lemma history_trace:
  assumes "CriticRule_check rule = Inr ()" "rule_trace rule observations start fresh_state = Some tr" "i \<le> length tr"
  shows "history_ok rule (take i observations) (history (rule_after rule (take i observations) start fresh_state))"
  using assms(3)
proof (induction i)
  case 0
  then show ?case using assms(1) by (simp add: history_ok_def fresh_state_def CriticRule_check_def rbind_Inr_iff)
next
  case (Suc i)
  have dwell: "1 \<le> dwell_steps rule" using assms(1) by (auto simp: CriticRule_check_def rbind_Inr_iff)
  let ?st = "rule_after rule (take i observations) start fresh_state" and ?o = "observations ! i"
  have i: "i < length tr" using Suc.prems by simp
  then have t: "take (Suc i) observations = take i observations @ [?o]"
    using rule_trace_nth(1) [OF assms(2)] by (simp add: take_Suc_conv_app_nth)
  have l: "length (take i observations) = i" using i rule_trace_nth(1) [OF assms(2)] by simp
  obtain p where p: "fst (evaluate_rule rule ?o (start + int i) ?st) = Inr p"
    using rule_trace_nth(2) [OF assms(2) i] by blast
  show ?case
  proof (cases "rule_event rule ?o ?st = Inactive")
    case True
    then have "snd (evaluate_rule rule ?o (start + int i) ?st) = fresh_state"
      by (simp add: rule_event_off [symmetric] evaluate_rule_def)
    then show ?thesis unfolding t rule_after_snoc l using dwell by (simp add: history_ok_def fresh_state_def)
  next
    case False
    then obtain v where "shown rule ?o v"
      "history (snd (evaluate_rule rule ?o (start + int i) ?st)) = push_history rule v (history ?st)"
      using guards_of_result [OF p] by blast
    then show ?thesis using history_push [OF Suc.IH _ dwell, of ?o v] i unfolding t rule_after_snoc l by simp
  qed
qed

lemma event_Holds:
  assumes "rule_trace rule observations start st = Some tr" "i < length tr" "fst (tr ! i) = Holds"
  obtains v where "shown rule (observations ! i) v"
    "critic_condition rule v (push_history rule v (history (rule_after rule (take i observations) start st))) = Inr True"
proof -
  let ?st = "rule_after rule (take i observations) start st"
  obtain p where p: "fst (evaluate_rule rule (observations ! i) (start + int i) ?st) = Inr p"
    and e: "rule_event rule (observations ! i) ?st = Holds"
    using rule_trace_nth(2) [OF assms(1,2)] assms(3) by auto
  then obtain v where v: "shown rule (observations ! i) v" using guards_of_result [OF p] by auto
  then show ?thesis using that [of v] e by (auto simp: rule_event_def split: if_splits)
qed

lemma stagnant_dwelt:
  assumes "CriticRule_check rule = Inr ()" "rule_trace rule observations start fresh_state = Some tr" "n < length tr"
    and "snd (tr ! n)" "n \<le> n \<Longrightarrow> int n + 1 - required_consecutive rule \<le> int n \<Longrightarrow> fst (tr ! n) = Holds"
    and "cr_operator rule = Cop_stagnant"
  shows "dwell_steps rule \<le> int n + 1 \<and> (\<exists>vs. list_all2 (shown rule)
    (drop (n + 1 - nat (dwell_steps rule)) (take (n + 1) observations)) vs \<and> dwelt rule vs)"
proof -
  have dwell: "1 \<le> dwell_steps rule" using assms(1) by (auto simp: CriticRule_check_def rbind_Inr_iff)
  have "fst (tr ! n) = Holds" using assms(5,6) by (simp add: required_consecutive_def)
  from event_Holds [OF assms(2,3) this] obtain v where v: "shown rule (observations ! n) v"
    "critic_condition rule v (push_history rule v (history (rule_after rule (take n observations) start fresh_state))) = Inr True"
    (is "critic_condition rule v ?h = _") by blast
  have l: "take (n + 1) observations = take n observations @ [observations ! n]" "length (take (n + 1) observations) = n + 1"
    using assms(3) rule_trace_nth(1) [OF assms(2)] by (simp_all add: take_Suc_conv_app_nth)
  have h: "history_ok rule (take (n + 1) observations) ?h"
    unfolding l(1) by (rule history_push [OF history_trace [OF assms(1,2)] v(1) dwell]) (use assms(3) in simp)
  have c: "dwell_steps rule \<le> int (length ?h)" and m: "\<exists>numbers limit. numeric_list ?h = Inr numbers
    \<and> numeric (cr_threshold rule) = Inr limit \<and> numbers \<noteq> [] \<and> Max (set numbers) - Min (set numbers) \<le> limit"
    using v(2) assms(6) by (auto simp: critic_condition_def rbind_Inr_iff split: if_splits)
  have "dwell_steps rule = int (length ?h)" using h c by (simp add: history_ok_def)
  then have len: "nat (dwell_steps rule) = length ?h" "dwell_steps rule = int (length ?h)" by simp_all
  from m obtain numbers limit where m: "numeric_list ?h = Inr numbers" "numeric (cr_threshold rule) = Inr limit"
    "Max (set numbers) - Min (set numbers) \<le> limit" by blast
  have "x - y \<le> limit" if "x \<in> set numbers" "y \<in> set numbers" for x y
  proof -
    have "x \<le> Max (set numbers)" "Min (set numbers) \<le> y" using that by simp_all
    with m(3) show ?thesis by linarith
  qed
  then have "dwelt rule ?h" using m(1,2) assms(6) by (auto simp: dwelt_def)
  then show ?thesis using h len l(2) unfolding history_ok_def by auto
qed

lemma steady_dwelt:
  assumes "CriticRule_check rule = Inr ()" "rule_trace rule observations start fresh_state = Some tr" "n < length tr"
    and "required_consecutive rule \<le> int n + 1"
    and "\<And>i. i \<le> n \<Longrightarrow> int n + 1 - required_consecutive rule \<le> int i \<Longrightarrow> fst (tr ! i) = Holds"
    and "cr_operator rule \<noteq> Cop_stagnant"
  shows "dwell_steps rule \<le> int n + 1 \<and> (\<exists>vs. list_all2 (shown rule)
    (drop (n + 1 - nat (dwell_steps rule)) (take (n + 1) observations)) vs \<and> dwelt rule vs)"
proof -
  let ?os = "drop (n + 1 - nat (dwell_steps rule)) (take (n + 1) observations)"
  let ?ok = "\<lambda>v. critic_condition rule v [] = Inr True"
  have r: "required_consecutive rule = dwell_steps rule" using assms(6) by (simp add: required_consecutive_def)
  have free: "critic_condition rule v h = critic_condition rule v []" for v h
    using assms(6) by (simp add: critic_condition_def)
  have "\<exists>v. shown rule observation v \<and> ?ok v" if "observation \<in> set ?os" for observation
  proof -
    have l: "length observations = length tr" using rule_trace_nth(1) [OF assms(2)] by simp
    from that obtain j where j: "j < length ?os" "observation = ?os ! j" by (auto simp: in_set_conv_nth)
    define i where "i = n + 1 - nat (dwell_steps rule) + j"
    have i: "i \<le> n" "observation = observations ! i" "int n + 1 - dwell_steps rule \<le> int i"
      using j l assms(3) by (auto simp: i_def nth_append)
    have "fst (tr ! i) = Holds" using assms(5) i r by simp
    with i assms(3) show ?thesis using event_Holds [OF assms(2), of i] free by (metis order.strict_trans1)
  qed
  then have "\<forall>observation \<in> set ?os. \<exists>v. shown rule observation v \<and> ?ok v" by blast
  then obtain f where f: "\<forall>observation \<in> set ?os. shown rule observation (f observation) \<and> ?ok (f observation)"
    by metis
  then have "list_all2 (shown rule) ?os (map f ?os)" by (simp only: list_all2_map2 list.rel_refl_strong)
  moreover have "dwelt rule (map f ?os)" using f assms(6)
    by (cases "cr_operator rule") (auto simp: dwelt_def critic_condition_def)
  ultimately show ?thesis using assms(4) r by auto
qed

section \<open>Properties\<close>

text \<open>C17: a rule proposes only after its dwell time, and not again during its cooldown. When a rule that
  starts fresh makes a proposal at observation \<open>n\<close>, there are at least \<open>dwell_steps\<close> observations up to \<open>n\<close>, and at
  each of the last \<open>dwell_steps\<close> of them every guard held and the feature had a value: for a stagnation rule the
  values are numbers that lie within the threshold of each other, for any other rule each value compares to the
  threshold as the operator says. Between two proposals with the guards on in between lie at least the cooldown
  and another dwell time; for a stagnation rule, whose window slides on during the cooldown, one observation.\<close>

theorem critic_dwell_and_cooldown:
  assumes "CriticRule_check rule = Inr ()"
    and "rule_trace rule observations start fresh_state = Some tr"
    and "n < length tr" "snd (tr ! n)"
  shows "dwell_steps rule \<le> int n + 1
    \<and> (\<exists>vs. list_all2 (\<lambda>observation v. guards_hold (activation_conditions rule) observation = Inr True
            \<and> resolve_feature observation (cr_feature rule) = Inr v)
          (drop (n + 1 - nat (dwell_steps rule)) (take (n + 1) observations)) vs
        \<and> (case cr_operator rule of
             Cop_stagnant \<Rightarrow> (\<exists>numbers limit. numeric_list vs = Inr numbers \<and> numeric (cr_threshold rule) = Inr limit
                 \<and> (\<forall>x \<in> set numbers. \<forall>y \<in> set numbers. x - y \<le> limit))
           | Cop_eq \<Rightarrow> (\<forall>v \<in> set vs. py_eq v (cr_threshold rule))
           | Cop_ne \<Rightarrow> (\<forall>v \<in> set vs. \<not> py_eq v (cr_threshold rule))
           | operator \<Rightarrow> (\<forall>v \<in> set vs. compare_numeric operator v (cr_threshold rule) = Inr True)))
    \<and> (\<forall>m. m < n \<and> snd (tr ! m)
          \<and> (\<forall>i. m < i \<and> i \<le> n \<longrightarrow> guards_hold (activation_conditions rule) (observations ! i) = Inr True) \<longrightarrow>
          int m + cooldown_steps rule + (if cr_operator rule = Cop_stagnant then 1 else dwell_steps rule) \<le> int n)"
proof -
  note rule = CriticRule_check_ok [OF assms(1)]
  have fires: "snd (tr ! i) = critic.fires_at rule (\<lambda>i. fst (tr ! i)) (0, 0) i" if "i < length tr" for i
    using rule_trace_fires [OF assms(1) _ assms(2) that] by (simp add: fresh_state_def)
  have n: "critic.fires_at rule (\<lambda>i. fst (tr ! i)) (0, 0) n" using fires assms(3,4) by simp
  have held: "required_consecutive rule \<le> int n + 1"
    "i \<le> n \<Longrightarrow> int n + 1 - required_consecutive rule \<le> int i \<Longrightarrow> fst (tr ! i) = Holds" for i
    using critic.fires_after_dwell [OF n] by (auto simp: rule)
  have "int m + cooldown_steps rule + required_consecutive rule \<le> int n"
    if "m < n" "snd (tr ! m)" "\<forall>i. m < i \<and> i \<le> n \<longrightarrow> guards_hold (activation_conditions rule) (observations ! i) = Inr True" for m
  proof -
    have "fst (tr ! i) \<noteq> Inactive" if "m < i \<and> i \<le> n" for i
      using rule_trace_active [OF assms(2), of i] that assms(3) \<open>\<forall>i. _ i \<longrightarrow> _ i\<close> by auto
    then show ?thesis using critic.firings_spaced [OF _ n, of m] fires [of m] that(1,2) assms(3) by (auto simp: rule)
  qed
  moreover have "dwell_steps rule \<le> int n + 1 \<and> (\<exists>vs. list_all2 (shown rule)
        (drop (n + 1 - nat (dwell_steps rule)) (take (n + 1) observations)) vs \<and> dwelt rule vs)"
    using stagnant_dwelt [OF assms held(2) [of n]] steady_dwelt [OF assms(1-3) held] held(1) by blast
  ultimately show ?thesis by (simp add: required_consecutive_def dwelt_def)
qed

text \<open>A rule does propose when its condition persists. Over any stretch of cooldown plus dwell
  observations at each of which the guard is on and the condition holds, it makes a proposal, whatever
  happened before.\<close>

theorem critic_proposes_in_time:
  assumes "CriticRule_check rule = Inr ()"
    and "rule_trace rule observations start fresh_state = Some tr"
    and "n + nat (cooldown_steps rule + required_consecutive rule) \<le> length tr"
    and "\<forall>i < nat (cooldown_steps rule + required_consecutive rule). fst (tr ! (n + i)) = Holds"
  shows "\<exists>i < nat (cooldown_steps rule + required_consecutive rule). snd (tr ! (n + i))"
proof -
  note rule = CriticRule_check_ok [OF assms(1)]
  obtain i where "i < nat (cooldown_steps rule + required_consecutive rule)"
    "critic.fires_at rule (\<lambda>i. fst (tr ! i)) (0, 0) (n + i)"
    using critic.fires_within [of rule "\<lambda>i. fst (tr ! i)" n] assms(4) by (auto simp: rule)
  then show ?thesis
    using rule_trace_fires [OF assms(1) _ assms(2)] assms(3) by (auto simp: fresh_state_def intro!: exI [of _ i])
qed

text \<open>A rule that watches a distance for two steps with a cooldown of one.\<close>

definition demo_rule :: CriticRule where
  "demo_rule = \<lparr>rule_id = ''r'', cr_title = ''far'', cr_feature = ''robot.distance'', cr_operator = Cop_gt,
     cr_threshold = PyFloat 1, dwell_steps = 2, cooldown_steps = 1, cr_proposal = ''retract'',
     cr_evidence_ids = [''e''], safety_only = False,
     activation_conditions = [\<lparr>cp_feature = ''contact'', cp_operator = Cop_eq, cp_threshold = PyBool True\<rparr>]\<rparr>"

definition demo_observation :: "int \<Rightarrow> (string, py) dict" where
  "demo_observation d = [(''contact'', PyInt 1), (''robot'', PyDict [(''distance'', PyInt d)])]"

lemma demo_rule_ok: "CriticRule_check demo_rule = Inr ()"
proof -
  have "py_strip (cr_feature demo_rule) \<noteq> []" by code_simp
  then show ?thesis by (simp add: CriticRule_check_def demo_rule_def)
qed

lemma demo_guard: "guards_hold (activation_conditions demo_rule) (demo_observation d) = Inr True"
  by (simp add: demo_rule_def demo_observation_def critic_predicate_def resolve_feature_def dict_get_def py_eq_def)

lemma demo_feature: "resolve_feature (demo_observation d) (cr_feature demo_rule) = Inr (PyInt d)"
  by (simp add: demo_rule_def demo_observation_def resolve_feature_def dict_get_def)

lemma demo_step:
  "evaluate_rule demo_rule (demo_observation 2) n st =
     (let h = push_history demo_rule (PyInt 2) (history st) in
      if cooldown_remaining st > 0
      then (Inr None, \<lparr>consecutive = 0, cooldown_remaining = cooldown_remaining st - 1, history = h\<rparr>)
      else if consecutive st + 1 \<ge> 2
      then (Inr (Some \<lparr>prop_rule_id = ''r'', prop_step_index = n, prop_feature = ''robot.distance'',
              prop_observed_value = PyInt 2,
              prop_conditions = [(hd (activation_conditions demo_rule), PyInt 1)],
              prop_proposal = ''retract'', prop_safety_only = False, prop_environment_write = False\<rparr>),
            \<lparr>consecutive = 0, cooldown_remaining = 1, history = h\<rparr>)
      else (Inr None, \<lparr>consecutive = consecutive st + 1, cooldown_remaining = cooldown_remaining st, history = h\<rparr>))"
  unfolding evaluate_rule_def demo_guard demo_feature
  by (cases st)
    (simp add: Let_def critic_condition_def compare_numeric_def numeric_def demo_rule_def required_consecutive_def
      demo_observation_def resolve_feature_def dict_get_def)

lemma demo_event: "rule_event demo_rule (demo_observation 2) st = Holds"
  unfolding rule_event_def demo_guard demo_feature
  by (simp add: critic_condition_def compare_numeric_def numeric_def demo_rule_def)

definition demo_events :: "(critic_event \<times> bool) list" where
  "demo_events = [(Holds, False), (Holds, True), (Holds, False), (Holds, False), (Holds, True)]"

lemma demo_trace:
  "rule_trace demo_rule (replicate 5 (demo_observation 2)) 0 fresh_state = Some demo_events"
  by (simp add: numeral_eq_Suc demo_step demo_event Let_def fresh_state_def demo_events_def)

lemma demo_events_facts:
  "length demo_events = 5" "snd (demo_events ! 1)" "snd (demo_events ! 4)"
  "i < 5 \<Longrightarrow> fst (demo_events ! i) = Holds"
  by (simp_all add: demo_events_def numeral_eq_Suc less_Suc_eq) auto

theorem critic_dwell_and_cooldown_witness:
  "snd (demo_events ! 1) \<and> snd (demo_events ! 4) \<and> dwell_steps demo_rule \<le> 5
     \<and> (\<exists>v1 v2. list_all2 (shown demo_rule) [demo_observation 2, demo_observation 2] [v1, v2]
          \<and> compare_numeric Cop_gt v1 (PyFloat 1) = Inr True \<and> compare_numeric Cop_gt v2 (PyFloat 1) = Inr True)
     \<and> 1 + cooldown_steps demo_rule + dwell_steps demo_rule \<le> 4"
proof -
  have four: "4 < length demo_events" by (simp add: demo_events_facts)
  have os: "drop (4 + 1 - nat (dwell_steps demo_rule)) (take (4 + 1) (replicate 5 (demo_observation 2)))
    = [demo_observation 2, demo_observation 2]"
    by (simp add: demo_rule_def numeral_eq_Suc)
  have op: "cr_operator demo_rule = Cop_gt" "cr_threshold demo_rule = PyFloat 1" by (simp_all add: demo_rule_def)
  note all = critic_dwell_and_cooldown [OF demo_rule_ok demo_trace four demo_events_facts(3), unfolded os op]
  have "int 1 + cooldown_steps demo_rule + dwell_steps demo_rule \<le> int 4"
    using all [THEN conjunct2, THEN conjunct2, THEN spec, of 1] demo_events_facts(2) demo_guard by simp
  moreover have "dwell_steps demo_rule \<le> 5" using all by simp
  moreover obtain vs where "list_all2 (shown demo_rule) [demo_observation 2, demo_observation 2] vs"
    "\<forall>v \<in> set vs. compare_numeric Cop_gt v (PyFloat 1) = Inr True"
    using all [THEN conjunct2, THEN conjunct1] by auto
  ultimately show ?thesis using demo_events_facts by (auto simp: list_all2_Cons1)
qed

theorem critic_proposes_in_time_witness: "\<exists>i < 3. snd (demo_events ! (2 + i))"
proof -
  have three: "nat (cooldown_steps demo_rule + required_consecutive demo_rule) = 3"
    by (simp add: demo_rule_def required_consecutive_def)
  have "\<forall>i < 3. fst (demo_events ! (2 + i)) = Holds" using demo_events_facts(4) by simp
  then show ?thesis
    using critic_proposes_in_time [OF demo_rule_ok demo_trace, of 2, unfolded three] demo_events_facts(1) by simp
qed

end
