(* ===== verification/Slot_Broker.thy ===== *)
theory Slot_Broker
  imports Evolution_Models
begin

text \<open>
  \<^verbatim>\<open>zetta/evolution/slot_broker.py\<close>: host-local leases on the slots of an environment farm. The lease files
  are a dictionary from slot numbers to lease payloads, the event ledger is a list; every operation
  holds the directory lock, so operations of several processes interleave as whole steps. Time stamps
  are reals. A progress callback, which the broker only calls, is left out. What the environment servers answer, the fresh identifiers, the process id and \<open>str()\<close> are
  inputs.
\<close>

section \<open>The ready manifest\<close>

record EnvironmentSlot =
  es_slot :: int
  es_gpu :: string
  es_endpoint :: string
  es_generation :: int

fun strip_slashes :: "string \<Rightarrow> string" where
  "strip_slashes s = rev (dropWhile (\<lambda>c. c = CHR ''/'') (rev s))"

text \<open>\<open>int()\<close> of a text: decimal digits with single underscores between them, a sign, surrounding blanks.\<close>

fun digits_value :: "bool \<Rightarrow> nat \<Rightarrow> string \<Rightarrow> nat option" where
  "digits_value after acc [] = (if after then Some acc else None)"
| "digits_value after acc (c # cs) =
     (let n = of_char c :: nat in
      if 48 \<le> n \<and> n \<le> 57 then digits_value True (10 * acc + (n - 48)) cs
      else if c = CHR ''_'' \<and> after then digits_value False acc cs else None)"

definition int_of_text :: "string \<Rightarrow> exn + int" where
  "int_of_text s =
     (let body = py_strip s;
          invalid = Inl (ValueError [Text ''invalid literal for int() with base 10: '', Repr s])
      in case body of
           [] \<Rightarrow> invalid
         | c # cs \<Rightarrow>
             (case digits_value False 0 (if c = CHR ''-'' \<or> c = CHR ''+'' then cs else body) of
                None \<Rightarrow> invalid
              | Some n \<Rightarrow> Inr (if c = CHR ''-'' then - int n else int n)))"

fun int_of_py :: "py \<Rightarrow> exn + int" where
  "int_of_py (PyInt i) = Inr i"
| "int_of_py (PyBool b) = Inr (if b then 1 else 0)"
| "int_of_py (PyFloat x) = Inr (if x < 0 then \<lceil>x\<rceil> else \<lfloor>x\<rfloor>)"
| "int_of_py (PyStr s) = int_of_text s"
| "int_of_py _ = Inl (PyExn K_TypeError ''TypeError'' [Text ''int() argument must be a string or a number''])"

definition required_key :: "(string, py) dict \<Rightarrow> string \<Rightarrow> exn + py" where
  "required_key d k =
     (case dict_get d k of Some v \<Rightarrow> Inr v | None \<Rightarrow> Inl (PyExn K_KeyError ''KeyError'' [Text k]))"

definition host_local :: "py \<Rightarrow> string option" where
  "host_local endpoint =
     (case endpoint of
        PyStr s \<Rightarrow> if take 17 s = ''http://127.0.0.1:'' then Some s else None
      | _ \<Rightarrow> None)"

definition read_slot :: "(py \<Rightarrow> string) \<Rightarrow> (string, py) dict \<Rightarrow> exn + EnvironmentSlot" where
  "read_slot str d =
     (case host_local (dict_get_or d ''endpoint'' PyNone) of
        None \<Rightarrow> Inl (ValueError [Text ''environment slot endpoint must be host-local HTTP''])
      | Some endpoint \<Rightarrow>
          rbind (rbind (required_key d ''slot'') int_of_py) (\<lambda>slot.
          rbind (required_key d ''gpu'') (\<lambda>gpu.
          rbind (int_of_py (dict_get_or d ''generation'' (PyInt 0))) (\<lambda>generation.
          Inr \<lparr>es_slot = slot, es_gpu = str gpu, es_endpoint = strip_slashes endpoint,
               es_generation = generation\<rparr>))))"

fun read_slots :: "(py \<Rightarrow> string) \<Rightarrow> py list \<Rightarrow> exn + EnvironmentSlot list" where
  "read_slots str [] = Inr []"
| "read_slots str (v # vs) =
     (case v of
        PyDict d \<Rightarrow>
          if dict_get_or d ''status'' PyNone \<noteq> PyStr ''ready'' then read_slots str vs
          else rbind (read_slot str d) (\<lambda>s. rbind (read_slots str vs) (\<lambda>rest. Inr (s # rest)))
      | _ \<Rightarrow> read_slots str vs)"

fun gpu_numbers :: "EnvironmentSlot list \<Rightarrow> exn + int list" where
  "gpu_numbers [] = Inr []"
| "gpu_numbers (s # ss) =
     rbind (int_of_text (es_gpu s)) (\<lambda>n. rbind (gpu_numbers ss) (\<lambda>ns. Inr (n # ns)))"

definition broker_slots :: "(py \<Rightarrow> string) \<Rightarrow> py \<Rightarrow> exn + EnvironmentSlot list" where
  "broker_slots str manifest =
     (case (case manifest of PyDict d \<Rightarrow> dict_get_or d ''slots'' PyNone | _ \<Rightarrow> PyNone) of
        PyList records \<Rightarrow>
          rbind (read_slots str records) (\<lambda>slots.
          if slots = [] then Inl (RuntimeError [Text ''environment farm has no ready slots''])
          else rbind (gpu_numbers slots) (\<lambda>gpus.
            Inr (map snd (sort_key (\<lambda>(gpu, s). (gpu, es_slot s)) (zip gpus slots)))))
      | _ \<Rightarrow> Inl (ValueError [Text ''environment ready manifest requires a slots array'']))"

section \<open>Leases\<close>

record SlotLease =
  sl_lease_id :: string
  sl_owner :: string
  sl_job_id :: string
  sl_slot :: int
  sl_gpu :: string
  sl_endpoint :: string
  sl_farm_generation :: int
  sl_acquired_at :: real
  sl_heartbeat_at :: real
  sl_expires_at :: real
  sl_pid :: int

datatype slot_event =
    ExpiredFreeLeaseReclaimed real int string
  | SlotAcquired real string string int string
  | SlotReleased real string string int string string

record EnvironmentSlotBroker =
  sb_lease_s :: real
  sb_health_timeout_s :: real
  sb_maximum_active_slots :: "int option"
  sb_leases :: "(int, SlotLease) dict"
  sb_events :: "slot_event list"

definition EnvironmentSlotBroker_init ::
  "real \<Rightarrow> real \<Rightarrow> int option \<Rightarrow> exn + EnvironmentSlotBroker" where
  "EnvironmentSlotBroker_init lease_s health_timeout_s maximum_active_slots =
     rbind (guard (\<not> (lease_s \<le> 0 \<or> health_timeout_s \<le> 0))
              (ValueError [Text ''slot lease and health timeout must be positive''])) (\<lambda>_.
     rbind (guard (case maximum_active_slots of None \<Rightarrow> True | Some m \<Rightarrow> \<not> m < 1)
              (ValueError [Text ''maximum_active_slots must be positive''])) (\<lambda>_.
     Inr \<lparr>sb_lease_s = lease_s, sb_health_timeout_s = health_timeout_s,
          sb_maximum_active_slots = maximum_active_slots, sb_leases = [], sb_events = []\<rparr>))"

definition is_free :: "(string, py) dict \<Rightarrow> bool" where
  "is_free health \<longleftrightarrow>
     dict_get_or health ''status'' PyNone = PyStr ''healthy''
     \<and> (case dict_get_or health ''write_protocol'' PyNone of
          PyDict protocol \<Rightarrow> dict_get_or protocol ''phase'' PyNone = PyStr ''FREE''
        | _ \<Rightarrow> False)"

text \<open>The lease files in the order of their names, which for slot numbers of up to three digits is the
  order of the numbers.\<close>

definition active_leases :: "EnvironmentSlotBroker \<Rightarrow> SlotLease list" where
  "active_leases b = dict_values (sort_key fst (sb_leases b))"

text \<open>What a health reader gives: a response, one of the exceptions the broker skips over
  (\<open>OSError\<close>, \<open>ValueError\<close>, \<open>URLError\<close>), or another exception.\<close>

datatype health_reading = Health "(string, py) dict" | Unreadable | Broken exn

text \<open>The handle a caller holds.\<close>

record EnvironmentSlotLease =
  lh_lease_id :: string
  lh_owner :: string
  lh_job_id :: string
  lh_slot :: EnvironmentSlot
  lh_released :: bool

type_synonym 'a broker_op = "(EnvironmentSlotBroker, exn, 'a) sem"

definition put_lease :: "int \<Rightarrow> SlotLease \<Rightarrow> EnvironmentSlotBroker \<Rightarrow> EnvironmentSlotBroker" where
  "put_lease slot l b = b\<lparr>sb_leases := dict_set (sb_leases b) slot l\<rparr>"

definition unlink_lease :: "int \<Rightarrow> EnvironmentSlotBroker \<Rightarrow> EnvironmentSlotBroker" where
  "unlink_lease slot b = b\<lparr>sb_leases := dict_pop (sb_leases b) slot\<rparr>"

definition log_event :: "slot_event \<Rightarrow> EnvironmentSlotBroker \<Rightarrow> EnvironmentSlotBroker" where
  "log_event e b = b\<lparr>sb_events := sb_events b @ [e]\<rparr>"

text \<open>The inputs of a round: the clock, the new lease's identifier, the process id and the answers of the
  environment servers, those asked before a reclamation (\<open>False\<close>) and those asked for the slot itself
  (\<open>True\<close>).\<close>

record round_input =
  ri_now :: real
  ri_fresh :: string
  ri_pid :: int
  ri_health :: "bool \<Rightarrow> string \<Rightarrow> health_reading"

text \<open>The part of the loop body before the slot itself is asked: whether to go on with this slot.\<close>

definition clear_expired :: "round_input \<Rightarrow> EnvironmentSlot \<Rightarrow> bool broker_op" where
  "clear_expired i slot b =
     (case dict_get (sb_leases b) (es_slot slot) of
        None \<Rightarrow> (Inr True, b)
      | Some existing \<Rightarrow>
          if sl_expires_at existing > ri_now i then (Inr False, b)
          else
            (case ri_health i False (es_endpoint slot) of
               Broken e \<Rightarrow> (Inl e, b)
             | Unreadable \<Rightarrow> (Inr False, b)
             | Health h \<Rightarrow>
                 if \<not> is_free h then (Inr False, b)
                 else (Inr True, log_event
                        (ExpiredFreeLeaseReclaimed (ri_now i) (es_slot slot) (sl_lease_id existing))
                        (unlink_lease (es_slot slot) b))))"

definition grant :: "round_input \<Rightarrow> string \<Rightarrow> string \<Rightarrow> EnvironmentSlot \<Rightarrow> EnvironmentSlotBroker
    \<Rightarrow> EnvironmentSlotLease \<times> EnvironmentSlotBroker" where
  "grant i owner job_id slot b =
     (let lease_id = ''slot-lease-'' @ ri_fresh i;
          payload = \<lparr>sl_lease_id = lease_id, sl_owner = owner, sl_job_id = job_id, sl_slot = es_slot slot,
             sl_gpu = es_gpu slot, sl_endpoint = es_endpoint slot, sl_farm_generation = es_generation slot,
             sl_acquired_at = ri_now i, sl_heartbeat_at = ri_now i, sl_expires_at = ri_now i + sb_lease_s b,
             sl_pid = ri_pid i\<rparr>
      in (\<lparr>lh_lease_id = lease_id, lh_owner = owner, lh_job_id = job_id, lh_slot = slot, lh_released = False\<rparr>,
          log_event (SlotAcquired (ri_now i) lease_id job_id (es_slot slot) (es_gpu slot))
            (put_lease (es_slot slot) payload b)))"

fun try_slots ::
  "round_input \<Rightarrow> string \<Rightarrow> string \<Rightarrow> EnvironmentSlot list \<Rightarrow> EnvironmentSlotLease option broker_op" where
  "try_slots i owner job_id [] b = (Inr None, b)"
| "try_slots i owner job_id (slot # slots) b =
     (case clear_expired i slot b of
        (Inl e, b1) \<Rightarrow> (Inl e, b1)
      | (Inr False, b1) \<Rightarrow> try_slots i owner job_id slots b1
      | (Inr True, b1) \<Rightarrow>
          (case ri_health i True (es_endpoint slot) of
             Broken e \<Rightarrow> (Inl e, b1)
           | Unreadable \<Rightarrow> try_slots i owner job_id slots b1
           | Health h \<Rightarrow>
               if \<not> is_free h then try_slots i owner job_id slots b1
               else (case grant i owner job_id slot b1 of (l, b2) \<Rightarrow> (Inr (Some l), b2))))"

definition gpu_counts :: "SlotLease list \<Rightarrow> string counter" where
  "gpu_counts leases = foldl (\<lambda>c l. dict_set c (sl_gpu l) (count_of c (sl_gpu l) + 1)) [] leases"

definition capped :: "EnvironmentSlotBroker \<Rightarrow> bool" where
  "capped b \<longleftrightarrow>
     (case sb_maximum_active_slots b of None \<Rightarrow> False | Some m \<Rightarrow> \<not> int (length (active_leases b)) < m)"

text \<open>One turn of the polling loop, under the lock. \<open>slots\<close> is what reading the ready manifest gives.\<close>

definition acquire_round ::
  "round_input \<Rightarrow> string \<Rightarrow> string \<Rightarrow> exn + EnvironmentSlot list \<Rightarrow> EnvironmentSlotLease option broker_op" where
  "acquire_round i owner job_id slots b =
     (if capped b then (Inr None, b)
      else
        (case slots of
           Inl e \<Rightarrow> (Inl e, b)
         | Inr ready \<Rightarrow>
             (let counts = gpu_counts (active_leases b);
                  candidates = sort_key (\<lambda>s. (count_of counts (es_gpu s), es_slot s)) ready
              in try_slots i owner job_id candidates b)))"

text \<open>The polling loop of one caller: the rounds it gets and the monotonic clock after each. It stops with
  a lease, with an exception, or when its deadline has passed; it has not returned when the rounds end.
  Between its rounds other processes take steps, which \<open>world\<close> stands for.\<close>

fun acquire_loop ::
  "real \<Rightarrow> string \<Rightarrow> string \<Rightarrow> (EnvironmentSlotBroker \<Rightarrow> EnvironmentSlotBroker)
     \<Rightarrow> (round_input \<times> (exn + EnvironmentSlot list) \<times> real) list
     \<Rightarrow> EnvironmentSlotBroker \<Rightarrow> ((exn + EnvironmentSlotLease) \<times> EnvironmentSlotBroker) option" where
  "acquire_loop deadline owner job_id world [] b = None"
| "acquire_loop deadline owner job_id world ((i, slots, monotonic) # rounds) b =
     (case acquire_round i owner job_id slots b of
        (Inl e, b1) \<Rightarrow> Some (Inl e, b1)
      | (Inr (Some l), b1) \<Rightarrow> Some (Inr l, b1)
      | (Inr None, b1) \<Rightarrow>
          if monotonic \<ge> deadline
          then Some (Inl (TimeoutError [Text ''timed out acquiring a healthy free environment slot'']), b1)
          else acquire_loop deadline owner job_id world rounds (world b1))"

definition broker_acquire ::
  "string \<Rightarrow> string \<Rightarrow> real \<Rightarrow> real \<Rightarrow> real \<Rightarrow> (EnvironmentSlotBroker \<Rightarrow> EnvironmentSlotBroker)
     \<Rightarrow> (round_input \<times> (exn + EnvironmentSlot list) \<times> real) list
     \<Rightarrow> EnvironmentSlotBroker \<Rightarrow> ((exn + EnvironmentSlotLease) \<times> EnvironmentSlotBroker) option" where
  "broker_acquire owner job_id timeout_s poll_s started world rounds b =
     (if owner = [] \<or> job_id = []
      then Some (Inl (ValueError [Text ''slot owner and job_id must be non-empty'']), b)
      else if timeout_s \<le> 0 \<or> poll_s \<le> 0
      then Some (Inl (ValueError [Text ''slot acquire timeout and poll interval must be positive'']), b)
      else acquire_loop (started + timeout_s) owner job_id world rounds b)"

definition broker_heartbeat :: "real \<Rightarrow> EnvironmentSlotLease \<Rightarrow> unit broker_op" where
  "broker_heartbeat now l b =
     (case dict_get (sb_leases b) (es_slot (lh_slot l)) of
        None \<Rightarrow> (Inl (RuntimeError [Text ''environment slot lease no longer exists'']), b)
      | Some payload \<Rightarrow>
          if sl_lease_id payload \<noteq> lh_lease_id l
          then (Inl (RuntimeError [Text ''stale environment slot lease cannot heartbeat'']), b)
          else (Inr (), put_lease (es_slot (lh_slot l))
                  (payload\<lparr>sl_heartbeat_at := now, sl_expires_at := now + sb_lease_s b\<rparr>) b))"

definition broker_release :: "real \<Rightarrow> EnvironmentSlotLease \<Rightarrow> string \<Rightarrow> unit broker_op" where
  "broker_release now l outcome b =
     (case dict_get (sb_leases b) (es_slot (lh_slot l)) of
        None \<Rightarrow> (Inr (), b)
      | Some payload \<Rightarrow>
          if sl_lease_id payload \<noteq> lh_lease_id l
          then (Inl (RuntimeError [Text ''stale environment slot lease cannot release'']), b)
          else (Inr (), log_event
                  (SlotReleased now (lh_lease_id l) (lh_job_id l) (es_slot (lh_slot l)) (es_gpu (lh_slot l)) outcome)
                  (unlink_lease (es_slot (lh_slot l)) b)))"

text \<open>The handle's own operations.\<close>

definition lease_heartbeat :: "real \<Rightarrow> EnvironmentSlotLease \<Rightarrow> unit broker_op" where
  "lease_heartbeat now l b =
     (if lh_released l then (Inl (RuntimeError [Text ''cannot heartbeat a released environment slot'']), b)
      else broker_heartbeat now l b)"

definition lease_release :: "real \<Rightarrow> string \<Rightarrow> EnvironmentSlotLease \<Rightarrow> EnvironmentSlotLease broker_op" where
  "lease_release now outcome l b =
     (if lh_released l then (Inr l, b)
      else
        (case broker_release now l outcome b of
           (Inl e, b1) \<Rightarrow> (Inl e, b1)
         | (Inr _, b1) \<Rightarrow> (Inr (l\<lparr>lh_released := True\<rparr>), b1)))"

record broker_snapshot =
  bsn_active :: int
  bsn_maximum :: "int option"
  bsn_leases :: "SlotLease list"

definition broker_snapshot_of :: "EnvironmentSlotBroker \<Rightarrow> broker_snapshot" where
  "broker_snapshot_of b =
     \<lparr>bsn_active = int (length (active_leases b)), bsn_maximum = sb_maximum_active_slots b,
      bsn_leases = active_leases b\<rparr>"

section \<open>Lemmas\<close>

lemma length_active [simp]: "length (active_leases b) = length (sb_leases b)"
  by (simp add: active_leases_def dict_values_def)

lemma broker_fields [simp]:
  "sb_leases (put_lease s l b) = dict_set (sb_leases b) s l" "sb_leases (unlink_lease s b) = dict_pop (sb_leases b) s"
  "sb_leases (log_event e b) = sb_leases b" "sb_lease_s (put_lease s l b) = sb_lease_s b"
  "sb_lease_s (unlink_lease s b) = sb_lease_s b" "sb_lease_s (log_event e b) = sb_lease_s b"
  "sb_maximum_active_slots (put_lease s l b) = sb_maximum_active_slots b"
  "sb_maximum_active_slots (unlink_lease s b) = sb_maximum_active_slots b"
  "sb_maximum_active_slots (log_event e b) = sb_maximum_active_slots b"
  by (simp_all add: put_lease_def unlink_lease_def log_event_def)

lemma dict_pop_length: "length (dict_pop d k) \<le> length d"
  by (simp add: dict_pop_def AList.delete_eq)

definition answers_free :: "health_reading \<Rightarrow> bool" where
  "answers_free r \<longleftrightarrow> (case r of Health h \<Rightarrow> is_free h | _ \<Rightarrow> False)"

text \<open>The two ways past \<open>clear_expired\<close>: nothing was changed, or an expired lease of a free slot is gone.\<close>

definition reclaims :: "round_input \<Rightarrow> EnvironmentSlot \<Rightarrow> EnvironmentSlotBroker \<Rightarrow> bool" where
  "reclaims i slot b \<longleftrightarrow>
     (\<exists>l. dict_get (sb_leases b) (es_slot slot) = Some l \<and> sl_expires_at l \<le> ri_now i
        \<and> answers_free (ri_health i False (es_endpoint slot)))"

lemma clear_expired_cases:
  obtains (same) r where "clear_expired i slot b = (r, b)"
      "r = Inr True \<Longrightarrow> dict_get (sb_leases b) (es_slot slot) = None"
  | (reclaimed) e where "clear_expired i slot b = (Inr True, log_event e (unlink_lease (es_slot slot) b))"
      "reclaims i slot b"
proof (cases "dict_get (sb_leases b) (es_slot slot)")
  case None
  then show ?thesis by (intro same [of "Inr True"]) (simp_all add: clear_expired_def)
next
  case (Some l)
  show ?thesis
  proof (cases "sl_expires_at l > ri_now i")
    case True
    with Some show ?thesis by (intro same [of "Inr False"]) (simp_all add: clear_expired_def)
  next
    case False
    then show ?thesis
    proof (cases "ri_health i False (es_endpoint slot)")
      case (Health h)
      with Some False show ?thesis
        by (cases "is_free h")
          (auto intro: same [of "Inr False"] reclaimed simp: clear_expired_def reclaims_def answers_free_def)
    qed (use Some False in \<open>auto intro: same [of "Inr False"] same [of "Inl _"] simp: clear_expired_def\<close>)
  qed
qed

text \<open>What a pass over the candidate slots may do.\<close>

definition granted_ok ::
  "round_input \<Rightarrow> EnvironmentSlot list \<Rightarrow> EnvironmentSlotBroker \<Rightarrow> EnvironmentSlotBroker \<Rightarrow> EnvironmentSlotLease \<Rightarrow> bool" where
  "granted_ok i slots b b' l \<longleftrightarrow>
     lh_slot l \<in> set slots
     \<and> (dict_get (sb_leases b) (es_slot (lh_slot l)) = None \<or> reclaims i (lh_slot l) b)
     \<and> answers_free (ri_health i True (es_endpoint (lh_slot l)))
     \<and> (\<exists>p. dict_get (sb_leases b') (es_slot (lh_slot l)) = Some p \<and> sl_lease_id p = lh_lease_id l
            \<and> sl_slot p = es_slot (lh_slot l) \<and> sl_expires_at p = ri_now i + sb_lease_s b)"

lemma reclaims_other:
  "es_slot s \<noteq> es_slot slot \<Longrightarrow> reclaims i s (log_event e (unlink_lease (es_slot slot) b)) = reclaims i s b"
  by (simp add: reclaims_def)

lemma try_slots_keeps:
  "try_slots i owner job slots b = (r, b') \<Longrightarrow> dict_get (sb_leases b) s = Some p \<Longrightarrow> ri_now i < sl_expires_at p
     \<Longrightarrow> dict_get (sb_leases b') s = Some p"
proof (induction slots arbitrary: b)
  case Nil
  then show ?case by simp
next
  case (Cons slot slots)
  show ?case
  proof (cases rule: clear_expired_cases [of i slot b])
    case (same q)
    show ?thesis
    proof (cases "q = Inr True")
      case True
      then have "es_slot slot \<noteq> s" using same(2) Cons.prems(2) by auto
      then show ?thesis
        using Cons same True by (auto simp: grant_def Let_def split: health_reading.splits if_splits)
    qed (use Cons same in \<open>auto split: sum.splits bool.splits\<close>)
  next
    case (reclaimed e)
    then have "es_slot slot \<noteq> s" using Cons.prems(2,3) by (auto simp: reclaims_def)
    then show ?thesis
      using Cons reclaimed(1) by (auto simp: grant_def Let_def split: health_reading.splits if_splits)
  qed
qed

lemma granted_ok_cons:
  assumes "granted_ok i slots b1 b' l" "\<forall>s \<in> set slots. es_slot s \<noteq> es_slot slot"
    and "b1 = b \<or> (\<exists>e. b1 = log_event e (unlink_lease (es_slot slot) b))"
  shows "granted_ok i (slot # slots) b b' l"
  using assms by (auto simp: granted_ok_def reclaims_other)

lemma grant_ok:
  assumes "grant i owner job slot b1 = (l, b')" "answers_free (ri_health i True (es_endpoint slot))"
    and "dict_get (sb_leases b) (es_slot slot) = None \<or> reclaims i slot b" "sb_lease_s b1 = sb_lease_s b"
  shows "granted_ok i (slot # slots) b b' l"
  using assms by (auto simp: grant_def granted_ok_def Let_def)

lemma try_slots_granted:
  "try_slots i owner job slots b = (Inr (Some l), b') \<Longrightarrow> distinct (map es_slot slots)
     \<Longrightarrow> granted_ok i slots b b' l"
proof (induction slots arbitrary: b)
  case Nil
  then show ?case by simp
next
  case (Cons slot slots)
  have others: "\<forall>s \<in> set slots. es_slot s \<noteq> es_slot slot" and d: "distinct (map es_slot slots)"
    using Cons.prems(2) by (auto simp: image_iff)
  obtain q b1 where clear: "clear_expired i slot b = (q, b1)" by fastforce
  have b1: "b1 = b \<or> (\<exists>e. b1 = log_event e (unlink_lease (es_slot slot) b))"
    and free: "q = Inr True \<Longrightarrow> dict_get (sb_leases b) (es_slot slot) = None \<or> reclaims i slot b"
    by (rule clear_expired_cases [of i slot b]; use clear in auto)+
  have rest: "granted_ok i (slot # slots) b b' l" if "try_slots i owner job slots b1 = (Inr (Some l), b')"
    by (rule granted_ok_cons [OF Cons.IH [OF that d] others b1])
  show ?case
  proof (cases "\<exists>h. q = Inr True \<and> ri_health i True (es_endpoint slot) = Health h \<and> is_free h")
    case True
    then have "grant i owner job slot b1 = (l, b')"
      using Cons.prems(1) clear by (auto split: prod.splits)
    moreover have "sb_lease_s b1 = sb_lease_s b" using b1 by auto
    ultimately show ?thesis using True free by (auto intro!: grant_ok simp: answers_free_def)
  next
    case False
    then have "try_slots i owner job slots b1 = (Inr (Some l), b')"
      using Cons.prems(1) clear by (auto split: sum.splits bool.splits health_reading.splits if_splits)
    then show ?thesis by (rule rest)
  qed
qed

text \<open>Bookkeeping: limits are constants, lease files keep their slot, and a round adds at most one.\<close>

definition broker_ok :: "EnvironmentSlotBroker \<Rightarrow> bool" where
  "broker_ok b \<longleftrightarrow> (\<forall>s p. dict_get (sb_leases b) s = Some p \<longrightarrow> sl_slot p = s)"

lemma broker_ok_updates:
  "broker_ok b \<Longrightarrow> broker_ok (unlink_lease s b)"
  "broker_ok b \<Longrightarrow> sl_slot p = s \<Longrightarrow> broker_ok (put_lease s p b)"
  "broker_ok (log_event e b) = broker_ok b"
  by (auto simp: broker_ok_def split: if_splits)

lemma clear_expired_effect:
  assumes "clear_expired i slot b = (q, b1)"
  shows "sb_maximum_active_slots b1 = sb_maximum_active_slots b" and "sb_lease_s b1 = sb_lease_s b"
    and "length (sb_leases b1) \<le> length (sb_leases b)" and "broker_ok b \<Longrightarrow> broker_ok b1"
    and "q = Inr True \<Longrightarrow> dict_get (sb_leases b1) (es_slot slot) = None"
proof -
  have "(b1 = b \<and> (q = Inr True \<longrightarrow> dict_get (sb_leases b) (es_slot slot) = None))
      \<or> (\<exists>e. b1 = log_event e (unlink_lease (es_slot slot) b))"
    by (rule clear_expired_cases [of i slot b]) (use assms in auto)
  then show "sb_maximum_active_slots b1 = sb_maximum_active_slots b" "sb_lease_s b1 = sb_lease_s b"
    "length (sb_leases b1) \<le> length (sb_leases b)" "broker_ok b \<Longrightarrow> broker_ok b1"
    "q = Inr True \<Longrightarrow> dict_get (sb_leases b1) (es_slot slot) = None"
    by (auto simp: dict_pop_length broker_ok_updates)
qed

lemma try_slots_bounds:
  "try_slots i owner job slots b = (r, b') \<Longrightarrow>
     sb_maximum_active_slots b' = sb_maximum_active_slots b \<and> sb_lease_s b' = sb_lease_s b
     \<and> length (sb_leases b') \<le> length (sb_leases b) + 1 \<and> (broker_ok b \<longrightarrow> broker_ok b')"
proof (induction slots arbitrary: b)
  case Nil
  then show ?case by simp
next
  case (Cons slot slots)
  obtain q b1 where clear: "clear_expired i slot b = (q, b1)" by fastforce
  note b1 = clear_expired_effect [OF clear]
  show ?case
  proof (cases "\<exists>h. q = Inr True \<and> ri_health i True (es_endpoint slot) = Health h \<and> is_free h")
    case True
    then obtain l where "grant i owner job slot b1 = (l, b')"
      using Cons.prems clear by (auto split: prod.splits)
    then show ?thesis
      using True b1 by (auto simp: grant_def Let_def dict_set_new broker_ok_updates)
  next
    case False
    then have "try_slots i owner job slots b1 = (r, b') \<or> b' = b1"
      using Cons.prems clear by (auto split: sum.splits bool.splits health_reading.splits if_splits)
    with b1 Cons.IH [of b1] show ?thesis by fastforce
  qed
qed

text \<open>The steps of all processes that share the lease directory.\<close>

inductive broker_step :: "EnvironmentSlotBroker \<Rightarrow> EnvironmentSlotBroker \<Rightarrow> bool" where
  round: "broker_step b (snd (acquire_round i owner job slots b))"
| beat: "broker_step b (snd (lease_heartbeat now l b))"
| drop_it: "broker_step b (snd (lease_release now outcome l b))"

definition cap_holds :: "EnvironmentSlotBroker \<Rightarrow> bool" where
  "cap_holds b \<longleftrightarrow> broker_ok b
     \<and> (case sb_maximum_active_slots b of None \<Rightarrow> True | Some m \<Rightarrow> int (length (active_leases b)) \<le> m)"

lemma dict_set_length_known: "dict_get d k \<noteq> None \<Longrightarrow> length (dict_set d k v) = length d"
  by (metis dict_keys_def dict_set_keys_known length_map)

lemma broker_step_cap:
  assumes "broker_step b b'" "cap_holds b"
  shows "cap_holds b' \<and> sb_maximum_active_slots b' = sb_maximum_active_slots b"
  using assms
proof (cases rule: broker_step.cases)
  case (round i owner job slots)
  obtain r where run: "acquire_round i owner job slots b = (r, b')" using round by (metis surjective_pairing)
  show ?thesis
  proof (cases "capped b \<or> (\<exists>e. slots = Inl e)")
    case True
    with run have "b' = b" by (auto simp: acquire_round_def split: if_splits)
    with assms(2) show ?thesis by simp
  next
    case False
    then obtain ready where "slots = Inr ready" by (cases slots) auto
    with run False obtain cs where "try_slots i owner job cs b = (r, b')" by (auto simp: acquire_round_def Let_def)
    from try_slots_bounds [OF this] False assms(2) show ?thesis
      by (auto simp: cap_holds_def capped_def split: option.splits)
  qed
next
  case (beat now l)
  then show ?thesis
    using assms(2) by (auto simp: lease_heartbeat_def broker_heartbeat_def cap_holds_def broker_ok_updates
        dict_set_length_known broker_ok_def split: option.splits if_splits)
next
  case (drop_it now outcome l)
  then show ?thesis
    using assms(2) dict_pop_length [of "sb_leases b" "es_slot (lh_slot l)"]
    by (auto simp: lease_release_def broker_release_def cap_holds_def broker_ok_updates
        split: option.splits if_splits prod.splits sum.splits)
qed

section \<open>Properties\<close>

text \<open>C7: slots are exclusive. A round never touches a lease that has not expired. When it grants a slot,
  the slot had no lease, or one that had expired while the environment server answered that the slot is
  free, and the server said so again before the grant; the lease on file is then the caller's and runs
  for the configured time; and whoever still holds an older lease of that slot can neither extend nor
  release the new one: both attempts raise and change nothing.\<close>

theorem slot_lease_exclusive:
  assumes "acquire_round i owner job (Inr ready) b = (r, b')" "distinct (map es_slot ready)"
  shows "(\<forall>s p. dict_get (sb_leases b) s = Some p \<and> ri_now i < sl_expires_at p \<longrightarrow>
            dict_get (sb_leases b') s = Some p)
    \<and> (\<forall>l. r = Inr (Some l) \<longrightarrow>
          granted_ok i ready b b' l
          \<and> (\<forall>l' now outcome. lh_slot l' = lh_slot l \<and> lh_lease_id l' \<noteq> lh_lease_id l \<longrightarrow>
               (\<exists>e. broker_heartbeat now l' b' = (Inl e, b')) \<and> (\<exists>e. broker_release now l' outcome b' = (Inl e, b'))))"
proof (cases "capped b")
  case True
  with assms(1) show ?thesis by (auto simp: acquire_round_def)
next
  case False
  let ?key = "\<lambda>s. (count_of (gpu_counts (active_leases b)) (es_gpu s), es_slot s)"
  have run: "try_slots i owner job (sort_key ?key ready) b = (r, b')"
    using assms(1) False by (simp add: acquire_round_def Let_def)
  have "mset (map es_slot (sort_key ?key ready)) = mset (map es_slot ready)" by simp
  then have d: "distinct (map es_slot (sort_key ?key ready))"
    using assms(2) by (metis mset_eq_imp_distinct_iff)
  have granted: "granted_ok i ready b b' l" if "r = Inr (Some l)" for l
    using try_slots_granted [OF run [unfolded that] d] by (simp add: granted_ok_def)
  have "(\<exists>e. broker_heartbeat now l' b' = (Inl e, b')) \<and> (\<exists>e. broker_release now l' outcome b' = (Inl e, b'))"
    if "r = Inr (Some l)" "lh_slot l' = lh_slot l" "lh_lease_id l' \<noteq> lh_lease_id l" for l l' now outcome
    using granted [OF that(1)] that(2,3) by (auto simp: granted_ok_def broker_heartbeat_def broker_release_def)
  with granted try_slots_keeps [OF run] show ?thesis by blast
qed

text \<open>C26: the number of leases never exceeds \<open>maximum_active_slots\<close>, whatever rounds, heartbeats and
  releases the processes that share the broker make, in any order; and every lease file describes the
  slot it is named after.\<close>

theorem slot_cap_never_exceeded:
  assumes "EnvironmentSlotBroker_init lease_s timeout_s maximum = Inr b0" "broker_step\<^sup>*\<^sup>* b0 b"
  shows "(\<forall>m. maximum = Some m \<longrightarrow> int (length (active_leases b)) \<le> m)
    \<and> (\<forall>s p. dict_get (sb_leases b) s = Some p \<longrightarrow> sl_slot p = s)"
proof -
  have init: "cap_holds b0" "sb_maximum_active_slots b0 = maximum"
    using assms(1)
    by (auto simp: EnvironmentSlotBroker_init_def rbind_Inr_iff cap_holds_def broker_ok_def split: option.splits)
  from assms(2) have "cap_holds b \<and> sb_maximum_active_slots b = maximum"
    by (induction rule: rtranclp_induct) (use init broker_step_cap in auto)
  then show ?thesis by (auto simp: cap_holds_def broker_ok_def)
qed

text \<open>C36: at its cap the broker reclaims nothing. When as many leases are on file as the cap allows, a
  caller that polls gets no slot and times out without any change, also when every one of those leases
  has expired and every environment reports that it is free: expired leases count against the cap, and
  reclamation happens only below it. If the holders are gone, no slot can ever be acquired again.\<close>

theorem capped_broker_never_reclaims:
  assumes "capped b"
  shows "acquire_loop deadline owner job (\<lambda>b. b) rounds b
    \<in> {None, Some (Inl (TimeoutError [Text ''timed out acquiring a healthy free environment slot'']), b)}"
  by (induction rounds) (auto simp: acquire_round_def assms split: if_splits)

definition demo_slot :: EnvironmentSlot where
  "demo_slot = \<lparr>es_slot = 0, es_gpu = ''0'', es_endpoint = ''http://127.0.0.1:9000'', es_generation = 1\<rparr>"

definition demo_free :: health_reading where
  "demo_free = Health [(''status'', PyStr ''healthy''), (''write_protocol'', PyDict [(''phase'', PyStr ''FREE'')])]"

definition demo_round :: "real \<Rightarrow> round_input" where
  "demo_round now = \<lparr>ri_now = now, ri_fresh = ''u2'', ri_pid = 1, ri_health = (\<lambda>_ _. demo_free)\<rparr>"

definition demo_lease :: SlotLease where
  "demo_lease = \<lparr>sl_lease_id = ''slot-lease-u1'', sl_owner = ''o'', sl_job_id = ''j'', sl_slot = 0, sl_gpu = ''0'',
     sl_endpoint = ''http://127.0.0.1:9000'', sl_farm_generation = 1, sl_acquired_at = 0, sl_heartbeat_at = 0,
     sl_expires_at = 120, sl_pid = 7\<rparr>"

definition demo_broker :: "int option \<Rightarrow> EnvironmentSlotBroker" where
  "demo_broker maximum = \<lparr>sb_lease_s = 120, sb_health_timeout_s = 2, sb_maximum_active_slots = maximum,
     sb_leases = [(0, demo_lease)], sb_events = []\<rparr>"

definition demo_old_handle :: EnvironmentSlotLease where
  "demo_old_handle = \<lparr>lh_lease_id = ''slot-lease-u1'', lh_owner = ''o'', lh_job_id = ''j'', lh_slot = demo_slot,
     lh_released = False\<rparr>"

text \<open>The expired lease of a free slot is reclaimed below the cap, and its old holder is refused.\<close>

theorem slot_lease_exclusive_witness:
  "\<exists>l b'. acquire_round (demo_round 130) ''o2'' ''j2'' (Inr [demo_slot]) (demo_broker None) = (Inr (Some l), b')
     \<and> lh_lease_id l = ''slot-lease-u2'' \<and> (\<exists>e. broker_release 140 demo_old_handle ''completed'' b' = (Inl e, b'))"
proof -
  obtain l b' where run: "acquire_round (demo_round 130) ''o2'' ''j2'' (Inr [demo_slot]) (demo_broker None)
      = (Inr (Some l), b')" and l: "lh_lease_id l = ''slot-lease-u2''" "lh_slot l = demo_slot"
    by (simp add: acquire_round_def capped_def demo_broker_def clear_expired_def demo_round_def demo_free_def
        is_free_def grant_def dict_get_def dict_get_or_def demo_lease_def demo_slot_def Let_def)
  have "\<exists>e. broker_release 140 demo_old_handle ''completed'' b' = (Inl e, b')"
    using slot_lease_exclusive [OF run] l by (simp add: demo_old_handle_def)
  with run l show ?thesis by blast
qed

theorem slot_cap_never_exceeded_witness:
  "\<exists>b0. EnvironmentSlotBroker_init 120 2 (Some 1) = Inr b0
     \<and> int (length (active_leases (snd (acquire_round (demo_round 0) ''o'' ''j'' (Inr [demo_slot]) b0)))) \<le> 1"
proof -
  obtain b0 where b0: "EnvironmentSlotBroker_init 120 2 (Some 1) = Inr b0"
    by (simp add: EnvironmentSlotBroker_init_def guard_def)
  have "broker_step\<^sup>*\<^sup>* b0 (snd (acquire_round (demo_round 0) ''o'' ''j'' (Inr [demo_slot]) b0))"
    by (rule r_into_rtranclp) (rule broker_step.round)
  from slot_cap_never_exceeded [OF b0 this] b0 show ?thesis by blast
qed

theorem capped_broker_never_reclaims_witness:
  "acquire_loop 500 ''o2'' ''j2'' (\<lambda>b. b) [(demo_round 1000, Inr [demo_slot], 600)] (demo_broker (Some 1))
     = Some (Inl (TimeoutError [Text ''timed out acquiring a healthy free environment slot'']), demo_broker (Some 1))"
proof -
  have capped: "capped (demo_broker (Some 1))" by (simp add: capped_def demo_broker_def)
  have "acquire_loop 500 ''o2'' ''j2'' (\<lambda>b. b) [(demo_round 1000, Inr [demo_slot], 600)] (demo_broker (Some 1)) \<noteq> None"
    by (simp add: acquire_round_def capped)
  with capped_broker_never_reclaims [OF capped, of 500 "''o2''" "''j2''" "[(demo_round 1000, Inr [demo_slot], 600)]"]
  show ?thesis by (simp del: acquire_loop.simps)
qed

end
