(* ===== verification/Clustering.thy ===== *)
theory Clustering
  imports Evolution_Models "HOL-Library.List_Lexorder" "HOL-Library.Char_ord"
begin

text \<open>
  \<^verbatim>\<open>zetta/evolution/clustering.py\<close>: failed episodes are cut into segments, segments with the same failure
  class, stage and tool are clustered by complete linkage, and the clusters are ranked. Similarities are
  exact reals; a token is an ASCII word.
\<close>

section \<open>Similarity\<close>

definition token_char :: "char \<Rightarrow> bool" where
  "token_char c \<longleftrightarrow>
     (let n = of_char c :: nat in
      (97 \<le> n \<and> n \<le> 122) \<or> (65 \<le> n \<and> n \<le> 90) \<or> (48 \<le> n \<and> n \<le> 57) \<or> n = 95 \<or> n = 45)"

fun token_runs :: "string \<Rightarrow> string \<Rightarrow> string list" where
  "token_runs current [] = (if current = [] then [] else [rev current])"
| "token_runs current (c # cs) =
     (if token_char c then token_runs (lower_char c # current) cs
      else (if current = [] then [] else [rev current]) @ token_runs [] cs)"

definition tokens :: "string \<Rightarrow> string counter" where
  "tokens text = foldl (\<lambda>c t. dict_set c t (count_of c t + 1)) [] (token_runs [] text)"

definition counter_dot :: "string counter \<Rightarrow> string counter \<Rightarrow> int" where
  "counter_dot left right = sum_list (map (\<lambda>(key, v). v * count_of right key) left)"

definition counter_norm :: "string counter \<Rightarrow> real" where
  "counter_norm c = sqrt (of_int (sum_list (map (\<lambda>v. v * v) (dict_values c))))"

definition counter_cosine :: "string counter \<Rightarrow> string counter \<Rightarrow> real" where
  "counter_cosine left right =
     (if left = [] \<or> right = [] then 0
      else if counter_norm left \<noteq> 0 \<and> counter_norm right \<noteq> 0
      then of_int (counter_dot left right) / (counter_norm left * counter_norm right) else 0)"

definition vector_dot :: "real list \<Rightarrow> real list \<Rightarrow> real" where
  "vector_dot left right = sum_list (map (\<lambda>(a, b). a * b) (zip left right))"

definition vector_norm :: "real list \<Rightarrow> real" where
  "vector_norm v = sqrt (sum_list (map (\<lambda>x. x * x) v))"

definition vector_cosine :: "real list \<Rightarrow> real list \<Rightarrow> real option" where
  "vector_cosine left right =
     (if left = [] \<or> length left \<noteq> length right then None
      else if vector_norm left = 0 \<or> vector_norm right = 0 then None
      else Some (vector_dot left right / (vector_norm left * vector_norm right)))"

definition segment_similarity :: "FailureSegment \<Rightarrow> FailureSegment \<Rightarrow> real" where
  "segment_similarity left right =
     (let text_similarity = counter_cosine (tokens (fs_summary left)) (tokens (fs_summary right));
          weighted = [(text_similarity, 6/10)]
            @ (case vector_cosine (embedding left) (embedding right) of
                 None \<Rightarrow> [] | Some s \<Rightarrow> [(max 0 s, 3/10)])
            @ (case vector_cosine (state_signature left) (state_signature right) of
                 None \<Rightarrow> [] | Some s \<Rightarrow> [(max 0 s, 1/10)])
      in sum_list (map (\<lambda>(v, weight). v * weight) weighted) / sum_list (map snd weighted))"

section \<open>Complete linkage\<close>

text \<open>The definitions take the similarity as an argument; the program runs them with
  \<^const>\<open>segment_similarity\<close>.\<close>

type_synonym similarity = "FailureSegment \<Rightarrow> FailureSegment \<Rightarrow> real"

definition link_similarity :: "similarity \<Rightarrow> FailureSegment list \<Rightarrow> FailureSegment list \<Rightarrow> real" where
  "link_similarity sim left right = Min (set [sim a b. a \<leftarrow> left, b \<leftarrow> right])"

definition index_pairs :: "nat \<Rightarrow> (nat \<times> nat) list" where
  "index_pairs n = concat (map (\<lambda>i. map (\<lambda>j. (i, j)) [Suc i ..< n]) [0 ..< n])"

type_synonym link_candidate = "real \<times> string list \<times> nat \<times> nat"

definition consider_pair ::
  "similarity \<Rightarrow> real \<Rightarrow> FailureSegment list list \<Rightarrow> link_candidate option \<Rightarrow> nat \<times> nat \<Rightarrow> link_candidate option" where
  "consider_pair sim threshold clusters best ij =
     (case ij of (i, j) \<Rightarrow>
        (let left = clusters ! i; right = clusters ! j; s = link_similarity sim left right in
         if s < threshold then best
         else
           (let identifiers = sort (map fs_segment_id (left @ right)) in
            case best of
              None \<Rightarrow> Some (s, identifiers, i, j)
            | Some (bs, bids, bi, bj) \<Rightarrow>
                if (- s, identifiers) < (- bs, bids) then Some (s, identifiers, i, j) else best)))"

definition best_pair :: "similarity \<Rightarrow> real \<Rightarrow> FailureSegment list list \<Rightarrow> link_candidate option" where
  "best_pair sim threshold clusters =
     foldl (consider_pair sim threshold clusters) None (index_pairs (length clusters))"

text \<open>\<open>clusters[left_index] = merged; del clusters[right_index]\<close>\<close>

definition merge_pair :: "FailureSegment list list \<Rightarrow> nat \<Rightarrow> nat \<Rightarrow> FailureSegment list list" where
  "merge_pair clusters i j =
     (let merged = sort_key fs_segment_id (clusters ! i @ clusters ! j);
          updated = clusters[i := merged]
      in take j updated @ drop (Suc j) updated)"

lemma index_pairs_set: "(i, j) \<in> set (index_pairs n) \<longleftrightarrow> i < j \<and> j < n"
  by (auto simp: index_pairs_def image_iff)

lemma consider_fold:
  "foldl (consider_pair sim t cs) best ps = r \<Longrightarrow>
     (r = None \<longleftrightarrow> best = None \<and> (\<forall>(i, j) \<in> set ps. link_similarity sim (cs ! i) (cs ! j) < t))
     \<and> (\<forall>s ids i j. r = Some (s, ids, i, j) \<longrightarrow> best = Some (s, ids, i, j)
          \<or> ((i, j) \<in> set ps \<and> t \<le> link_similarity sim (cs ! i) (cs ! j)))"
proof (induction ps arbitrary: best)
  case Nil
  then show ?case by auto
next
  case (Cons p ps)
  obtain i j where p: "p = (i, j)" by fastforce
  have step: "consider_pair sim t cs best p = best \<and>
      (link_similarity sim (cs ! i) (cs ! j) < t \<or> best \<noteq> None)
    \<or> (\<exists>ids. consider_pair sim t cs best p = Some (link_similarity sim (cs ! i) (cs ! j), ids, i, j)
        \<and> t \<le> link_similarity sim (cs ! i) (cs ! j))"
    by (auto simp: consider_pair_def p Let_def not_less split: option.split)
  from Cons.IH [of "consider_pair sim t cs best p"] Cons.prems
  show ?case using step p by (auto split: prod.splits) 
qed

lemma best_pair_None:
  "best_pair sim t cs = None \<longleftrightarrow> (\<forall>i j. i < j \<and> j < length cs \<longrightarrow> link_similarity sim (cs ! i) (cs ! j) < t)"
  using consider_fold [of sim t cs None "index_pairs (length cs)" "best_pair sim t cs"]
  by (auto simp: best_pair_def index_pairs_set)

lemma best_pair_Some:
  assumes "best_pair sim t cs = Some (s, ids, i, j)"
  shows "i < j" "j < length cs" "t \<le> link_similarity sim (cs ! i) (cs ! j)"
  using consider_fold [of sim t cs None "index_pairs (length cs)" "best_pair sim t cs"] assms
  by (auto simp: best_pair_def index_pairs_set)

lemma merge_pair_length: "i < j \<Longrightarrow> j < length cs \<Longrightarrow> length (merge_pair cs i j) < length cs"
  by (simp add: merge_pair_def Let_def)

lemma best_pair_shrinks:
  "best_pair sim t cs = Some (s, ids, i, j) \<Longrightarrow> length (merge_pair cs i j) < length cs"
  by (rule merge_pair_length) (rule best_pair_Some, assumption)+

function complete_link_loop :: "similarity \<Rightarrow> real \<Rightarrow> FailureSegment list list \<Rightarrow> FailureSegment list list" where
  "complete_link_loop sim threshold clusters =
     (case best_pair sim threshold clusters of
        None \<Rightarrow> clusters
      | Some (s, ids, i, j) \<Rightarrow> complete_link_loop sim threshold (merge_pair clusters i j))"
  by pat_completeness auto
termination
  by (relation "measure (\<lambda>(sim, t, cs). length cs)") (auto intro: best_pair_shrinks)

declare complete_link_loop.simps [simp del]

definition complete_link_clusters :: "similarity \<Rightarrow> FailureSegment list \<Rightarrow> real \<Rightarrow> FailureSegment list list" where
  "complete_link_clusters sim segs threshold =
     complete_link_loop sim threshold (map (\<lambda>x. [x]) (sort_key fs_segment_id segs))"

section \<open>Failure clusters\<close>

definition segment_key :: "FailureSegment \<Rightarrow> string \<times> string \<times> string" where
  "segment_key s =
     (failure_class s, fs_stage s, case fs_tool s of None \<Rightarrow> [] | Some t \<Rightarrow> t)"

definition hard_groups :: "FailureSegment list \<Rightarrow> (string \<times> string \<times> string, FailureSegment list) dict" where
  "hard_groups ordered =
     foldl (\<lambda>d s. dict_set d (segment_key s) (dict_get_or d (segment_key s) [] @ [s])) [] ordered"

definition raw_clusters ::
  "similarity \<Rightarrow> real \<Rightarrow> FailureSegment list \<Rightarrow> ((string \<times> string \<times> string) \<times> FailureSegment list) list" where
  "raw_clusters sim threshold ordered =
     concat (map (\<lambda>(key, segs). map (\<lambda>component. (key, component)) (complete_link_clusters sim segs threshold))
       (sort_key fst (hard_groups ordered)))"

definition cluster_rank ::
  "(string \<times> string \<times> string) \<times> FailureSegment list \<Rightarrow> int \<times> real \<times> (string \<times> string \<times> string) \<times> string" where
  "cluster_rank item =
     (- int (length (snd item)), - sum_list (map severity (snd item)), fst item, fs_segment_id (hd (snd item)))"

definition pair_score :: "similarity \<Rightarrow> FailureSegment list \<Rightarrow> FailureSegment \<Rightarrow> real" where
  "pair_score sim members m = sum_list (map (sim m) members)"

definition pad3 :: "nat \<Rightarrow> string" where
  "pad3 n = (let s = nat_str n in replicate (3 - length s) CHR ''0'' @ s)"

text \<open>\<open>tuple(sorted(set))\<close> of texts is the sorted list without repetitions.\<close>

definition make_cluster ::
  "similarity \<Rightarrow> nat \<Rightarrow> int \<Rightarrow> nat \<Rightarrow> (string \<times> string \<times> string) \<times> FailureSegment list \<Rightarrow> FailureCluster" where
  "make_cluster sim total_count representatives index item =
     (let members = snd item;
          medoid = hd (sort_key (\<lambda>m. (- pair_score sim members m, fs_segment_id m)) members);
          ranked = take (nat (max 1 representatives))
            (sort_key (\<lambda>m. (- severity m, - pair_score sim members m, fs_segment_id m)) members)
      in \<lparr>fc_cluster_id = ''cluster-'' @ pad3 index, hard_key = fst item,
          member_segment_ids = map fs_segment_id members,
          fc_episode_ids = remdups (sort (map fs_episode_id members)),
          representative_segment_ids = map fs_segment_id ranked,
          medoid_segment_id = fs_segment_id medoid, fc_summary = fs_summary medoid,
          prevalence = real (length members) / real total_count,
          mean_severity = sum_list (map severity members) / real (length members)\<rparr>)"

definition cluster_with ::
  "similarity \<Rightarrow> FailureSegment list \<Rightarrow> real \<Rightarrow> int \<Rightarrow> exn + FailureCluster list" where
  "cluster_with sim segments similarity_threshold representatives =
     rbind (guard (0 \<le> similarity_threshold \<and> similarity_threshold \<le> 1)
              (ValueError [Text ''similarity_threshold must be in [0, 1]''])) (\<lambda>_.
     (let ordered = sort_key fs_segment_id segments in
      if ordered = [] then Inr []
      else
        rbind (guard (card (set (map fs_segment_id ordered)) = length ordered)
                 (ValueError [Text ''failure segment identifiers must be unique''])) (\<lambda>_.
        (let ranked = sort_key cluster_rank (raw_clusters sim similarity_threshold ordered) in
         Inr (map (\<lambda>(index, item). make_cluster sim (length ordered) representatives index item)
                (enumerate 1 ranked))))))"

definition cluster_failure_segments ::
  "FailureSegment list \<Rightarrow> real \<Rightarrow> int \<Rightarrow> exn + FailureCluster list" where
  "cluster_failure_segments = cluster_with segment_similarity"

section \<open>The similarity is symmetric\<close>

lemma tokens_ok: "dict_ok (tokens text)"
proof -
  have "dict_ok c \<Longrightarrow> dict_ok (foldl (\<lambda>c t. dict_set c t (count_of c t + 1)) c ts)" for c :: "string counter" and ts
    by (induction ts arbitrary: c) simp_all
  then show ?thesis by (simp add: tokens_def)
qed

lemma counter_dot_sum:
  assumes "dict_ok c"
  shows "counter_dot c d = (\<Sum>k \<in> set (dict_keys c) \<inter> set (dict_keys d). count_of c k * count_of d k)"
proof -
  have "counter_dot c d = (\<Sum>p \<in> set c. case p of (k, v) \<Rightarrow> v * count_of d k)"
    using assms unfolding counter_dot_def dict_ok_def
    by (intro sum_list_distinct_conv_sum_set) (simp add: distinct_map)
  also have "\<dots> = (\<Sum>p \<in> set c. count_of c (fst p) * count_of d (fst p))"
  proof (rule sum.cong [OF HOL.refl])
    fix p assume "p \<in> set c"
    then have "count_of c (fst p) = snd p"
      using dict_get_in [OF assms, of "fst p" "snd p"] by (simp add: count_of_def dict_get_or_def)
    then show "(case p of (k, v) \<Rightarrow> v * count_of d k) = count_of c (fst p) * count_of d (fst p)"
      by (simp add: case_prod_beta)
  qed
  also have "\<dots> = (\<Sum>k \<in> set (dict_keys c). count_of c k * count_of d k)"
    using assms by (simp add: dict_keys_def dict_ok_def distinct_map sum.reindex)
  also have "\<dots> = (\<Sum>k \<in> set (dict_keys c) \<inter> set (dict_keys d). count_of c k * count_of d k)"
    by (rule sum.mono_neutral_right) (auto simp: dict_keys_iff count_of_def dict_get_or_def split: option.splits)
  finally show ?thesis .
qed

lemma counter_cosine_commute: "dict_ok c \<Longrightarrow> dict_ok d \<Longrightarrow> counter_cosine c d = counter_cosine d c"
  by (simp add: counter_cosine_def counter_dot_sum Int_commute mult.commute)

lemma vector_dot_commute: "length u = length v \<Longrightarrow> vector_dot u v = vector_dot v u"
  by (induction u v rule: list_induct2) (simp_all add: vector_dot_def mult.commute)

lemma vector_cosine_commute: "vector_cosine u v = vector_cosine v u"
  using vector_dot_commute [of u v] by (auto simp: vector_cosine_def mult.commute)

lemma segment_similarity_commute: "segment_similarity x y = segment_similarity y x"
  by (simp add: segment_similarity_def counter_cosine_commute tokens_ok
      vector_cosine_commute [of "embedding x"] vector_cosine_commute [of "state_signature x"])

section \<open>Complete linkage is a partition into cliques\<close>

definition clique :: "similarity \<Rightarrow> real \<Rightarrow> FailureSegment list \<Rightarrow> bool" where
  "clique sim t C \<longleftrightarrow> C \<noteq> [] \<and> (\<forall>x \<in> set C. \<forall>y \<in> set C. x \<noteq> y \<longrightarrow> t \<le> sim x y)"

definition apart :: "similarity \<Rightarrow> real \<Rightarrow> FailureSegment list \<Rightarrow> FailureSegment list \<Rightarrow> bool" where
  "apart sim t C D \<longleftrightarrow> (\<exists>x \<in> set C. \<exists>y \<in> set D. sim x y < t)"

lemma link_set: "set [sim a b. a \<leftarrow> left, b \<leftarrow> right] = (\<lambda>(a, b). sim a b) ` (set left \<times> set right)"
  by (auto simp: image_iff)

lemma link_similarity_ge:
  assumes "t \<le> link_similarity sim left right" "a \<in> set left" "b \<in> set right"
  shows "t \<le> sim a b"
proof -
  have "link_similarity sim left right \<le> sim a b"
    unfolding link_similarity_def link_set by (rule Min_le) (use assms(2,3) in auto)
  with assms(1) show ?thesis by simp
qed

lemma link_similarity_less:
  assumes "link_similarity sim left right < t" "left \<noteq> []" "right \<noteq> []"
  shows "apart sim t left right"
proof -
  have "link_similarity sim left right \<in> (\<lambda>(a, b). sim a b) ` (set left \<times> set right)"
    unfolding link_similarity_def link_set by (rule Min_in) (use assms(2,3) in auto)
  then obtain a b where "a \<in> set left" "b \<in> set right" "link_similarity sim left right = sim a b" by auto
  with assms(1) show ?thesis unfolding apart_def by metis
qed

lemma merge_pair_split:
  assumes "i < j" "j < length cs"
  obtains A B C where "cs = A @ [cs ! i] @ B @ [cs ! j] @ C"
    "merge_pair cs i j = A @ [sort_key fs_segment_id (cs ! i @ cs ! j)] @ B @ C"
proof -
  let ?k = "j - Suc i"
  define A B C where "A = take i cs" and "B = take ?k (drop (Suc i) cs)" and "C = drop (Suc j) cs"
  have "drop (Suc i) cs = B @ drop (Suc i) cs ! ?k # drop (Suc ?k) (drop (Suc i) cs)"
    unfolding B_def by (rule id_take_nth_drop) (use assms in simp)
  then have cs: "cs = A @ [cs ! i] @ B @ [cs ! j] @ C"
    using id_take_nth_drop [of i cs] assms by (simp add: A_def C_def)
  have len: "length A = i" "j = Suc (i + length B)" using assms by (simp_all add: A_def B_def)
  have "merge_pair (A @ [x] @ B @ [y] @ C) i j = A @ [sort_key fs_segment_id (x @ y)] @ B @ C" for x y
    using len by (auto simp: merge_pair_def Let_def nth_append list_update_append)
  from this [of "cs ! i" "cs ! j"] cs that show ?thesis by metis
qed

lemma clique_merge:
  assumes "clique sim t x" "clique sim t y" "t \<le> link_similarity sim x y" "\<And>a b. sim a b = sim b a"
  shows "clique sim t (sort_key fs_segment_id (x @ y))"
proof -
  have "t \<le> sim a b" if "a \<in> set x \<union> set y" "b \<in> set x \<union> set y" "a \<noteq> b" for a b
  proof -
    consider "a \<in> set x" "b \<in> set x" | "a \<in> set y" "b \<in> set y" | "a \<in> set x" "b \<in> set y"
      | "b \<in> set x" "a \<in> set y" using \<open>a \<in> set x \<union> set y\<close> \<open>b \<in> set x \<union> set y\<close> by blast
    then show ?thesis
    proof cases
      case 1
      then show ?thesis using assms(1) \<open>a \<noteq> b\<close> by (simp add: clique_def)
    next
      case 2
      then show ?thesis using assms(2) \<open>a \<noteq> b\<close> by (simp add: clique_def)
    next
      case 3
      then show ?thesis by (rule link_similarity_ge [OF assms(3)])
    next
      case 4
      then show ?thesis using link_similarity_ge [OF assms(3) 4] assms(4) [of a b] by simp
    qed
  qed
  moreover have "sort_key fs_segment_id (x @ y) \<noteq> []"
    using assms(1) by (metis append_is_Nil_conv clique_def length_0_conv length_sort)
  ultimately show ?thesis unfolding clique_def by simp
qed

lemma complete_link_loop_ok:
  assumes "\<And>a b. sim a b = sim b a" "\<forall>C \<in> set cs. clique sim t C"
  shows "mset (concat (complete_link_loop sim t cs)) = mset (concat cs)
    \<and> (\<forall>C \<in> set (complete_link_loop sim t cs). clique sim t C)
    \<and> (\<forall>i j. i < j \<and> j < length (complete_link_loop sim t cs) \<longrightarrow>
          apart sim t (complete_link_loop sim t cs ! i) (complete_link_loop sim t cs ! j))"
  using assms(2)
proof (induction "length cs" arbitrary: cs rule: less_induct)
  case less
  show ?case
  proof (cases "best_pair sim t cs")
    case None
    then have "complete_link_loop sim t cs = cs" by (subst complete_link_loop.simps) simp
    moreover have "apart sim t (cs ! i) (cs ! j)" if "i < j" "j < length cs" for i j
      using None that less.prems
      by (intro link_similarity_less) (auto simp: best_pair_None clique_def)
    ultimately show ?thesis using less.prems by simp
  next
    case (Some c)
    obtain s ids i j where c: "c = (s, ids, i, j)" by (cases c)
    note best = best_pair_Some [OF Some [unfolded c]]
    define x y where xy: "x = cs ! i" "y = cs ! j"
    obtain A B C where cs: "cs = A @ [x] @ B @ [y] @ C"
      and new: "merge_pair cs i j = A @ [sort_key fs_segment_id (x @ y)] @ B @ C"
      unfolding xy by (rule merge_pair_split [OF best(1,2)])
    have run: "complete_link_loop sim t cs = complete_link_loop sim t (merge_pair cs i j)"
      using Some c by (subst complete_link_loop.simps) simp
    have "clique sim t x" "clique sim t y" using less.prems best(1,2) by (simp_all add: xy)
    note merged = clique_merge [OF this best(3) [folded xy] assms(1)]
    have "\<forall>D \<in> set A \<union> set B \<union> set C. clique sim t D" using less.prems cs by simp
    with merged have cliques: "\<forall>D \<in> set (merge_pair cs i j). clique sim t D"
      unfolding new by auto
    have "mset (concat (merge_pair cs i j)) = mset (concat cs)"
      unfolding new using cs by simp
    then show ?thesis
      using less.hyps [OF best_pair_shrinks [OF Some [unfolded c]] cliques] by (simp add: run)
  qed
qed

lemma complete_link_clusters_ok:
  assumes "\<And>a b. sim a b = sim b a"
  shows "mset (concat (complete_link_clusters sim segs t)) = mset segs"
    and "C \<in> set (complete_link_clusters sim segs t) \<Longrightarrow> clique sim t C"
    and "C \<in> set (complete_link_clusters sim segs t) \<Longrightarrow> D \<in> set (complete_link_clusters sim segs t) \<Longrightarrow> C \<noteq> D
      \<Longrightarrow> apart sim t C D"
proof -
  let ?start = "map (\<lambda>x. [x]) (sort_key fs_segment_id segs)" and ?r = "complete_link_clusters sim segs t"
  have singles: "\<forall>C \<in> set ?start. clique sim t C" by (auto simp: clique_def)
  have "concat ?start = sort_key fs_segment_id segs" by (induction "sort_key fs_segment_id segs") simp_all
  note ok = complete_link_loop_ok [OF assms singles, folded complete_link_clusters_def]
  show "mset (concat ?r) = mset segs" using ok by (simp add: \<open>concat ?start = _\<close>)
  show "C \<in> set ?r \<Longrightarrow> clique sim t C" using ok by blast
  show "apart sim t C D" if cd: "C \<in> set ?r" "D \<in> set ?r" "C \<noteq> D"
  proof -
    obtain i where i: "i < length ?r" "?r ! i = C" using cd(1) by (auto simp: in_set_conv_nth)
    obtain j where j: "j < length ?r" "?r ! j = D" using cd(2) by (auto simp: in_set_conv_nth)
    have ij: "i < length ?r" "j < length ?r" "?r ! i = C" "?r ! j = D" "i \<noteq> j"
      using i j cd(3) by auto
    have "apart sim t C D \<or> apart sim t D C"
    proof (cases "i < j")
      case True
      then show ?thesis using ok ij by blast
    next
      case False
      then have "j < i" using ij(5) by simp
      then show ?thesis using ok ij by blast
    qed
    moreover have "apart sim t D C \<Longrightarrow> apart sim t C D" unfolding apart_def using assms by metis
    ultimately show ?thesis by blast
  qed
qed

section \<open>Groups and ranking\<close>

lemma hard_groups_snoc:
  "hard_groups (xs @ [s]) =
     dict_set (hard_groups xs) (segment_key s) (dict_get_or (hard_groups xs) (segment_key s) [] @ [s])"
  by (simp add: hard_groups_def)

lemma hard_groups_ok:
  "dict_ok (hard_groups xs)"
  "dict_get_or (hard_groups xs) k [] = filter (\<lambda>s. segment_key s = k) xs"
  "dict_bag (hard_groups xs) = mset xs"
proof (induction xs rule: rev_induct)
  case Nil
  { case 1 show ?case by (simp add: hard_groups_def) }
  { case 2 show ?case by (simp add: hard_groups_def dict_get_or_def) }
  { case 3 show ?case by (simp add: hard_groups_def dict_bag_def dict_values_def) }
next
  case (snoc s xs)
  { case 1 show ?case using snoc(1) by (simp add: hard_groups_snoc) }
  { case 2 show ?case using snoc(2) by (simp add: hard_groups_snoc dict_get_or_def [of "dict_set _ _ _"]) (simp add: dict_get_or_def) }
  { case 3 show ?case
      using dict_bag_set [of "hard_groups xs" "segment_key s" "dict_get_or (hard_groups xs) (segment_key s) [] @ [s]"]
        snoc(3) by (simp add: hard_groups_snoc) }
qed

lemma raw_clusters_in:
  assumes "(k, C) \<in> set (raw_clusters sim t xs)"
  shows "C \<in> set (complete_link_clusters sim (filter (\<lambda>s. segment_key s = k) xs) t)"
proof -
  obtain segs where kg: "(k, segs) \<in> set (hard_groups xs)" and C: "C \<in> set (complete_link_clusters sim segs t)"
    using assms by (auto simp: raw_clusters_def)
  have "dict_get (hard_groups xs) k = Some segs" using kg dict_get_in [OF hard_groups_ok(1)] by simp
  then have "segs = filter (\<lambda>s. segment_key s = k) xs" using hard_groups_ok(2) [of xs k] by (simp add: dict_get_or_def)
  with C show ?thesis by simp
qed

lemma raw_clusters_mset:
  assumes "\<And>a b. sim a b = sim b a"
  shows "mset (concat (map snd (raw_clusters sim t xs))) = mset xs"
proof -
  have "mset (concat (map snd (concat (map (\<lambda>(key, segs). map (Pair key) (complete_link_clusters sim segs t)) d))))
      = dict_bag d" for d :: "(string \<times> string \<times> string, FailureSegment list) dict"
    by (induction d) (auto simp: dict_bag_def dict_values_def comp_def complete_link_clusters_ok(1) [OF assms])
  moreover have "dict_bag (sort_key fst d) = dict_bag d" for d :: "(string \<times> string \<times> string, FailureSegment list) dict"
  proof -
    have "dict_bag e = \<Sum>\<^sub># (image_mset (\<lambda>p. mset (snd p)) (mset e))"
      for e :: "(string \<times> string \<times> string, FailureSegment list) dict"
      by (induction e) (simp_all add: dict_bag_def dict_values_def)
    then show ?thesis by simp
  qed
  ultimately show ?thesis by (simp add: raw_clusters_def hard_groups_ok(3))
qed

lemma raw_clusters_member:
  assumes "\<And>a b. sim a b = sim b a" "(k, C) \<in> set (raw_clusters sim t xs)"
  shows "clique sim t C" and "x \<in> set C \<Longrightarrow> segment_key x = k"
proof -
  note C = raw_clusters_in [OF assms(2)]
  show "clique sim t C" by (rule complete_link_clusters_ok(2) [OF assms(1) C])
  let ?segs = "filter (\<lambda>s. segment_key s = k) xs"
  have "set_mset (mset (concat (complete_link_clusters sim ?segs t))) = set_mset (mset ?segs)"
    by (simp only: complete_link_clusters_ok(1) [OF assms(1)])
  then have "set (concat (complete_link_clusters sim ?segs t)) = set ?segs" by (simp only: set_mset_mset)
  then show "x \<in> set C \<Longrightarrow> segment_key x = k" using C by auto
qed

lemma make_cluster_fields [simp]:
  "member_segment_ids (make_cluster sim n r i item) = map fs_segment_id (snd item)"
  "hard_key (make_cluster sim n r i item) = fst item"
  by (simp_all add: make_cluster_def Let_def)

lemma medoid_member:
  assumes "snd item \<noteq> []"
  shows "medoid_segment_id (make_cluster sim n r i item) \<in> fs_segment_id ` set (snd item)"
  by (simp add: make_cluster_def Let_def) (rule imageI, rule hd_sort_key_in [OF assms])

lemma concat_snd_mset: "mset (concat (map snd l)) = \<Sum>\<^sub># (image_mset (\<lambda>p. mset (snd p)) (mset l))"
  by (induction l) simp_all

text \<open>With a threshold in range and distinct identifiers clustering returns.\<close>

lemma cluster_with_total:
  assumes "0 \<le> t" "t \<le> 1" "distinct (map fs_segment_id segments)"
  shows "\<exists>clusters. cluster_with sim segments t reps = Inr clusters"
proof -
  have "card (set (map fs_segment_id segments)) = length segments"
    using distinct_card [OF assms(3)] by simp
  then show ?thesis using assms(1,2) by (auto simp: cluster_with_def Let_def guard_def)
qed

lemma clusters_are_ranked:
  assumes "cluster_with sim segments t reps = Inr clusters"
  obtains ranked where "mset ranked = mset (raw_clusters sim t (sort_key fs_segment_id segments))"
    "sorted (map cluster_rank ranked)"
    "clusters = map (\<lambda>(i, item). make_cluster sim (length segments) reps i item) (enumerate 1 ranked)"
proof (cases "segments = []")
  case True
  then have "clusters = []" using assms by (simp add: cluster_with_def)
  with True that [of "[]"] show ?thesis by (simp add: raw_clusters_def hard_groups_def)
next
  case False
  then have "sort_key fs_segment_id segments \<noteq> []" by (metis length_0_conv length_sort)
  with assms that [of "sort_key cluster_rank (raw_clusters sim t (sort_key fs_segment_id segments))"]
  show ?thesis by (simp add: cluster_with_def Let_def)
qed

lemma rank_sizes:
  assumes "sorted (map cluster_rank ranked)"
  shows "sorted_wrt (\<lambda>g h. length h \<le> length g) (map snd ranked)"
  using assms
  by (simp add: sorted_map sorted_wrt_map) (erule sorted_wrt_mono_rel [rotated], auto simp: cluster_rank_def less_eq_prod_def)

section \<open>Properties\<close>

text \<open>C15: clustering is a partition by complete linkage. The clusters returned correspond to groups of
  segments that together are exactly the segments given, each once. All members of a group share the
  cluster's failure class, stage and tool; any two of them are at least as similar as the threshold; two
  groups with the same key could not have been merged, since some member of the one is less similar than
  the threshold to some member of the other; the medoid is a member; and the clusters come in the order
  of their size, the largest first.\<close>

theorem clusters_partition_complete_link:
  assumes "cluster_failure_segments segments threshold representatives = Inr clusters"
  shows "\<exists>groups. mset (concat groups) = mset segments
    \<and> list_all2 (\<lambda>c g. member_segment_ids c = map fs_segment_id g \<and> g \<noteq> []
         \<and> (\<forall>x \<in> set g. segment_key x = hard_key c) \<and> medoid_segment_id c \<in> set (member_segment_ids c)) clusters groups
    \<and> (\<forall>g \<in> set groups. \<forall>x \<in> set g. \<forall>y \<in> set g. x \<noteq> y \<longrightarrow> threshold \<le> segment_similarity x y)
    \<and> (\<forall>g \<in> set groups. \<forall>h \<in> set groups. g \<noteq> h \<and> segment_key (hd g) = segment_key (hd h) \<longrightarrow>
         (\<exists>x \<in> set g. \<exists>y \<in> set h. segment_similarity x y < threshold))
    \<and> sorted_wrt (\<lambda>g h. length h \<le> length g) groups"
proof -
  let ?sim = segment_similarity and ?xs = "sort_key fs_segment_id segments"
  obtain ranked where raw: "mset ranked = mset (raw_clusters ?sim threshold ?xs)"
    and sorted: "sorted (map cluster_rank ranked)"
    and clusters: "clusters = map (\<lambda>(i, item). make_cluster ?sim (length segments) representatives i item)
      (enumerate 1 ranked)"
    using assms unfolding cluster_failure_segments_def by (rule clusters_are_ranked)
  have in_raw: "item \<in> set (raw_clusters ?sim threshold ?xs)" if "item \<in> set ranked" for item
    using that raw by (metis set_mset_mset)
  have item: "clique ?sim threshold (snd item) \<and> (\<forall>x \<in> set (snd item). segment_key x = fst item)"
    if "item \<in> set ranked" for item
    using raw_clusters_member [OF segment_similarity_commute, of "fst item" "snd item"] in_raw [OF that] by simp
  have parts: "mset (concat (map snd ranked)) = mset segments"
    unfolding concat_snd_mset raw
    by (simp only: concat_snd_mset [symmetric] raw_clusters_mset [OF segment_similarity_commute] mset_sort)
  have each: "list_all2 (\<lambda>c g. member_segment_ids c = map fs_segment_id g \<and> g \<noteq> []
      \<and> (\<forall>x \<in> set g. segment_key x = hard_key c) \<and> medoid_segment_id c \<in> set (member_segment_ids c))
    clusters (map snd ranked)"
  proof (rule list_all2_all_nthI)
    fix n assume "n < length clusters"
    then have n: "n < length ranked" by (simp add: clusters)
    then have nth: "clusters ! n = make_cluster ?sim (length segments) representatives (Suc n) (ranked ! n)"
      by (simp add: clusters nth_enumerate_eq)
    have ok: "clique ?sim threshold (snd (ranked ! n))" "\<forall>x \<in> set (snd (ranked ! n)). segment_key x = fst (ranked ! n)"
      using item [of "ranked ! n"] n by simp_all
    then have "snd (ranked ! n) \<noteq> []" by (simp add: clique_def)
    then show "member_segment_ids (clusters ! n) = map fs_segment_id (map snd ranked ! n) \<and> map snd ranked ! n \<noteq> []
        \<and> (\<forall>x \<in> set (map snd ranked ! n). segment_key x = hard_key (clusters ! n))
        \<and> medoid_segment_id (clusters ! n) \<in> set (member_segment_ids (clusters ! n))"
      using ok n medoid_member [of "ranked ! n"] by (simp add: nth)
  qed (simp add: clusters)
  have separate: "\<exists>x \<in> set (snd a). \<exists>y \<in> set (snd b). ?sim x y < threshold"
    if ab: "a \<in> set ranked" "b \<in> set ranked" "snd a \<noteq> snd b" "segment_key (hd (snd a)) = segment_key (hd (snd b))" for a b
  proof -
    have "fst a = fst b" using item [OF ab(1)] item [OF ab(2)] ab(4) by (metis clique_def hd_in_set)
    then have b: "(fst a, snd b) \<in> set (raw_clusters ?sim threshold ?xs)" using in_raw [OF ab(2)] by simp
    have a: "(fst a, snd a) \<in> set (raw_clusters ?sim threshold ?xs)" using in_raw [OF ab(1)] by simp
    have "apart ?sim threshold (snd a) (snd b)"
      by (rule complete_link_clusters_ok(3) [OF _ raw_clusters_in [OF a] raw_clusters_in [OF b] ab(3)])
        (rule segment_similarity_commute)
    then show ?thesis by (simp add: apart_def)
  qed
  show ?thesis
    by (rule exI [of _ "map snd ranked"])
      (use parts each item separate rank_sizes [OF sorted] in \<open>auto simp: clique_def\<close>)
qed

definition demo_segment :: "string \<Rightarrow> string \<Rightarrow> FailureSegment" where
  "demo_segment sid cls = \<lparr>fs_segment_id = sid, fs_episode_id = ''e'', failure_class = cls, fs_stage = ''grasp'',
     fs_tool = None, fs_summary = ''gripper slipped'', earliest_divergence_step = None, start_step = 0,
     end_step = 9, severity = 1, state_signature = [], embedding = [], artifact_paths = []\<rparr>"

theorem clusters_partition_complete_link_witness:
  "\<exists>clusters. cluster_failure_segments [demo_segment ''a'' ''slip'', demo_segment ''b'' ''slip''] (72/100) 3 = Inr clusters
     \<and> sum_list (map (\<lambda>c. length (member_segment_ids c)) clusters) = 2"
proof -
  let ?segs = "[demo_segment ''a'' ''slip'', demo_segment ''b'' ''slip'']"
  obtain clusters where run: "cluster_failure_segments ?segs (72/100) 3 = Inr clusters"
    using cluster_with_total [of "72/100" ?segs segment_similarity 3]
    by (auto simp: cluster_failure_segments_def demo_segment_def)
  from clusters_partition_complete_link [OF run] obtain groups where
    parts: "mset (concat groups) = mset ?segs"
    and each: "list_all2 (\<lambda>c g. member_segment_ids c = map fs_segment_id g) clusters groups"
    by (metis (no_types, lifting) list_all2_mono)
  from each have "sum_list (map (\<lambda>c. length (member_segment_ids c)) clusters) = length (concat groups)"
    by (induction rule: list_all2_induct) auto
  also have "\<dots> = 2" using parts by (metis length_Cons list.size(3) numeral_2_eq_2 size_mset)
  finally show ?thesis using run by blast
qed

end
