(* ===== verification/Seed_Plan.thy ===== *)
theory Seed_Plan
  imports Evolution_Models
begin

text \<open>
  \<^verbatim>\<open>zetta/evolution/schedule.py\<close> and \<^verbatim>\<open>zetta/evolution/protocol.py\<close>: the preregistered seeds of a campaign and
  the protocol they have to fit. SHA-256 (as its bytes) and the shuffle of \<open>random.Random(seed)\<close> are
  parameters; the only thing used of the shuffle is that it permutes the list.
\<close>

section \<open>Schedules\<close>

definition bytes_value :: "nat list \<Rightarrow> nat" where
  "bytes_value bytes = foldl (\<lambda>acc byte. 256 * acc + byte) 0 bytes"

definition policy_rng_seed :: "(string \<Rightarrow> nat list) \<Rightarrow> int \<Rightarrow> string \<Rightarrow> int \<Rightarrow> int" where
  "policy_rng_seed sha256 master_seed task environment_seed =
     (let payload = int_str master_seed @ [CHR 0x00] @ task @ [CHR 0x00] @ int_str environment_seed
      in int (bytes_value (take 8 (sha256 payload)) mod 2 ^ 31))"

text \<open>\<open>list(dict.fromkeys(values))\<close>: each value once, where it first occurs.\<close>

fun first_occurrences :: "int list \<Rightarrow> int list" where
  "first_occurrences [] = []"
| "first_occurrences (x # xs) = x # filter (\<lambda>y. y \<noteq> x) (first_occurrences xs)"

text \<open>The rollout candidates left when a fixed held-out block is given.\<close>

definition isolate_heldout :: "int \<Rightarrow> int \<Rightarrow> int list \<Rightarrow> int list \<Rightarrow> exn + int list" where
  "isolate_heldout rollout_count heldout_count candidates fixed =
     rbind (guard (int (length fixed) = heldout_count)
              (ValueError [Text ''fixed heldout schedule has '', IntF (int (length fixed)), Text '' values; expected '',
                 IntF heldout_count])) (\<lambda>_.
     rbind (guard (card (set fixed) = length fixed)
              (ValueError [Text ''fixed heldout schedule contains duplicate seeds''])) (\<lambda>_.
     rbind (guard (set fixed - set candidates = {})
              (ValueError ([Text ''fixed heldout seeds are outside the population: '']
                 @ map IntF (sorted_list_of_set (set fixed - set candidates))))) (\<lambda>_.
     (let left = filter (\<lambda>seed. seed \<notin> set fixed) candidates in
      if int (length left) < rollout_count
      then Inl (ValueError [Text ''seed population has '', IntF (int (length left)),
                 Text '' rollout values after heldout isolation; need '', IntF rollout_count])
      else Inr left))))"

definition preregister_seed_schedule ::
  "(string \<Rightarrow> nat list) \<Rightarrow> (int \<Rightarrow> int list \<Rightarrow> int list) \<Rightarrow> int \<Rightarrow> string \<Rightarrow> int \<Rightarrow> int \<Rightarrow> int list \<Rightarrow> int list option
     \<Rightarrow> exn + int list \<times> int list \<times> (string, int) dict" where
  "preregister_seed_schedule sha256 shuffle master_seed task rollout_count heldout_count population fixed_seeds =
     rbind (guard (\<not> (rollout_count < 1 \<or> heldout_count < 1))
              (ValueError [Text ''rollout_count and heldout_count must be positive''])) (\<lambda>_.
     (let candidates = first_occurrences population in
      rbind (case fixed_seeds of
               Some fixed \<Rightarrow> isolate_heldout rollout_count heldout_count candidates fixed
             | None \<Rightarrow>
                 if int (length candidates) < rollout_count + heldout_count
                 then Inl (ValueError [Text ''seed population has '', IntF (int (length candidates)),
                            Text '' values; need '', IntF (rollout_count + heldout_count)])
                 else Inr candidates) (\<lambda>usable.
      (let shuffled = shuffle master_seed usable;
           rollout = take (nat rollout_count) shuffled;
           heldout = (case fixed_seeds of
               Some fixed \<Rightarrow> fixed
             | None \<Rightarrow> take (nat heldout_count) (drop (nat rollout_count) shuffled));
           policy = foldl (\<lambda>d seed. dict_set d (int_str seed) (policy_rng_seed sha256 master_seed task seed)) []
             (rollout @ heldout)
       in Inr (rollout, heldout, policy)))))"

section \<open>Protocols\<close>

record EvolutionProtocol =
  rollout_count :: int
  ep_heldout_seeds :: "int list"
  heldout_mode :: string
  same_seed_pass_rate :: real
  same_seed_max_rounds :: int
  heldout_alpha :: real
  heldout_min_gain :: int
  heldout_min_success_rate :: real
  heldout_require_significance :: bool
  heldout_max_rounds :: int
  ep_max_infrastructure_attempts :: int
  max_candidate_rounds_per_cluster :: int
  maximum_target_clusters :: int
  maximum_total_candidate_rounds :: int
  regression_required :: bool
  regression_scope :: string

definition default_protocol :: EvolutionProtocol where
  "default_protocol = \<lparr>rollout_count = 50, ep_heldout_seeds = [1..20], heldout_mode = ''test'',
     same_seed_pass_rate = 1/2, same_seed_max_rounds = 2, heldout_alpha = 25/1000, heldout_min_gain = 1,
     heldout_min_success_rate = 0, heldout_require_significance = True, heldout_max_rounds = 1,
     ep_max_infrastructure_attempts = 2, max_candidate_rounds_per_cluster = 8, maximum_target_clusters = 2,
     maximum_total_candidate_rounds = 25, regression_required = True, regression_scope = ''target_cluster''\<rparr>"

fun check_positive :: "(string \<times> int) list \<Rightarrow> exn + unit" where
  "check_positive [] = Inr ()"
| "check_positive ((name, v) # rest) =
     rbind (guard (\<not> v < 1) (ValueError [Text name, Text '' must be positive''])) (\<lambda>_. check_positive rest)"

definition EvolutionProtocol_check :: "EvolutionProtocol \<Rightarrow> exn + unit" where
  "EvolutionProtocol_check p =
     rbind (guard (\<not> rollout_count p < 1) (ValueError [Text ''rollout_count must be positive''])) (\<lambda>_.
     rbind (guard (ep_heldout_seeds p \<noteq> []) (ValueError [Text ''heldout_seeds must not be empty''])) (\<lambda>_.
     rbind (guard (card (set (ep_heldout_seeds p)) = length (ep_heldout_seeds p))
              (ValueError [Text ''heldout_seeds must be unique''])) (\<lambda>_.
     rbind (guard (heldout_mode p \<in> set [''test'', ''validation''])
              (ValueError [Text ''heldout_mode must be '', Repr ''test'', Text '' or '', Repr ''validation''])) (\<lambda>_.
     rbind (guard (regression_scope p \<in> set [''target_cluster'', ''all_development''])
              (ValueError [Text ''unsupported regression_scope''])) (\<lambda>_.
     rbind (guard (0 < same_seed_pass_rate p \<and> same_seed_pass_rate p \<le> 1)
              (ValueError [Text ''same_seed_pass_rate must be in (0, 1]''])) (\<lambda>_.
     rbind (guard (0 < heldout_alpha p \<and> heldout_alpha p < 1)
              (ValueError [Text ''heldout_alpha must be in (0, 1)''])) (\<lambda>_.
     rbind (guard (\<not> heldout_min_gain p < 0)
              (ValueError [Text ''heldout_min_gain must be non-negative''])) (\<lambda>_.
     rbind (guard (0 \<le> heldout_min_success_rate p \<and> heldout_min_success_rate p \<le> 1)
              (ValueError [Text ''heldout_min_success_rate must be in [0, 1]''])) (\<lambda>_.
     check_positive
       [(''same_seed_max_rounds'', same_seed_max_rounds p), (''heldout_max_rounds'', heldout_max_rounds p),
        (''max_infrastructure_attempts'', ep_max_infrastructure_attempts p),
        (''max_candidate_rounds_per_cluster'', max_candidate_rounds_per_cluster p),
        (''maximum_target_clusters'', maximum_target_clusters p),
        (''maximum_total_candidate_rounds'', maximum_total_candidate_rounds p)])))))))))"

definition validate_partition :: "EvolutionProtocol \<Rightarrow> int list \<Rightarrow> int list \<Rightarrow> exn + unit" where
  "validate_partition p rollout heldout =
     rbind (guard (int (length rollout) = rollout_count p)
              (ValueError [Text ''rollout schedule has '', IntF (int (length rollout)), Text '' seeds; expected '',
                 IntF (rollout_count p)])) (\<lambda>_.
     rbind (guard (heldout = ep_heldout_seeds p)
              (ValueError [Text ''held-out schedule differs from the protocol''])) (\<lambda>_.
     guard (set rollout \<inter> set heldout = {})
       (ValueError [Text ''rollout and held-out schedules overlap''])))"

section \<open>Lemmas\<close>

lemma first_occurrences_set [simp]: "set (first_occurrences xs) = set xs"
  by (induction xs) auto

lemma first_occurrences_distinct [simp]: "distinct (first_occurrences xs)"
  by (induction xs) auto

lemma policy_keys:
  "set (dict_keys (foldl (\<lambda>d s. dict_set d (f s) (g s)) d seeds)) = set (dict_keys d) \<union> f ` set seeds"
  by (induction seeds arbitrary: d) (auto simp: alist_dict.keys_put)

lemma policy_values:
  "dict_get (foldl (\<lambda>d s. dict_set d (f s) (g s)) d seeds) k = Some v \<Longrightarrow>
     dict_get d k = Some v \<or> (\<exists>s \<in> set seeds. v = g s)"
  by (induction seeds arbitrary: d) (fastforce split: if_splits)+

lemma policy_rng_seed_bounds: "0 \<le> policy_rng_seed sha256 m task s \<and> policy_rng_seed sha256 m task s < 2 ^ 31"
  by (simp add: policy_rng_seed_def Let_def)

text \<open>The part of the schedule the shuffle takes from: distinct, of the population, large enough and away
  from a fixed held-out block.\<close>

lemma isolate_heldout_Inr:
  assumes "isolate_heldout r h (first_occurrences population) fixed = Inr usable"
  shows "int (length fixed) = h" "distinct fixed" "set fixed \<subseteq> set population" "distinct usable"
    "set usable \<subseteq> set population - set fixed" "r \<le> int (length usable)"
  using assms by (auto simp: isolate_heldout_def Let_def rbind_Inr_iff card_distinct split: if_splits)

lemma schedule_Inr:
  assumes "preregister_seed_schedule sha256 shuffle m task r h population fixed = Inr (rollout, heldout, policy)"
    and "\<forall>seed xs. mset (shuffle seed xs) = mset xs"
  shows "int (length rollout) = r" "int (length heldout) = h" "distinct rollout" "distinct heldout"
    "set rollout \<inter> set heldout = {}" "set rollout \<union> set heldout \<subseteq> set population"
    "policy = foldl (\<lambda>d s. dict_set d (int_str s) (policy_rng_seed sha256 m task s)) [] (rollout @ heldout)"
    "\<forall>f. fixed = Some f \<longrightarrow> heldout = f"
proof -
  have positive: "1 \<le> r" "1 \<le> h" using assms(1) by (auto simp: preregister_seed_schedule_def)
  obtain usable where usable:
    "(case fixed of Some f \<Rightarrow> isolate_heldout r h (first_occurrences population) f
      | None \<Rightarrow> if int (length (first_occurrences population)) < r + h
          then Inl (ValueError [Text ''seed population has '', IntF (int (length (first_occurrences population))),
                 Text '' values; need '', IntF (r + h)])
          else Inr (first_occurrences population)) = Inr usable"
    and rollout: "rollout = take (nat r) (shuffle m usable)"
    and heldout: "heldout = (case fixed of Some f \<Rightarrow> f | None \<Rightarrow> take (nat h) (drop (nat r) (shuffle m usable)))"
    and policy: "policy = foldl (\<lambda>d s. dict_set d (int_str s) (policy_rng_seed sha256 m task s)) [] (rollout @ heldout)"
    using assms(1) by (auto simp: preregister_seed_schedule_def rbind_Inr_iff Let_def)
  have shuffled: "set (shuffle m usable) = set usable" "length (shuffle m usable) = length usable"
    "distinct (shuffle m usable) = distinct usable"
    using assms(2) mset_eq_setD mset_eq_length mset_eq_imp_distinct_iff by blast+
  show "policy = foldl (\<lambda>d s. dict_set d (int_str s) (policy_rng_seed sha256 m task s)) [] (rollout @ heldout)"
    by (rule policy)
  show "\<forall>f. fixed = Some f \<longrightarrow> heldout = f" by (simp add: heldout)
  have "int (length rollout) = r \<and> int (length heldout) = h \<and> distinct rollout \<and> distinct heldout
    \<and> set rollout \<inter> set heldout = {} \<and> set rollout \<union> set heldout \<subseteq> set population"
  proof (cases fixed)
    case None
    then have u: "usable = first_occurrences population" "r + h \<le> int (length usable)"
      using usable by (auto split: if_splits)
    have d: "distinct (shuffle m usable)" using shuffled(3) u(1) by simp
    have "set (take (nat r) (shuffle m usable)) \<inter> set (take (nat h) (drop (nat r) (shuffle m usable))) = {}"
      using set_take_disj_set_drop_if_distinct [OF d order_refl, of "nat r"] set_take_subset by fastforce
    then show ?thesis
      using None d u positive shuffled(1,2) set_take_subset set_drop_subset
      by (auto simp: rollout heldout dest!: in_set_takeD in_set_dropD)
  next
    case (Some f)
    then have "isolate_heldout r h (first_occurrences population) f = Inr usable" using usable by simp
    note iso = isolate_heldout_Inr [OF this]
    have d: "distinct (shuffle m usable)" using shuffled(3) iso(4) by simp
    show ?thesis
      using Some iso d positive shuffled(1,2)
      by (auto simp: rollout heldout dest!: in_set_takeD)
  qed
  then show "int (length rollout) = r" "int (length heldout) = h" "distinct rollout" "distinct heldout"
    "set rollout \<inter> set heldout = {}" "set rollout \<union> set heldout \<subseteq> set population" by blast+
qed

section \<open>Properties\<close>

text \<open>C28: a preregistered schedule is a valid plan. Whatever permutation the shuffle makes, the rollout and
  held-out seeds drawn come from the population, a fixed held-out block is taken over as it is, and both
  the manifest's and the protocol's checks accept them: the right numbers of distinct seeds, no seed in
  both lists, and a policy generator for exactly these seeds; every generator seed fits in 31 bits.\<close>

theorem preregistered_plan_valid:
  assumes "\<forall>seed xs. mset (shuffle seed xs) = mset xs"
    and "preregister_seed_schedule sha256 shuffle master task r h population fixed = Inr (rollout, heldout, policy)"
  shows "set rollout \<union> set heldout \<subseteq> set population \<and> (\<forall>f. fixed = Some f \<longrightarrow> heldout = f)
    \<and> (\<forall>m :: CampaignManifest. rollout_seeds m = rollout \<and> heldout_seeds m = heldout \<and> policy_rng_by_seed m = policy
          \<and> expected_rollouts m = r \<and> expected_heldout m = h \<longrightarrow> check_seeds m = Inr ())
    \<and> (\<forall>p :: EvolutionProtocol. rollout_count p = r \<and> ep_heldout_seeds p = heldout \<longrightarrow>
          validate_partition p rollout heldout = Inr ())
    \<and> (\<forall>k v. dict_get policy k = Some v \<longrightarrow> 0 \<le> v \<and> v < 2 ^ 31)"
proof -
  note plan = schedule_Inr [OF assms(2,1)]
  have keys: "set (dict_keys policy) = int_str ` (set rollout \<union> set heldout)"
    unfolding plan(7) policy_keys by (simp add: dict_keys_def)
  have "0 \<le> v \<and> v < 2 ^ 31" if "dict_get policy k = Some v" for k v
    using policy_values [OF that [unfolded plan(7)]] policy_rng_seed_bounds [of sha256 master task] by auto
  then show ?thesis
    using plan keys by (simp add: check_seeds_Inr validate_partition_def)
qed

theorem preregistered_plan_valid_witness:
  "\<exists>rollout heldout policy.
     preregister_seed_schedule (\<lambda>s. [1, 2]) (\<lambda>seed xs. rev xs) 7 ''task'' 2 1 [1, 2, 3, 2] (Some [2])
       = Inr (rollout, heldout, policy) \<and> rollout = [3, 1] \<and> set rollout \<union> set heldout \<subseteq> {1, 2, 3}"
proof -
  obtain policy where run:
    "preregister_seed_schedule (\<lambda>s. [1, 2]) (\<lambda>seed xs. rev xs) 7 ''task'' 2 1 [1, 2, 3, 2] (Some [2])
       = Inr ([3, 1], [2], policy)"
    by (simp add: preregister_seed_schedule_def isolate_heldout_def guard_def Let_def numeral_2_eq_2)
  have "set [3, 1] \<union> set [2] \<subseteq> set [1, 2, 3, 2 :: int]"
    using preregistered_plan_valid [OF _ run] by simp
  with run show ?thesis by auto
qed

end
