(* ===== verification/Host_Queue.thy ===== *)
theory Host_Queue
  imports Api "HOL-Library.List_Lexorder" "HOL-Library.Char_ord"
begin

text \<open>
  \<^verbatim>\<open>zetta/evolution/queue.py\<close>: the shared-filesystem queue through which a campaign hands rollout jobs to the
  workers of a host. The state of a host is its four directories, each a dictionary from file names to
  files, and the fairness cursor. A file holds an envelope, as the queue writes it, or a raw job of an
  older version; timestamps are seconds. Everything the code does under the host's claim lock is one
  operation; \<open>claim\<close> and \<open>finish\<close> are also cut at their write points, where a process can die.
  \<open>H\<close> is \<open>canonical_sha256\<close>.
\<close>

section \<open>Jobs and envelopes\<close>

record RolloutJob =
  rj_job_id :: string
  rj_campaign_root :: string
  rj_logical_id :: string
  rj_attempt_index :: int
  rj_task :: string
  rj_seed :: int
  rj_policy_rng :: int
  rj_bundle_sha256 :: "string option"
  rj_command :: "string list"
  rj_output_dir :: string
  rj_result_file :: string
  rj_heartbeat_file :: string
  rj_timeout_s :: int
  rj_no_progress_timeout_s :: int
  rj_requires_api :: bool
  rj_requires_environment_slot :: bool

definition RolloutJob_as_dict :: "RolloutJob \<Rightarrow> (string, py) dict" where
  "RolloutJob_as_dict job =
     [(''job_id'', PyStr (rj_job_id job)), (''campaign_root'', PyStr (rj_campaign_root job)),
      (''logical_id'', PyStr (rj_logical_id job)), (''attempt_index'', PyInt (rj_attempt_index job)),
      (''task'', PyStr (rj_task job)), (''seed'', PyInt (rj_seed job)),
      (''policy_rng'', PyInt (rj_policy_rng job)),
      (''bundle_sha256'', (case rj_bundle_sha256 job of None \<Rightarrow> PyNone | Some s \<Rightarrow> PyStr s)),
      (''command'', PyList (map PyStr (rj_command job))), (''output_dir'', PyStr (rj_output_dir job)),
      (''result_file'', PyStr (rj_result_file job)), (''heartbeat_file'', PyStr (rj_heartbeat_file job)),
      (''timeout_s'', PyInt (rj_timeout_s job)),
      (''no_progress_timeout_s'', PyInt (rj_no_progress_timeout_s job)),
      (''requires_api'', PyBool (rj_requires_api job)),
      (''requires_environment_slot'', PyBool (rj_requires_environment_slot job))]"

text \<open>\<open>self.bundle_sha256 or 'parent'\<close>: an empty digest counts as none.\<close>

definition scheduling_key :: "RolloutJob \<Rightarrow> string" where
  "scheduling_key job =
     rj_task job @ '':'' @
       (case rj_bundle_sha256 job of None \<Rightarrow> ''parent'' | Some s \<Rightarrow> if s = [] then ''parent'' else s)"

record QueueClaim =
  qc_job_id :: string
  qc_claim_token :: string
  qc_worker_id :: string
  qc_acquired_at :: real
  qc_heartbeat :: real
  qc_expires_at :: real
  qc_job :: RolloutJob

record QueueTerminal =
  qt_job_id :: string
  qt_claim_token :: string
  qt_worker_id :: string
  qt_acquired_at :: real
  qt_last_heartbeat :: real
  qt_finished_at :: real
  qt_success :: bool
  qt_commit_source :: string
  qt_result_digest :: string
  qt_result :: "(string, py) dict"
  qt_job :: RolloutJob

datatype envelope =
    RawJob RolloutJob
  | PendingEnv string RolloutJob
  | ClaimEnv QueueClaim
  | TerminalEnv QueueTerminal

fun job_from_envelope :: "envelope \<Rightarrow> exn + RolloutJob" where
  "job_from_envelope (RawJob job) = Inr job"
| "job_from_envelope (PendingEnv declared job) =
     (if declared \<noteq> rj_job_id job
      then Inl (ValueError [Text ''queue envelope job_id does not match nested job'']) else Inr job)"
| "job_from_envelope (ClaimEnv c) =
     (if qc_job_id c \<noteq> rj_job_id (qc_job c)
      then Inl (ValueError [Text ''queue envelope job_id does not match nested job'']) else Inr (qc_job c))"
| "job_from_envelope (TerminalEnv t) =
     (if qt_job_id t \<noteq> rj_job_id (qt_job t)
      then Inl (ValueError [Text ''queue envelope job_id does not match nested job'']) else Inr (qt_job t))"

definition nonempty_str :: "py option \<Rightarrow> string option" where
  "nonempty_str v = (case v of Some (PyStr s) \<Rightarrow> if s = [] then None else Some s | _ \<Rightarrow> None)"

definition job_id_from_result :: "(string, py) dict \<Rightarrow> string option" where
  "job_id_from_result result =
     (case nonempty_str (dict_get result ''job_id'') of
        Some s \<Rightarrow> Some s
      | None \<Rightarrow>
          (case dict_get result ''job'' of
             Some (PyDict nested) \<Rightarrow> nonempty_str (dict_get nested ''job_id'')
           | _ \<Rightarrow> None))"

section \<open>The directories of a host\<close>

record queue_file =
  qf_mtime :: real
  qf_envelope :: envelope

type_synonym directory = "(string, queue_file) dict"

record HostQueue =
  hq_pending :: directory
  hq_running :: directory
  hq_completed :: directory
  hq_failed :: directory
  hq_cursor :: "string option"

definition empty_queue :: HostQueue where
  "empty_queue = \<lparr>hq_pending = [], hq_running = [], hq_completed = [], hq_failed = [], hq_cursor = None\<rparr>"

type_synonym 'a queue_op = "(HostQueue, exn, 'a) sem"

abbreviation FileExistsError :: "message \<Rightarrow> exn" where
  "FileExistsError m \<equiv> PyExn K_Other ''FileExistsError'' m"

text \<open>\<open>atomic_write_json\<close> without \<open>overwrite\<close>: an existing file is kept, and its content must be the
  same; with \<open>overwrite\<close> it is \<open>dict_set\<close>.\<close>

definition publish :: "real \<Rightarrow> string \<Rightarrow> envelope \<Rightarrow> directory \<Rightarrow> exn + directory" where
  "publish now name e d =
     (case dict_get d name of
        None \<Rightarrow> Inr (dict_set d name \<lparr>qf_mtime = now, qf_envelope = e\<rparr>)
      | Some f \<Rightarrow>
          if qf_envelope f = e then Inr d
          else Inl (FileExistsError [Text ''immutable artifact already differs: '', Text name]))"

definition job_filename :: "(py \<Rightarrow> string) \<Rightarrow> string \<Rightarrow> exn + string" where
  "job_filename H job_id =
     (if job_id = [] then Inl (ValueError [Text ''queue job_id must be a non-empty string''])
      else Inr (''job-'' @ take 32 (H (PyStr job_id)) @ ''.json''))"

definition bucket :: "bool \<Rightarrow> HostQueue \<Rightarrow> directory" where
  "bucket success q = (if success then hq_completed q else hq_failed q)"

definition set_bucket :: "bool \<Rightarrow> directory \<Rightarrow> HostQueue \<Rightarrow> HostQueue" where
  "set_bucket success d q = (if success then q\<lparr>hq_completed := d\<rparr> else q\<lparr>hq_failed := d\<rparr>)"

definition terminal_candidates :: "string \<Rightarrow> HostQueue \<Rightarrow> (bool \<times> queue_file) list" where
  "terminal_candidates name q =
     concat (map (\<lambda>s. case dict_get (bucket s q) name of None \<Rightarrow> [] | Some f \<Rightarrow> [(s, f)]) [True, False])"

definition find_terminal ::
  "(py \<Rightarrow> string) \<Rightarrow> string \<Rightarrow> HostQueue \<Rightarrow> exn + (bool \<times> string \<times> envelope) option" where
  "find_terminal H job_id q =
     rbind (job_filename H job_id) (\<lambda>name.
       (case terminal_candidates name q of
          [] \<Rightarrow> Inr None
        | [(success, f)] \<Rightarrow>
            rbind (job_from_envelope (qf_envelope f)) (\<lambda>job.
              if rj_job_id job \<noteq> job_id
              then Inl (ValueError [Text ''terminal filename and envelope identity differ''])
              else Inr (Some (success, name, qf_envelope f)))
        | _ \<Rightarrow> Inl (ValueError [Text ''job has conflicting completed and failed terminals''])))"

definition claim_envelope :: "RolloutJob \<Rightarrow> string \<Rightarrow> string \<Rightarrow> real \<Rightarrow> real \<Rightarrow> QueueClaim" where
  "claim_envelope job claim_token worker_id acquired_at lease_s =
     \<lparr>qc_job_id = rj_job_id job, qc_claim_token = claim_token, qc_worker_id = worker_id,
      qc_acquired_at = acquired_at, qc_heartbeat = acquired_at, qc_expires_at = acquired_at + lease_s,
      qc_job = job\<rparr>"

definition DEFAULT_CLAIM_LEASE_S :: real where
  "DEFAULT_CLAIM_LEASE_S = 7200"

definition legacy_claim_envelope :: "(py \<Rightarrow> string) \<Rightarrow> string \<Rightarrow> queue_file \<Rightarrow> exn + QueueClaim" where
  "legacy_claim_envelope H name f =
     rbind (job_from_envelope (qf_envelope f)) (\<lambda>job.
       Inr (claim_envelope job
         (''legacy-'' @ take 32 (H (PyDict [(''job_id'', PyStr (rj_job_id job)), (''claim_file'', PyStr name)])))
         ''legacy-worker'' (qf_mtime f) DEFAULT_CLAIM_LEASE_S))"

definition claim_fields :: "QueueClaim \<Rightarrow> exn + string" where
  "claim_fields c =
     rbind (guard (qc_claim_token c \<noteq> []) (ValueError [Text ''running claim requires a non-empty claim_token''])) (\<lambda>_.
     rbind (guard (qc_worker_id c \<noteq> []) (ValueError [Text ''running claim requires a non-empty worker_id''])) (\<lambda>_.
     Inr (qc_claim_token c)))"

text \<open>\<open>_read_claim\<close> on an existing file; a job of an older version is upgraded in place.\<close>

definition read_claim :: "(py \<Rightarrow> string) \<Rightarrow> real \<Rightarrow> string \<Rightarrow> queue_file \<Rightarrow> (QueueClaim \<times> RolloutJob) queue_op" where
  "read_claim H now name f =
     sbind (case qf_envelope f of
              ClaimEnv c \<Rightarrow> ret c
            | _ \<Rightarrow> sbind (asks (\<lambda>_. legacy_claim_envelope H name f)) (\<lambda>c.
                    sbind (modify (\<lambda>q. q\<lparr>hq_running :=
                        dict_set (hq_running q) name \<lparr>qf_mtime = now, qf_envelope = ClaimEnv c\<rparr>\<rparr>)) (\<lambda>_.
                    ret c))) (\<lambda>c.
     asks (\<lambda>_. rbind (job_from_envelope (ClaimEnv c)) (\<lambda>job.
                rbind (claim_fields c) (\<lambda>_. Inr (c, job)))))"

definition result_digest :: "(py \<Rightarrow> string) \<Rightarrow> bool \<Rightarrow> (string, py) dict \<Rightarrow> string" where
  "result_digest H success result = H (PyDict [(''success'', PyBool success), (''result'', PyDict result)])"

definition terminal_envelope ::
  "(py \<Rightarrow> string) \<Rightarrow> real \<Rightarrow> QueueClaim \<Rightarrow> RolloutJob \<Rightarrow> bool \<Rightarrow> (string, py) dict \<Rightarrow> string \<Rightarrow> QueueTerminal" where
  "terminal_envelope H now claim job success result commit_source =
     \<lparr>qt_job_id = rj_job_id job, qt_claim_token = qc_claim_token claim, qt_worker_id = qc_worker_id claim,
      qt_acquired_at = qc_acquired_at claim, qt_last_heartbeat = qc_heartbeat claim, qt_finished_at = now,
      qt_success = success, qt_commit_source = commit_source,
      qt_result_digest = result_digest H success result, qt_result = result, qt_job = job\<rparr>"

definition assert_same_terminal ::
  "(py \<Rightarrow> string) \<Rightarrow> envelope \<Rightarrow> string \<Rightarrow> string \<Rightarrow> bool \<Rightarrow> (string, py) dict \<Rightarrow> string \<Rightarrow> exn + unit" where
  "assert_same_terminal H existing job_id claim_token success result commit_source =
     (case existing of
        TerminalEnv t \<Rightarrow>
          rbind (guard (qt_job_id t = job_id) (ValueError [Text ''terminal envelope job_id mismatch''])) (\<lambda>_.
          rbind (guard (qt_claim_token t = claim_token)
                   (ValueError [Text ''stale claim token cannot finish this job''])) (\<lambda>_.
          rbind (guard (qt_commit_source t = commit_source)
                   (ValueError [Text ''claim was already closed by a different authority''])) (\<lambda>_.
          guard (qt_result_digest t = result_digest H success result)
            (ValueError [Text ''terminal result digest differs from immutable commit'']))))
      | _ \<Rightarrow> Inl (ValueError [Text ''terminal path contains a non-terminal envelope'']))"

section \<open>Enqueueing and claiming\<close>

definition SharedHostQueue_enqueue :: "(py \<Rightarrow> string) \<Rightarrow> real \<Rightarrow> RolloutJob \<Rightarrow> string queue_op" where
  "SharedHostQueue_enqueue H now job q =
     (case rbind (job_filename H (rj_job_id job)) (\<lambda>name.
             rbind (publish now name (PendingEnv (rj_job_id job) job) (hq_pending q)) (\<lambda>d. Inr (name, d))) of
        Inl e \<Rightarrow> (Inl e, q)
      | Inr (name, d) \<Rightarrow> (Inr name, q\<lparr>hq_pending := d\<rparr>))"

type_synonym available = "(string, (string \<times> RolloutJob) list) dict"

text \<open>The loop over the pending files: jobs that already have a terminal are removed, the others are
  grouped by their scheduling key.\<close>

fun scan_pending :: "(py \<Rightarrow> string) \<Rightarrow> string list \<Rightarrow> available \<Rightarrow> available queue_op" where
  "scan_pending H [] available q = (Inr available, q)"
| "scan_pending H (name # names) available q =
     (case dict_get (hq_pending q) name of
        None \<Rightarrow> scan_pending H names available q
      | Some f \<Rightarrow>
          (case rbind (job_from_envelope (qf_envelope f)) (\<lambda>job.
                  rbind (find_terminal H (rj_job_id job) q) (\<lambda>t. Inr (job, t))) of
             Inl e \<Rightarrow> (Inl e, q)
           | Inr (job, Some t) \<Rightarrow>
               scan_pending H names available (q\<lparr>hq_pending := dict_pop (hq_pending q) name\<rparr>)
           | Inr (job, None) \<Rightarrow>
               scan_pending H names
                 (dict_set available (scheduling_key job)
                    (dict_get_or available (scheduling_key job) [] @ [(name, job)])) q))"

text \<open>The keys in the order of this claim: sorted, starting after the last one served.\<close>

definition rotate_keys :: "string option \<Rightarrow> string list \<Rightarrow> string list" where
  "rotate_keys last_key keys =
     (case last_key of
        None \<Rightarrow> keys
      | Some k \<Rightarrow>
          if k \<in> set keys
          then (let start = (length (takeWhile (\<lambda>x. x \<noteq> k) keys) + 1) mod length keys
                in drop start keys @ take start keys)
          else keys)"

definition next_key :: "string option \<Rightarrow> string list \<Rightarrow> string" where
  "next_key last_key keys = hd (rotate_keys last_key (sort keys))"

definition pick_job :: "HostQueue \<Rightarrow> (string \<times> RolloutJob) list \<Rightarrow> string \<times> RolloutJob" where
  "pick_job q jobs =
     arg_min_list (\<lambda>(name, job).
       (case dict_get (hq_pending q) name of None \<Rightarrow> 0 | Some f \<Rightarrow> qf_mtime f, name)) jobs"

text \<open>The choice a claim makes: the key, the file and the job, or nothing.\<close>

definition claim_choice :: "(py \<Rightarrow> string) \<Rightarrow> (string \<times> string \<times> RolloutJob) option queue_op" where
  "claim_choice H =
     sbind (\<lambda>q. scan_pending H (sort (dict_keys (hq_pending q))) [] q) (\<lambda>available.
     (if available = [] then ret None
      else asks (\<lambda>q.
        (let key = next_key (hq_cursor q) (dict_keys available)
         in Inr (Some (key, pick_job q (dict_get_or available key [])))))))"

text \<open>Its three writes: the claim into the pending file, the rename that takes ownership, the cursor.\<close>

definition claim_write :: "real \<Rightarrow> string \<Rightarrow> QueueClaim \<Rightarrow> HostQueue \<Rightarrow> HostQueue" where
  "claim_write now source c q =
     q\<lparr>hq_pending := dict_set (hq_pending q) source \<lparr>qf_mtime = now, qf_envelope = ClaimEnv c\<rparr>\<rparr>"

definition claim_name :: "string \<Rightarrow> string" where
  "claim_name claim_token = ''claim-'' @ claim_token @ ''.json''"

definition claim_rename :: "string \<Rightarrow> string \<Rightarrow> HostQueue \<Rightarrow> HostQueue" where
  "claim_rename source target q =
     (case dict_get (hq_pending q) source of
        None \<Rightarrow> q
      | Some f \<Rightarrow> q\<lparr>hq_pending := dict_pop (hq_pending q) source,
                    hq_running := dict_set (hq_running q) target f\<rparr>)"

definition SharedHostQueue_claim ::
  "(py \<Rightarrow> string) \<Rightarrow> real \<Rightarrow> string \<Rightarrow> string option \<Rightarrow> string \<Rightarrow> real \<Rightarrow> (string \<times> RolloutJob) option queue_op" where
  "SharedHostQueue_claim H now fresh worker_id process lease_s =
     (if lease_s \<le> 0 then raise (ValueError [Text ''claim lease_s must be positive''])
      else
        (let owner = (case worker_id of None \<Rightarrow> process | Some w \<Rightarrow> if w = [] then process else w) in
         sbind (claim_choice H) (\<lambda>choice.
           (case choice of
              None \<Rightarrow> ret None
            | Some (key, source, job) \<Rightarrow>
                (let target = claim_name fresh;
                     c = claim_envelope job fresh owner now lease_s in
                 sbind (modify (claim_write now source c)) (\<lambda>_.
                 sbind (modify (claim_rename source target)) (\<lambda>_.
                 sbind (modify (\<lambda>q. q\<lparr>hq_cursor := Some key\<rparr>)) (\<lambda>_.
                 ret (Some (target, job))))))))))"

section \<open>Heartbeats and results\<close>

definition SharedHostQueue_heartbeat ::
  "(py \<Rightarrow> string) \<Rightarrow> real \<Rightarrow> string \<Rightarrow> string \<Rightarrow> real \<Rightarrow> unit queue_op" where
  "SharedHostQueue_heartbeat H now name claim_token lease_s q =
     (if lease_s \<le> 0 then (Inl (ValueError [Text ''claim heartbeat lease_s must be positive'']), q)
      else
        (case dict_get (hq_running q) name of
           None \<Rightarrow> (Inl (ValueError [Text ''cannot heartbeat a non-active claim'']), q)
         | Some f \<Rightarrow>
             sbind (read_claim H now name f) (\<lambda>(c, job).
               (if qc_claim_token c \<noteq> claim_token
                then raise (ValueError [Text ''stale claim token cannot renew this job''])
                else if now > qc_expires_at c
                then raise (ValueError [Text ''expired claim token cannot renew this job''])
                else modify (\<lambda>q. q\<lparr>hq_running := dict_set (hq_running q) name
                       \<lparr>qf_mtime = now,
                        qf_envelope = ClaimEnv (c\<lparr>qc_heartbeat := now, qc_expires_at := now + lease_s\<rparr>)\<rparr>\<rparr>))) q))"

text \<open>What \<open>_finish_locked\<close> reads first: the claim on file, if there is one, checked against the caller.\<close>

definition finish_read ::
  "(py \<Rightarrow> string) \<Rightarrow> real \<Rightarrow> string \<Rightarrow> (string, py) dict \<Rightarrow> string option \<Rightarrow> string
     \<Rightarrow> ((QueueClaim \<times> RolloutJob) option \<times> string \<times> string) queue_op" where
  "finish_read H now name result claim_token commit_source q =
     (case dict_get (hq_running q) name of
        Some f \<Rightarrow>
          sbind (read_claim H now name f) (\<lambda>(c, job).
            (if claim_token \<noteq> None \<and> claim_token \<noteq> Some (qc_claim_token c)
             then raise (ValueError [Text ''stale claim token cannot finish this job''])
             else if commit_source = ''worker'' \<and> now > qc_expires_at c
             then raise (ValueError [Text ''expired claim token cannot finish this job''])
             else if job_id_from_result result \<noteq> None \<and> job_id_from_result result \<noteq> Some (rj_job_id job)
             then raise (ValueError [Text ''result job_id does not match running claim''])
             else ret (Some (c, job), rj_job_id job, qc_claim_token c))) q
      | None \<Rightarrow>
          (case (job_id_from_result result, claim_token) of
             (Some job_id, Some token) \<Rightarrow> (Inr (None, job_id, token), q)
           | _ \<Rightarrow> (Inl (ValueError
                  [Text ''finishing a missing claim requires result job_id and claim_token'']), q)))"

text \<open>The terminal commit: an earlier terminal must be the same outcome, otherwise the new one is
  published; the path, and whether it is new.\<close>

definition finish_commit ::
  "(py \<Rightarrow> string) \<Rightarrow> real \<Rightarrow> bool \<Rightarrow> (string, py) dict \<Rightarrow> string
     \<Rightarrow> (QueueClaim \<times> RolloutJob) option \<times> string \<times> string \<Rightarrow> ((bool \<times> string) \<times> bool) queue_op" where
  "finish_commit H now success result commit_source known q =
     (case known of (active, job_id, token) \<Rightarrow>
        (case find_terminal H job_id q of
           Inl e \<Rightarrow> (Inl e, q)
         | Inr (Some (s, path, existing)) \<Rightarrow>
             (case assert_same_terminal H existing job_id token success result commit_source of
                Inl e \<Rightarrow> (Inl e, q)
              | Inr _ \<Rightarrow> (Inr ((s, path), False), q))
         | Inr None \<Rightarrow>
             (case active of
                None \<Rightarrow> (Inl (ValueError [Text ''terminal commit is missing its active running claim'']), q)
              | Some (c, job) \<Rightarrow>
                  (case rbind (job_filename H (rj_job_id job)) (\<lambda>path.
                          rbind (publish now path
                              (TerminalEnv (terminal_envelope H now c job success result commit_source))
                              (bucket success q)) (\<lambda>d. Inr (path, d))) of
                     Inl e \<Rightarrow> (Inl e, q)
                   | Inr (path, d) \<Rightarrow> (Inr ((success, path), True), set_bucket success d q)))))"

text \<open>The cleanup after the commit: the claim is removed if it still carries the token.\<close>

definition finish_cleanup :: "(py \<Rightarrow> string) \<Rightarrow> real \<Rightarrow> string \<Rightarrow> string \<Rightarrow> bool \<Rightarrow> unit queue_op" where
  "finish_cleanup H now name token committed q =
     (case dict_get (hq_running q) name of
        None \<Rightarrow> (Inr (), q)
      | Some f \<Rightarrow>
          sbind (read_claim H now name f) (\<lambda>(c, job).
            (if qc_claim_token c \<noteq> token
             then raise (ValueError [Text (if committed then ''claim token changed during terminal commit''
                                           else ''stale running claim cannot be cleaned'')])
             else modify (\<lambda>q. q\<lparr>hq_running := dict_pop (hq_running q) name\<rparr>))) q)"

definition finish_locked ::
  "(py \<Rightarrow> string) \<Rightarrow> real \<Rightarrow> string \<Rightarrow> bool \<Rightarrow> (string, py) dict \<Rightarrow> string option \<Rightarrow> string \<Rightarrow> (bool \<times> string) queue_op" where
  "finish_locked H now name success result claim_token commit_source =
     sbind (finish_read H now name result claim_token commit_source) (\<lambda>known.
     sbind (finish_commit H now success result commit_source known) (\<lambda>(path, committed).
     sbind (finish_cleanup H now name (snd (snd known)) committed) (\<lambda>_.
     ret path)))"

definition SharedHostQueue_finish ::
  "(py \<Rightarrow> string) \<Rightarrow> real \<Rightarrow> string \<Rightarrow> bool \<Rightarrow> (string, py) dict \<Rightarrow> string option \<Rightarrow> (bool \<times> string) queue_op" where
  "SharedHostQueue_finish H now name success result claim_token =
     finish_locked H now name success result claim_token ''worker''"

section \<open>Recovery\<close>

text \<open>\<open>_valid_published_result\<close>, given the content of the job's result file, if there is one.\<close>

definition valid_published_result :: "py option \<Rightarrow> RolloutJob \<Rightarrow> (string, py) dict option" where
  "valid_published_result content job =
     (case content of
        Some (PyDict payload) \<Rightarrow>
          if \<not> py_eq (dict_get_or payload ''logical_id'' PyNone) (PyStr (rj_logical_id job)) then None
          else if \<not> py_eq (dict_get_or payload ''attempt_index'' (PyInt (rj_attempt_index job)))
                       (PyInt (rj_attempt_index job)) then None
          else if dict_get_or payload ''job_id'' PyNone \<notin> {PyNone, PyStr (rj_job_id job)} then None
          else if dict_get_or payload ''status'' PyNone \<notin> {PyStr ''valid'', PyStr ''infra_invalid''} then None
          else Some [(''job_id'', PyStr (rj_job_id job)), (''logical_id'', PyStr (rj_logical_id job)),
                     (''attempt_index'', PyInt (rj_attempt_index job)), (''success'', PyBool True),
                     (''recovery_reason'', PyStr ''published_result_file_after_worker_crash''),
                     (''result'', PyDict payload), (''job'', PyDict (RolloutJob_as_dict job))]
      | _ \<Rightarrow> None)"

text \<open>\<open>_legacy_sidecar_result\<close>, given the two sidecar files an older worker may have left, that under
  \<open>completed\<close> first.\<close>

fun sidecar_result :: "bool \<Rightarrow> py \<Rightarrow> RolloutJob \<Rightarrow> exn + (bool \<times> (string, py) dict)" where
  "sidecar_result success (PyDict payload) job =
     (if job_id_from_result payload \<noteq> None \<and> job_id_from_result payload \<noteq> Some (rj_job_id job)
      then Inl (ValueError [Text ''legacy sidecar job_id does not match running claim''])
      else Inr (success, payload))"
| "sidecar_result success _ job = Inl (ValueError [Text ''legacy result sidecar must be an object''])"

definition legacy_sidecar_result ::
  "py option \<Rightarrow> py option \<Rightarrow> RolloutJob \<Rightarrow> exn + (bool \<times> (string, py) dict) option" where
  "legacy_sidecar_result completed failed job =
     (case (completed, failed) of
        (Some payload, _) \<Rightarrow> rbind (sidecar_result True payload job) (\<lambda>r. Inr (Some r))
      | (None, Some payload) \<Rightarrow> rbind (sidecar_result False payload job) (\<lambda>r. Inr (Some r))
      | (None, None) \<Rightarrow> Inr None)"

text \<open>The files outside the queue's own directories that recovery reads for a claim.\<close>

record recovery_files =
  rf_completed_sidecar :: "py option"
  rf_failed_sidecar :: "py option"
  rf_result_file :: "py option"

definition abandoned_result :: "real \<Rightarrow> RolloutJob \<Rightarrow> (string, py) dict" where
  "abandoned_result age job =
     [(''job_id'', PyStr (rj_job_id job)), (''logical_id'', PyStr (rj_logical_id job)),
      (''attempt_index'', PyInt (rj_attempt_index job)), (''success'', PyBool False),
      (''watchdog_reason'', PyStr ''abandoned_worker_process''), (''elapsed_s'', PyFloat age),
      (''job'', PyDict (RolloutJob_as_dict job))]"

definition recovery_outcome :: "recovery_files \<Rightarrow> real \<Rightarrow> RolloutJob \<Rightarrow> exn + (bool \<times> (string, py) dict)" where
  "recovery_outcome files age job =
     rbind (legacy_sidecar_result (rf_completed_sidecar files) (rf_failed_sidecar files) job) (\<lambda>legacy.
       Inr (case legacy of
              Some r \<Rightarrow> r
            | None \<Rightarrow> (case valid_published_result (rf_result_file files) job of
                         Some r \<Rightarrow> (True, r)
                       | None \<Rightarrow> (False, abandoned_result age job))))"

text \<open>One turn of the loop of \<open>recover_abandoned\<close>, under the lock: whether the claim was recovered.
  The age of a claim is that of its heartbeat or, if older, that of its file.\<close>

definition recover_body ::
  "(py \<Rightarrow> string) \<Rightarrow> real \<Rightarrow> recovery_files \<Rightarrow> real \<Rightarrow> string \<Rightarrow> real \<Rightarrow> QueueClaim \<times> RolloutJob
     \<Rightarrow> (bool \<times> string \<times> envelope) option \<Rightarrow> bool queue_op" where
  "recover_body H now files stale_after_s name mtime cj terminal =
     (case cj of (c, job) \<Rightarrow>
       (case terminal of
          Some (s, path, e) \<Rightarrow>
            (if (case e of TerminalEnv t \<Rightarrow> qt_claim_token t = qc_claim_token c
                 | ClaimEnv c' \<Rightarrow> qc_claim_token c' = qc_claim_token c | _ \<Rightarrow> False)
             then sbind (modify (\<lambda>q. q\<lparr>hq_running := dict_pop (hq_running q) name\<rparr>)) (\<lambda>_. ret True)
             else raise (ValueError [Text ''terminal belongs to a different claim token'']))
        | None \<Rightarrow>
            (let age = max (max 0 (now - qc_heartbeat c)) (max 0 (now - mtime)) in
             if \<not> now > qc_expires_at c \<and> age < stale_after_s then ret False
             else
               sbind (asks (\<lambda>_. recovery_outcome files age job)) (\<lambda>(success, result).
               sbind (finish_locked H now name success result (Some (qc_claim_token c)) ''recovery'') (\<lambda>_.
               ret True)))))"

definition recover_one ::
  "(py \<Rightarrow> string) \<Rightarrow> real \<Rightarrow> recovery_files \<Rightarrow> real \<Rightarrow> string \<Rightarrow> bool queue_op" where
  "recover_one H now files stale_after_s name q =
     (case dict_get (hq_running q) name of
        None \<Rightarrow> (Inr False, q)
      | Some f \<Rightarrow> sbind (read_claim H now name f) (\<lambda>(c, job).
          sbind (asks (find_terminal H (rj_job_id job)))
            (recover_body H now files stale_after_s name
               (case qf_envelope f of ClaimEnv _ \<Rightarrow> qf_mtime f | _ \<Rightarrow> now) (c, job))) q)"

fun recover_loop ::
  "(py \<Rightarrow> string) \<Rightarrow> real \<Rightarrow> (string \<Rightarrow> recovery_files) \<Rightarrow> real \<Rightarrow> string list \<Rightarrow> nat \<Rightarrow> nat queue_op" where
  "recover_loop H now files stale_after_s [] recovered = ret recovered"
| "recover_loop H now files stale_after_s (name # names) recovered =
     sbind (recover_one H now (files name) stale_after_s name) (\<lambda>hit.
       recover_loop H now files stale_after_s names (if hit then recovered + 1 else recovered))"

text \<open>A pass that nothing interleaves with; between two claims the lock is free.\<close>

definition SharedHostQueue_recover_abandoned ::
  "(py \<Rightarrow> string) \<Rightarrow> real \<Rightarrow> (string \<Rightarrow> recovery_files) \<Rightarrow> real \<Rightarrow> nat queue_op" where
  "SharedHostQueue_recover_abandoned H now files stale_after_s q =
     (if stale_after_s < 0 then (Inl (ValueError [Text ''stale_after_s must be non-negative'']), q)
      else recover_loop H now files stale_after_s (sort (dict_keys (hq_running q))) 0 q)"

section \<open>Job identities\<close>

fun env_job :: "envelope \<Rightarrow> RolloutJob" where
  "env_job (RawJob job) = job"
| "env_job (PendingEnv declared job) = job"
| "env_job (ClaimEnv c) = qc_job c"
| "env_job (TerminalEnv t) = qt_job t"

abbreviation file_id :: "queue_file \<Rightarrow> string" where
  "file_id f \<equiv> rj_job_id (env_job (qf_envelope f))"

definition file_ok :: "queue_file \<Rightarrow> bool" where
  "file_ok f \<longleftrightarrow> job_from_envelope (qf_envelope f) = Inr (env_job (qf_envelope f))"

definition ids_in :: "directory \<Rightarrow> string set" where
  "ids_in d = {file_id f |n f. dict_get d n = Some f}"

definition terminal_ids :: "HostQueue \<Rightarrow> string set" where
  "terminal_ids q = ids_in (hq_completed q) \<union> ids_in (hq_failed q)"

definition known_ids :: "HostQueue \<Rightarrow> string set" where
  "known_ids q = ids_in (hq_pending q) \<union> ids_in (hq_running q) \<union> terminal_ids q"

lemma job_from_envelope_Inr: "job_from_envelope e = Inr job \<Longrightarrow> job = env_job e"
  by (cases e) (auto split: if_splits)

lemma ids_inI: "dict_get d n = Some f \<Longrightarrow> file_id f \<in> ids_in d"
  by (auto simp: ids_in_def)

lemma ids_in_Nil [simp]: "ids_in [] = {}"
  by (simp add: ids_in_def)

lemma ids_in_iff: "j \<in> ids_in d \<longleftrightarrow> (\<exists>n f. dict_get d n = Some f \<and> file_id f = j)"
  by (auto simp: ids_in_def)

lemma ids_in_set:
  "j \<in> ids_in (dict_set d n f) \<longleftrightarrow> file_id f = j \<or> (\<exists>m g. m \<noteq> n \<and> dict_get d m = Some g \<and> file_id g = j)"
proof
  assume "j \<in> ids_in (dict_set d n f)"
  then obtain m g where "dict_get (dict_set d n f) m = Some g" "file_id g = j" by (auto simp: ids_in_iff)
  then show "file_id f = j \<or> (\<exists>m g. m \<noteq> n \<and> dict_get d m = Some g \<and> file_id g = j)"
    by (cases "m = n") auto
next
  assume r: "file_id f = j \<or> (\<exists>m g. m \<noteq> n \<and> dict_get d m = Some g \<and> file_id g = j)"
  have "dict_get (dict_set d n f) n = Some f" by simp
  then have here: "file_id f \<in> ids_in (dict_set d n f)" by (rule ids_inI)
  have "file_id g \<in> ids_in (dict_set d n f)" if "m \<noteq> n" "dict_get d m = Some g" for m g
    using that by (intro ids_inI [of _ m]) simp
  with here r show "j \<in> ids_in (dict_set d n f)" by blast
qed

lemma ids_in_pop:
  "j \<in> ids_in (dict_pop d n) \<longleftrightarrow> (\<exists>m g. m \<noteq> n \<and> dict_get d m = Some g \<and> file_id g = j)"
  unfolding ids_in_iff by simp metis

lemma ids_in_split:
  assumes "dict_get d n = Some f"
  shows "j \<in> ids_in d \<longleftrightarrow> j = file_id f \<or> (\<exists>m g. m \<noteq> n \<and> dict_get d m = Some g \<and> file_id g = j)"
  using assms ids_inI [OF assms] unfolding ids_in_iff by (metis option.inject)

lemma ids_in_set_new: "dict_get d n = None \<Longrightarrow> ids_in (dict_set d n f) = insert (file_id f) (ids_in d)"
  by (rule set_eqI) (use ids_in_set ids_in_iff in \<open>metis insert_iff option.distinct(1)\<close>)

lemma ids_in_set_same:
  "dict_get d n = Some g \<Longrightarrow> file_id f = file_id g \<Longrightarrow> ids_in (dict_set d n f) = ids_in d"
  by (rule set_eqI) (simp only: ids_in_set ids_in_split, blast)

section \<open>What the operations leave alone\<close>

definition terminals :: "HostQueue \<Rightarrow> directory \<times> directory" where
  "terminals q = (hq_completed q, hq_failed q)"

lemma terminals_updates [simp]:
  "terminals (q\<lparr>hq_pending := d\<rparr>) = terminals q"
  "terminals (q\<lparr>hq_running := d\<rparr>) = terminals q"
  "terminals (q\<lparr>hq_cursor := c\<rparr>) = terminals q"
  "terminals (claim_write now n cl q) = terminals q"
  "terminals (claim_rename n t q) = terminals q"
  by (simp_all add: terminals_def claim_write_def claim_rename_def split: option.split)

lemma terminals_eqD:
  "terminals q = terminals q' \<Longrightarrow> bucket s q = bucket s q' \<and> terminal_ids q = terminal_ids q'"
  by (auto simp: terminals_def bucket_def terminal_ids_def)

lemma find_terminal_cong: "terminals q = terminals q' \<Longrightarrow> find_terminal H j q = find_terminal H j q'"
  using terminals_eqD [of q q'] by (simp add: find_terminal_def terminal_candidates_def)

lemma preserves_case_option [preserves_intros]:
  "preserves P a \<Longrightarrow> (\<And>x. preserves P (b x)) \<Longrightarrow> preserves P (case v of None \<Rightarrow> a | Some x \<Rightarrow> b x)"
  by (simp split: option.split)

lemma preserves_case_prod [preserves_intros]:
  "(\<And>x y. preserves P (f x y)) \<Longrightarrow> preserves P (case p of (x, y) \<Rightarrow> f x y)"
  by (simp split: prod.split)

lemma preserves_modify_terminals [preserves_intros]:
  "(\<And>q. terminals (f q) = terminals q) \<Longrightarrow> preserves (\<lambda>q. terminals q = T) (modify f)"
  by (simp add: preserves_def modify_def)

text \<open>Reading, renewing and finishing a claim touch only the running claims, apart from the commit.\<close>

definition ignores_running :: "(HostQueue \<Rightarrow> bool) \<Rightarrow> bool" where
  "ignores_running P \<longleftrightarrow> (\<forall>q d. P (q\<lparr>hq_running := d\<rparr>) = P q)"

lemma ignores_running_frames [simp]:
  "ignores_running (\<lambda>q. terminals q = T)" "ignores_running (\<lambda>q. hq_cursor q = c)"
  by (simp_all add: ignores_running_def)

lemma preserves_modify_running [preserves_intros]:
  "ignores_running P \<Longrightarrow> preserves P (modify (\<lambda>q. q\<lparr>hq_running := f q\<rparr>))"
  by (simp add: preserves_def modify_def ignores_running_def)

lemma read_claim_frame [preserves_intros]: "ignores_running P \<Longrightarrow> preserves P (read_claim H now name f)"
  unfolding read_claim_def
  by (cases "qf_envelope f") (auto intro!: preserves_intros)

lemma scan_pending_terminals: "terminals (snd (scan_pending H names av q)) = terminals q"
  by (induction H names av q rule: scan_pending.induct)
    (auto split: option.split sum.split prod.split)

lemma claim_choice_terminals [preserves_intros]: "preserves (\<lambda>q. terminals q = T) (claim_choice H)"
proof -
  have "preserves (\<lambda>q. terminals q = T) (\<lambda>q. scan_pending H (sort (dict_keys (hq_pending q))) [] q)"
    by (simp add: preserves_def scan_pending_terminals)
  then show ?thesis unfolding claim_choice_def by (auto intro!: preserves_intros)
qed

lemma claim_terminals: "preserves (\<lambda>q. terminals q = T) (SharedHostQueue_claim H now fresh w p lease)"
  unfolding SharedHostQueue_claim_def Let_def by (auto intro!: preserves_intros)

lemma enqueue_terminals: "terminals (snd (SharedHostQueue_enqueue H now job q)) = terminals q"
  by (auto simp: SharedHostQueue_enqueue_def split: sum.split)

lemma heartbeat_frame:
  assumes "ignores_running P"
  shows "preserves P (SharedHostQueue_heartbeat H now name token lease)"
proof (rule preservesI)
  fix q assume P: "P q"
  let ?m = "\<lambda>f. sbind (read_claim H now name f) (\<lambda>(c, job).
      if qc_claim_token c \<noteq> token then raise (ValueError [Text ''stale claim token cannot renew this job''])
      else if now > qc_expires_at c then raise (ValueError [Text ''expired claim token cannot renew this job''])
      else modify (\<lambda>q. q\<lparr>hq_running := dict_set (hq_running q) name \<lparr>qf_mtime = now,
        qf_envelope = ClaimEnv (c\<lparr>qc_heartbeat := now, qc_expires_at := now + lease\<rparr>)\<rparr>\<rparr>))"
  have "preserves P (?m f)" for f
    using assms by (intro preserves_intros)
  with P show "P (snd (SharedHostQueue_heartbeat H now name token lease q))"
    unfolding preserves_def by (simp add: SharedHostQueue_heartbeat_def split: option.split)
qed

lemma finish_read_frame [preserves_intros]:
  assumes "ignores_running P"
  shows "preserves P (finish_read H now name result token src)"
proof (rule preservesI)
  fix q assume P: "P q"
  let ?m = "\<lambda>f. sbind (read_claim H now name f) (\<lambda>(c, job).
      if token \<noteq> None \<and> token \<noteq> Some (qc_claim_token c)
      then raise (ValueError [Text ''stale claim token cannot finish this job''])
      else if src = ''worker'' \<and> now > qc_expires_at c
      then raise (ValueError [Text ''expired claim token cannot finish this job''])
      else if job_id_from_result result \<noteq> None \<and> job_id_from_result result \<noteq> Some (rj_job_id job)
      then raise (ValueError [Text ''result job_id does not match running claim''])
      else ret (Some (c, job), rj_job_id job, qc_claim_token c))"
  have "preserves P (?m f)" for f
    using assms by (intro preserves_intros)
  with P show "P (snd (finish_read H now name result token src q))"
    unfolding preserves_def by (simp add: finish_read_def split: option.split)
qed

lemma finish_cleanup_frame [preserves_intros]:
  assumes "ignores_running P"
  shows "preserves P (finish_cleanup H now name token new)"
proof (rule preservesI)
  fix q assume P: "P q"
  let ?m = "\<lambda>f. sbind (read_claim H now name f) (\<lambda>(c, job).
      if qc_claim_token c \<noteq> token
      then raise (ValueError [Text (if new then ''claim token changed during terminal commit''
                                    else ''stale running claim cannot be cleaned'')])
      else modify (\<lambda>q. q\<lparr>hq_running := dict_pop (hq_running q) name\<rparr>))"
  have "preserves P (?m f)" for f
    using assms by (intro preserves_intros)
  with P have m: "P (snd (?m f q))" for f unfolding preserves_def by blast
  show "P (snd (finish_cleanup H now name token new q))"
  proof (cases "dict_get (hq_running q) name")
    case None
    with P show ?thesis by (simp add: finish_cleanup_def)
  next
    case (Some f)
    show ?thesis unfolding finish_cleanup_def Some option.case by (rule m)
  qed
qed

text \<open>A commit touches only the terminals.\<close>

lemma finish_commit_frame:
  assumes "\<And>s d q. P (set_bucket s d q) = P q"
  shows "preserves P (finish_commit H now success result src known)"
  using assms by (auto simp: preserves_def finish_commit_def split: sum.split option.split prod.split)

end
