(* ===== verification/Queue_Properties.thy ===== *)
theory Queue_Properties
  imports Host_Queue
begin

text \<open>
  What the host queue guarantees: the steps of all processes that share it, including those that die
  between two writes; that an outcome once committed is final, that no job is lost and none is held by
  two claims, that a result is fenced by its claim token, and how fair the claims are.
\<close>

section \<open>Steps\<close>

text \<open>A strict run only enqueues jobs whose identity the queue does not know, as the campaign's
  dispatcher does; the names of new claims are new.\<close>

inductive queue_step :: "(py \<Rightarrow> string) \<Rightarrow> bool \<Rightarrow> HostQueue \<Rightarrow> HostQueue \<Rightarrow> bool" for H strict where
  enqueue: "(strict \<Longrightarrow> rj_job_id job \<notin> known_ids q) \<Longrightarrow>
    queue_step H strict q (snd (SharedHostQueue_enqueue H now job q))"
| claim: "dict_get (hq_running q) (claim_name fresh) = None \<Longrightarrow>
    queue_step H strict q (snd (SharedHostQueue_claim H now fresh worker process lease_s q))"
| claim_dies_before_rename: "claim_choice H q = (Inr (Some (key, source, job)), q1) \<Longrightarrow>
    queue_step H strict q (claim_write now source (claim_envelope job fresh owner now lease_s) q1)"
| claim_dies_before_cursor: "claim_choice H q = (Inr (Some (key, source, job)), q1) \<Longrightarrow>
    dict_get (hq_running q) (claim_name fresh) = None \<Longrightarrow>
    queue_step H strict q (claim_rename source (claim_name fresh)
      (claim_write now source (claim_envelope job fresh owner now lease_s) q1))"
| heartbeat: "queue_step H strict q (snd (SharedHostQueue_heartbeat H now name token lease_s q))"
| finish: "queue_step H strict q (snd (SharedHostQueue_finish H now name success result token q))"
| finish_dies: "queue_step H strict q (snd (sbind (finish_read H now name result token src)
      (finish_commit H now success result src) q))"
| recover: "queue_step H strict q (snd (recover_one H now files stale_after_s name q))"

section \<open>Terminals\<close>

lemma bucket_simps [simp]:
  "bucket True q = hq_completed q" "bucket False q = hq_failed q"
  "bucket s (set_bucket s d q) = d" "bucket (\<not> s) (set_bucket s d q) = bucket (\<not> s) q"
  by (simp_all add: bucket_def set_bucket_def)

lemma set_bucket_same [simp]: "set_bucket s (bucket s q) q = q"
  by (simp add: bucket_def set_bucket_def)

lemma bucket_set_bucket: "bucket s (set_bucket t d q) = (if s = t then d else bucket s q)"
  by (simp add: bucket_def set_bucket_def)

lemma set_bucket_parts [simp]:
  "hq_pending (set_bucket s d q) = hq_pending q" "hq_running (set_bucket s d q) = hq_running q"
  "hq_cursor (set_bucket s d q) = hq_cursor q"
  by (simp_all add: set_bucket_def)

lemma terminal_ids_bucket: "j \<in> terminal_ids q \<longleftrightarrow> (\<exists>s. j \<in> ids_in (bucket s q))"
  by (auto simp: terminal_ids_def bucket_def split: if_splits)

lemma find_terminal_None:
  assumes "find_terminal H j q = Inr None"
  obtains name where "job_filename H j = Inr name" "\<And>s. dict_get (bucket s q) name = None"
proof -
  obtain name where n: "job_filename H j = Inr name" using assms by (auto simp: find_terminal_def rbind_Inr_iff)
  have "terminal_candidates name q = []"
    using assms n by (auto simp: find_terminal_def rbind_Inr_iff split: list.splits if_splits)
  then have "dict_get (bucket True q) name = None" "dict_get (bucket False q) name = None"
    by (auto simp: terminal_candidates_def split: option.splits)
  then have "dict_get (bucket s q) name = None" for s by (cases s) simp_all
  with n show ?thesis using that by blast
qed

lemma find_terminal_Some:
  assumes "find_terminal H j q = Inr (Some (s, name, e))"
  obtains f where "job_filename H j = Inr name" "dict_get (bucket s q) name = Some f" "qf_envelope f = e"
    "file_id f = j"
proof -
  obtain path where path: "job_filename H j = Inr path" using assms by (auto simp: find_terminal_def rbind_Inr_iff)
  obtain f where one: "terminal_candidates path q = [(s, f)]" and e: "qf_envelope f = e" and p: "path = name"
    and j: "\<exists>job. job_from_envelope e = Inr job \<and> rj_job_id job = j"
  proof (cases "terminal_candidates path q")
    case Nil
    with assms path show ?thesis by (simp add: find_terminal_def)
  next
    case (Cons x xs)
    obtain t f where x: "x = (t, f)" by (cases x)
    have "xs = []" using assms path Cons x by (cases xs) (simp_all add: find_terminal_def)
    with assms path Cons x show ?thesis
      by (intro that [of f]) (auto simp: find_terminal_def rbind_Inr_iff split: if_splits)
  qed
  note n = path [unfolded p] and one = one [unfolded p]
  have "(s, f) \<in> set (terminal_candidates name q)" using one by simp
  then have "dict_get (bucket s q) name = Some f"
    by (auto simp: terminal_candidates_def split: option.splits if_splits)
  with n e j show ?thesis using that job_from_envelope_Inr by metis
qed

lemma find_terminal_known: "find_terminal H j q = Inr (Some t) \<Longrightarrow> j \<in> terminal_ids q"
  by (cases t) (auto elim!: find_terminal_Some simp: terminal_ids_bucket intro: ids_inI)

definition terminals_ok :: "(py \<Rightarrow> string) \<Rightarrow> HostQueue \<Rightarrow> bool" where
  "terminals_ok H q \<longleftrightarrow>
     (\<forall>s n f. dict_get (bucket s q) n = Some f \<longrightarrow>
        (\<exists>t. qf_envelope f = TerminalEnv t \<and> qt_job_id t = rj_job_id (qt_job t) \<and> qt_success t = s
             \<and> job_filename H (qt_job_id t) = Inr n))
     \<and> (\<forall>n. dict_get (hq_completed q) n = None \<or> dict_get (hq_failed q) n = None)"

lemma terminals_okD: "terminals_ok H q \<Longrightarrow> dict_get (hq_completed q) n = None \<or> dict_get (hq_failed q) n = None"
  unfolding terminals_ok_def by (elim conjE allE [of _ n])

lemma terminals_ok_file:
  "terminals_ok H q \<Longrightarrow> dict_get (bucket s q) n = Some f \<Longrightarrow>
    \<exists>t. qf_envelope f = TerminalEnv t \<and> qt_job_id t = rj_job_id (qt_job t) \<and> qt_success t = s
      \<and> job_filename H (qt_job_id t) = Inr n"
  unfolding terminals_ok_def by (elim conjE) simp

text \<open>What is on file stays on file.\<close>

definition final_le :: "HostQueue \<Rightarrow> HostQueue \<Rightarrow> bool" where
  "final_le q q' \<longleftrightarrow> (\<forall>s n f. dict_get (bucket s q) n = Some f \<longrightarrow> dict_get (bucket s q') n = Some f)"

lemma final_le_refl [simp]: "final_le q q"
  by (simp add: final_le_def)

lemma final_le_trans: "final_le p q \<Longrightarrow> final_le q r \<Longrightarrow> final_le p r"
  by (simp add: final_le_def)

definition known_ok :: "(QueueClaim \<times> RolloutJob) option \<times> string \<times> string \<Rightarrow> bool" where
  "known_ok known \<longleftrightarrow> (\<forall>c job. fst known = Some (c, job) \<longrightarrow>
     rj_job_id job = fst (snd known) \<and> qc_claim_token c = snd (snd known))"

lemma finish_read_known:
  "finish_read H now name result token src q = (Inr known, q') \<Longrightarrow> known_ok known"
  by (auto simp: finish_read_def known_ok_def sbind_Inr raise_def ret_def split: option.splits if_splits)

text \<open>A commit either changes nothing or adds one terminal under a free name.\<close>

lemma finish_commit_cases:
  assumes "finish_commit H now success result src known q = (r, q')" "known_ok known"
  obtains (same) "q' = q" "\<And>x. r = Inr x \<Longrightarrow> fst (snd known) \<in> terminal_ids q"
  | (new) c job path where "known = (Some (c, job), rj_job_id job, qc_claim_token c)"
      "job_filename H (rj_job_id job) = Inr path" "\<And>s. dict_get (bucket s q) path = None"
      "r = Inr ((success, path), True)"
      "q' = set_bucket success (dict_set (bucket success q) path \<lparr>qf_mtime = now,
         qf_envelope = TerminalEnv (terminal_envelope H now c job success result src)\<rparr>) q"
proof -
  obtain active j token where known: "known = (active, j, token)" by (cases known) auto
  show ?thesis
  proof (cases "find_terminal H j q = Inr None \<and> active \<noteq> None")
    case False
    then have "q' = q" "r = Inr x \<Longrightarrow> \<exists>t. find_terminal H j q = Inr (Some t)" for x
      using assms(1) by (auto simp: finish_commit_def known split: sum.splits option.splits)
    then show ?thesis using same find_terminal_known unfolding known by (metis fst_conv snd_conv)
  next
    case True
    then obtain c job where a: "active = Some (c, job)" by auto
    have j: "j = rj_job_id job" "token = qc_claim_token c" using assms(2) known a by (auto simp: known_ok_def)
    obtain path where path: "job_filename H j = Inr path" "\<And>s. dict_get (bucket s q) path = None"
      using True find_terminal_None by metis
    have "(r, q') = (Inr ((success, path), True), set_bucket success (dict_set (bucket success q) path
        \<lparr>qf_mtime = now, qf_envelope = TerminalEnv (terminal_envelope H now c job success result src)\<rparr>) q)"
      using assms(1) True path by (simp add: finish_commit_def known a j publish_def)
    with path show ?thesis by (intro new [of c job path]) (simp_all add: known a j)
  qed
qed

lemma terminals_ok_new:
  assumes "terminals_ok H q" "job_filename H (rj_job_id job) = Inr path" "\<And>s. dict_get (bucket s q) path = None"
  shows "terminals_ok H (set_bucket success (dict_set (bucket success q) path \<lparr>qf_mtime = now,
           qf_envelope = TerminalEnv (terminal_envelope H now c job success result src)\<rparr>) q)"
    (is "terminals_ok H ?q")
  unfolding terminals_ok_def
proof (intro conjI allI impI)
  fix s n f assume f: "dict_get (bucket s ?q) n = Some f"
  show "\<exists>t. qf_envelope f = TerminalEnv t \<and> qt_job_id t = rj_job_id (qt_job t) \<and> qt_success t = s
      \<and> job_filename H (qt_job_id t) = Inr n"
  proof (cases "s = success \<and> n = path")
    case True
    with f assms(2) show ?thesis by (auto simp: bucket_set_bucket terminal_envelope_def)
  next
    case False
    with f have "dict_get (bucket s q) n = Some f" by (auto simp: bucket_set_bucket split: if_splits)
    with assms(1) show ?thesis by (simp add: terminals_ok_def)
  qed
next
  fix n
  have "dict_get (bucket True ?q) n = None \<or> dict_get (bucket False ?q) n = None"
    using assms(1) assms(3) [of True] assms(3) [of False]
    by (cases success) (auto simp: bucket_set_bucket terminals_ok_def)
  then show "dict_get (hq_completed ?q) n = None \<or> dict_get (hq_failed ?q) n = None" by simp
qed

lemma final_le_new: "dict_get (bucket s q) path = None \<Longrightarrow> final_le q (set_bucket s (dict_set (bucket s q) path f) q)"
  by (auto simp: final_le_def bucket_set_bucket)

abbreviation settled :: "(py \<Rightarrow> string) \<Rightarrow> HostQueue \<Rightarrow> HostQueue \<Rightarrow> bool" where
  "settled H q0 q \<equiv> terminals_ok H q \<and> final_le q0 q"

lemma settled_frame:
  assumes "\<And>T. preserves (\<lambda>q. terminals q = T) m"
  shows "preserves (settled H q0) m"
proof (rule preservesI)
  fix q assume ok: "settled H q0 q"
  have t: "terminals (snd (m q)) = terminals q" using assms by (simp add: preserves_def)
  then have "bucket s (snd (m q)) = bucket s q" for s using terminals_eqD by blast
  moreover have "hq_completed (snd (m q)) = hq_completed q" "hq_failed (snd (m q)) = hq_failed q"
    using t by (simp_all add: terminals_def)
  ultimately show "settled H q0 (snd (m q))" using ok by (simp add: terminals_ok_def final_le_def)
qed

lemma ignores_running_settled [simp]: "ignores_running (settled H q0)"
  by (simp add: ignores_running_def terminals_ok_def final_le_def bucket_def)

lemma preserves_sbind_post:
  "preserves P m \<Longrightarrow> (\<And>s x t. P s \<Longrightarrow> m s = (Inr x, t) \<Longrightarrow> preserves P (k x)) \<Longrightarrow> preserves P (sbind m k)"
  by (fastforce simp: preserves_def sbind_def split: prod.split sum.split)

lemma finish_commit_settled:
  assumes "known_ok known"
  shows "preserves (settled H q0) (finish_commit H now success result src known)"
proof (rule preservesI)
  fix q assume ok: "settled H q0 q"
  obtain r q' where run: "finish_commit H now success result src known q = (r, q')" by (metis surj_pair)
  from run assms have "settled H q0 q'"
  proof (cases rule: finish_commit_cases)
    case (new c job path)
    with ok show ?thesis by (blast intro: terminals_ok_new final_le_trans final_le_new)
  qed (use ok in simp)
  with run show "settled H q0 (snd (finish_commit H now success result src known q))" by simp
qed

lemma finish_head_settled:
  "preserves (settled H q0) (sbind (finish_read H now name result token src) (finish_commit H now success result src))"
  by (rule preserves_sbind_post [OF finish_read_frame [OF ignores_running_settled]])
    (auto intro: finish_commit_settled finish_read_known)

lemma finish_locked_settled: "preserves (settled H q0) (finish_locked H now name success result token src)"
  unfolding finish_locked_def
proof (rule preserves_sbind_post [OF finish_read_frame [OF ignores_running_settled]])
  fix q known q1 assume "finish_read H now name result token src q = (Inr known, q1)"
  then have "preserves (settled H q0) (finish_commit H now success result src known)"
    using finish_commit_settled finish_read_known by blast
  moreover have "preserves (settled H q0) (finish_cleanup H now name (snd (snd known)) new)" for new
    by (rule finish_cleanup_frame [OF ignores_running_settled])
  ultimately show "preserves (settled H q0) (sbind (finish_commit H now success result src known)
      (\<lambda>(path, committed). sbind (finish_cleanup H now name (snd (snd known)) committed) (\<lambda>_. ret path)))"
    by (auto intro!: preserves_intros)
qed

lemma recover_body_settled: "preserves (settled H q0) (recover_body H now files stale name mtime cj terminal)"
proof (cases cj)
  case (Pair c job)
  have pop: "preserves (settled H q0) (modify (\<lambda>q. q\<lparr>hq_running := dict_pop (hq_running q) name\<rparr>))"
    by (rule settled_frame) (simp add: preserves_def modify_def)
  show ?thesis
    unfolding recover_body_def Pair Let_def prod.case
    by (intro preserves_intros pop finish_locked_settled)
qed

lemma recover_one_settled: "preserves (settled H q0) (recover_one H now files stale name)"
proof (rule preservesI)
  fix q assume ok: "settled H q0 q"
  have "preserves (settled H q0) (sbind (read_claim H now name f) (\<lambda>(c, job).
      sbind (asks (find_terminal H (rj_job_id job))) (recover_body H now files stale name mtime (c, job))))"
    for f mtime
    by (intro preserves_intros recover_body_settled read_claim_frame [OF ignores_running_settled])
  with ok show "settled H q0 (snd (recover_one H now files stale name q))"
    unfolding preserves_def by (simp add: recover_one_def split: option.split)
qed

lemma claim_choice_state:
  "claim_choice H q = (r, q1) \<Longrightarrow> terminals q1 = terminals q"
  using claim_choice_terminals [of "terminals q" H] by (auto simp: preserves_def dest: spec [of _ q])

lemma queue_step_settled:
  assumes "queue_step H strict q q'" "terminals_ok H q"
  shows "settled H q q'"
proof -
  have frame: "settled H q (snd (m q))" if "preserves (settled H q) m" for m :: "'a queue_op"
    using that assms(2) by (simp add: preserves_def)
  have same: "settled H q p" if "terminals p = terminals q" for p
    using that assms(2) terminals_eqD [OF that] by (auto simp: terminals_ok_def final_le_def terminals_def)
  from assms(1) show ?thesis
  proof cases
    case (enqueue job now)
    then show ?thesis by (simp only:) (rule same [OF enqueue_terminals])
  next
    case (claim fresh now worker process lease_s)
    then show ?thesis
      using claim_terminals [of "terminals q"] by (simp only:) (rule same, simp add: preserves_def)
  next
    case (claim_dies_before_rename key source job q1 now fresh owner lease_s)
    then show ?thesis using claim_choice_state by (simp only:) (rule same, simp)
  next
    case (claim_dies_before_cursor key source job q1 fresh now owner lease_s)
    then show ?thesis using claim_choice_state by (simp only:) (rule same, simp)
  next
    case (heartbeat now name token lease_s)
    then show ?thesis
      using heartbeat_frame [OF ignores_running_frames(1) [of "terminals q"]]
      by (simp only:) (rule same, simp add: preserves_def)
  next
    case (finish now name success result token)
    then show ?thesis
      using finish_locked_settled [of H q now name success result token "''worker''"] assms(2)
      by (simp add: SharedHostQueue_finish_def preserves_def)
  next
    case (finish_dies now name result token src success)
    then show ?thesis
      using finish_head_settled [of H q now name result token src success] assms(2) by (simp add: preserves_def)
  next
    case (recover now files stale_after_s name)
    then show ?thesis
      using recover_one_settled [of H q now files stale_after_s name] assms(2) by (simp add: preserves_def)
  qed
qed

lemma queue_run_settled: "(queue_step H strict)\<^sup>*\<^sup>* q q' \<Longrightarrow> terminals_ok H q \<Longrightarrow> settled H q q'"
proof (induction rule: rtranclp_induct)
  case (step q1 q2)
  then have "settled H q q1" by blast
  with queue_step_settled [OF step.hyps(2)] show ?case using final_le_trans by blast
qed simp

lemma empty_queue_terminals [simp]: "terminals_ok H empty_queue"
  by (simp add: terminals_ok_def empty_queue_def bucket_def)

section \<open>Where a job is\<close>

definition held_ok :: "(py \<Rightarrow> string) \<Rightarrow> HostQueue \<Rightarrow> bool" where
  "held_ok H q \<longleftrightarrow>
     (\<forall>n f. dict_get (hq_pending q) n = Some f \<longrightarrow> file_ok f \<and> job_filename H (file_id f) = Inr n)
     \<and> (\<forall>n f. dict_get (hq_running q) n = Some f \<longrightarrow>
          (\<exists>c. qf_envelope f = ClaimEnv c \<and> qc_job_id c = rj_job_id (qc_job c)))
     \<and> (\<forall>n m f g. dict_get (hq_running q) n = Some f \<and> dict_get (hq_running q) m = Some g
          \<and> file_id f = file_id g \<longrightarrow> n = m)
     \<and> ids_in (hq_pending q) \<inter> ids_in (hq_running q) = {}
     \<and> dict_ok (hq_pending q)"

lemma held_okD:
  assumes "held_ok H q"
  shows "dict_get (hq_pending q) n = Some f \<Longrightarrow> file_ok f \<and> job_filename H (file_id f) = Inr n"
    and "dict_get (hq_running q) n = Some f \<Longrightarrow> \<exists>c. qf_envelope f = ClaimEnv c \<and> qc_job_id c = rj_job_id (qc_job c)"
    and "dict_get (hq_running q) n = Some f \<Longrightarrow> dict_get (hq_running q) m = Some g \<Longrightarrow> file_id f = file_id g \<Longrightarrow> n = m"
    and "ids_in (hq_pending q) \<inter> ids_in (hq_running q) = {}"
    and "dict_ok (hq_pending q)"
  using assms unfolding held_ok_def by blast+

lemma empty_queue_held [simp]: "held_ok H empty_queue"
  by (simp add: held_ok_def empty_queue_def)

text \<open>The two shapes of the changes that are not claims: files disappear whose job has a terminal.\<close>

definition settles :: "HostQueue \<Rightarrow> HostQueue \<Rightarrow> bool" where
  "settles q q' \<longleftrightarrow> terminal_ids q \<subseteq> terminal_ids q' \<and> (dict_ok (hq_pending q) \<longrightarrow> dict_ok (hq_pending q'))
     \<and> (\<forall>n. dict_get (hq_pending q') n = dict_get (hq_pending q) n
          \<or> dict_get (hq_pending q') n = None \<and> (\<forall>f. dict_get (hq_pending q) n = Some f \<longrightarrow> file_id f \<in> terminal_ids q'))
     \<and> (\<forall>n. dict_get (hq_running q') n = dict_get (hq_running q) n
          \<or> dict_get (hq_running q') n = None \<and> (\<forall>f. dict_get (hq_running q) n = Some f \<longrightarrow> file_id f \<in> terminal_ids q'))"

lemma settles_refl [simp]: "settles q q"
  by (simp add: settles_def)

lemma settles_lookup:
  assumes "settles q q'"
  shows "dict_get (hq_pending q') n = Some f \<Longrightarrow> dict_get (hq_pending q) n = Some f"
    and "dict_get (hq_running q') n = Some f \<Longrightarrow> dict_get (hq_running q) n = Some f"
  using assms unfolding settles_def by (metis option.distinct(1))+

lemma settles_held:
  assumes "settles q q'" "held_ok H q"
  shows "held_ok H q'"
proof -
  note look = settles_lookup [OF assms(1)]
  have "ids_in (hq_pending q') \<subseteq> ids_in (hq_pending q)" "ids_in (hq_running q') \<subseteq> ids_in (hq_running q)"
    using look by (auto simp: ids_in_iff) blast+
  then have "ids_in (hq_pending q') \<inter> ids_in (hq_running q') = {}" using held_okD(4) [OF assms(2)] by blast
  moreover have "n = m" if "dict_get (hq_running q') n = Some f" "dict_get (hq_running q') m = Some g"
    "file_id f = file_id g" for n m f g
    using held_okD(3) [OF assms(2) look(2) [OF that(1)] look(2) [OF that(2)] that(3)] .
  moreover have "file_ok f \<and> job_filename H (file_id f) = Inr n" if "dict_get (hq_pending q') n = Some f" for n f
    using held_okD(1) [OF assms(2) look(1) [OF that]] .
  moreover have "\<exists>c. qf_envelope f = ClaimEnv c \<and> qc_job_id c = rj_job_id (qc_job c)"
    if "dict_get (hq_running q') n = Some f" for n f
    using held_okD(2) [OF assms(2) look(2) [OF that]] .
  moreover have "dict_ok (hq_pending q')" using assms held_okD(5) unfolding settles_def by blast
  ultimately show ?thesis unfolding held_ok_def by blast
qed

lemma settles_known:
  assumes "settles q q'"
  shows "known_ids q \<subseteq> known_ids q'"
proof
  fix j assume "j \<in> known_ids q"
  then consider (p) n f where "dict_get (hq_pending q) n = Some f" "file_id f = j"
    | (r) n f where "dict_get (hq_running q) n = Some f" "file_id f = j" | (t) "j \<in> terminal_ids q"
    by (auto simp: known_ids_def ids_in_iff)
  then show "j \<in> known_ids q'"
  proof cases
    case p
    then have "dict_get (hq_pending q') n = Some f \<or> j \<in> terminal_ids q'"
      using assms unfolding settles_def by metis
    with p show ?thesis by (auto simp: known_ids_def ids_in_iff)
  next
    case r
    then have "dict_get (hq_running q') n = Some f \<or> j \<in> terminal_ids q'"
      using assms unfolding settles_def by metis
    with r show ?thesis by (auto simp: known_ids_def ids_in_iff)
  next
    case t
    with assms show ?thesis by (auto simp: known_ids_def settles_def)
  qed
qed

section \<open>Scanning the pending jobs\<close>

text \<open>A pending job that a claim may take.\<close>

definition waiting :: "(py \<Rightarrow> string) \<Rightarrow> HostQueue \<Rightarrow> string \<Rightarrow> RolloutJob \<Rightarrow> bool" where
  "waiting H q n job \<longleftrightarrow>
     (\<exists>f. dict_get (hq_pending q) n = Some f \<and> job_from_envelope (qf_envelope f) = Inr job
          \<and> find_terminal H (rj_job_id job) q = Inr None)"

definition waiting_keys :: "(py \<Rightarrow> string) \<Rightarrow> HostQueue \<Rightarrow> string set" where
  "waiting_keys H q = {scheduling_key job |n job. waiting H q n job}"

lemma waiting_keysI: "waiting H q n job \<Longrightarrow> scheduling_key job \<in> waiting_keys H q"
  unfolding waiting_keys_def by blast

lemma scan_pending_settles:
  "settles q (snd (scan_pending H names av q)) \<and> hq_running (snd (scan_pending H names av q)) = hq_running q
    \<and> hq_cursor (snd (scan_pending H names av q)) = hq_cursor q"
proof (induction H names av q rule: scan_pending.induct)
  case (2 H name names av q)
  show ?case
  proof (cases "dict_get (hq_pending q) name")
    case None
    with 2 show ?thesis by simp
  next
    case (Some f)
    show ?thesis
    proof (cases "rbind (job_from_envelope (qf_envelope f)) (\<lambda>job.
        rbind (find_terminal H (rj_job_id job) q) (\<lambda>t. Inr (job, t)))")
      case (Inr jt)
      obtain job t where jt: "jt = (job, t)" by (cases jt)
      have job: "job_from_envelope (qf_envelope f) = Inr job" "find_terminal H (rj_job_id job) q = Inr t"
        using Inr jt by (auto simp: rbind_Inr_iff)
      show ?thesis
      proof (cases t)
        case None
        with 2 Some Inr jt show ?thesis by simp
      next
        case (Some x)
        let ?q = "q\<lparr>hq_pending := dict_pop (hq_pending q) name\<rparr>"
        have id: "file_id f \<in> terminal_ids q"
          using find_terminal_known job Some job_from_envelope_Inr [OF job(1)] by metis
        have t: "terminal_ids ?q = terminal_ids q" by (simp add: terminal_ids_def)
        have IH: "settles ?q (snd (scan_pending H names av ?q))"
          "hq_running (snd (scan_pending H names av ?q)) = hq_running q"
          "hq_cursor (snd (scan_pending H names av ?q)) = hq_cursor q"
          using 2 \<open>dict_get (hq_pending q) name = Some f\<close> Inr jt Some by auto
        have mono: "terminal_ids q \<subseteq> terminal_ids (snd (scan_pending H names av ?q))"
          using IH(1) t by (simp add: settles_def)
        have "settles q (snd (scan_pending H names av ?q))"
          unfolding settles_def
        proof (intro conjI allI)
          fix n
          have step: "dict_get (hq_pending (snd (scan_pending H names av ?q))) n = dict_get (hq_pending ?q) n
              \<or> dict_get (hq_pending (snd (scan_pending H names av ?q))) n = None
                \<and> (\<forall>f. dict_get (hq_pending ?q) n = Some f \<longrightarrow> file_id f \<in> terminal_ids (snd (scan_pending H names av ?q)))"
            using IH(1) unfolding settles_def by blast
          show "dict_get (hq_pending (snd (scan_pending H names av ?q))) n = dict_get (hq_pending q) n
              \<or> dict_get (hq_pending (snd (scan_pending H names av ?q))) n = None
                \<and> (\<forall>f. dict_get (hq_pending q) n = Some f \<longrightarrow> file_id f \<in> terminal_ids (snd (scan_pending H names av ?q)))"
          proof (cases "n = name")
            case True
            with step id mono \<open>dict_get (hq_pending q) name = Some f\<close> show ?thesis by auto
          next
            case False
            with step show ?thesis by simp
          qed
        next
          show "dict_ok (hq_pending q) \<longrightarrow> dict_ok (hq_pending (snd (scan_pending H names av ?q)))"
            using IH(1) by (simp add: settles_def)
        qed (use mono IH(2) in auto)
        with IH(2,3) show ?thesis
          using \<open>dict_get (hq_pending q) name = Some f\<close> Inr jt Some by simp
      qed
    qed (simp add: Some)
  qed
qed simp

lemma waiting_pop:
  assumes "n \<noteq> name"
  shows "waiting H (q\<lparr>hq_pending := dict_pop (hq_pending q) name\<rparr>) n job \<longleftrightarrow> waiting H q n job"
  using assms find_terminal_cong [of "q\<lparr>hq_pending := dict_pop (hq_pending q) name\<rparr>" q]
  by (simp add: waiting_def)

lemma scan_pending_keeps:
  "distinct names \<Longrightarrow> n \<notin> set names \<or> (\<exists>job. waiting H q n job) \<Longrightarrow>
    dict_get (hq_pending (snd (scan_pending H names av q))) n = dict_get (hq_pending q) n"
proof (induction H names av q rule: scan_pending.induct)
  case (2 H name names av q)
  have tail: "distinct names" "n \<notin> set names \<or> (\<exists>job. waiting H q n job)" using 2(4,5) by auto
  show ?case
  proof (cases "dict_get (hq_pending q) name")
    case None
    with 2(1) [OF None tail] show ?thesis by simp
  next
    case (Some f)
    show ?thesis
    proof (cases "rbind (job_from_envelope (qf_envelope f)) (\<lambda>job.
        rbind (find_terminal H (rj_job_id job) q) (\<lambda>t. Inr (job, t)))")
      case (Inl e)
      with Some show ?thesis by simp
    next
      case (Inr jt)
      obtain job t where jt: "jt = (job, t)" by (cases jt)
      show ?thesis
      proof (cases t)
        case None
        with 2(2) [OF Some Inr jt [symmetric] None tail] Some Inr jt show ?thesis by simp
      next
        case (Some x)
        have "find_terminal H (rj_job_id job) q = Inr (Some x)" "job_from_envelope (qf_envelope f) = Inr job"
          using Inr jt Some by (auto simp: rbind_Inr_iff)
        then have "\<not> waiting H q name job'" for job'
          using \<open>dict_get (hq_pending q) name = Some f\<close> by (auto simp: waiting_def)
        then have n: "n \<noteq> name" using 2(5) by auto
        have "n \<notin> set names \<or> (\<exists>job. waiting H (q\<lparr>hq_pending := dict_pop (hq_pending q) name\<rparr>) n job)"
          using tail(2) waiting_pop [OF n] by simp
        from 2(3) [OF \<open>dict_get (hq_pending q) name = Some f\<close> Inr jt [symmetric] Some tail(1) this]
        show ?thesis using n Inr jt Some \<open>dict_get (hq_pending q) name = Some f\<close> by simp
      qed
    qed
  qed
qed simp

definition groups_ok :: "available \<Rightarrow> bool" where
  "groups_ok av \<longleftrightarrow> dict_ok av \<and> (\<forall>k l. dict_get av k = Some l \<longrightarrow> l \<noteq> [])"

lemma groups_ok_add: "groups_ok av \<Longrightarrow> groups_ok (dict_set av k (dict_get_or av k [] @ [x]))"
  by (simp add: groups_ok_def)

lemma scan_pending_groups:
  assumes "scan_pending H names av q = (Inr av', q')" "distinct names" "groups_ok av"
  shows "groups_ok av' \<and> (\<forall>k n job. (n, job) \<in> set (dict_get_or av' k []) \<longleftrightarrow>
      (n, job) \<in> set (dict_get_or av k []) \<or> n \<in> set names \<and> waiting H q n job \<and> scheduling_key job = k)"
  using assms
proof (induction H names av q rule: scan_pending.induct)
  case (2 H name names av q)
  show ?case
  proof (cases "dict_get (hq_pending q) name")
    case None
    then have "\<not> waiting H q name job" for job by (simp add: waiting_def)
    with 2 None show ?thesis by auto
  next
    case (Some f)
    show ?thesis
    proof (cases "rbind (job_from_envelope (qf_envelope f)) (\<lambda>job.
        rbind (find_terminal H (rj_job_id job) q) (\<lambda>t. Inr (job, t)))")
      case (Inr jt)
      obtain job t where jt: "jt = (job, t)" by (cases jt)
      have t: "find_terminal H (rj_job_id job) q = Inr t" and job: "job_from_envelope (qf_envelope f) = Inr job"
        using Inr jt by (auto simp: rbind_Inr_iff)
      show ?thesis
      proof (cases t)
        case None
        have w: "waiting H q name job' \<longleftrightarrow> job' = job" for job'
          using Some t job None by (auto simp: waiting_def)
        have "scan_pending H names (dict_set av (scheduling_key job)
            (dict_get_or av (scheduling_key job) [] @ [(name, job)])) q = (Inr av', q')"
          using 2(4) Some Inr jt None by simp
        with 2(2) [OF Some Inr jt [symmetric] None _ _ groups_ok_add] 2(5,6)
        have IH: "groups_ok av'" "\<And>k n job'. (n, job') \<in> set (dict_get_or av' k []) \<longleftrightarrow>
           (n, job') \<in> set (dict_get_or (dict_set av (scheduling_key job)
              (dict_get_or av (scheduling_key job) [] @ [(name, job)])) k [])
           \<or> n \<in> set names \<and> waiting H q n job' \<and> scheduling_key job' = k"
          by auto
        show ?thesis
        proof (intro conjI allI)
          fix k n job'
          show "(n, job') \<in> set (dict_get_or av' k []) \<longleftrightarrow> (n, job') \<in> set (dict_get_or av k [])
              \<or> n \<in> set (name # names) \<and> waiting H q n job' \<and> scheduling_key job' = k"
            unfolding IH(2) using w by (cases "k = scheduling_key job"; cases "n = name")
              (auto simp: dict_get_or_def split: option.splits)
        qed (rule IH(1))
      next
        case (Some x)
        let ?q = "q\<lparr>hq_pending := dict_pop (hq_pending q) name\<rparr>"
        have "\<not> waiting H q name job'" for job'
          using \<open>dict_get (hq_pending q) name = Some f\<close> t job Some by (auto simp: waiting_def)
        then have w: "n \<in> set names \<and> waiting H ?q n job' \<longleftrightarrow> n \<in> set (name # names) \<and> waiting H q n job'" for n job'
          using 2(5) waiting_pop by (cases "n = name") auto
        have "scan_pending H names av ?q = (Inr av', q')"
          using 2(4) \<open>dict_get (hq_pending q) name = Some f\<close> Inr jt Some by simp
        with 2(3) [OF \<open>dict_get (hq_pending q) name = Some f\<close> Inr jt [symmetric] Some] 2(5,6)
        show ?thesis unfolding conj_assoc [symmetric] w by auto
      qed
    qed (use 2(4) Some in simp)
  qed
qed simp

text \<open>What a claim chooses: a waiting job of the next key.\<close>

lemma groups_scan:
  assumes "scan_pending H (sort (dict_keys (hq_pending q))) [] q = (Inr av, q1)" "dict_ok (hq_pending q)"
  shows "groups_ok av" "set (dict_keys av) = waiting_keys H q"
    "(n, job) \<in> set (dict_get_or av k []) \<longleftrightarrow> waiting H q n job \<and> scheduling_key job = k"
proof -
  have d: "distinct (sort (dict_keys (hq_pending q)))"
    using assms(2) alist_dict.wf_distinct by simp
  have g: "groups_ok ([] :: available)" by (simp add: groups_ok_def)
  note scan = scan_pending_groups [OF assms(1) d g]
  have in_names: "n \<in> set (sort (dict_keys (hq_pending q)))" if "waiting H q n job" for n job
    using that by (auto simp: waiting_def dict_keys_iff)
  show ok: "groups_ok av" using scan by blast
  have iff: "(n, job) \<in> set (dict_get_or av k []) \<longleftrightarrow> waiting H q n job \<and> scheduling_key job = k" for n job k
    using scan in_names by (auto simp: dict_get_or_def)
  show "(n, job) \<in> set (dict_get_or av k []) \<longleftrightarrow> waiting H q n job \<and> scheduling_key job = k" by (rule iff)
  have "k \<in> set (dict_keys av) \<longleftrightarrow> dict_get_or av k [] \<noteq> []" for k
    using ok by (auto simp: dict_keys_iff dict_get_or_def groups_ok_def split: option.splits)
  then have "k \<in> set (dict_keys av) \<longleftrightarrow> (\<exists>n job. (n, job) \<in> set (dict_get_or av k []))" for k
    by (metis list.set_sel(1) empty_iff empty_set old.prod.exhaust)
  then show "set (dict_keys av) = waiting_keys H q"
    unfolding waiting_keys_def iff by (intro set_eqI) (simp only: mem_Collect_eq, metis)
qed

lemma claim_choice_Some:
  assumes "claim_choice H q = (Inr (Some (key, source, job)), q1)" "dict_ok (hq_pending q)"
  shows "waiting H q source job" "scheduling_key job = key"
    "key = hd (rotate_keys (hq_cursor q) (sorted_list_of_set (waiting_keys H q)))" "waiting_keys H q \<noteq> {}"
    "finite (waiting_keys H q)" "settles q q1" "hq_running q1 = hq_running q" "terminals q1 = terminals q"
    "dict_get (hq_pending q1) source = dict_get (hq_pending q) source"
proof -
  let ?names = "sort (dict_keys (hq_pending q))"
  obtain av where scan: "scan_pending H ?names [] q = (Inr av, q1)" and av: "av \<noteq> []"
    and key: "key = next_key (hq_cursor q1) (dict_keys av)"
    and pick: "(source, job) = pick_job q1 (dict_get_or av key [])"
    using assms(1)
    by (auto simp: claim_choice_def sbind_Inr asks_def ret_def Let_def split: if_splits)
  have d: "distinct ?names" using assms(2) alist_dict.wf_distinct by simp
  note same = scan_pending_settles [of q H ?names "[]"]
  show "settles q q1" "hq_running q1 = hq_running q" using same scan by simp_all
  have cursor: "hq_cursor q1 = hq_cursor q" using same scan by simp
  show "terminals q1 = terminals q" using scan_pending_terminals [of H ?names "[]" q] scan by simp
  note groups = groups_scan [OF scan assms(2)]
  have "distinct (dict_keys av)" using groups(1) by (simp add: groups_ok_def dict_ok_def dict_keys_def)
  then have sorted: "sort (dict_keys av) = sorted_list_of_set (waiting_keys H q)"
    unfolding groups(2) [symmetric] by (simp add: sorted_list_of_set_sort_remdups distinct_remdups_id)
  show keys: "key = hd (rotate_keys (hq_cursor q) (sorted_list_of_set (waiting_keys H q)))"
    using key cursor sorted by (simp add: next_key_def)
  have ne: "dict_keys av \<noteq> []" using av by (simp add: dict_keys_def)
  then show "waiting_keys H q \<noteq> {}" unfolding groups(2) [symmetric] by simp
  show "finite (waiting_keys H q)" unfolding groups(2) [symmetric] by simp
  have "set (rotate_keys last ys) = set ys" for last and ys :: "string list"
    by (auto simp: rotate_keys_def Let_def split: option.split dest: in_set_takeD in_set_dropD)
      (metis Un_iff append_take_drop_id set_append)+
  moreover have "rotate_keys (hq_cursor q) (sort (dict_keys av)) \<noteq> []"
    using calculation ne by (metis set_empty set_sort)
  ultimately have "key \<in> set (dict_keys av)" using keys sorted hd_in_set set_sort by metis
  then have "dict_get_or av key [] \<noteq> []"
    using groups(1) by (auto simp: dict_keys_iff dict_get_or_def groups_ok_def split: option.splits)
  then have "(source, job) \<in> set (dict_get_or av key [])"
    unfolding pick pick_job_def by (rule arg_min_list_in)
  then show w: "waiting H q source job" and "scheduling_key job = key" unfolding groups(3) by simp_all
  show "dict_get (hq_pending q1) source = dict_get (hq_pending q) source"
    using scan_pending_keeps [OF d, of source H q "[]"] w scan by auto
qed

section \<open>Every step conserves the jobs\<close>

abbreviation conserves :: "(py \<Rightarrow> string) \<Rightarrow> HostQueue \<Rightarrow> HostQueue \<Rightarrow> bool" where
  "conserves H q q' \<equiv> held_ok H q' \<and> known_ids q \<subseteq> known_ids q'"

lemma settles_conserves: "settles q q' \<Longrightarrow> held_ok H q \<Longrightarrow> conserves H q q'"
  using settles_held settles_known by blast

lemma held_ok_cursor [simp]: "held_ok H (q\<lparr>hq_cursor := c\<rparr>) = held_ok H q"
  by (simp add: held_ok_def)

lemma known_ids_cursor [simp]: "known_ids (q\<lparr>hq_cursor := c\<rparr>) = known_ids q"
  by (simp add: known_ids_def terminal_ids_def)

lemma enqueue_conserves:
  assumes "held_ok H q" "rj_job_id job \<notin> known_ids q"
  shows "conserves H q (snd (SharedHostQueue_enqueue H now job q))"
proof (cases "job_filename H (rj_job_id job)")
  case (Inl e)
  with assms(1) show ?thesis by (simp add: SharedHostQueue_enqueue_def)
next
  case (Inr name)
  let ?f = "\<lparr>qf_mtime = now, qf_envelope = PendingEnv (rj_job_id job) job\<rparr>"
  show ?thesis
  proof (cases "dict_get (hq_pending q) name")
    case (Some g)
    with Inr assms(1) show ?thesis by (simp add: SharedHostQueue_enqueue_def publish_def)
  next
    case None
    let ?q = "q\<lparr>hq_pending := dict_set (hq_pending q) name ?f\<rparr>"
    have run: "snd (SharedHostQueue_enqueue H now job q) = ?q"
      using Inr None by (simp add: SharedHostQueue_enqueue_def publish_def)
    have ids: "ids_in (hq_pending ?q) = insert (rj_job_id job) (ids_in (hq_pending q))"
      using ids_in_set_new [OF None, of ?f] by simp
    have "held_ok H ?q"
      unfolding held_ok_def
    proof (intro conjI allI impI)
      fix n f assume "dict_get (hq_pending ?q) n = Some f"
      then show "file_ok f" "job_filename H (file_id f) = Inr n"
        using Inr held_okD(1) [OF assms(1)] by (auto simp: file_ok_def split: if_splits)
    next
      show "ids_in (hq_pending ?q) \<inter> ids_in (hq_running ?q) = {}"
        using ids assms(2) held_okD(4) [OF assms(1)] by (auto simp: known_ids_def)
    next
      fix n f assume "dict_get (hq_running ?q) n = Some f"
      then show "\<exists>c. qf_envelope f = ClaimEnv c \<and> qc_job_id c = rj_job_id (qc_job c)"
        using held_okD(2) [OF assms(1)] by simp
    next
      fix n m f g
      assume "dict_get (hq_running ?q) n = Some f \<and> dict_get (hq_running ?q) m = Some g \<and> file_id f = file_id g"
      then show "n = m" using held_okD(3) [OF assms(1)] by simp
    qed (use held_okD(5) [OF assms(1)] in simp)
    moreover have "known_ids q \<subseteq> known_ids ?q"
      using ids by (auto simp: known_ids_def terminal_ids_def)
    ultimately show ?thesis unfolding run by blast
  qed
qed

text \<open>The claim is first written into the pending file, then renamed.\<close>

lemma claim_write_conserves:
  assumes "held_ok H q" "dict_get (hq_pending q) source = Some f" "rj_job_id job = file_id f"
  shows "conserves H q (claim_write now source (claim_envelope job fresh owner now lease) q)"
    (is "conserves H q ?q")
proof -
  let ?f = "\<lparr>qf_mtime = now, qf_envelope = ClaimEnv (claim_envelope job fresh owner now lease)\<rparr>"
  have ids: "ids_in (hq_pending ?q) = ids_in (hq_pending q)"
    using ids_in_set_same [OF assms(2), of ?f] assms(3) by (simp add: claim_write_def claim_envelope_def)
  have parts: "hq_running ?q = hq_running q" "hq_pending ?q = dict_set (hq_pending q) source ?f"
    by (simp_all add: claim_write_def)
  have "held_ok H ?q"
    unfolding held_ok_def parts(1) ids
  proof (intro conjI allI impI)
    fix n g assume g: "dict_get (hq_pending ?q) n = Some g"
    have "file_ok g \<and> job_filename H (file_id g) = Inr n"
    proof (cases "n = source")
      case True
      with g parts have "g = ?f" by simp
      then show ?thesis
        using True held_okD(1) [OF assms(1,2)] assms(3) by (simp add: file_ok_def claim_envelope_def)
    next
      case False
      with g parts show ?thesis using held_okD(1) [OF assms(1)] by simp
    qed
    then show "file_ok g" "job_filename H (file_id g) = Inr n" by simp_all
  next
    fix n m g h
    assume "dict_get (hq_running q) n = Some g \<and> dict_get (hq_running q) m = Some h \<and> file_id g = file_id h"
    then show "n = m" using held_okD(3) [OF assms(1)] by blast
  qed (use held_okD(2,4,5) [OF assms(1)] parts in auto)
  moreover have "terminal_ids ?q = terminal_ids q" by (simp add: terminal_ids_def claim_write_def)
  then have "known_ids ?q = known_ids q" unfolding known_ids_def ids parts(1) by simp
  ultimately show ?thesis by simp
qed

lemma claim_rename_conserves:
  assumes "held_ok H q" "dict_get (hq_pending q) source = Some f" "qf_envelope f = ClaimEnv c"
    "qc_job_id c = rj_job_id (qc_job c)" "dict_get (hq_running q) target = None"
  shows "conserves H q (claim_rename source target q)" (is "conserves H q ?q")
proof -
  have parts: "hq_pending ?q = dict_pop (hq_pending q) source" "hq_running ?q = dict_set (hq_running q) target f"
    "terminal_ids ?q = terminal_ids q"
    using assms(2) by (simp_all add: claim_rename_def terminal_ids_def)
  have run_ids: "ids_in (hq_running ?q) = insert (file_id f) (ids_in (hq_running q))"
    unfolding parts by (rule ids_in_set_new [OF assms(5)])
  have pend: "j \<in> ids_in (hq_pending ?q) \<longleftrightarrow> (\<exists>m g. m \<noteq> source \<and> dict_get (hq_pending q) m = Some g \<and> file_id g = j)" for j
    unfolding parts by (rule ids_in_pop)
  have not_here: "file_id f \<notin> ids_in (hq_pending ?q)"
  proof
    assume "file_id f \<in> ids_in (hq_pending ?q)"
    then obtain m g where "m \<noteq> source" "dict_get (hq_pending q) m = Some g" "file_id g = file_id f"
      using pend by auto
    then show False using held_okD(1) [OF assms(1)] assms(2) by (metis Inr_inject)
  qed
  have fresh: "file_id f \<notin> ids_in (hq_running q)"
    using held_okD(4) [OF assms(1)] ids_inI [OF assms(2)] by blast
  have "held_ok H ?q"
    unfolding held_ok_def
  proof (intro conjI allI impI)
    fix n g assume "dict_get (hq_pending ?q) n = Some g"
    then have "dict_get (hq_pending q) n = Some g" by (simp add: parts split: if_splits)
    then show "file_ok g" "job_filename H (file_id g) = Inr n" using held_okD(1) [OF assms(1)] by blast+
  next
    fix n g assume "dict_get (hq_running ?q) n = Some g"
    then show "\<exists>c. qf_envelope g = ClaimEnv c \<and> qc_job_id c = rj_job_id (qc_job c)"
      using held_okD(2) [OF assms(1)] assms(3,4) by (cases "n = target") (simp_all add: parts)
  next
    fix n m g h
    assume a: "dict_get (hq_running ?q) n = Some g \<and> dict_get (hq_running ?q) m = Some h \<and> file_id g = file_id h"
    show "n = m"
    proof (cases "n = target \<or> m = target")
      case False
      with a show ?thesis using held_okD(3) [OF assms(1)] by (simp add: parts)
    next
      case True
      have other: "file_id g \<noteq> file_id f" if "dict_get (hq_running q) k = Some g" for k g
        using fresh ids_inI [OF that] by metis
      from True show ?thesis
        using a other [of n g] other [of m h] by (cases "n = target"; cases "m = target") (auto simp: parts)
    qed
  next
    have sub: "ids_in (hq_pending ?q) \<subseteq> ids_in (hq_pending q)"
      by (rule subsetI) (unfold pend, elim exE conjE, metis ids_inI)
    show "ids_in (hq_pending ?q) \<inter> ids_in (hq_running ?q) = {}"
      unfolding run_ids using not_here held_okD(4) [OF assms(1)] sub by (simp add: disjoint_iff subset_iff)
  qed (use held_okD(5) [OF assms(1)] parts in simp)
  moreover have "known_ids q \<subseteq> known_ids ?q"
  proof
    fix j assume "j \<in> known_ids q"
    then have "j \<in> ids_in (hq_pending q) \<or> j \<in> ids_in (hq_running q) \<union> terminal_ids q" by (auto simp: known_ids_def)
    moreover have "j = file_id f \<or> j \<in> ids_in (hq_pending ?q)" if "j \<in> ids_in (hq_pending q)"
      using that unfolding pend ids_in_split [OF assms(2)] .
    ultimately show "j \<in> known_ids ?q" unfolding known_ids_def parts(3) run_ids by blast
  qed
  ultimately show ?thesis by simp
qed

lemma claim_choice_file:
  assumes "claim_choice H q = (Inr (Some (key, source, job)), q1)" "held_ok H q"
  obtains f where "dict_get (hq_pending q1) source = Some f" "rj_job_id job = file_id f"
    "held_ok H q1" "known_ids q \<subseteq> known_ids q1" "hq_running q1 = hq_running q"
proof -
  note choice = claim_choice_Some [OF assms(1) held_okD(5) [OF assms(2)]]
  obtain f where "dict_get (hq_pending q) source = Some f" "job_from_envelope (qf_envelope f) = Inr job"
    using choice(1) by (auto simp: waiting_def)
  then have f: "dict_get (hq_pending q1) source = Some f" "rj_job_id job = file_id f"
    using choice(9) job_from_envelope_Inr by fastforce+
  show ?thesis
    using that [OF f] settles_conserves [OF choice(6) assms(2)] choice(7) by blast
qed

lemma claim_taken_conserves:
  assumes "claim_choice H q = (Inr (Some (key, source, job)), q1)" "held_ok H q"
    "dict_get (hq_running q) target = None"
  shows "conserves H q (claim_rename source target
    (claim_write now source (claim_envelope job fresh owner now lease) q1))"
proof -
  obtain f where f: "dict_get (hq_pending q1) source = Some f" "rj_job_id job = file_id f"
    and q1: "held_ok H q1" "known_ids q \<subseteq> known_ids q1" "hq_running q1 = hq_running q"
    using claim_choice_file [OF assms(1,2)] .
  let ?c = "claim_envelope job fresh owner now lease"
  let ?w = "claim_write now source ?c q1"
  have w: "held_ok H ?w" "known_ids q1 \<subseteq> known_ids ?w" using claim_write_conserves [OF q1(1) f] by blast+
  have "dict_get (hq_pending ?w) source = Some \<lparr>qf_mtime = now, qf_envelope = ClaimEnv ?c\<rparr>"
    "dict_get (hq_running ?w) target = None"
    using assms(3) q1(3) by (simp_all add: claim_write_def)
  then have "conserves H ?w (claim_rename source target ?w)"
    using claim_rename_conserves [OF w(1)] by (simp add: claim_envelope_def)
  with w(2) q1(2) show ?thesis by blast
qed

lemma claim_conserves:
  assumes "held_ok H q" "dict_get (hq_running q) (claim_name fresh) = None"
  shows "conserves H q (snd (SharedHostQueue_claim H now fresh worker process lease q))"
proof (cases "lease \<le> 0")
  case False
  obtain r q1 where choice: "claim_choice H q = (r, q1)" by (metis surj_pair)
  show ?thesis
  proof (cases "\<exists>key source job. r = Inr (Some (key, source, job))")
    case True
    then obtain key source job where r: "r = Inr (Some (key, source, job))" by blast
    then show ?thesis
      using False claim_taken_conserves [OF choice [unfolded r] assms(1,2)] choice
      by (simp add: SharedHostQueue_claim_def sbind_def modify_def ret_def Let_def)
  next
    case none: False
    have "snd (SharedHostQueue_claim H now fresh worker process lease q) = q1"
      using False choice none
      by (auto simp: SharedHostQueue_claim_def sbind_def ret_def Let_def split: sum.split option.split)
    moreover have "settles q q1"
      using choice scan_pending_settles [of q H "sort (dict_keys (hq_pending q))" "[]"]
      by (auto simp: claim_choice_def sbind_def asks_def ret_def split: prod.splits sum.splits if_splits)
    ultimately show ?thesis using settles_conserves [OF _ assms(1)] by simp
  qed
qed (use assms(1) in \<open>simp add: SharedHostQueue_claim_def raise_def\<close>)

text \<open>Reading a claim that the queue wrote changes nothing.\<close>

lemma read_claim_state:
  assumes "held_ok H q" "dict_get (hq_running q) name = Some f"
  obtains c where "qf_envelope f = ClaimEnv c" "qc_job_id c = rj_job_id (qc_job c)"
    "read_claim H now name f q = (rbind (claim_fields c) (\<lambda>_. Inr (c, qc_job c)), q)"
proof -
  obtain c where c: "qf_envelope f = ClaimEnv c" "qc_job_id c = rj_job_id (qc_job c)"
    using held_okD(2) [OF assms] by blast
  then show ?thesis
    by (intro that [of c]) (simp_all add: read_claim_def sbind_def ret_def asks_def)
qed

lemma refresh_conserves:
  assumes "held_ok H q" "dict_get (hq_running q) name = Some f" "qf_envelope f' = ClaimEnv c"
    "qc_job_id c = rj_job_id (qc_job c)" "rj_job_id (qc_job c) = file_id f"
  shows "conserves H q (q\<lparr>hq_running := dict_set (hq_running q) name f'\<rparr>)" (is "conserves H q ?q")
proof -
  have id: "file_id f' = file_id f" using assms(3,5) by simp
  have ids: "ids_in (dict_set (hq_running q) name f') = ids_in (hq_running q)"
    by (rule ids_in_set_same [OF assms(2) id])
  have look: "\<exists>g'. dict_get (hq_running q) n = Some g' \<and> file_id g' = file_id g"
    if "dict_get (dict_set (hq_running q) name f') n = Some g" for n g
    using that assms(2) id by (cases "n = name") auto
  have "held_ok H ?q"
    unfolding held_ok_def
  proof (intro conjI allI impI)
    fix n g assume "dict_get (hq_running ?q) n = Some g"
    then show "\<exists>c. qf_envelope g = ClaimEnv c \<and> qc_job_id c = rj_job_id (qc_job c)"
      using held_okD(2) [OF assms(1)] assms(3,4) by (cases "n = name") auto
  next
    fix n m g h
    assume "dict_get (hq_running ?q) n = Some g \<and> dict_get (hq_running ?q) m = Some h \<and> file_id g = file_id h"
    then show "n = m" using look [of n g] look [of m h] held_okD(3) [OF assms(1)] by auto
  qed (use held_okD(1,4,5) [OF assms(1)] ids in auto)
  then show ?thesis by (simp add: known_ids_def terminal_ids_def ids)
qed

lemma heartbeat_conserves:
  assumes "held_ok H q"
  shows "conserves H q (snd (SharedHostQueue_heartbeat H now name token lease q))"
proof (cases "lease \<le> 0 \<or> dict_get (hq_running q) name = None")
  case True
  then have "snd (SharedHostQueue_heartbeat H now name token lease q) = q"
    by (auto simp: SharedHostQueue_heartbeat_def split: option.split)
  with assms show ?thesis by simp
next
  case False
  then obtain f where f: "dict_get (hq_running q) name = Some f" by auto
  obtain c where c: "qf_envelope f = ClaimEnv c" "qc_job_id c = rj_job_id (qc_job c)"
    and read: "read_claim H now name f q = (rbind (claim_fields c) (\<lambda>_. Inr (c, qc_job c)), q)"
    using read_claim_state [OF assms f] .
  let ?f = "\<lparr>qf_mtime = now, qf_envelope = ClaimEnv (c\<lparr>qc_heartbeat := now, qc_expires_at := now + lease\<rparr>)\<rparr>"
  have "snd (SharedHostQueue_heartbeat H now name token lease q)
      \<in> {q, q\<lparr>hq_running := dict_set (hq_running q) name ?f\<rparr>}"
    using False f read
    by (auto simp: SharedHostQueue_heartbeat_def sbind_def raise_def modify_def rbind_def split: sum.splits)
  moreover have "conserves H q (q\<lparr>hq_running := dict_set (hq_running q) name ?f\<rparr>)"
    by (rule refresh_conserves [OF assms f,
          where c = "c\<lparr>qc_heartbeat := now, qc_expires_at := now + lease\<rparr>"]) (simp_all add: c)
  ultimately show ?thesis using assms by auto
qed

lemma finish_read_state:
  assumes "held_ok H q" "finish_read H now name result token src q = (r, q')"
  shows "q' = q" and "r = Inr known \<Longrightarrow>
    (case dict_get (hq_running q) name of None \<Rightarrow> fst known = None | Some f \<Rightarrow> fst (snd known) = file_id f)"
proof -
  have "q' = q \<and> (r = Inr known \<longrightarrow>
    (case dict_get (hq_running q) name of None \<Rightarrow> fst known = None | Some f \<Rightarrow> fst (snd known) = file_id f))"
  proof (cases "dict_get (hq_running q) name")
    case None
    with assms(2) show ?thesis by (auto simp: finish_read_def split: option.splits)
  next
    case (Some f)
    obtain c where "qf_envelope f = ClaimEnv c" "qc_job_id c = rj_job_id (qc_job c)"
      "read_claim H now name f q = (rbind (claim_fields c) (\<lambda>_. Inr (c, qc_job c)), q)"
      using read_claim_state [OF assms(1) Some] .
    with assms(2) Some show ?thesis
      by (auto simp: finish_read_def sbind_def raise_def ret_def rbind_def split: sum.splits if_splits)
  qed
  then show "q' = q" and "r = Inr known \<Longrightarrow>
    (case dict_get (hq_running q) name of None \<Rightarrow> fst known = None | Some f \<Rightarrow> fst (snd known) = file_id f)"
    by blast+
qed

lemma finish_commit_settles:
  assumes "finish_commit H now success result src known q = (r, q')" "known_ok known"
  shows "settles q q' \<and> hq_running q' = hq_running q \<and> (\<forall>x. r = Inr x \<longrightarrow> fst (snd known) \<in> terminal_ids q')"
  using assms
proof (cases rule: finish_commit_cases)
  case same
  then show ?thesis by simp
next
  case (new c job path)
  let ?f = "\<lparr>qf_mtime = now, qf_envelope = TerminalEnv (terminal_envelope H now c job success result src)\<rparr>"
  have ids: "ids_in (dict_set (bucket success q) path ?f) = insert (rj_job_id job) (ids_in (bucket success q))"
    using ids_in_set_new [OF new(3) [of success], of ?f] by (simp add: terminal_envelope_def)
  have b: "ids_in (bucket s q') = (if s = success then insert (rj_job_id job) (ids_in (bucket s q)) else ids_in (bucket s q))" for s
    unfolding new(5) bucket_set_bucket using ids by simp
  have mono: "j \<in> terminal_ids q'" if j: "j \<in> terminal_ids q" for j
  proof -
    from j obtain s where "j \<in> ids_in (bucket s q)" unfolding terminal_ids_bucket by blast
    then have "j \<in> ids_in (bucket s q')" by (cases "s = success") (simp_all add: b)
    then show ?thesis unfolding terminal_ids_bucket by blast
  qed
  have "rj_job_id job \<in> ids_in (bucket success q')" unfolding b by simp
  then have "rj_job_id job \<in> terminal_ids q'" unfolding terminal_ids_bucket by blast
  with mono show ?thesis using new(1) by (simp add: settles_def subset_iff) (simp add: new(5))
qed

lemma finish_cleanup_settles:
  assumes "held_ok H q" "\<And>f. dict_get (hq_running q) name = Some f \<Longrightarrow> file_id f \<in> terminal_ids q"
  shows "settles q (snd (finish_cleanup H now name token new q))"
proof (cases "dict_get (hq_running q) name")
  case None
  then show ?thesis by (simp add: finish_cleanup_def)
next
  case (Some f)
  obtain c where "read_claim H now name f q = (rbind (claim_fields c) (\<lambda>_. Inr (c, qc_job c)), q)"
    using read_claim_state [OF assms(1) Some] .
  then have "snd (finish_cleanup H now name token new q) \<in> {q, q\<lparr>hq_running := dict_pop (hq_running q) name\<rparr>}"
    using Some by (auto simp: finish_cleanup_def sbind_def raise_def modify_def rbind_def split: sum.splits)
  moreover have "settles q (q\<lparr>hq_running := dict_pop (hq_running q) name\<rparr>)"
    using assms(2) [OF Some] Some by (auto simp: settles_def terminal_ids_def)
  ultimately show ?thesis by auto
qed

lemma settles_trans:
  assumes "settles p q" "settles q r"
  shows "settles p r"
proof -
  have sub: "terminal_ids p \<subseteq> terminal_ids q" "terminal_ids q \<subseteq> terminal_ids r"
    using assms by (simp_all add: settles_def)
  have "dict_get (hq_pending r) n = dict_get (hq_pending p) n
      \<or> dict_get (hq_pending r) n = None \<and> (\<forall>f. dict_get (hq_pending p) n = Some f \<longrightarrow> file_id f \<in> terminal_ids r)" for n
    using assms sub unfolding settles_def by (metis subsetD)
  moreover have "dict_get (hq_running r) n = dict_get (hq_running p) n
      \<or> dict_get (hq_running r) n = None \<and> (\<forall>f. dict_get (hq_running p) n = Some f \<longrightarrow> file_id f \<in> terminal_ids r)" for n
    using assms sub unfolding settles_def by (metis subsetD)
  ultimately show ?thesis using assms sub unfolding settles_def by blast
qed

lemma finish_head_settles:
  assumes "held_ok H q" "finish_read H now name result token src q = (Inr known, q0)"
    "finish_commit H now success result src known q0 = (r, q')"
  shows "settles q q' \<and> (\<forall>x. r = Inr x \<longrightarrow> settles q' (snd (finish_cleanup H now name t new q')))"
proof -
  have q0: "q0 = q" using finish_read_state(1) [OF assms(1,2)] .
  have known: "known_ok known" using assms(2) by (rule finish_read_known)
  note commit = finish_commit_settles [OF assms(3) known, unfolded q0]
  have ok: "held_ok H q'" using settles_held commit assms(1) by blast
  have "settles q' (snd (finish_cleanup H now name t new q'))" if "r = Inr x" for x
  proof (rule finish_cleanup_settles [OF ok])
    fix f assume "dict_get (hq_running q') name = Some f"
    then have "fst (snd known) = file_id f"
      using finish_read_state(2) [OF assms(1,2) HOL.refl] commit by simp
    with commit that show "file_id f \<in> terminal_ids q'" by metis
  qed
  with commit show ?thesis by blast
qed

lemma finish_locked_settles:
  assumes "held_ok H q"
  shows "settles q (snd (finish_locked H now name success result token src q))"
proof (cases "finish_read H now name result token src q")
  case (Pair k q0)
  show ?thesis
  proof (cases k)
    case (Inl e)
    with Pair finish_read_state(1) [OF assms Pair] show ?thesis by (simp add: finish_locked_def sbind_def)
  next
    case (Inr known)
    obtain r q' where commit: "finish_commit H now success result src known q0 = (r, q')" by (metis surj_pair)
    note head = finish_head_settles [OF assms Pair [unfolded Inr] commit]
    show ?thesis
    proof (cases r)
      case (Inl e)
      with head Pair Inr commit show ?thesis by (simp add: finish_locked_def sbind_def)
    next
      case (Inr x)
      obtain path new where x: "x = (path, new)" by (cases x)
      have "snd (finish_locked H now name success result token src q)
          = snd (finish_cleanup H now name (snd (snd known)) new q')"
        using Pair \<open>k = Inr known\<close> commit Inr x
        by (simp add: finish_locked_def sbind_def ret_def split: prod.split sum.split)
      with head [of "snd (snd known)" new] Inr settles_trans show ?thesis by metis
    qed
  qed
qed

lemma finish_dies_settles:
  assumes "held_ok H q"
  shows "settles q (snd (sbind (finish_read H now name result token src) (finish_commit H now success result src) q))"
proof (cases "finish_read H now name result token src q")
  case (Pair k q0)
  show ?thesis
  proof (cases k)
    case (Inl e)
    with Pair finish_read_state(1) [OF assms Pair] show ?thesis by (simp add: sbind_def)
  next
    case (Inr known)
    obtain r q' where "finish_commit H now success result src known q0 = (r, q')" by (metis surj_pair)
    with finish_head_settles [OF assms Pair [unfolded Inr] this] Pair Inr show ?thesis by (simp add: sbind_def)
  qed
qed

lemma recover_one_settles:
  assumes "held_ok H q"
  shows "settles q (snd (recover_one H now files stale name q))"
proof (cases "dict_get (hq_running q) name")
  case None
  then show ?thesis by (simp add: recover_one_def)
next
  case (Some f)
  obtain c where c: "qf_envelope f = ClaimEnv c"
    and read: "read_claim H now name f q = (rbind (claim_fields c) (\<lambda>_. Inr (c, qc_job c)), q)"
    using read_claim_state [OF assms Some] by metis
  have pop: "settles q (q\<lparr>hq_running := dict_pop (hq_running q) name\<rparr>)"
    if "find_terminal H (rj_job_id (qc_job c)) q = Inr (Some t)" for t
    using find_terminal_known [OF that] Some c by (auto simp: settles_def terminal_ids_def)
  show ?thesis
  proof (cases "claim_fields c")
    case (Inl e)
    with Some read show ?thesis by (simp add: recover_one_def sbind_def)
  next
    case (Inr tok)
    have run: "recover_one H now files stale name q
        = sbind (asks (find_terminal H (rj_job_id (qc_job c))))
            (recover_body H now files stale name (qf_mtime f) (c, qc_job c)) q"
      using Some read Inr c by (simp add: recover_one_def sbind_def)
    show ?thesis
    proof (cases "find_terminal H (rj_job_id (qc_job c)) q")
      case (Inl e)
      with run show ?thesis by (simp add: sbind_def asks_def)
    next
      case (Inr t)
      show ?thesis
      proof (cases t)
        case None
        then show ?thesis
          using run Inr finish_locked_settles [OF assms]
          by (auto simp: sbind_def asks_def recover_body_def ret_def Let_def split: prod.splits sum.splits)
            (metis snd_conv)+
      next
        case (Some x)
        with run Inr pop show ?thesis
          by (cases x) (auto simp: sbind_def asks_def recover_body_def ret_def raise_def modify_def)
      qed
    qed
  qed
qed

lemma queue_step_conserves:
  assumes "queue_step H True q q'" "held_ok H q"
  shows "conserves H q q'"
  using assms(1)
proof cases
  case (enqueue job now)
  then show ?thesis using enqueue_conserves [OF assms(2)] by simp
next
  case (claim fresh now worker process lease_s)
  then show ?thesis using claim_conserves [OF assms(2)] by simp
next
  case (claim_dies_before_rename key source job q1 now fresh owner lease_s)
  obtain f where f: "dict_get (hq_pending q1) source = Some f" "rj_job_id job = file_id f"
    and q1: "held_ok H q1" "known_ids q \<subseteq> known_ids q1"
    using claim_choice_file [OF claim_dies_before_rename(2) assms(2)] by metis
  from claim_write_conserves [OF q1(1) f] q1(2) show ?thesis unfolding claim_dies_before_rename(1) by blast
next
  case (claim_dies_before_cursor key source job q1 fresh now owner lease_s)
  then show ?thesis using claim_taken_conserves [OF _ assms(2)] by simp
next
  case (heartbeat now name token lease_s)
  then show ?thesis using heartbeat_conserves [OF assms(2)] by simp
next
  case (finish now name success result token)
  then show ?thesis
    using settles_conserves [OF finish_locked_settles [OF assms(2)] assms(2)] by (simp add: SharedHostQueue_finish_def)
next
  case (finish_dies now name result token src success)
  then show ?thesis using settles_conserves [OF finish_dies_settles [OF assms(2)] assms(2)] by simp
next
  case (recover now files stale_after_s name)
  then show ?thesis using settles_conserves [OF recover_one_settles [OF assms(2)] assms(2)] by simp
qed

lemma queue_run_conserves: "(queue_step H True)\<^sup>*\<^sup>* q q' \<Longrightarrow> held_ok H q \<Longrightarrow> conserves H q q'"
proof (induction rule: rtranclp_induct)
  case (step q1 q2)
  then have "conserves H q q1" by blast
  with queue_step_conserves [OF step.hyps(2)] show ?case by blast
qed simp

section \<open>Fenced results\<close>

lemma find_terminal_on_file:
  assumes "terminals_ok H q" "job_filename H j = Inr path" "dict_get (bucket s q) path = Some f" "file_id f = j"
  shows "find_terminal H j q = Inr (Some (s, path, qf_envelope f))"
proof -
  have none: "dict_get (bucket (\<not> s) q) path = None"
  proof -
    have "dict_get (hq_completed q) path = None \<or> dict_get (hq_failed q) path = None"
      using assms(1) by (rule terminals_okD)
    with assms(3) show ?thesis by (cases s) simp_all
  qed
  have "terminal_candidates path q = [(s, f)]"
    using assms(3) none by (cases s) (simp_all add: terminal_candidates_def)
  moreover obtain t where "qf_envelope f = TerminalEnv t" "qt_job_id t = rj_job_id (qt_job t)"
    using terminals_ok_file [OF assms(1,3)] by metis
  ultimately show ?thesis using assms(2,4) by (simp add: find_terminal_def)
qed

text \<open>What a successful commit leaves on file.\<close>

definition committed_as ::
  "(py \<Rightarrow> string) \<Rightarrow> string \<Rightarrow> string \<Rightarrow> bool \<Rightarrow> (string, py) dict \<Rightarrow> string \<Rightarrow> bool \<times> string \<Rightarrow> HostQueue \<Rightarrow> bool" where
  "committed_as H j token success result src where_at q \<longleftrightarrow>
     (\<exists>f t. dict_get (bucket (fst where_at) q) (snd where_at) = Some f \<and> qf_envelope f = TerminalEnv t
        \<and> job_filename H j = Inr (snd where_at) \<and> rj_job_id (qt_job t) = j \<and> qt_job_id t = j
        \<and> qt_claim_token t = token \<and> qt_commit_source t = src \<and> qt_result_digest t = result_digest H success result)"

lemma finish_commit_Inr:
  assumes "finish_commit H now success result src (active, j, token) q = (Inr (wh, new), q')"
    "known_ok (active, j, token)"
  shows "committed_as H j token success result src wh q'"
proof (cases "find_terminal H j q")
  case (Inl e)
  with assms(1) show ?thesis by (simp add: finish_commit_def)
next
  case (Inr found)
  show ?thesis
  proof (cases found)
    case None
    with Inr assms(1) obtain c job where a: "active = Some (c, job)"
      by (cases active) (auto simp: finish_commit_def)
    have j: "j = rj_job_id job" "token = qc_claim_token c" using assms(2) a by (auto simp: known_ok_def)
    obtain path where path: "job_filename H j = Inr path" "\<And>s. dict_get (bucket s q) path = None"
      using Inr None find_terminal_None by metis
    then show ?thesis
      using assms(1) Inr None a j
      by (auto simp: finish_commit_def publish_def committed_as_def bucket_set_bucket terminal_envelope_def)
  next
    case (Some x)
    obtain s path e where x: "x = (s, path, e)" by (cases x) auto
    obtain f where f: "job_filename H j = Inr path" "dict_get (bucket s q) path = Some f" "qf_envelope f = e" "file_id f = j"
      using find_terminal_Some Inr Some x by metis
    then show ?thesis
      using assms(1) Inr Some x
      by (auto simp: finish_commit_def committed_as_def assert_same_terminal_def guard_def
          split: envelope.splits sum.splits if_splits)
  qed
qed

lemma claim_fields_Inr: "claim_fields c = Inr t \<Longrightarrow> t = qc_claim_token c"
  by (simp add: claim_fields_def)

text \<open>A call of \<open>finish\<close> on a queue in order: it changes nothing, or its outcome is on file and its claim
  is gone.\<close>

lemma finish_outcome:
  assumes ok: "held_ok H q" and run: "SharedHostQueue_finish H now name success result (Some token) q = (r, q')"
  shows "(\<exists>e. r = Inl e) \<and> q' = q \<or>
    (\<exists>wh j. r = Inr wh \<and> committed_as H j token success result ''worker'' wh q' \<and> dict_get (hq_running q') name = None
      \<and> (job_id_from_result result \<noteq> None \<longrightarrow> job_id_from_result result = Some j)
      \<and> (\<forall>f c. dict_get (hq_running q) name = Some f \<and> qf_envelope f = ClaimEnv c \<longrightarrow>
           qc_claim_token c = token \<and> now \<le> qc_expires_at c \<and> rj_job_id (qc_job c) = j))"
proof (cases "finish_read H now name result (Some token) ''worker'' q")
  case (Pair k q0)
  have q0: "q0 = q" by (rule finish_read_state(1) [OF ok Pair])
  show ?thesis
  proof (cases k)
    case (Inl e)
    with Pair q0 run have "r = Inl e" "q' = q"
      by (simp_all add: SharedHostQueue_finish_def finish_locked_def sbind_def)
    then show ?thesis by blast
  next
    case (Inr known)
    obtain active j tok where known: "known = (active, j, tok)" by (cases known) auto
    have kok: "known_ok known" using finish_read_known Pair Inr by simp
    have facts: "tok = token \<and> (job_id_from_result result \<noteq> None \<longrightarrow> job_id_from_result result = Some j)
      \<and> (\<forall>f c. dict_get (hq_running q) name = Some f \<and> qf_envelope f = ClaimEnv c \<longrightarrow>
           qc_claim_token c = token \<and> now \<le> qc_expires_at c \<and> rj_job_id (qc_job c) = j)"
    proof (cases "dict_get (hq_running q) name")
      case None
      with Pair Inr known show ?thesis by (auto simp: finish_read_def split: option.splits)
    next
      case (Some f)
      obtain c where "qf_envelope f = ClaimEnv c"
        "read_claim H now name f q = (rbind (claim_fields c) (\<lambda>_. Inr (c, qc_job c)), q)"
        using read_claim_state [OF ok Some] by metis
      with Some Pair Inr known show ?thesis
        by (auto simp: finish_read_def sbind_Inr rbind_Inr_iff raise_def ret_def split: if_splits)
    qed
    obtain r1 q1 where commit: "finish_commit H now success result ''worker'' known q = (r1, q1)" by (metis surj_pair)
    show ?thesis
    proof (cases r1)
      case (Inl e)
      have "q1 = q" using commit kok Inl by (cases rule: finish_commit_cases) auto
      with Inl commit Pair Inr q0 run have "r = Inl e" "q' = q"
        by (simp_all add: SharedHostQueue_finish_def finish_locked_def sbind_def \<open>k = Inr known\<close>)
      then show ?thesis by blast
    next
      case r1: (Inr x)
      obtain wh new where x: "x = (wh, new)" by (cases x)
      have on_file: "committed_as H j tok success result ''worker'' wh q1"
        using finish_commit_Inr commit kok r1 x known by blast
      have settles: "settles q q1" "hq_running q1 = hq_running q"
        using finish_commit_settles [OF commit kok] by blast+
      have clean: "\<exists>q2. finish_cleanup H now name tok new q1 = (Inr (), q2) \<and> terminals q2 = terminals q1
          \<and> dict_get (hq_running q2) name = None"
      proof (cases "dict_get (hq_running q1) name")
        case None
        then show ?thesis by (simp add: finish_cleanup_def)
      next
        case (Some f)
        have f: "dict_get (hq_running q) name = Some f" using Some settles by simp
        obtain c where c: "qf_envelope f = ClaimEnv c"
          and read1: "read_claim H now name f q = (rbind (claim_fields c) (\<lambda>_. Inr (c, qc_job c)), q)"
          using read_claim_state [OF ok f] by metis
        have "claim_fields c \<noteq> Inl e" for e
          using Pair Inr f read1 by (auto simp: finish_read_def sbind_def)
        then obtain u where u: "claim_fields c = Inr u" by (cases "claim_fields c") auto
        obtain c' where c': "qf_envelope f = ClaimEnv c'"
          and read2: "read_claim H now name f q1 = (rbind (claim_fields c') (\<lambda>_. Inr (c', qc_job c')), q1)"
          using read_claim_state [OF settles_held [OF settles(1) ok] Some] by metis
        have "qc_claim_token c' = tok" using facts f c' by simp
        then show ?thesis
          using Some read2 u c c' by (simp add: finish_cleanup_def sbind_def modify_def)
      qed
      then obtain q2 where q2: "finish_cleanup H now name tok new q1 = (Inr (), q2)" "terminals q2 = terminals q1"
        "dict_get (hq_running q2) name = None" by blast
      have "r = Inr wh" "q' = q2"
        using run Pair Inr q0 commit r1 x known q2(1)
        by (simp_all add: SharedHostQueue_finish_def finish_locked_def sbind_def ret_def)
      moreover have "committed_as H j tok success result ''worker'' wh q2"
        using on_file terminals_eqD [OF q2(2)] by (simp add: committed_as_def)
      ultimately show ?thesis using facts q2(3) by blast
    qed
  qed
qed

lemma finish_retry:
  assumes "terminals_ok H q" "committed_as H j token success result ''worker'' wh q"
    "dict_get (hq_running q) name = None" "job_id_from_result result = Some j"
  shows "SharedHostQueue_finish H now name success result (Some token) q = (Inr wh, q)"
proof -
  obtain f t where f: "dict_get (bucket (fst wh) q) (snd wh) = Some f" "qf_envelope f = TerminalEnv t"
    "job_filename H j = Inr (snd wh)" "rj_job_id (qt_job t) = j" "qt_job_id t = j" "qt_claim_token t = token"
    "qt_commit_source t = ''worker''" "qt_result_digest t = result_digest H success result"
    using assms(2) unfolding committed_as_def by blast
  have "find_terminal H j q = Inr (Some (fst wh, snd wh, TerminalEnv t))"
    using find_terminal_on_file [OF assms(1) f(3,1)] f(2,4) by simp
  moreover have "assert_same_terminal H (TerminalEnv t) j token success result ''worker'' = Inr ()"
    using f by (simp add: assert_same_terminal_def guard_def)
  ultimately show ?thesis
    using assms(3,4)
    by (simp add: SharedHostQueue_finish_def finish_locked_def finish_read_def finish_commit_def finish_cleanup_def
        sbind_def ret_def)
qed

section \<open>Properties\<close>

text \<open>C11: an outcome once committed is final. In any run of the queue, with any number of processes and
  with deaths between any two writes, a terminal file is never changed or removed, no job file is both
  under \<open>completed\<close> and \<open>failed\<close>, and the outcome the queue reports for a job stays the one it first
  reported.\<close>

theorem queue_terminal_final:
  assumes "(queue_step H False)\<^sup>*\<^sup>* empty_queue q" "(queue_step H False)\<^sup>*\<^sup>* q q'"
  shows "(\<forall>s n f. dict_get (bucket s q) n = Some f \<longrightarrow> dict_get (bucket s q') n = Some f)
    \<and> (\<forall>n. dict_get (hq_completed q') n = None \<or> dict_get (hq_failed q') n = None)
    \<and> (\<forall>j t. find_terminal H j q = Inr (Some t) \<longrightarrow> find_terminal H j q' = Inr (Some t))"
proof -
  have ok: "terminals_ok H q" using queue_run_settled [OF assms(1)] by simp
  then have ok': "terminals_ok H q'" and le: "final_le q q'" using queue_run_settled [OF assms(2)] by simp_all
  have "find_terminal H j q' = Inr (Some t)" if found: "find_terminal H j q = Inr (Some t)" for j t
  proof -
    obtain s path e where t: "t = (s, path, e)" by (cases t) auto
    obtain f where f: "job_filename H j = Inr path" "dict_get (bucket s q) path = Some f" "qf_envelope f = e" "file_id f = j"
      using find_terminal_Some found [unfolded t] by metis
    have "dict_get (bucket s q') path = Some f" using le f(2) by (simp add: final_le_def)
    from find_terminal_on_file [OF ok' f(1) this f(4)] show ?thesis by (simp add: t f(3))
  qed
  with le terminals_okD [OF ok'] show ?thesis by (simp add: final_le_def)
qed

text \<open>C10: no job is lost and none is worked on twice. In a run that enqueues only jobs the queue does not
  know, whatever processes die where, every job identity the queue ever held is still pending, running
  or finished; no two running claims hold the same job; and no running job is pending.\<close>

theorem queue_jobs_conserved:
  assumes "(queue_step H True)\<^sup>*\<^sup>* empty_queue q" "(queue_step H True)\<^sup>*\<^sup>* q q'"
  shows "known_ids q \<subseteq> known_ids q'
    \<and> (\<forall>n m f g. dict_get (hq_running q') n = Some f \<and> dict_get (hq_running q') m = Some g
         \<and> file_id f = file_id g \<longrightarrow> n = m)
    \<and> ids_in (hq_pending q') \<inter> ids_in (hq_running q') = {}"
proof -
  have "held_ok H q" using queue_run_conserves [OF assms(1)] by simp
  from queue_run_conserves [OF assms(2) this] have "known_ids q \<subseteq> known_ids q'" "held_ok H q'" by blast+
  with held_okD(3,4) [OF this(2)] show ?thesis by blast
qed

lemma finish_retry_unnamed:
  assumes "dict_get (hq_running q) name = None" "job_id_from_result result = None"
  shows "SharedHostQueue_finish H now name success result token q =
    (Inl (ValueError [Text ''finishing a missing claim requires result job_id and claim_token'']), q)"
  using assms by (simp add: SharedHostQueue_finish_def finish_locked_def finish_read_def sbind_def)

text \<open>C18: results are fenced by their claim token and committed once. In a run that enqueues only jobs the
  queue does not know, a worker's \<open>finish\<close> with a token either raises and changes nothing; or the claim on
  file, if any, carried that token and had not expired, the claim is gone, and the outcome on file carries the
  token and the digest of the worker's result. Then the same call repeated changes nothing: it returns the same
  path when the result names its job, and it raises when the result names none, because the claim that would
  identify the job is gone.\<close>

theorem finish_fenced:
  assumes "(queue_step H True)\<^sup>*\<^sup>* empty_queue q"
    and "SharedHostQueue_finish H now name success result (Some token) q = (r, q')"
  shows "(\<exists>e. r = Inl e) \<and> q' = q \<or>
    (\<exists>wh j. r = Inr wh \<and> committed_as H j token success result ''worker'' wh q' \<and> dict_get (hq_running q') name = None
      \<and> (\<forall>f c. dict_get (hq_running q) name = Some f \<and> qf_envelope f = ClaimEnv c \<longrightarrow>
           qc_claim_token c = token \<and> now \<le> qc_expires_at c \<and> rj_job_id (qc_job c) = j)
      \<and> (\<forall>later. job_id_from_result result \<noteq> None \<longrightarrow>
           SharedHostQueue_finish H later name success result (Some token) q' = (Inr wh, q'))
      \<and> (\<forall>later. job_id_from_result result = None \<longrightarrow>
           SharedHostQueue_finish H later name success result (Some token) q' =
             (Inl (ValueError [Text ''finishing a missing claim requires result job_id and claim_token'']), q')))"
proof -
  have ok: "held_ok H q" using queue_run_conserves [OF assms(1)] by simp
  have "terminals_ok H q" using queue_run_settled [OF assms(1)] by simp
  moreover have "queue_step H True q q'" using queue_step.finish [of H True q now name success result "Some token"] assms(2) by simp
  ultimately have ok': "terminals_ok H q'" using queue_step_settled by blast
  from finish_outcome [OF ok assms(2)] show ?thesis
  proof (elim disjE exE conjE)
    fix wh j
    assume a: "r = Inr wh" "committed_as H j token success result ''worker'' wh q'" "dict_get (hq_running q') name = None"
      "job_id_from_result result \<noteq> None \<longrightarrow> job_id_from_result result = Some j"
      "\<forall>f c. dict_get (hq_running q) name = Some f \<and> qf_envelope f = ClaimEnv c \<longrightarrow>
           qc_claim_token c = token \<and> now \<le> qc_expires_at c \<and> rj_job_id (qc_job c) = j"
    have "\<forall>later. job_id_from_result result \<noteq> None \<longrightarrow>
        SharedHostQueue_finish H later name success result (Some token) q' = (Inr wh, q')"
      using finish_retry [OF ok' a(2,3)] a(4) by blast
    with a finish_retry_unnamed [OF a(3)] show ?thesis by blast
  qed blast
qed

text \<open>One job from its enqueueing to its result.\<close>

definition demo_hash :: "py \<Rightarrow> string" where
  "demo_hash v = (case v of PyStr s \<Rightarrow> s | _ \<Rightarrow> ''digest'')"

definition demo_job :: "string \<Rightarrow> string \<Rightarrow> RolloutJob" where
  "demo_job job_id task = \<lparr>rj_job_id = job_id, rj_campaign_root = ''root'', rj_logical_id = ''logical'',
     rj_attempt_index = 1, rj_task = task, rj_seed = 7, rj_policy_rng = 9, rj_bundle_sha256 = None,
     rj_command = [''run''], rj_output_dir = ''out'', rj_result_file = ''result'', rj_heartbeat_file = ''beat'',
     rj_timeout_s = 2700, rj_no_progress_timeout_s = 180, rj_requires_api = False,
     rj_requires_environment_slot = False\<rparr>"

definition demo_result :: "(string, py) dict" where
  "demo_result = [(''job_id'', PyStr ''j''), (''success'', PyBool True)]"

definition demo_pending :: HostQueue where
  "demo_pending = empty_queue\<lparr>hq_pending := [(''job-j.json'',
     \<lparr>qf_mtime = 1, qf_envelope = PendingEnv ''j'' (demo_job ''j'' ''task'')\<rparr>)]\<rparr>"

definition demo_running :: HostQueue where
  "demo_running = empty_queue\<lparr>hq_running := [(''claim-t.json'',
     \<lparr>qf_mtime = 2, qf_envelope = ClaimEnv (claim_envelope (demo_job ''j'' ''task'') ''t'' ''w'' 2 60)\<rparr>)],
     hq_cursor := Some ''task:parent''\<rparr>"

definition demo_finished :: HostQueue where
  "demo_finished = empty_queue\<lparr>hq_completed := [(''job-j.json'',
     \<lparr>qf_mtime = 5, qf_envelope = TerminalEnv (terminal_envelope demo_hash 5
        (claim_envelope (demo_job ''j'' ''task'') ''t'' ''w'' 2 60) (demo_job ''j'' ''task'') True demo_result ''worker'')\<rparr>)],
     hq_cursor := Some ''task:parent''\<rparr>"

lemma demo_enqueue:
  "SharedHostQueue_enqueue demo_hash 1 (demo_job ''j'' ''task'') empty_queue = (Inr ''job-j.json'', demo_pending)"
  by (simp add: SharedHostQueue_enqueue_def job_filename_def publish_def demo_hash_def demo_job_def
      demo_pending_def empty_queue_def dict_set_def)

lemma demo_claim:
  "SharedHostQueue_claim demo_hash 2 ''t'' (Some ''w'') ''p'' 60 demo_pending
     = (Inr (Some (''claim-t.json'', demo_job ''j'' ''task'')), demo_running)"
  by (simp add: SharedHostQueue_claim_def claim_choice_def demo_pending_def empty_queue_def sbind_def asks_def ret_def
      modify_def Let_def dict_keys_def dict_get_def dict_set_def dict_pop_def dict_get_or_def find_terminal_def
      terminal_candidates_def job_filename_def demo_job_def next_key_def rotate_keys_def pick_job_def scheduling_key_def
      claim_write_def claim_rename_def claim_name_def demo_running_def)

lemma demo_finish:
  "SharedHostQueue_finish demo_hash 5 ''claim-t.json'' True demo_result (Some ''t'') demo_running
     = (Inr (True, ''job-j.json''), demo_finished)"
  by (simp add: SharedHostQueue_finish_def finish_locked_def finish_read_def finish_commit_def finish_cleanup_def
      read_claim_def claim_fields_def claim_envelope_def demo_running_def empty_queue_def sbind_def asks_def ret_def
      raise_def modify_def guard_def dict_get_def dict_set_def dict_pop_def find_terminal_def terminal_candidates_def
      job_filename_def demo_job_def demo_hash_def demo_result_def job_id_from_result_def nonempty_str_def publish_def
      set_bucket_def demo_finished_def)

lemma demo_steps:
  "(queue_step demo_hash strict)\<^sup>*\<^sup>* empty_queue demo_running" "queue_step demo_hash strict demo_running demo_finished"
proof -
  have "queue_step demo_hash strict empty_queue demo_pending"
    using queue_step.enqueue [of strict "demo_job ''j'' ''task''" empty_queue demo_hash 1] demo_enqueue
    by (simp add: known_ids_def terminal_ids_def empty_queue_def)
  moreover have "queue_step demo_hash strict demo_pending demo_running"
    using queue_step.claim [of demo_pending "''t''" demo_hash strict 2 "Some ''w''" "''p''" 60] demo_claim
    by (simp add: demo_pending_def empty_queue_def)
  ultimately show "(queue_step demo_hash strict)\<^sup>*\<^sup>* empty_queue demo_running" by simp
  show "queue_step demo_hash strict demo_running demo_finished"
    using queue_step.finish [of demo_hash strict demo_running 5 "''claim-t.json''" True demo_result "Some ''t''"]
      demo_finish by simp
qed

theorem queue_terminal_final_witness:
  "\<exists>f. dict_get (bucket True demo_finished) ''job-j.json'' = Some f
     \<and> (\<forall>q'. (queue_step demo_hash False)\<^sup>*\<^sup>* demo_finished q' \<longrightarrow>
          dict_get (bucket True q') ''job-j.json'' = Some f)"
proof -
  obtain f where f: "dict_get (bucket True demo_finished) ''job-j.json'' = Some f"
    by (simp add: demo_finished_def dict_get_def)
  have "(queue_step demo_hash False)\<^sup>*\<^sup>* empty_queue demo_finished"
    using demo_steps by (rule rtranclp.rtrancl_into_rtrancl)
  from queue_terminal_final [OF this] f show ?thesis by blast
qed

theorem queue_jobs_conserved_witness:
  "''j'' \<in> known_ids demo_running \<and> ''j'' \<in> known_ids demo_finished"
proof -
  have "dict_get (hq_running demo_running) ''claim-t.json'' = Some \<lparr>qf_mtime = 2,
      qf_envelope = ClaimEnv (claim_envelope (demo_job ''j'' ''task'') ''t'' ''w'' 2 60)\<rparr>"
    by (simp add: demo_running_def dict_get_def)
  from ids_inI [OF this] have "''j'' \<in> known_ids demo_running"
    by (simp add: known_ids_def claim_envelope_def demo_job_def)
  moreover have "(queue_step demo_hash True)\<^sup>*\<^sup>* demo_running demo_finished" using demo_steps(2) by blast
  ultimately show ?thesis using queue_jobs_conserved [OF demo_steps(1)] by blast
qed

theorem finish_fenced_witness:
  "SharedHostQueue_finish demo_hash 5 ''claim-t.json'' True demo_result (Some ''t'') demo_running
     = (Inr (True, ''job-j.json''), demo_finished)
   \<and> SharedHostQueue_finish demo_hash 9 ''claim-t.json'' True demo_result (Some ''t'') demo_finished
     = (Inr (True, ''job-j.json''), demo_finished)"
proof -
  have "job_id_from_result demo_result \<noteq> None"
    by (simp add: job_id_from_result_def demo_result_def nonempty_str_def dict_get_def)
  with finish_fenced [OF demo_steps(1) demo_finish] demo_finish show ?thesis by auto
qed

end
