(* ===== verification/Queue_Fairness.thy ===== *)
theory Queue_Fairness
  imports Queue_Properties
begin

text \<open>
  How fair the claims of the host queue are. The cursor makes the scheduling keys take turns: while the key
  served last still has waiting jobs, no key is served twice before one that waits. When it has none the
  rotation starts again at the least key, and a greater key can be passed over for ever.
\<close>

section \<open>Taking turns\<close>

text \<open>A cyclic choice: from the last key to the next greater one that is available, or to the least.\<close>

locale cyclic_choice =
  fixes pick :: "'k::linorder \<Rightarrow> 'k set \<Rightarrow> 'k"
  assumes pick_next: "finite A \<Longrightarrow> p \<in> A \<Longrightarrow> x \<in> A \<Longrightarrow> p < x \<Longrightarrow> p < pick p A \<and> pick p A \<le> x"
    and pick_wrap: "finite A \<Longrightarrow> p \<in> A \<Longrightarrow> \<forall>x \<in> A. x \<le> p \<Longrightarrow> x \<in> A \<Longrightarrow> pick p A \<le> x"
begin

text \<open>The place of a key in the cycle that ends with \<open>k\<close>.\<close>

definition place :: "'k \<Rightarrow> 'k \<Rightarrow> bool \<times> 'k" where
  "place k x = (x \<le> k, x)"

lemma place_grows:
  assumes "finite A" "p \<in> A" "k \<in> A" "p \<noteq> k"
  shows "place k p < place k (pick p A)"
proof (cases "p < k")
  case True
  with pick_next [OF assms(1,2,3)] show ?thesis by (simp add: place_def)
next
  case False
  with assms(4) have "k < p" by simp
  show ?thesis
  proof (cases "\<forall>x \<in> A. x \<le> p")
    case True
    with pick_wrap [OF assms(1,2) True assms(3)] \<open>k < p\<close> show ?thesis by (auto simp: place_def)
  next
    case False
    then obtain x where "x \<in> A" "p < x" by (auto simp: not_le)
    with pick_next [OF assms(1,2)] \<open>k < p\<close> show ?thesis by (auto simp: place_def)
  qed
qed

definition in_turn :: "'k \<Rightarrow> 'k list \<Rightarrow> bool" where
  "in_turn k ks = sorted_wrt (\<lambda>x y. place k x < place k y) ks"

lemma in_turn_snoc:
  assumes "in_turn k ks" "ks \<noteq> []" "finite A" "last ks \<in> A" "k \<in> A" "last ks \<noteq> k"
  shows "in_turn k (ks @ [pick (last ks) A])"
proof -
  have grows: "place k (last ks) < place k (pick (last ks) A)" using assms(3-6) by (rule place_grows)
  have ks: "ks = butlast ks @ [last ks]" using assms(2) by simp
  have "place k x \<le> place k (last ks)" if "x \<in> set ks" for x
  proof -
    have "sorted_wrt (\<lambda>x y. place k x < place k y) (butlast ks @ [last ks])"
      using assms(1) ks unfolding in_turn_def by simp
    then have "\<forall>y \<in> set (butlast ks). place k y < place k (last ks)" by (simp add: sorted_wrt_append)
    moreover have "x \<in> set (butlast ks) \<or> x = last ks" using that ks by (metis Un_iff empty_iff insert_iff list.set(1) list.set(2) set_append)
    ultimately show ?thesis by auto
  qed
  with grows assms(1) show ?thesis
    unfolding in_turn_def by (auto simp: sorted_wrt_append intro: le_less_trans)
qed

lemma in_turn_distinct: "in_turn k ks \<Longrightarrow> distinct ks"
  unfolding in_turn_def by (induction ks) auto

end

text \<open>The choice the claims make.\<close>

definition next_in :: "string \<Rightarrow> string set \<Rightarrow> string" where
  "next_in p A = hd (rotate_keys (Some p) (sorted_list_of_set A))"

lemma rotate_keys_split:
  assumes "distinct (us @ k # vs)"
  shows "hd (rotate_keys (Some k) (us @ k # vs)) = (if vs = [] then hd (us @ [k]) else hd vs)"
proof -
  have t: "takeWhile (\<lambda>x. x \<noteq> k) (us @ k # vs) = us"
  proof -
    have "\<forall>x \<in> set us. x \<noteq> k" using assms by auto
    then show ?thesis by simp
  qed
  show ?thesis
  proof (cases vs)
    case Nil
    then show ?thesis by (simp add: rotate_keys_def t [unfolded Nil] Let_def)
  next
    case (Cons v ws)
    then show ?thesis by (simp add: rotate_keys_def t [unfolded Cons] Let_def)
  qed
qed

interpretation queue_turns: cyclic_choice next_in
proof unfold_locales
  fix A :: "string set" and p x :: string
  assume fin: "finite A" and p: "p \<in> A" and x: "x \<in> A"
  obtain us vs where ys: "sorted_list_of_set A = us @ p # vs"
    using p fin by (metis set_sorted_list_of_set split_list)
  have sorted: "sorted (us @ p # vs)" "distinct (us @ p # vs)"
    using ys by (metis sorted_sorted_list_of_set, metis distinct_sorted_list_of_set)
  have set: "A = set (us @ p # vs)" using ys fin by (metis set_sorted_list_of_set)
  have nxt: "next_in p A = (if vs = [] then hd (us @ [p]) else hd vs)"
    unfolding next_in_def ys by (rule rotate_keys_split [OF sorted(2)])
  have above: "p < v" if "v \<in> set vs" for v using sorted that by (auto simp: sorted_append le_less)
  have below: "u < p" if "u \<in> set us" for u using sorted that by (auto simp: sorted_append le_less)
  show "p < next_in p A \<and> next_in p A \<le> x" if "p < x"
  proof -
    have "x \<notin> set us" "x \<noteq> p" using below [of x] that by auto
    then have "x \<in> set vs" using x set by auto
    then have "vs \<noteq> []" "hd vs \<le> x" using sorted(1) by (cases vs; auto simp: sorted_append)+
    with above nxt show ?thesis by simp
  qed
  show "next_in p A \<le> x" if "\<forall>x \<in> A. x \<le> p"
  proof -
    have "vs = []" using that above set by (cases vs) (auto simp: not_le [symmetric])
    moreover have "hd (us @ [p]) \<le> x" using x set sorted(1) \<open>vs = []\<close> by (cases us) (auto simp: sorted_append)
    ultimately show ?thesis using nxt by simp
  qed
qed

section \<open>Runs of claims\<close>

section \<open>Runs of claims\<close>

lemma set_bucket_cursor_frame: "preserves (\<lambda>q. hq_cursor q = c) (finish_commit H now success result src known)"
  by (rule finish_commit_frame) simp

lemma finish_locked_cursor: "preserves (\<lambda>q. hq_cursor q = c) (finish_locked H now name success result token src)"
  unfolding finish_locked_def by (intro preserves_intros set_bucket_cursor_frame ignores_running_frames)

lemma recover_one_cursor: "preserves (\<lambda>q. hq_cursor q = c) (recover_one H now files stale name)"
proof (rule preservesI)
  fix q :: HostQueue assume c: "hq_cursor q = c"
  have "preserves (\<lambda>q. hq_cursor q = c) (recover_body H now files stale name mtime cj t)" for mtime cj t
    unfolding recover_body_def Let_def
    by (intro preserves_intros finish_locked_cursor ignores_running_frames)
  then have "preserves (\<lambda>q. hq_cursor q = c) (sbind (read_claim H now name f) (\<lambda>(cl, job).
      sbind (asks (find_terminal H (rj_job_id job))) (recover_body H now files stale name mtime (cl, job))))" for f mtime
    by (intro preserves_intros ignores_running_frames)
  with c show "hq_cursor (snd (recover_one H now files stale name q)) = c"
    unfolding preserves_def by (simp add: recover_one_def split: option.split)
qed

text \<open>A successful claim serves the key it chooses and moves the cursor there.\<close>

lemma claim_served:
  assumes "SharedHostQueue_claim H now fresh worker process lease q = (Inr (Some (target, job)), q')"
  obtains key source q1 where "claim_choice H q = (Inr (Some (key, source, job)), q1)" "hq_cursor q' = Some key"
proof -
  have "\<not> lease \<le> 0" using assms by (auto simp: SharedHostQueue_claim_def raise_def)
  with assms obtain choice q1 where choice: "claim_choice H q = (Inr choice, q1)"
    by (auto simp: SharedHostQueue_claim_def Let_def sbind_Inr)
  then obtain key source j where c: "choice = Some (key, source, j)"
    using assms \<open>\<not> lease \<le> 0\<close>
    by (cases choice) (auto simp: SharedHostQueue_claim_def Let_def sbind_def ret_def)
  have "j = job" "hq_cursor q' = Some key"
    using assms \<open>\<not> lease \<le> 0\<close> choice c
    by (auto simp: SharedHostQueue_claim_def Let_def sbind_def ret_def modify_def)
  with choice c show ?thesis using that by blast
qed

text \<open>A stretch of a run during which jobs with key \<open>k\<close> wait at every claim: the keys served, in order. At
  each of these claims the key served before still has waiting jobs.\<close>

inductive served :: "(py \<Rightarrow> string) \<Rightarrow> string \<Rightarrow> HostQueue \<Rightarrow> string list \<Rightarrow> HostQueue \<Rightarrow> bool" for H k q where
  start: "served H k q [] q"
| enqueue: "served H k q ks p \<Longrightarrow> rj_job_id job \<notin> known_ids p \<Longrightarrow>
    served H k q ks (snd (SharedHostQueue_enqueue H now job p))"
| heartbeat: "served H k q ks p \<Longrightarrow> served H k q ks (snd (SharedHostQueue_heartbeat H now name token lease_s p))"
| finish: "served H k q ks p \<Longrightarrow> served H k q ks (snd (SharedHostQueue_finish H now name success result tok p))"
| recover: "served H k q ks p \<Longrightarrow> served H k q ks (snd (recover_one H now files stale_after_s name p))"
| claim: "served H k q ks p \<Longrightarrow> dict_get (hq_running p) (claim_name fresh) = None \<Longrightarrow>
    k \<in> waiting_keys H p \<Longrightarrow> (\<exists>c. hq_cursor p = Some c \<and> c \<in> waiting_keys H p) \<Longrightarrow>
    SharedHostQueue_claim H now fresh worker process lease_s p = (Inr (Some (target, job)), p') \<Longrightarrow>
    served H k q (ks @ [scheduling_key job]) p'"

lemma served_in_turn:
  assumes "served H k q ks p" "held_ok H q" "hq_cursor q = Some c" "c \<noteq> k"
  shows "held_ok H p \<and> hq_cursor p = Some (last (c # ks)) \<and> (k \<notin> set ks \<longrightarrow> queue_turns.in_turn k (c # ks))"
  using assms(1)
proof induction
  case start
  then show ?case using assms by (simp add: queue_turns.in_turn_def)
next
  case (enqueue ks p job now)
  then show ?case
    using queue_step_conserves [OF queue_step.enqueue [of True job p H now]]
    by (simp add: SharedHostQueue_enqueue_def split: sum.split)
next
  case (heartbeat ks p now name token lease_s)
  then show ?case
    using heartbeat_conserves [of H p now name token lease_s]
      heartbeat_frame [OF ignores_running_frames(2) [of "hq_cursor p"], of H now name token lease_s]
    by (simp add: preserves_def)
next
  case (finish ks p now name success result tok)
  then show ?case
    using settles_held [OF finish_locked_settles [of H p now name success result tok "''worker''"]]
      finish_locked_cursor [of "hq_cursor p" H now name success result tok "''worker''"]
    by (simp add: preserves_def SharedHostQueue_finish_def)
next
  case (recover ks p now files stale_after_s name)
  then show ?case
    using settles_held [OF recover_one_settles [of H p now files stale_after_s name]]
      recover_one_cursor [of "hq_cursor p" H now files stale_after_s name]
    by (simp add: preserves_def)
next
  case (claim ks p fresh now worker process lease_s target job p')
  then have ok: "held_ok H p" and cur: "hq_cursor p = Some (last (c # ks))" by simp_all
  obtain source q1 key where choice: "claim_choice H p = (Inr (Some (key, source, job)), q1)" "hq_cursor p' = Some key"
    using claim_served [OF claim.hyps(5)] by metis
  note chosen = claim_choice_Some [OF choice(1) held_okD(5) [OF ok]]
  have key: "key = next_in (last (c # ks)) (waiting_keys H p)"
    using chosen(3) cur by (simp add: next_in_def)
  have "held_ok H p'" using claim_conserves [OF ok claim.hyps(2)] claim.hyps(5) by (metis snd_conv)
  moreover have "hq_cursor p' = Some (last (c # ks @ [scheduling_key job]))" using choice(2) chosen(2) by simp
  moreover have "queue_turns.in_turn k (c # ks @ [scheduling_key job])" if "k \<notin> set (ks @ [scheduling_key job])"
  proof -
    have "last (c # ks) \<noteq> k" using that assms(4) by (metis last_ConsR last_in_set last_ConsL set_append UnCI)
    moreover have "last (c # ks) \<in> waiting_keys H p" using claim.hyps(4) cur by auto
    moreover have "queue_turns.in_turn k (c # ks)" using claim.IH that by simp
    ultimately have "queue_turns.in_turn k ((c # ks) @ [next_in (last (c # ks)) (waiting_keys H p)])"
      using queue_turns.in_turn_snoc [OF _ _ chosen(5)] claim.hyps(3) by blast
    with key chosen(2) show ?thesis by simp
  qed
  ultimately show ?case by blast
qed

section \<open>A stream of short-lived keys\<close>

lemma scan_pending_waiting:
  assumes "\<forall>n \<in> set names. \<exists>job. waiting H q n job"
  shows "\<exists>av'. scan_pending H names av q = (Inr av', q)"
  using assms
proof (induction names arbitrary: av)
  case (Cons n names)
  then obtain job f where "dict_get (hq_pending q) n = Some f" "job_from_envelope (qf_envelope f) = Inr job"
    "find_terminal H (rj_job_id job) q = Inr None"
    by (auto simp: waiting_def)
  with Cons show ?case by simp
qed simp

lemma claim_choice_waiting:
  assumes "dict_ok (hq_pending q)" "hq_pending q \<noteq> []"
    "\<And>n f. dict_get (hq_pending q) n = Some f \<Longrightarrow> \<exists>job. waiting H q n job"
  shows "\<exists>key source job. claim_choice H q = (Inr (Some (key, source, job)), q)"
proof -
  have "\<forall>n \<in> set (sort (dict_keys (hq_pending q))). \<exists>job. waiting H q n job"
    using assms(3) by (auto simp: dict_keys_iff)
  from scan_pending_waiting [OF this] obtain av where scan:
    "scan_pending H (sort (dict_keys (hq_pending q))) [] q = (Inr av, q)" by blast
  obtain n f where "(n, f) \<in> set (hq_pending q)" using assms(2) by (cases "hq_pending q") auto
  then have "dict_get (hq_pending q) n = Some f" using dict_get_in [OF assms(1)] by blast
  then obtain job where "waiting H q n job" using assms(3) by blast
  then have "waiting_keys H q \<noteq> {}" by (auto simp: waiting_keys_def)
  then have "av \<noteq> []" using groups_scan(2) [OF scan assms(1)] by (auto simp: dict_keys_def)
  with scan show ?thesis by (auto simp: claim_choice_def sbind_def asks_def Let_def split: prod.split)
qed

text \<open>An empty terminal directory has no terminal for any job.\<close>

lemma no_terminals:
  assumes "hq_completed q = []" "hq_failed q = []" "job_filename H j = Inr n"
  shows "find_terminal H j q = Inr None"
  using assms by (simp add: find_terminal_def terminal_candidates_def)

text \<open>One job waits alone; another one with a lesser key arrives, while the cursor is at a third key.\<close>

lemma newcomer_first:
  assumes "hq_pending q = [(n, f)]" "job_from_envelope (qf_envelope f) = Inr z" "job_filename H (rj_job_id z) = Inr n"
    "hq_completed q = []" "hq_failed q = []" "hq_cursor q = Some c" "c \<notin> {scheduling_key job, scheduling_key z}"
    "job_filename H (rj_job_id job) = Inr m" "m \<noteq> n" "scheduling_key job < scheduling_key z" "0 < lease"
  shows "\<exists>q'. SharedHostQueue_claim H now fresh worker process lease (snd (SharedHostQueue_enqueue H now job q))
      = (Inr (Some (claim_name fresh, job)), q')
    \<and> hq_pending q' = [(n, f)] \<and> hq_completed q' = [] \<and> hq_failed q' = [] \<and> hq_cursor q' = Some (scheduling_key job)"
proof -
  let ?g = "\<lparr>qf_mtime = now, qf_envelope = PendingEnv (rj_job_id job) job\<rparr>"
  let ?q = "q\<lparr>hq_pending := [(n, f), (m, ?g)]\<rparr>"
  have enq: "snd (SharedHostQueue_enqueue H now job q) = ?q"
    using assms by (simp add: SharedHostQueue_enqueue_def publish_def dict_get_def dict_set_def)
  have none: "find_terminal H (rj_job_id z) ?q = Inr None" "find_terminal H (rj_job_id job) ?q = Inr None"
    using assms by (auto intro!: no_terminals)
  have w: "waiting H ?q k x \<longleftrightarrow> (k, x) \<in> {(n, z), (m, job)}" for k x
    using assms none by (auto simp: waiting_def dict_get_def split: if_splits)
  have keys: "waiting_keys H ?q = {scheduling_key job, scheduling_key z}"
    unfolding waiting_keys_def w by auto
  have dict: "dict_ok (hq_pending ?q)" using assms(9) by (simp add: dict_ok_def)
  have all: "\<exists>job. waiting H ?q k job" if "dict_get (hq_pending ?q) k = Some h" for k h
    using that unfolding w by (auto simp: dict_get_def split: if_splits)
  obtain key source x where choice: "claim_choice H ?q = (Inr (Some (key, source, x)), ?q)"
  proof -
    have "hq_pending ?q \<noteq> []" by simp
    from claim_choice_waiting [OF dict this] all show ?thesis using that by blast
  qed
  note chosen = claim_choice_Some [OF choice dict]
  have "sorted_list_of_set {scheduling_key job, scheduling_key z} = [scheduling_key job, scheduling_key z]"
    using assms(10) by auto
  then have "key = scheduling_key job"
    using chosen(3) assms(6,7) by (simp add: keys rotate_keys_def)
  then have "x = job" "source = m" using chosen(1,2) assms(10) unfolding w by auto
  moreover have "dict_pop (dict_set (hq_pending ?q) m h) m = [(n, f)]" for h
    using assms(9) by (simp add: dict_set_def dict_pop_def)
  ultimately show ?thesis
    using choice assms(4,5,11) \<open>key = scheduling_key job\<close> unfolding enq
    by (simp add: SharedHostQueue_claim_def Let_def sbind_def ret_def modify_def claim_write_def claim_rename_def)
qed

text \<open>Jobs that arrive one at a time and are claimed at once: the keys served and the queue left.\<close>

fun serve_stream ::
  "(py \<Rightarrow> string) \<Rightarrow> (real \<times> string \<times> RolloutJob) list \<Rightarrow> HostQueue \<Rightarrow> RolloutJob option list \<times> HostQueue" where
  "serve_stream H [] q = ([], q)"
| "serve_stream H ((now, fresh, job) # arrivals) q =
     (case SharedHostQueue_claim H now fresh None ''worker'' DEFAULT_CLAIM_LEASE_S
             (snd (SharedHostQueue_enqueue H now job q)) of
        (r, q1) \<Rightarrow>
          (let served = (case r of Inr (Some (target, j)) \<Rightarrow> Some j | _ \<Rightarrow> None);
               rest = serve_stream H arrivals q1
           in (served # fst rest, snd rest)))"

fun keys_alternate :: "string \<Rightarrow> string list \<Rightarrow> bool" where
  "keys_alternate c [] = True"
| "keys_alternate c (k # ks) \<longleftrightarrow> c \<noteq> k \<and> keys_alternate k ks"

section \<open>Properties\<close>

text \<open>C19: the scheduling keys take turns while the rotation is not interrupted. Over any stretch of a run in
  which jobs of key \<open>k\<close> wait at every claim and the key served last still has waiting jobs at the next
  claim, no key is served twice, and the key served before the stretch not at all, before \<open>k\<close> is.\<close>

theorem claims_take_turns:
  assumes "(queue_step H True)\<^sup>*\<^sup>* empty_queue q" "hq_cursor q = Some c" "c \<noteq> k"
    and "served H k q ks p" "k \<notin> set ks"
  shows "distinct (c # ks)"
proof -
  have "held_ok H q" using queue_run_conserves [OF assms(1)] by simp
  from served_in_turn [OF assms(4) this assms(2,3)] assms(5) show ?thesis
    using queue_turns.in_turn_distinct by blast
qed

text \<open>C39: a waiting job can be passed over for ever. When the key served last has no waiting job, the rotation
  starts again at the least key; so while jobs with lesser keys arrive one at a time, each with a key other
  than the one before, every claim serves the newcomer, and the job that waits is never served, however
  long the stream is.\<close>

theorem claim_starves:
  assumes "hq_pending q = [(n, f)]" "job_from_envelope (qf_envelope f) = Inr z" "job_filename H (rj_job_id z) = Inr n"
    "hq_completed q = []" "hq_failed q = []" "hq_cursor q = Some c" "c \<noteq> scheduling_key z"
    "\<forall>(now, fresh, job) \<in> set arrivals. scheduling_key job < scheduling_key z
       \<and> (\<exists>m. job_filename H (rj_job_id job) = Inr m \<and> m \<noteq> n)"
    "keys_alternate c (map (scheduling_key \<circ> snd \<circ> snd) arrivals)"
  shows "fst (serve_stream H arrivals q) = map (Some \<circ> snd \<circ> snd) arrivals
    \<and> hq_pending (snd (serve_stream H arrivals q)) = [(n, f)]"
  using assms
proof (induction arrivals arbitrary: q c)
  case (Cons a arrivals)
  obtain now fresh job where a: "a = (now, fresh, job)" by (cases a) auto
  obtain m where m: "job_filename H (rj_job_id job) = Inr m" "m \<noteq> n" "scheduling_key job < scheduling_key z"
    using Cons.prems(8) a by auto
  have c: "c \<notin> {scheduling_key job, scheduling_key z}" using Cons.prems(7,9) a by simp
  have lease: "0 < DEFAULT_CLAIM_LEASE_S" by (simp add: DEFAULT_CLAIM_LEASE_S_def)
  obtain q' where q': "SharedHostQueue_claim H now fresh None ''worker'' DEFAULT_CLAIM_LEASE_S
      (snd (SharedHostQueue_enqueue H now job q)) = (Inr (Some (claim_name fresh, job)), q')"
    "hq_pending q' = [(n, f)]" "hq_completed q' = []" "hq_failed q' = []" "hq_cursor q' = Some (scheduling_key job)"
    using newcomer_first [OF Cons.prems(1-6) c m(1,2,3) lease] by blast
  have "scheduling_key job \<noteq> scheduling_key z" using m(3) by simp
  from Cons.IH [OF q'(2) Cons.prems(2,3) q'(3,4,5) this] Cons.prems(8,9) a
  show ?case by (simp add: q'(1) Let_def)
qed simp

theorem claim_starves_witness:
  "fst (serve_stream demo_hash
      [(1, ''t1'', demo_job ''1'' ''a''), (2, ''t2'', demo_job ''2'' ''b''), (3, ''t3'', demo_job ''3'' ''a'')]
      (empty_queue\<lparr>hq_pending := [(''job-z.json'', \<lparr>qf_mtime = 0, qf_envelope = PendingEnv ''z'' (demo_job ''z'' ''z'')\<rparr>)],
         hq_cursor := Some ''c:parent''\<rparr>))
    = [Some (demo_job ''1'' ''a''), Some (demo_job ''2'' ''b''), Some (demo_job ''3'' ''a'')]"
proof -
  let ?q = "empty_queue\<lparr>hq_pending := [(''job-z.json'', \<lparr>qf_mtime = 0, qf_envelope = PendingEnv ''z'' (demo_job ''z'' ''z'')\<rparr>)],
         hq_cursor := Some ''c:parent''\<rparr>"
  let ?arrivals = "[(1 :: real, ''t1'', demo_job ''1'' ''a''), (2, ''t2'', demo_job ''2'' ''b''), (3, ''t3'', demo_job ''3'' ''a'')]"
  have key: "scheduling_key (demo_job j t) = t @ '':parent''" for j t
    by (simp add: scheduling_key_def demo_job_def)
  have name: "job_filename demo_hash (rj_job_id (demo_job [ch] t)) = Inr (''job-'' @ [ch] @ ''.json'')" for ch t
    by (simp add: job_filename_def demo_hash_def demo_job_def)
  have "fst (serve_stream demo_hash ?arrivals ?q) = map (Some \<circ> snd \<circ> snd) ?arrivals
    \<and> hq_pending (snd (serve_stream demo_hash ?arrivals ?q))
      = [(''job-z.json'', \<lparr>qf_mtime = 0, qf_envelope = PendingEnv ''z'' (demo_job ''z'' ''z'')\<rparr>)]"
    by (rule claim_starves [where z = "demo_job ''z'' ''z''" and c = "''c:parent''"])
      (simp_all add: key name empty_queue_def, simp_all add: demo_job_def less_char_def)
  then show ?thesis by simp
qed

text \<open>Four jobs of three keys; the first claim served key \<open>a\<close>, which has another job, and the second
  serves \<open>b\<close>, while \<open>c\<close> waits.\<close>

definition demo_file :: "string \<Rightarrow> string \<Rightarrow> string \<times> queue_file" where
  "demo_file j t = (''job-'' @ j @ ''.json'', \<lparr>qf_mtime = 1, qf_envelope = PendingEnv j (demo_job j t)\<rparr>)"

definition demo_backlog :: "(string \<times> queue_file) list \<Rightarrow> HostQueue" where
  "demo_backlog fs = empty_queue\<lparr>hq_pending := fs\<rparr>"

lemma demo_backlog_step:
  assumes "j \<noteq> []" "length j \<le> 32" "j \<notin> ids_in fs" "dict_get fs (''job-'' @ j @ ''.json'') = None"
  shows "queue_step demo_hash True (demo_backlog fs) (demo_backlog (fs @ [demo_file j t]))"
proof -
  have "snd (SharedHostQueue_enqueue demo_hash 1 (demo_job j t) (demo_backlog fs)) = demo_backlog (fs @ [demo_file j t])"
    using assms by (simp add: SharedHostQueue_enqueue_def job_filename_def publish_def demo_backlog_def empty_queue_def
        demo_file_def demo_hash_def demo_job_def dict_set_new)
  moreover have "rj_job_id (demo_job j t) \<notin> known_ids (demo_backlog fs)"
    using assms(3) by (simp add: known_ids_def terminal_ids_def demo_backlog_def empty_queue_def demo_job_def)
  ultimately show ?thesis using queue_step.enqueue [of True "demo_job j t" "demo_backlog fs" demo_hash 1] by simp
qed

definition demo_four :: "(string \<times> queue_file) list" where
  "demo_four = [demo_file ''1'' ''a'', demo_file ''2'' ''a'', demo_file ''3'' ''b'', demo_file ''4'' ''c'']"

lemma ids_in_list: "dict_ok d \<Longrightarrow> ids_in d = (file_id \<circ> snd) ` set d"
  by (auto simp: ids_in_iff dict_get_in image_iff) force+

lemmas demo_ids = demo_file_def dict_get_def ids_in_list dict_ok_def demo_job_def

lemma demo_four_reached: "(queue_step demo_hash True)\<^sup>*\<^sup>* empty_queue (demo_backlog demo_four)"
proof -
  let ?s = "queue_step demo_hash True"
  have s1: "?s (demo_backlog []) (demo_backlog [demo_file ''1'' ''a''])"
    using demo_backlog_step [of "''1''" "[]" "''a''"] by simp
  have s2: "?s (demo_backlog [demo_file ''1'' ''a'']) (demo_backlog [demo_file ''1'' ''a'', demo_file ''2'' ''a''])"
    using demo_backlog_step [of "''2''" "[demo_file ''1'' ''a'']" "''a''"] by (simp add: demo_ids)
  have s3: "?s (demo_backlog [demo_file ''1'' ''a'', demo_file ''2'' ''a''])
      (demo_backlog [demo_file ''1'' ''a'', demo_file ''2'' ''a'', demo_file ''3'' ''b''])"
    using demo_backlog_step [of "''3''" "[demo_file ''1'' ''a'', demo_file ''2'' ''a'']" "''b''"] by (simp add: demo_ids)
  have s4: "?s (demo_backlog [demo_file ''1'' ''a'', demo_file ''2'' ''a'', demo_file ''3'' ''b'']) (demo_backlog demo_four)"
    using demo_backlog_step [of "''4''" "[demo_file ''1'' ''a'', demo_file ''2'' ''a'', demo_file ''3'' ''b'']" "''c''"]
    by (simp add: demo_ids demo_four_def)
  have "demo_backlog [] = empty_queue" by (simp add: demo_backlog_def empty_queue_def)
  with converse_rtranclp_into_rtranclp [of ?s, OF s1 converse_rtranclp_into_rtranclp [of ?s,
        OF s2 converse_rtranclp_into_rtranclp [of ?s, OF s3 r_into_rtranclp [of ?s, OF s4]]]]
  show ?thesis by simp
qed

lemma demo_turn:
  "\<exists>q'. SharedHostQueue_claim demo_hash 2 ''t'' (Some ''w'') ''p'' 60 (demo_backlog demo_four)
     = (Inr (Some (''claim-t.json'', demo_job ''1'' ''a'')), q') \<and> hq_cursor q' = Some ''a:parent''
     \<and> hq_pending q' = [demo_file ''2'' ''a'', demo_file ''3'' ''b'', demo_file ''4'' ''c'']
     \<and> hq_completed q' = [] \<and> hq_failed q' = [] \<and> dict_get (hq_running q') ''claim-u.json'' = None"
  by (simp add: SharedHostQueue_claim_def claim_choice_def demo_backlog_def demo_four_def demo_file_def empty_queue_def
      sbind_def asks_def ret_def modify_def Let_def dict_keys_def dict_get_def dict_set_def dict_pop_def dict_get_or_def
      find_terminal_def terminal_candidates_def job_filename_def demo_job_def next_key_def rotate_keys_def pick_job_def
      scheduling_key_def claim_write_def claim_rename_def claim_name_def less_char_def less_eq_char_def)

lemma demo_turn_next:
  assumes "hq_cursor q = Some ''a:parent''" "hq_completed q = []" "hq_failed q = []"
    "hq_pending q = [demo_file ''2'' ''a'', demo_file ''3'' ''b'', demo_file ''4'' ''c'']"
  shows "\<exists>q'. SharedHostQueue_claim demo_hash 3 ''u'' (Some ''w'') ''p'' 60 q
     = (Inr (Some (''claim-u.json'', demo_job ''3'' ''b'')), q')"
  using assms
  by (simp add: SharedHostQueue_claim_def claim_choice_def demo_file_def
      sbind_def asks_def ret_def modify_def Let_def dict_keys_def dict_get_def dict_set_def dict_pop_def dict_get_or_def
      find_terminal_def terminal_candidates_def job_filename_def demo_job_def next_key_def rotate_keys_def pick_job_def
      scheduling_key_def claim_write_def claim_rename_def claim_name_def less_char_def less_eq_char_def)

theorem claims_take_turns_witness:
  "\<exists>q p. (queue_step demo_hash True)\<^sup>*\<^sup>* empty_queue q \<and> hq_cursor q = Some ''a:parent''
     \<and> served demo_hash ''c:parent'' q [''b:parent''] p \<and> distinct [''a:parent'', ''b:parent'']"
proof -
  obtain q where q: "SharedHostQueue_claim demo_hash 2 ''t'' (Some ''w'') ''p'' 60 (demo_backlog demo_four)
      = (Inr (Some (''claim-t.json'', demo_job ''1'' ''a'')), q)" "hq_cursor q = Some ''a:parent''"
    "hq_pending q = [demo_file ''2'' ''a'', demo_file ''3'' ''b'', demo_file ''4'' ''c'']"
    "hq_completed q = []" "hq_failed q = []" "dict_get (hq_running q) ''claim-u.json'' = None"
    using demo_turn by blast
  have "queue_step demo_hash True (demo_backlog demo_four) q"
    using queue_step.claim [of "demo_backlog demo_four" "''t''" demo_hash True 2 "Some ''w''" "''p''" 60] q(1)
    by (simp add: demo_backlog_def empty_queue_def)
  with demo_four_reached have run: "(queue_step demo_hash True)\<^sup>*\<^sup>* empty_queue q" by (rule rtranclp.rtrancl_into_rtrancl)
  have w: "waiting demo_hash q ''job-4.json'' (demo_job ''4'' ''c'')" "waiting demo_hash q ''job-2.json'' (demo_job ''2'' ''a'')"
    using q(3-5)
    by (simp_all add: waiting_def demo_file_def dict_get_def find_terminal_def terminal_candidates_def job_filename_def
        demo_job_def)
  have key: "scheduling_key (demo_job j t) = t @ '':parent''" for j t by (simp add: scheduling_key_def demo_job_def)
  have keys: "''c:parent'' \<in> waiting_keys demo_hash q" "''a:parent'' \<in> waiting_keys demo_hash q"
    using w [THEN waiting_keysI] by (simp_all add: key)
  obtain p where p: "SharedHostQueue_claim demo_hash 3 ''u'' (Some ''w'') ''p'' 60 q
      = (Inr (Some (''claim-u.json'', demo_job ''3'' ''b'')), p)"
    using demo_turn_next [OF q(2,4,5,3)] by blast
  have fresh: "dict_get (hq_running q) (claim_name ''u'') = None"
    using q(6) by (simp add: claim_name_def)
  have "served demo_hash ''c:parent'' q [''b:parent''] p"
    using served.claim [OF served.start fresh keys(1) _ p] q(2) keys(2) key [of "''3''" "''b''"] by simp
  with claims_take_turns [OF run q(2) _ this] run q(2) show ?thesis by auto
qed

end
