(* ===== verification/Provider_Admission.thy ===== *)
theory Provider_Admission
  imports Evolution_Models "HOL-Library.Sublist" "HOL-Library.List_Lexorder" "HOL-Library.Char_ord"
begin

text \<open>
  \<^verbatim>\<open>zetta/evolution/provider_admission.py\<close>: adaptive admission to model-provider routes, shared by processes through
  a state file. Tickets wait in arrival order; a ticket at the front of its route becomes a lease when the
  route's concurrency limit, its cooldown and its request and token rates allow it; outcomes raise the limit
  additively and lower it multiplicatively. What the code does under the state lock is one operation, with
  one clock reading; an operation that does not write the state file leaves the state as it was. The audit
  ledger is kept as the list of its events without their random identifiers.
\<close>

section \<open>Configuration\<close>

record ProviderAdmissionConfig =
  initial_limit :: int
  min_limit :: int
  max_limit :: int
  increase_step :: int
  healthy_successes_to_increase :: int
  decrease_factor :: real
  cooldown_s :: real
  rpm_window_s :: real
  metric_window_s :: real
  max_metric_samples :: int
  p95_latency_limit_s :: real
  p95_degrade_ratio :: real
  min_latency_samples :: int
  lease_ttl_s :: real
  waiter_ttl_s :: real
  poll_s :: real
  lock_timeout_s :: real
  lock_stale_s :: real

definition default_provider_config :: ProviderAdmissionConfig where
  "default_provider_config = \<lparr>initial_limit = 20, min_limit = 1, max_limit = 100, increase_step = 2,
     healthy_successes_to_increase = 20, decrease_factor = 0.5, cooldown_s = 30, rpm_window_s = 60,
     metric_window_s = 300, max_metric_samples = 4096, p95_latency_limit_s = 120, p95_degrade_ratio = 1.75,
     min_latency_samples = 8, lease_ttl_s = 900, waiter_ttl_s = 3600, poll_s = 0.05, lock_timeout_s = 30,
     lock_stale_s = 120\<rparr>"

text \<open>The two loops of checks: the name of the first offending field.\<close>

fun first_below :: "'n::linorder \<Rightarrow> (string \<times> 'n) list \<Rightarrow> exn + unit" where
  "first_below least [] = Inr ()"
| "first_below least ((name, v) # rest) =
     (if v < least then Inl (ValueError [Text name, Text '' must be positive'']) else first_below least rest)"

fun first_nonpositive :: "(string \<times> real) list \<Rightarrow> exn + unit" where
  "first_nonpositive [] = Inr ()"
| "first_nonpositive ((name, v) # rest) =
     (if v \<le> 0 then Inl (ValueError [Text name, Text '' must be positive'']) else first_nonpositive rest)"

definition ProviderAdmissionConfig_check :: "ProviderAdmissionConfig \<Rightarrow> exn + unit" where
  "ProviderAdmissionConfig_check c =
     rbind (first_below 1
       [(''initial_limit'', initial_limit c), (''min_limit'', min_limit c), (''max_limit'', max_limit c),
        (''increase_step'', increase_step c), (''healthy_successes_to_increase'', healthy_successes_to_increase c),
        (''max_metric_samples'', max_metric_samples c), (''min_latency_samples'', min_latency_samples c)]) (\<lambda>_.
     rbind (guard (min_limit c \<le> initial_limit c \<and> initial_limit c \<le> max_limit c)
       (ValueError [Text ''limits must satisfy min_limit <= initial_limit <= max_limit''])) (\<lambda>_.
     rbind (guard (0 < decrease_factor c \<and> decrease_factor c < 1)
       (ValueError [Text ''decrease_factor must be between zero and one''])) (\<lambda>_.
     rbind (first_nonpositive
       [(''cooldown_s'', cooldown_s c), (''rpm_window_s'', rpm_window_s c), (''metric_window_s'', metric_window_s c),
        (''p95_latency_limit_s'', p95_latency_limit_s c), (''lease_ttl_s'', lease_ttl_s c),
        (''waiter_ttl_s'', waiter_ttl_s c), (''poll_s'', poll_s c), (''lock_timeout_s'', lock_timeout_s c),
        (''lock_stale_s'', lock_stale_s c)]) (\<lambda>_.
     guard (\<not> p95_degrade_ratio c \<le> 1) (ValueError [Text ''p95_degrade_ratio must be greater than one''])))))"

section \<open>State\<close>

datatype ProviderFailure = RATE_LIMIT | QUOTA | TRANSPORT | STREAM | OOM | OTHER_RETRYABLE

fun ProviderFailure_value :: "ProviderFailure \<Rightarrow> string" where
  "ProviderFailure_value RATE_LIMIT = ''rate_limit''"
| "ProviderFailure_value QUOTA = ''quota''"
| "ProviderFailure_value TRANSPORT = ''transport''"
| "ProviderFailure_value STREAM = ''stream''"
| "ProviderFailure_value OOM = ''oom''"
| "ProviderFailure_value OTHER_RETRYABLE = ''other_retryable''"

record route_sample =
  rs_at :: real
  rs_tokens :: int
  rs_latency_s :: "real option"
  rs_success :: bool
  rs_stream_error :: bool
  rs_failure :: "string option"

record provider_route =
  pr_initial_limit :: int
  pr_max_limit :: int
  pr_rpm_limit :: "int option"
  pr_tpm_limit :: "int option"
  pr_limit :: int
  pr_cooldown_until :: real
  pr_healthy_successes :: int
  pr_best_p95 :: "real option"
  pr_successful_requests :: int
  pr_failed_requests :: int
  pr_request_starts :: "real list"
  pr_samples :: "route_sample list"

definition new_route :: "int \<Rightarrow> int \<Rightarrow> int option \<Rightarrow> int option \<Rightarrow> provider_route" where
  "new_route initial maximum rpm_limit tpm_limit =
     \<lparr>pr_initial_limit = initial, pr_max_limit = maximum, pr_rpm_limit = rpm_limit, pr_tpm_limit = tpm_limit,
      pr_limit = initial, pr_cooldown_until = 0, pr_healthy_successes = 0, pr_best_p95 = None,
      pr_successful_requests = 0, pr_failed_requests = 0, pr_request_starts = [], pr_samples = []\<rparr>"

record provider_lease =
  pl_lease_id :: string
  pl_route_id :: string
  pl_owner_sha256 :: string
  pl_acquired_at :: real
  pl_expires_at :: real
  pl_reserved_tokens :: int

record provider_waiter =
  pw_ticket_id :: string
  pw_route_id :: string
  pw_owner_sha256 :: string
  pw_created_at :: real
  pw_expires_at :: real

datatype provider_event =
    RouteRegistered real string int
  | WaitStarted real string string
  | WaitEnded string real string string
  | LeaseAcquired real string string int
  | LeaseHeartbeat real string string
  | RequestDone real string string string int "real option"
  | LimitChanged real string int int "string option" real
  | LeaseReleased real string string bool
  | LeaseExpired real string string
  | WaiterExpired real string string

record provider_state =
  ps_routes :: "(string, provider_route) dict"
  ps_leases :: "(string, provider_lease) dict"
  ps_waiters :: "provider_waiter list"
  ps_ledger :: "provider_event list"

definition new_state :: provider_state where
  "new_state = \<lparr>ps_routes = [], ps_leases = [], ps_waiters = [], ps_ledger = []\<rparr>"

type_synonym 'a provider_op = "(provider_state, exn, 'a) sem"

definition append_event :: "provider_event \<Rightarrow> provider_state \<Rightarrow> provider_state" where
  "append_event e st = st\<lparr>ps_ledger := ps_ledger st @ [e]\<rparr>"

text \<open>The identifiers: a public route alias of at most 80 characters, and a lease identifier of 32
  hexadecimal digits.\<close>

definition alnum :: "char \<Rightarrow> bool" where
  "alnum ch \<longleftrightarrow> (let n = of_char ch :: nat in
     (48 \<le> n \<and> n \<le> 57) \<or> (65 \<le> n \<and> n \<le> 90) \<or> (97 \<le> n \<and> n \<le> 122))"

definition validate_route_id :: "string \<Rightarrow> exn + unit" where
  "validate_route_id route_id =
     guard (route_id \<noteq> [] \<and> length route_id \<le> 80 \<and> alnum (hd route_id)
            \<and> list_all (\<lambda>ch. alnum ch \<or> ch \<in> set ''_.-'') (tl route_id))
       (ValueError [Text ''route_id must be a public alias containing only letters, digits, '', Repr ''.'', Text '', '',
          Repr ''_'', Text '', or '', Repr ''-''])"

definition validate_opaque_id :: "string \<Rightarrow> exn + unit" where
  "validate_opaque_id value =
     guard (length value = 32 \<and> list_all (\<lambda>ch. let n = of_char ch :: nat in (48 \<le> n \<and> n \<le> 57) \<or> (97 \<le> n \<and> n \<le> 102)) value)
       (ValueError [Text ''lease_id is not a valid opaque identifier''])"

definition active_for_route :: "string \<Rightarrow> provider_state \<Rightarrow> int" where
  "active_for_route route_id st = int (length (filter (\<lambda>l. pl_route_id l = route_id) (dict_values (ps_leases st))))"

section \<open>Pruning and statistics\<close>

definition prune_route :: "ProviderAdmissionConfig \<Rightarrow> real \<Rightarrow> provider_route \<Rightarrow> provider_route" where
  "prune_route cfg now r =
     (let samples = filter (\<lambda>s. rs_at s \<ge> now - metric_window_s cfg) (pr_samples r)
      in r\<lparr>pr_request_starts := filter (\<lambda>t. t \<ge> now - rpm_window_s cfg) (pr_request_starts r),
           pr_samples := drop (length samples - nat (max_metric_samples cfg)) samples\<rparr>)"

definition prune :: "ProviderAdmissionConfig \<Rightarrow> real \<Rightarrow> provider_state \<Rightarrow> provider_state" where
  "prune cfg now st =
     st\<lparr>ps_leases := filter (\<lambda>(i, l). \<not> pl_expires_at l \<le> now) (ps_leases st),
        ps_waiters := filter (\<lambda>w. pw_expires_at w > now) (ps_waiters st),
        ps_routes := map (\<lambda>(i, r). (i, prune_route cfg now r)) (ps_routes st)\<rparr>"

definition latencies :: "route_sample list \<Rightarrow> real list" where
  "latencies samples = sort (List.map_filter rs_latency_s samples)"

definition percentile :: "real list \<Rightarrow> real \<Rightarrow> real option" where
  "percentile values quantile =
     (if values = [] then None
      else if length values = 1 then Some (values ! 0)
      else
        (let position = (real (length values) - 1) * quantile;
             lower = floor position;
             upper = ceiling position
         in if lower = upper then Some (values ! nat lower)
            else (let weight = position - of_int lower
                  in Some (values ! nat lower * (1 - weight) + values ! nat upper * weight))))"

definition decrease :: "ProviderAdmissionConfig \<Rightarrow> real \<Rightarrow> provider_route \<Rightarrow> provider_route" where
  "decrease cfg now r =
     r\<lparr>pr_limit := max (min_limit cfg) (floor (of_int (pr_limit r) * decrease_factor cfg)),
       pr_cooldown_until := max (pr_cooldown_until r) (now + cooldown_s cfg),
       pr_healthy_successes := 0\<rparr>"

definition put_route :: "string \<Rightarrow> provider_route \<Rightarrow> provider_state \<Rightarrow> provider_state" where
  "put_route route_id r st = st\<lparr>ps_routes := dict_set (ps_routes st) route_id r\<rparr>"

section \<open>Snapshots\<close>

record RouteSnapshot =
  sn_route_id :: string
  sn_limit :: int
  sn_initial_limit :: int
  sn_max_limit :: int
  sn_rpm_limit :: "int option"
  sn_tpm_limit :: "int option"
  sn_reserved_tokens :: int
  sn_active_leases :: int
  sn_waiting :: int
  sn_cooldown_remaining_s :: real
  sn_rolling_rpm :: int
  sn_rolling_tpm :: int
  sn_rolling_stream_errors :: int
  sn_rolling_failures :: int
  sn_p50_latency_s :: "real option"
  sn_p95_latency_s :: "real option"
  sn_successful_requests :: int
  sn_failed_requests :: int

definition reserved_for_route :: "string \<Rightarrow> provider_state \<Rightarrow> int" where
  "reserved_for_route route_id st =
     sum_list (map pl_reserved_tokens (filter (\<lambda>l. pl_route_id l = route_id) (dict_values (ps_leases st))))"

definition recent_starts :: "ProviderAdmissionConfig \<Rightarrow> real \<Rightarrow> provider_route \<Rightarrow> real list" where
  "recent_starts cfg now r = filter (\<lambda>t. t \<ge> now - rpm_window_s cfg) (pr_request_starts r)"

definition minute_samples :: "ProviderAdmissionConfig \<Rightarrow> real \<Rightarrow> provider_route \<Rightarrow> route_sample list" where
  "minute_samples cfg now r = filter (\<lambda>s. rs_at s \<ge> now - rpm_window_s cfg) (pr_samples r)"

definition route_snapshot ::
  "ProviderAdmissionConfig \<Rightarrow> provider_state \<Rightarrow> string \<Rightarrow> provider_route \<Rightarrow> real \<Rightarrow> RouteSnapshot" where
  "route_snapshot cfg st route_id r now =
     \<lparr>sn_route_id = route_id, sn_limit = pr_limit r, sn_initial_limit = pr_initial_limit r,
      sn_max_limit = pr_max_limit r, sn_rpm_limit = pr_rpm_limit r, sn_tpm_limit = pr_tpm_limit r,
      sn_reserved_tokens = reserved_for_route route_id st, sn_active_leases = active_for_route route_id st,
      sn_waiting = int (length (filter (\<lambda>w. pw_route_id w = route_id) (ps_waiters st))),
      sn_cooldown_remaining_s = max 0 (pr_cooldown_until r - now),
      sn_rolling_rpm = int (length (recent_starts cfg now r)),
      sn_rolling_tpm = sum_list (map rs_tokens (minute_samples cfg now r)),
      sn_rolling_stream_errors = int (length (filter rs_stream_error (minute_samples cfg now r))),
      sn_rolling_failures = int (length (filter (\<lambda>s. \<not> rs_success s) (minute_samples cfg now r))),
      sn_p50_latency_s = percentile (latencies (pr_samples r)) 0.5,
      sn_p95_latency_s = percentile (latencies (pr_samples r)) 0.95,
      sn_successful_requests = pr_successful_requests r, sn_failed_requests = pr_failed_requests r\<rparr>"

record ProviderAdmissionSnapshot =
  generated_at_unix :: real
  snapshot_routes :: "(string, RouteSnapshot) dict"
  snapshot_active_leases :: int
  snapshot_waiting :: int

definition provider_snapshot :: "real \<Rightarrow> (string, RouteSnapshot) dict \<Rightarrow> ProviderAdmissionSnapshot" where
  "provider_snapshot now routes =
     \<lparr>generated_at_unix = now, snapshot_routes = routes,
      snapshot_active_leases = sum_list (map sn_active_leases (dict_values routes)),
      snapshot_waiting = sum_list (map sn_waiting (dict_values routes))\<rparr>"

definition ProviderAdmission_snapshot ::
  "ProviderAdmissionConfig \<Rightarrow> real \<Rightarrow> string option \<Rightarrow> ProviderAdmissionSnapshot provider_op" where
  "ProviderAdmission_snapshot cfg now wanted st =
     (case (case wanted of None \<Rightarrow> Inr () | Some i \<Rightarrow> validate_route_id i) of
        Inl e \<Rightarrow> (Inl e, st)
      | Inr _ \<Rightarrow>
          (let st1 = prune cfg now st;
               names = sort_key fst (ps_routes st1)
           in case wanted of
                None \<Rightarrow> (Inr (provider_snapshot now (map (\<lambda>(i, r). (i, route_snapshot cfg st1 i r now)) names)), st1)
              | Some i \<Rightarrow>
                  (case dict_get (ps_routes st1) i of
                     None \<Rightarrow> (Inl (PyExn K_KeyError ''KeyError'' [Text ''unknown provider route: '', Text i]), st1)
                   | Some r \<Rightarrow> (Inr (provider_snapshot now [(i, route_snapshot cfg st1 i r now)]), st1))))"

section \<open>Routes\<close>

definition check_rate :: "string \<Rightarrow> int option \<Rightarrow> exn + unit" where
  "check_rate name value =
     guard (case value of None \<Rightarrow> True | Some v \<Rightarrow> \<not> v < 1)
       (ValueError [Text name, Text '' must be a positive integer or null''])"

text \<open>\<open>register_route\<close>: only a new route writes the state.\<close>

definition ProviderAdmission_register_route ::
  "ProviderAdmissionConfig \<Rightarrow> real \<Rightarrow> string \<Rightarrow> int option \<Rightarrow> int option \<Rightarrow> int option \<Rightarrow> int option
     \<Rightarrow> RouteSnapshot provider_op" where
  "ProviderAdmission_register_route cfg now route_id initial_opt max_opt rpm tpm st =
     (let initial = (case initial_opt of None \<Rightarrow> initial_limit cfg | Some v \<Rightarrow> v);
          maximum = (case max_opt of None \<Rightarrow> max_limit cfg | Some v \<Rightarrow> v)
      in case rbind (validate_route_id route_id) (\<lambda>_.
                rbind (guard (min_limit cfg \<le> initial \<and> initial \<le> maximum \<and> maximum \<le> max_limit cfg)
                  (ValueError [Text ''route limits must satisfy min_limit <= initial <= max_limit <= configured max_limit''])) (\<lambda>_.
                rbind (check_rate ''rpm_limit'' rpm) (\<lambda>_. check_rate ''tpm_limit'' tpm))) of
           Inl e \<Rightarrow> (Inl e, st)
         | Inr _ \<Rightarrow>
             (let st1 = prune cfg now st in
              case dict_get (ps_routes st1) route_id of
                None \<Rightarrow>
                  (let r = new_route initial maximum rpm tpm;
                       st2 = put_route route_id r st1
                   in (Inr (route_snapshot cfg st2 route_id r now),
                       append_event (RouteRegistered now route_id initial) st2))
              | Some r \<Rightarrow>
                  if (initial_opt \<noteq> None \<and> pr_initial_limit r \<noteq> initial)
                     \<or> (max_opt \<noteq> None \<and> pr_max_limit r \<noteq> maximum)
                     \<or> (rpm \<noteq> None \<and> pr_rpm_limit r \<noteq> rpm) \<or> (tpm \<noteq> None \<and> pr_tpm_limit r \<noteq> tpm)
                  then (Inl (ValueError [Text ''route is already registered with different limits'']), st)
                  else (Inr (route_snapshot cfg st1 route_id r now), st)))"

section \<open>Acquiring a lease\<close>

text \<open>The ticket a caller holds while it waits.\<close>

record provider_ticket =
  tk_id :: string
  tk_route_id :: string
  tk_owner_sha256 :: string
  tk_deadline :: real
  tk_estimated_tokens :: int

text \<open>\<open>acquire\<close> up to its loop is two critical sections: after the checks it registers the route, then it
  appends its ticket to the queue. \<open>created\<close> is the clock as the caller read it before it asked for the lock,
  so other sections may have run since, with a later clock. \<open>sha\<close> is the hexadecimal SHA-256 of the owner,
  \<open>fresh\<close> the ticket's random identifier.\<close>

definition acquire_begin ::
  "ProviderAdmissionConfig \<Rightarrow> real \<Rightarrow> string \<Rightarrow> string \<Rightarrow> real \<Rightarrow> real option \<Rightarrow> int \<Rightarrow> unit provider_op" where
  "acquire_begin cfg now route_id owner timeout_s poll estimated_tokens st =
     (case rbind (validate_route_id route_id) (\<lambda>_.
             rbind (guard (owner \<noteq> []) (ValueError [Text ''owner must be a non-empty string''])) (\<lambda>_.
             rbind (guard (\<not> timeout_s < 0) (ValueError [Text ''timeout_s must be non-negative''])) (\<lambda>_.
             rbind (guard (\<not> estimated_tokens < 0)
               (ValueError [Text ''estimated_tokens must be a non-negative integer''])) (\<lambda>_.
             guard (\<not> (case poll of None \<Rightarrow> poll_s cfg | Some p \<Rightarrow> p) \<le> 0)
               (ValueError [Text ''poll_s must be positive'']))))) of
        Inl e \<Rightarrow> (Inl e, st)
      | Inr _ \<Rightarrow>
          (case ProviderAdmission_register_route cfg now route_id None None None None st of
             (Inl e, st1) \<Rightarrow> (Inl e, st1)
           | (Inr _, st1) \<Rightarrow> (Inr (), st1)))"

definition acquire_ticket ::
  "(string \<Rightarrow> string) \<Rightarrow> ProviderAdmissionConfig \<Rightarrow> real \<Rightarrow> string \<Rightarrow> string \<Rightarrow> string \<Rightarrow> real \<Rightarrow> int
     \<Rightarrow> provider_state \<Rightarrow> provider_ticket \<times> provider_state" where
  "acquire_ticket sha cfg created fresh route_id owner timeout_s estimated_tokens st =
     (let deadline = created + timeout_s;
          st1 = prune cfg created st;
          w = \<lparr>pw_ticket_id = fresh, pw_route_id = route_id, pw_owner_sha256 = sha owner, pw_created_at = created,
               pw_expires_at = min deadline (created + waiter_ttl_s cfg)\<rparr>
      in (\<lparr>tk_id = fresh, tk_route_id = route_id, tk_owner_sha256 = sha owner, tk_deadline = deadline,
           tk_estimated_tokens = estimated_tokens\<rparr>,
          append_event (WaitStarted created route_id fresh) (st1\<lparr>ps_waiters := ps_waiters st1 @ [w]\<rparr>)))"

text \<open>\<open>_remove_waiter\<close> reads the clock in its own section, for the event only; the turns below pass it the
  clock of their start.\<close>

definition remove_waiter :: "real \<Rightarrow> string \<Rightarrow> string \<Rightarrow> string \<Rightarrow> provider_state \<Rightarrow> provider_state" where
  "remove_waiter now ticket_id route_id event_name st =
     (let remaining = filter (\<lambda>w. pw_ticket_id w \<noteq> ticket_id) (ps_waiters st)
      in if length remaining \<noteq> length (ps_waiters st)
         then append_event (WaitEnded event_name now route_id ticket_id) (st\<lparr>ps_waiters := remaining\<rparr>)
         else st)"

definition at_front :: "provider_ticket \<Rightarrow> provider_state \<Rightarrow> bool" where
  "at_front tk st =
     (case filter (\<lambda>w. pw_route_id w = tk_route_id tk) (ps_waiters st) of
        [] \<Rightarrow> False | w # _ \<Rightarrow> pw_ticket_id w = tk_id tk)"

definition within_rpm :: "ProviderAdmissionConfig \<Rightarrow> real \<Rightarrow> provider_route \<Rightarrow> bool" where
  "within_rpm cfg now r =
     (case pr_rpm_limit r of None \<Rightarrow> True | Some v \<Rightarrow> int (length (recent_starts cfg now r)) < v)"

definition within_tpm :: "ProviderAdmissionConfig \<Rightarrow> real \<Rightarrow> provider_ticket \<Rightarrow> provider_route \<Rightarrow> provider_state \<Rightarrow> bool" where
  "within_tpm cfg now tk r st =
     (case pr_tpm_limit r of
        None \<Rightarrow> True
      | Some v \<Rightarrow> sum_list (map rs_tokens (minute_samples cfg now r)) + reserved_for_route (tk_route_id tk) st
                    + tk_estimated_tokens tk \<le> v)"

text \<open>The locked part of one turn of the loop: a lease, or nothing and no write. \<open>fresh\<close> is the lease's
  random identifier. The route is known since registration; were it not, \<open>state["routes"][route_id]\<close> raises.\<close>

definition try_acquire ::
  "ProviderAdmissionConfig \<Rightarrow> real \<Rightarrow> string \<Rightarrow> provider_ticket \<Rightarrow> provider_lease option provider_op" where
  "try_acquire cfg now fresh tk st =
     (let st1 = prune cfg now st in
      case dict_get (ps_routes st1) (tk_route_id tk) of
        None \<Rightarrow> (Inl (PyExn K_KeyError ''KeyError'' [Repr (tk_route_id tk)]), st)
      | Some r \<Rightarrow>
          if at_front tk st1 \<and> active_for_route (tk_route_id tk) st1 < pr_limit r \<and> now \<ge> pr_cooldown_until r
             \<and> within_rpm cfg now r \<and> within_tpm cfg now tk r st1
          then
            (let l = \<lparr>pl_lease_id = fresh, pl_route_id = tk_route_id tk, pl_owner_sha256 = tk_owner_sha256 tk,
                      pl_acquired_at = now, pl_expires_at = now + lease_ttl_s cfg,
                      pl_reserved_tokens = tk_estimated_tokens tk\<rparr>;
                 st2 = st1\<lparr>ps_waiters := filter (\<lambda>w. pw_ticket_id w \<noteq> tk_id tk) (ps_waiters st1),
                           ps_leases := dict_set (ps_leases st1) fresh l\<rparr>;
                 st3 = put_route (tk_route_id tk) (r\<lparr>pr_request_starts := pr_request_starts r @ [now]\<rparr>) st2
             in (Inr (Some l), append_event (LeaseAcquired now (tk_route_id tk) fresh (pr_limit r)) st3))
          else (Inr None, st))"

text \<open>One turn: cancellation and the deadline first. \<open>now\<close> is read at the start of the turn, before the lock is
  asked for. An exception that leaves the loop removes the ticket,
  which by then is only there if the exception was another one.\<close>

definition provider_round ::
  "ProviderAdmissionConfig \<Rightarrow> real \<Rightarrow> bool \<Rightarrow> string \<Rightarrow> provider_ticket \<Rightarrow> provider_lease option provider_op" where
  "provider_round cfg now cancelled fresh tk st =
     (let leave = (\<lambda>e st. (Inl e, remove_waiter now (tk_id tk) (tk_route_id tk) ''wait_abandoned'' st)) in
      if cancelled
      then leave (PyExn K_Other ''ProviderAdmissionCancelled'' [Text ''provider admission was cancelled''])
             (remove_waiter now (tk_id tk) (tk_route_id tk) ''wait_cancelled'' st)
      else if now \<ge> tk_deadline tk
      then leave (PyExn K_TimeoutError ''ProviderAdmissionTimeout'' [Text ''timed out waiting for provider admission''])
             (remove_waiter now (tk_id tk) (tk_route_id tk) ''wait_timed_out'' st)
      else
        (case try_acquire cfg now fresh tk st of
           (Inl e, st1) \<Rightarrow> leave e st1
         | r \<Rightarrow> r))"

section \<open>Leases\<close>

abbreviation lease_not_active :: exn where
  "lease_not_active \<equiv> PyExn K_KeyError ''KeyError'' [Text ''provider lease is not active'']"

definition ProviderAdmission_heartbeat :: "ProviderAdmissionConfig \<Rightarrow> real \<Rightarrow> string \<Rightarrow> unit provider_op" where
  "ProviderAdmission_heartbeat cfg now lease_id st =
     (case validate_opaque_id lease_id of
        Inl e \<Rightarrow> (Inl e, st)
      | Inr _ \<Rightarrow>
          (let st1 = prune cfg now st in
           case dict_get (ps_leases st1) lease_id of
             None \<Rightarrow> (Inl lease_not_active, st)
           | Some l \<Rightarrow>
               (Inr (), append_event (LeaseHeartbeat now (pl_route_id l) lease_id)
                  (st1\<lparr>ps_leases := dict_set (ps_leases st1) lease_id (l\<lparr>pl_expires_at := now + lease_ttl_s cfg\<rparr>)\<rparr>))))"

definition record_outcome ::
  "real \<Rightarrow> bool \<Rightarrow> int \<Rightarrow> real option \<Rightarrow> ProviderFailure option \<Rightarrow> provider_route \<Rightarrow> provider_route" where
  "record_outcome now success tokens latency_s failure r =
     (let sample = \<lparr>rs_at = now, rs_tokens = tokens, rs_latency_s = latency_s, rs_success = success,
                    rs_stream_error = (failure = Some STREAM),
                    rs_failure = map_option ProviderFailure_value failure\<rparr>;
          r1 = r\<lparr>pr_samples := pr_samples r @ [sample]\<rparr>
      in if success
         then r1\<lparr>pr_successful_requests := pr_successful_requests r1 + 1, pr_healthy_successes := pr_healthy_successes r1 + 1\<rparr>
         else r1\<lparr>pr_failed_requests := pr_failed_requests r1 + 1, pr_healthy_successes := 0\<rparr>)"

definition enough_latencies :: "ProviderAdmissionConfig \<Rightarrow> provider_route \<Rightarrow> bool" where
  "enough_latencies cfg r \<longleftrightarrow> int (length (latencies (pr_samples r))) \<ge> min_latency_samples cfg"

definition degraded :: "ProviderAdmissionConfig \<Rightarrow> provider_route \<Rightarrow> bool" where
  "degraded cfg r =
     (case percentile (latencies (pr_samples r)) 0.95 of
        None \<Rightarrow> False
      | Some p95 \<Rightarrow> enough_latencies cfg r
          \<and> (p95 > p95_latency_limit_s cfg
             \<or> (case pr_best_p95 r of None \<Rightarrow> False | Some reference \<Rightarrow> p95 > reference * p95_degrade_ratio cfg)))"

definition note_best_p95 :: "ProviderAdmissionConfig \<Rightarrow> provider_route \<Rightarrow> provider_route" where
  "note_best_p95 cfg r =
     (case percentile (latencies (pr_samples r)) 0.95 of
        None \<Rightarrow> r
      | Some p95 \<Rightarrow>
          if enough_latencies cfg r \<and> (case pr_best_p95 r of None \<Rightarrow> True | Some reference \<Rightarrow> p95 < reference)
          then r\<lparr>pr_best_p95 := Some p95\<rparr> else r)"

text \<open>The adjustment after an outcome, and its reason.\<close>

definition adjust_limit ::
  "ProviderAdmissionConfig \<Rightarrow> real \<Rightarrow> ProviderFailure option \<Rightarrow> provider_route \<Rightarrow> provider_route \<times> string option" where
  "adjust_limit cfg now failure r =
     (case failure of
        Some f \<Rightarrow> (decrease cfg now r, Some (ProviderFailure_value f))
      | None \<Rightarrow>
          if degraded cfg r then (decrease cfg now r, Some ''p95_degraded'')
          else if now \<ge> pr_cooldown_until r
          then
            (let r1 = note_best_p95 cfg r in
             if pr_healthy_successes r1 \<ge> healthy_successes_to_increase cfg \<and> pr_limit r1 < pr_max_limit r1
             then (r1\<lparr>pr_limit := min (pr_max_limit r1) (pr_limit r1 + increase_step cfg), pr_healthy_successes := 0\<rparr>,
                   Some ''healthy_increase'')
             else (r1, None))
          else (r, None))"

definition ProviderAdmission_complete ::
  "ProviderAdmissionConfig \<Rightarrow> real \<Rightarrow> string \<Rightarrow> bool \<Rightarrow> int \<Rightarrow> real option \<Rightarrow> ProviderFailure option \<Rightarrow> unit provider_op" where
  "ProviderAdmission_complete cfg now lease_id success tokens latency_s failure st =
     (case rbind (validate_opaque_id lease_id) (\<lambda>_.
             rbind (guard (\<not> tokens < 0) (ValueError [Text ''tokens must be a non-negative integer''])) (\<lambda>_.
             rbind (guard (case latency_s of None \<Rightarrow> True | Some x \<Rightarrow> \<not> x < 0)
               (ValueError [Text ''latency_s must be finite and non-negative''])) (\<lambda>_.
             rbind (guard (\<not> (success \<and> failure \<noteq> None))
               (ValueError [Text ''a successful completion cannot include a failure''])) (\<lambda>_.
             guard (\<not> (\<not> success \<and> failure = None))
               (ValueError [Text ''a failed completion requires a sanitized failure class'']))))) of
        Inl e \<Rightarrow> (Inl e, st)
      | Inr _ \<Rightarrow>
          (let st1 = prune cfg now st in
           case dict_get (ps_leases st1) lease_id of
             None \<Rightarrow> (Inl lease_not_active, st)
           | Some l \<Rightarrow>
               (case dict_get (ps_routes st1) (pl_route_id l) of
                  None \<Rightarrow> (Inl (PyExn K_KeyError ''KeyError'' [Repr (pl_route_id l)]), st)
                | Some r \<Rightarrow>
                    (let r1 = record_outcome now success tokens latency_s failure r;
                         (r2, reason) = adjust_limit cfg now failure r1;
                         st2 = put_route (pl_route_id l) r2 (st1\<lparr>ps_leases := dict_pop (ps_leases st1) lease_id\<rparr>);
                         st3 = append_event (RequestDone now (pl_route_id l) lease_id
                                 (case failure of None \<Rightarrow> ''success'' | Some f \<Rightarrow> ProviderFailure_value f) tokens latency_s) st2
                     in (Inr (),
                         if pr_limit r2 \<noteq> pr_limit r1
                         then append_event (LimitChanged now (pl_route_id l) (pr_limit r1) (pr_limit r2) reason
                                (pr_cooldown_until r2)) st3
                         else st3)))))"

definition ProviderAdmission_release :: "ProviderAdmissionConfig \<Rightarrow> real \<Rightarrow> string \<Rightarrow> bool \<Rightarrow> bool provider_op" where
  "ProviderAdmission_release cfg now lease_id outcome_reported st =
     (case validate_opaque_id lease_id of
        Inl e \<Rightarrow> (Inl e, st)
      | Inr _ \<Rightarrow>
          (let st1 = prune cfg now st in
           case dict_get (ps_leases st1) lease_id of
             None \<Rightarrow> (Inr False, st)
           | Some l \<Rightarrow> (Inr True, append_event (LeaseReleased now (pl_route_id l) lease_id outcome_reported)
                          (st1\<lparr>ps_leases := dict_pop (ps_leases st1) lease_id\<rparr>))))"

definition ProviderAdmission_reap_expired :: "ProviderAdmissionConfig \<Rightarrow> real \<Rightarrow> int provider_op" where
  "ProviderAdmission_reap_expired cfg now st =
     (let st1 = prune cfg now st;
          gone = filter (\<lambda>(i, l). dict_get (ps_leases st1) i = None) (ps_leases st);
          lost = filter (\<lambda>w. pw_ticket_id w \<notin> set (map pw_ticket_id (ps_waiters st1))) (ps_waiters st);
          events = map (\<lambda>(i, l). LeaseExpired now (pl_route_id l) i) gone
                   @ map (\<lambda>w. WaiterExpired now (pw_route_id w) (pw_ticket_id w)) lost
      in (Inr (int (length gone)),
          if events = [] then st else st1\<lparr>ps_ledger := ps_ledger st1 @ events\<rparr>))"

text \<open>A controller opens the state file, new or as it is, and reaps.\<close>

definition ProviderAdmission_init :: "ProviderAdmissionConfig \<Rightarrow> real \<Rightarrow> provider_state option \<Rightarrow> provider_state" where
  "ProviderAdmission_init cfg now file =
     snd (ProviderAdmission_reap_expired cfg now (case file of None \<Rightarrow> new_state | Some st \<Rightarrow> st))"

text \<open>The caller's handle: its outcome is reported once, and it is released once.\<close>

record ProviderLease =
  ph_lease_id :: string
  ph_released :: bool
  ph_reported :: bool

definition ProviderLease_finish ::
  "ProviderAdmissionConfig \<Rightarrow> real \<Rightarrow> bool \<Rightarrow> int \<Rightarrow> real option \<Rightarrow> ProviderFailure option \<Rightarrow> ProviderLease
     \<Rightarrow> ProviderLease provider_op" where
  "ProviderLease_finish cfg now success tokens latency_s failure h st =
     (if ph_released h \<or> ph_reported h
      then (Inl (RuntimeError [Text ''provider lease outcome was already finalized'']), st)
      else
        (case ProviderAdmission_complete cfg now (ph_lease_id h) success tokens latency_s failure st of
           (Inl e, st1) \<Rightarrow> (Inl e, st1)
         | (Inr _, st1) \<Rightarrow> (Inr (h\<lparr>ph_reported := True, ph_released := True\<rparr>), st1)))"

definition ProviderLease_succeed ::
  "ProviderAdmissionConfig \<Rightarrow> real \<Rightarrow> int \<Rightarrow> real \<Rightarrow> ProviderLease \<Rightarrow> ProviderLease provider_op" where
  "ProviderLease_succeed cfg now tokens latency_s = ProviderLease_finish cfg now True tokens (Some latency_s) None"

text \<open>The failure class by its value: \<open>ProviderFailure(failure)\<close>.\<close>

definition ProviderFailure_of :: "string \<Rightarrow> ProviderFailure option" where
  "ProviderFailure_of v =
     List.find (\<lambda>f. ProviderFailure_value f = v) [RATE_LIMIT, QUOTA, TRANSPORT, STREAM, OOM, OTHER_RETRYABLE]"

definition ProviderLease_fail ::
  "ProviderAdmissionConfig \<Rightarrow> real \<Rightarrow> string \<Rightarrow> int \<Rightarrow> real option \<Rightarrow> ProviderLease \<Rightarrow> ProviderLease provider_op" where
  "ProviderLease_fail cfg now failure tokens latency_s h st =
     (case ProviderFailure_of failure of
        None \<Rightarrow> (Inl (ValueError [Text ''unsupported provider failure class'']), st)
      | Some f \<Rightarrow> ProviderLease_finish cfg now False tokens latency_s (Some f) h st)"

definition ProviderLease_release :: "ProviderAdmissionConfig \<Rightarrow> real \<Rightarrow> ProviderLease \<Rightarrow> ProviderLease provider_op" where
  "ProviderLease_release cfg now h st =
     (if ph_released h then (Inr h, st)
      else
        (case ProviderAdmission_release cfg now (ph_lease_id h) (ph_reported h) st of
           (Inl e, st1) \<Rightarrow> (Inl e, st1)
         | (Inr _, st1) \<Rightarrow> (Inr (h\<lparr>ph_released := True\<rparr>), st1)))"

definition ProviderLease_heartbeat :: "ProviderAdmissionConfig \<Rightarrow> real \<Rightarrow> ProviderLease \<Rightarrow> unit provider_op" where
  "ProviderLease_heartbeat cfg now h st =
     (if ph_released h then (Inl (RuntimeError [Text ''cannot heartbeat a released provider lease'']), st)
      else ProviderAdmission_heartbeat cfg now (ph_lease_id h) st)"

end
