(* ===== verification/Provider_Properties.thy ===== *)
theory Provider_Properties
  imports Provider_Admission
begin

text \<open>
  What provider admission guarantees: the steps of the processes that share the controller, with a clock
  that does not run backwards; the bounds of the adaptive limits and of the leases in use, the request rate
  over every window, the order of service, the recovery of a route, and what becomes of a caller whose
  ticket expires before its deadline.
\<close>

section \<open>Steps\<close>

definition issued :: "provider_state \<Rightarrow> string set" where
  "issued st = {i. \<exists>u route. WaitStarted u route i \<in> set (ps_ledger st)}"

text \<open>The steps are the critical sections. The time of a state is the clock when its last section ended, and the
  clock does not run backwards. Most operations read it inside their section; \<open>acquire\<close> reads it before it asks
  for the lock, when it creates its ticket and at the start of every turn, and by the time it has the lock the
  reading may be up to \<open>d\<close> seconds old. The bound \<open>d\<close> is arbitrary: every finite run is one for some \<open>d\<close>. The
  identifiers of new tickets and leases are new.\<close>

inductive provider_step ::
  "(string \<Rightarrow> string) \<Rightarrow> ProviderAdmissionConfig \<Rightarrow> real \<Rightarrow> real \<times> provider_state \<Rightarrow> real \<times> provider_state \<Rightarrow> bool"
  for sha cfg d where
  register: "t \<le> now \<Longrightarrow> provider_step sha cfg d (t, st)
    (now, snd (ProviderAdmission_register_route cfg now route initial maximum rpm tpm st))"
| start: "t \<le> now \<Longrightarrow> provider_step sha cfg d (t, st) (now, snd (acquire_begin cfg now route owner timeout poll tokens st))"
| ticket: "t \<le> t' \<Longrightarrow> created \<le> t' \<Longrightarrow> t' \<le> created + d \<Longrightarrow> fresh \<notin> issued st \<Longrightarrow> dict_get (ps_routes st) route \<noteq> None \<Longrightarrow>
    provider_step sha cfg d (t, st) (t', snd (acquire_ticket sha cfg created fresh route owner timeout tokens st))"
| turn: "t \<le> t' \<Longrightarrow> now \<le> t' \<Longrightarrow> t' \<le> now + d \<Longrightarrow> dict_get (ps_leases st) fresh = None \<Longrightarrow>
    provider_step sha cfg d (t, st) (t', snd (provider_round cfg now cancelled fresh tk st))"
| heartbeat: "t \<le> now \<Longrightarrow> provider_step sha cfg d (t, st) (now, snd (ProviderAdmission_heartbeat cfg now lease st))"
| complete: "t \<le> now \<Longrightarrow> provider_step sha cfg d (t, st)
    (now, snd (ProviderAdmission_complete cfg now lease success tokens latency failure st))"
| release: "t \<le> now \<Longrightarrow> provider_step sha cfg d (t, st) (now, snd (ProviderAdmission_release cfg now lease reported st))"
| reap: "t \<le> now \<Longrightarrow> provider_step sha cfg d (t, st) (now, snd (ProviderAdmission_reap_expired cfg now st))"
| look: "t \<le> now \<Longrightarrow> provider_step sha cfg d (t, st) (now, snd (ProviderAdmission_snapshot cfg now wanted st))"

section \<open>The shapes of the changes\<close>

text \<open>Every section is a sequence of these elementary changes, each on the state pruned at the clock reading of
  the section, which lies at most \<open>d\<close> before its time.\<close>

definition reading :: "real \<Rightarrow> real \<Rightarrow> real \<Rightarrow> bool" where
  "reading d t now \<longleftrightarrow> now = t \<or> now \<le> t \<and> t \<le> now + d"

lemma reading_now [simp, intro]: "reading d t t"
  by (simp add: reading_def)

lemma readingI: "now \<le> t \<Longrightarrow> t \<le> now + d \<Longrightarrow> reading d t now"
  by (simp add: reading_def)

inductive change :: "ProviderAdmissionConfig \<Rightarrow> real \<Rightarrow> real \<Rightarrow> provider_state \<Rightarrow> provider_state \<Rightarrow> bool" for cfg d t where
  none: "change cfg d t st st"
| pruned: "reading d t now \<Longrightarrow> change cfg d t st (prune cfg now st)"
| add_route: "dict_get (ps_routes st) i = None \<Longrightarrow> min_limit cfg \<le> initial \<Longrightarrow> initial \<le> maximum \<Longrightarrow> maximum \<le> max_limit cfg \<Longrightarrow>
    (\<And>v. rpm = Some v \<Longrightarrow> 1 \<le> v) \<Longrightarrow> change cfg d t st (append_event (RouteRegistered now i initial)
      (put_route i (new_route initial maximum rpm tpm) st))"
| add_waiter: "pw_ticket_id w \<notin> issued st \<Longrightarrow>
    change cfg d t st (append_event (WaitStarted now route (pw_ticket_id w)) (st\<lparr>ps_waiters := ps_waiters st @ [w]\<rparr>))"
| drop_waiter: "change cfg d t st (append_event (WaitEnded why now route i)
      (st\<lparr>ps_waiters := filter (\<lambda>w. pw_ticket_id w \<noteq> i) (ps_waiters st)\<rparr>))"
| grant: "now \<le> t \<Longrightarrow> t \<le> now + d \<Longrightarrow> dict_get (ps_routes st) i = Some r \<Longrightarrow> dict_get (ps_leases st) fresh = None \<Longrightarrow> pl_route_id l = i \<Longrightarrow>
    at_front tk st \<Longrightarrow> tk_route_id tk = i \<Longrightarrow> active_for_route i st < pr_limit r \<Longrightarrow> within_rpm cfg now r \<Longrightarrow>
    change cfg d t st (append_event (LeaseAcquired now i fresh (pr_limit r))
      (put_route i (r\<lparr>pr_request_starts := pr_request_starts r @ [now]\<rparr>)
        (st\<lparr>ps_waiters := filter (\<lambda>w. pw_ticket_id w \<noteq> tk_id tk) (ps_waiters st), ps_leases := dict_set (ps_leases st) fresh l\<rparr>)))"
| renew: "dict_get (ps_leases st) i = Some l \<Longrightarrow> pl_route_id l' = pl_route_id l \<Longrightarrow>
    change cfg d t st (append_event (LeaseHeartbeat now (pl_route_id l) i) (st\<lparr>ps_leases := dict_set (ps_leases st) i l'\<rparr>))"
| drop_lease: "change cfg d t st (append_event (LeaseReleased now route i reported)
      (st\<lparr>ps_leases := dict_pop (ps_leases st) i\<rparr>))"
| outcome: "dict_get (ps_routes st) i = Some r \<Longrightarrow> failure = None \<longleftrightarrow> success \<Longrightarrow>
    change cfg d t st (append_event (RequestDone now i lease
        (case failure of None \<Rightarrow> ''success'' | Some f \<Rightarrow> ProviderFailure_value f) tokens latency)
      (put_route i (fst (adjust_limit cfg t failure (record_outcome t success tokens latency failure r)))
        (st\<lparr>ps_leases := dict_pop (ps_leases st) lease\<rparr>)))"
| note_it: "\<forall>e \<in> set es. (\<forall>u r i l. e \<noteq> LeaseAcquired u r i l) \<and> (\<forall>u r i. e \<noteq> WaitStarted u r i)
      \<and> (\<forall>u r i w k x. e \<noteq> RequestDone u r i w k x) \<Longrightarrow>
    change cfg d t st (st\<lparr>ps_ledger := ps_ledger st @ es\<rparr>)"

lemma change_append:
  "(\<forall>u r i l. e \<noteq> LeaseAcquired u r i l) \<Longrightarrow> (\<forall>u r i. e \<noteq> WaitStarted u r i) \<Longrightarrow>
    (\<forall>u r i w k x. e \<noteq> RequestDone u r i w k x) \<Longrightarrow> change cfg d t st (append_event e st)"
  using change.note_it [of "[e]" cfg d t st] by (simp add: append_event_def)

lemma issued_prune [simp]: "issued (prune cfg now st) = issued st"
  by (simp add: issued_def prune_def)

abbreviation changes :: "ProviderAdmissionConfig \<Rightarrow> real \<Rightarrow> real \<Rightarrow> provider_state \<Rightarrow> provider_state \<Rightarrow> bool" where
  "changes cfg d t \<equiv> (change cfg d t)\<^sup>*\<^sup>*"

lemma changes_pruned: "reading d t now \<Longrightarrow> change cfg d t (prune cfg now st) st' \<Longrightarrow> changes cfg d t st st'"
  by (meson change.pruned converse_rtranclp_into_rtranclp r_into_rtranclp)

lemma register_changes:
  "changes cfg d now st (snd (ProviderAdmission_register_route cfg now i initial maximum rpm tpm st))
   \<and> issued (snd (ProviderAdmission_register_route cfg now i initial maximum rpm tpm st)) = issued st"
proof -
  let ?ini = "case initial of None \<Rightarrow> initial_limit cfg | Some v \<Rightarrow> v"
  let ?max = "case maximum of None \<Rightarrow> max_limit cfg | Some v \<Rightarrow> v"
  let ?new = "append_event (RouteRegistered now i ?ini) (put_route i (new_route ?ini ?max rpm tpm) (prune cfg now st))"
  have "snd (ProviderAdmission_register_route cfg now i initial maximum rpm tpm st) = st
      \<or> snd (ProviderAdmission_register_route cfg now i initial maximum rpm tpm st) = ?new
        \<and> dict_get (ps_routes (prune cfg now st)) i = None
        \<and> min_limit cfg \<le> ?ini \<and> ?ini \<le> ?max \<and> ?max \<le> max_limit cfg
        \<and> (\<forall>v. rpm = Some v \<longrightarrow> 1 \<le> v)"
    by (auto simp: ProviderAdmission_register_route_def Let_def rbind_def guard_def check_rate_def
        split: sum.splits option.splits if_splits)
  then show ?thesis
  proof (elim disjE conjE)
    assume new: "snd (ProviderAdmission_register_route cfg now i initial maximum rpm tpm st) = ?new"
      "dict_get (ps_routes (prune cfg now st)) i = None"
      "min_limit cfg \<le> ?ini" "?ini \<le> ?max" "?max \<le> max_limit cfg"
      "\<forall>v. rpm = Some v \<longrightarrow> 1 \<le> v"
    have "changes cfg d now st ?new" by (rule changes_pruned [OF reading_now change.add_route [OF new(2-5)]]) (use new(6) in simp)
    moreover have "issued ?new = issued st"
      by (auto simp: issued_def append_event_def put_route_def prune_def)
    ultimately show ?thesis unfolding new(1) by blast
  qed simp
qed

lemma start_changes: "changes cfg d now st (snd (acquire_begin cfg now route owner timeout poll tokens st))"
proof -
  have "snd (acquire_begin cfg now route owner timeout poll tokens st)
    \<in> {st, snd (ProviderAdmission_register_route cfg now route None None None None st)}"
    by (auto simp: acquire_begin_def split: sum.splits prod.splits)
  then show ?thesis using register_changes by auto
qed

lemma ticket_changes:
  assumes "reading d t created" "fresh \<notin> issued st"
  shows "changes cfg d t st (snd (acquire_ticket sha cfg created fresh route owner timeout tokens st))"
proof -
  let ?w = "\<lparr>pw_ticket_id = fresh, pw_route_id = route, pw_owner_sha256 = sha owner, pw_created_at = created,
    pw_expires_at = min (created + timeout) (created + waiter_ttl_s cfg)\<rparr>"
  have "change cfg d t (prune cfg created st)
      (append_event (WaitStarted created route fresh) (prune cfg created st\<lparr>ps_waiters := ps_waiters (prune cfg created st) @ [?w]\<rparr>))"
    using change.add_waiter [of ?w "prune cfg created st" cfg d t created route] assms(2) by simp
  then show ?thesis by (intro changes_pruned [OF assms(1)]) (simp add: acquire_ticket_def Let_def)
qed

lemma remove_waiter_changes: "changes cfg d t st (remove_waiter now i route why st)"
  by (auto simp: remove_waiter_def Let_def intro: change.drop_waiter)

lemma try_acquire_changes:
  assumes "now \<le> t" "t \<le> now + d" "dict_get (ps_leases st) fresh = None"
  shows "changes cfg d t st (snd (try_acquire cfg now fresh tk st))"
proof (cases "snd (try_acquire cfg now fresh tk st) = st")
  case False
  let ?st = "prune cfg now st"
  obtain r where r: "dict_get (ps_routes ?st) (tk_route_id tk) = Some r"
    using False by (auto simp: try_acquire_def Let_def split: option.splits)
  have g: "at_front tk ?st" "active_for_route (tk_route_id tk) ?st < pr_limit r" "within_rpm cfg now r"
    using False r by (auto simp: try_acquire_def Let_def split: if_splits)
  have f: "dict_get (ps_leases ?st) fresh = None"
    using assms(3) by (auto simp: prune_def dict_get_def map_of_eq_None_iff)
  let ?l = "\<lparr>pl_lease_id = fresh, pl_route_id = tk_route_id tk, pl_owner_sha256 = tk_owner_sha256 tk,
    pl_acquired_at = now, pl_expires_at = now + lease_ttl_s cfg, pl_reserved_tokens = tk_estimated_tokens tk\<rparr>"
  have "snd (try_acquire cfg now fresh tk st) = append_event (LeaseAcquired now (tk_route_id tk) fresh (pr_limit r))
      (put_route (tk_route_id tk) (r\<lparr>pr_request_starts := pr_request_starts r @ [now]\<rparr>)
        (?st\<lparr>ps_waiters := filter (\<lambda>w. pw_ticket_id w \<noteq> tk_id tk) (ps_waiters ?st), ps_leases := dict_set (ps_leases ?st) fresh ?l\<rparr>))"
    using False r by (auto simp: try_acquire_def Let_def split: if_splits)
  then show ?thesis
    using changes_pruned [OF readingI [OF assms(1,2)] change.grant [OF assms(1,2) r f _ g(1) HOL.refl g(2,3), of ?l]] by simp
qed simp

lemma round_changes:
  assumes "now \<le> t" "t \<le> now + d" "dict_get (ps_leases st) fresh = None"
  shows "changes cfg d t st (snd (provider_round cfg now cancelled fresh tk st))"
proof -
  note removed = remove_waiter_changes [of cfg d t _ now "tk_id tk" "tk_route_id tk"]
  have twice: "changes cfg d t st (remove_waiter now (tk_id tk) (tk_route_id tk) why (remove_waiter now (tk_id tk) (tk_route_id tk) why' st))"
    for why why' by (rule rtranclp_trans [OF removed removed])
  show ?thesis
  proof (cases "try_acquire cfg now fresh tk st")
    case (Pair res st1)
    have got: "changes cfg d t st st1" using try_acquire_changes [OF assms, of cfg tk] Pair by simp
    from twice got rtranclp_trans [OF got removed] show ?thesis
      by (cases res) (simp_all add: provider_round_def Let_def Pair)
  qed
qed

lemma heartbeat_changes: "changes cfg d now st (snd (ProviderAdmission_heartbeat cfg now i st))"
  by (auto simp: ProviderAdmission_heartbeat_def Let_def split: sum.splits option.splits
      intro!: changes_pruned [OF reading_now] change.renew)

lemma complete_changes:
  "changes cfg d now st (snd (ProviderAdmission_complete cfg now i success tokens latency failure st))"
proof (cases "snd (ProviderAdmission_complete cfg now i success tokens latency failure st) = st")
  case False
  let ?st = "prune cfg now st"
  have ok: "failure = None \<longleftrightarrow> success"
    using False by (auto simp: ProviderAdmission_complete_def rbind_def guard_def split: sum.splits if_splits)
  obtain l r where l: "dict_get (ps_leases ?st) i = Some l" and r: "dict_get (ps_routes ?st) (pl_route_id l) = Some r"
    using False by (auto simp: ProviderAdmission_complete_def Let_def split: sum.splits option.splits)
  let ?r = "record_outcome now success tokens latency failure r"
  let ?new = "append_event (RequestDone now (pl_route_id l) i
      (case failure of None \<Rightarrow> ''success'' | Some f \<Rightarrow> ProviderFailure_value f) tokens latency)
    (put_route (pl_route_id l) (fst (adjust_limit cfg now failure ?r)) (?st\<lparr>ps_leases := dict_pop (ps_leases ?st) i\<rparr>))"
  have "changes cfg d now st ?new" by (rule changes_pruned [OF reading_now change.outcome [OF r ok]])
  moreover have "changes cfg d now ?new (snd (ProviderAdmission_complete cfg now i success tokens latency failure st))"
    using False l r
    by (auto simp: ProviderAdmission_complete_def Let_def split: sum.splits prod.splits option.splits if_splits
        intro: change_append)
  ultimately show ?thesis by (rule rtranclp_trans)
qed simp

lemma release_changes: "changes cfg d now st (snd (ProviderAdmission_release cfg now i reported st))"
  by (auto simp: ProviderAdmission_release_def Let_def split: sum.splits option.splits
      intro!: changes_pruned [OF reading_now] change.drop_lease)

lemma reap_changes: "changes cfg d now st (snd (ProviderAdmission_reap_expired cfg now st))"
  by (auto simp: ProviderAdmission_reap_expired_def Let_def intro!: changes_pruned [OF reading_now] change.note_it)

lemma snapshot_changes: "changes cfg d now st (snd (ProviderAdmission_snapshot cfg now wanted st))"
  by (auto simp: ProviderAdmission_snapshot_def Let_def split: option.splits sum.splits intro: change.pruned)

section \<open>Invariants of the changes\<close>

abbreviation provider_run ::
  "(string \<Rightarrow> string) \<Rightarrow> ProviderAdmissionConfig \<Rightarrow> real \<Rightarrow> real \<times> provider_state \<Rightarrow> real \<times> provider_state \<Rightarrow> bool" where
  "provider_run sha cfg d \<equiv> (provider_step sha cfg d)\<^sup>*\<^sup>*"

lemmas op_changes = register_changes [THEN conjunct1] start_changes ticket_changes round_changes heartbeat_changes complete_changes
  release_changes reap_changes snapshot_changes

lemma step_changes:
  assumes "provider_step sha cfg d (t, st) (t', st')"
  shows "t \<le> t' \<and> changes cfg d t' st st'"
  using assms by (cases rule: provider_step.cases) (simp_all add: op_changes readingI)

text \<open>A property of the time and the state that survives the passing of time and every elementary change
  survives every run.\<close>

locale provider_invariant =
  fixes cfg :: ProviderAdmissionConfig
    and d :: real
    and inv :: "real \<Rightarrow> provider_state \<Rightarrow> bool"
  assumes later: "inv t st \<Longrightarrow> t \<le> t' \<Longrightarrow> inv t' st"
    and kept: "inv t st \<Longrightarrow> change cfg d t st st' \<Longrightarrow> inv t st'"
begin

lemma changes_kept: "changes cfg d t st st' \<Longrightarrow> inv t st \<Longrightarrow> inv t st'"
  by (induction rule: rtranclp_induct) (auto intro: kept)

lemma run_kept: "provider_run sha cfg d (t, st) (t', st') \<Longrightarrow> inv t st \<Longrightarrow> inv t' st' \<and> t \<le> t'"
proof (induction rule: rtranclp_induct2)
  case (step t1 st1 t2 st2)
  with step_changes [OF step(2)] show ?case using changes_kept later order.trans by blast
qed simp

end

subsection \<open>Limits\<close>

lemma dict_get_map: "dict_get (map (\<lambda>(i, r). (i, f r)) d) k = map_option f (dict_get d k)"
  by (induction d) (auto simp: dict_get_Cons)

lemma prune_routes [simp]:
  "dict_get (ps_routes (prune cfg now st)) i = map_option (prune_route cfg now) (dict_get (ps_routes st) i)"
  by (simp add: prune_def dict_get_map)

lemma prune_route_fields [simp]:
  "pr_limit (prune_route cfg now r) = pr_limit r" "pr_max_limit (prune_route cfg now r) = pr_max_limit r"
  "pr_rpm_limit (prune_route cfg now r) = pr_rpm_limit r"
  "pr_request_starts (prune_route cfg now r) = recent_starts cfg now r"
  "pr_cooldown_until (prune_route cfg now r) = pr_cooldown_until r"
  "pr_healthy_successes (prune_route cfg now r) = pr_healthy_successes r"
  "pr_best_p95 (prune_route cfg now r) = pr_best_p95 r"
  by (simp_all add: prune_route_def recent_starts_def Let_def)

definition leases_of :: "string \<Rightarrow> (string, provider_lease) dict \<Rightarrow> nat" where
  "leases_of i d = length (filter (\<lambda>l. pl_route_id l = i) (dict_values d))"

lemma active_leases_of: "active_for_route i st = int (leases_of i (ps_leases st))"
  by (simp add: active_for_route_def leases_of_def)

lemma leases_of_filter: "leases_of i (filter P d) \<le> leases_of i d"
  unfolding leases_of_def dict_values_def by (induction d) auto

lemma leases_of_pop: "leases_of i (dict_pop d k) \<le> leases_of i d"
  unfolding dict_pop_def AList.delete_eq by (rule leases_of_filter)

lemma leases_of_new:
  "dict_get d k = None \<Longrightarrow> leases_of i (dict_set d k l) = (if pl_route_id l = i then Suc (leases_of i d) else leases_of i d)"
  by (simp add: dict_set_new leases_of_def dict_values_def)

lemma leases_of_same:
  "dict_get d k = Some l \<Longrightarrow> pl_route_id l' = pl_route_id l \<Longrightarrow> leases_of i (dict_set d k l') = leases_of i d"
  by (induction d) (auto simp: dict_set_def leases_of_def dict_values_def dict_get_def split: if_splits)

definition config_ok :: "ProviderAdmissionConfig \<Rightarrow> bool" where
  "config_ok cfg \<longleftrightarrow> ProviderAdmissionConfig_check cfg = Inr ()"

lemma config_okD:
  assumes "config_ok cfg"
  shows "1 \<le> min_limit cfg" "1 \<le> increase_step cfg" "1 \<le> healthy_successes_to_increase cfg" "0 < decrease_factor cfg"
    "decrease_factor cfg < 1" "0 < rpm_window_s cfg" "0 < waiter_ttl_s cfg" "1 < p95_degrade_ratio cfg"
  using assms by (auto simp: config_ok_def ProviderAdmissionConfig_check_def rbind_def guard_def
      split: sum.splits if_splits)

definition route_ok :: "ProviderAdmissionConfig \<Rightarrow> provider_route \<Rightarrow> bool" where
  "route_ok cfg r \<longleftrightarrow> min_limit cfg \<le> pr_limit r \<and> pr_limit r \<le> pr_max_limit r \<and> pr_max_limit r \<le> max_limit cfg"

definition limits_ok :: "ProviderAdmissionConfig \<Rightarrow> real \<Rightarrow> provider_state \<Rightarrow> bool" where
  "limits_ok cfg t st \<longleftrightarrow> config_ok cfg
     \<and> (\<forall>i r. dict_get (ps_routes st) i = Some r \<longrightarrow> route_ok cfg r \<and> int (leases_of i (ps_leases st)) \<le> pr_max_limit r)
     \<and> (\<forall>i. dict_get (ps_routes st) i = None \<longrightarrow> leases_of i (ps_leases st) = 0)"

lemma floor_fraction_le:
  assumes "0 \<le> n" "0 < x" "x < (1::real)"
  shows "floor (of_int n * x) \<le> n"
proof -
  have "of_int n * x \<le> of_int n * 1" using assms by (intro mult_left_mono) simp_all
  then show ?thesis by (simp add: floor_le_iff)
qed

lemma decrease_ok:
  assumes "config_ok cfg" "route_ok cfg r"
  shows "route_ok cfg (decrease cfg now r)" "pr_limit (decrease cfg now r) \<le> pr_limit r"
  using floor_fraction_le [of "pr_limit r" "decrease_factor cfg"] config_okD [OF assms(1)] assms(2)
  by (auto simp: route_ok_def decrease_def)

lemma adjust_limit_ok:
  assumes "config_ok cfg" "route_ok cfg r"
  shows "route_ok cfg (fst (adjust_limit cfg now failure r))"
proof -
  have "route_ok cfg (note_best_p95 cfg r)" using assms(2) by (auto simp: note_best_p95_def route_ok_def split: option.splits)
  then show ?thesis
    using assms decrease_ok(1) [OF assms, of now] config_okD [OF assms(1)]
    by (auto simp: adjust_limit_def Let_def route_ok_def split: option.splits)
qed

lemma adjust_limit_fields [simp]:
  "pr_max_limit (fst (adjust_limit cfg now failure r)) = pr_max_limit r"
  "pr_rpm_limit (fst (adjust_limit cfg now failure r)) = pr_rpm_limit r"
  "pr_request_starts (fst (adjust_limit cfg now failure r)) = pr_request_starts r"
  by (auto simp: adjust_limit_def decrease_def note_best_p95_def Let_def split: option.splits)

lemma record_outcome_fields [simp]:
  "pr_limit (record_outcome now success tokens latency failure r) = pr_limit r"
  "pr_max_limit (record_outcome now success tokens latency failure r) = pr_max_limit r"
  "pr_rpm_limit (record_outcome now success tokens latency failure r) = pr_rpm_limit r"
  "pr_request_starts (record_outcome now success tokens latency failure r) = pr_request_starts r"
  by (simp_all add: record_outcome_def Let_def)

lemmas state_simps = append_event_def put_route_def

lemma limits_shrink:
  assumes "limits_ok cfg t st" "\<And>i. leases_of i (ps_leases st') \<le> leases_of i (ps_leases st)"
    and "\<And>i. dict_get (ps_routes st') i = None \<Longrightarrow> dict_get (ps_routes st) i = None"
    and "\<And>i r'. dict_get (ps_routes st') i = Some r'
      \<Longrightarrow> \<exists>r. dict_get (ps_routes st) i = Some r \<and> pr_max_limit r' = pr_max_limit r \<and> route_ok cfg r'"
  shows "limits_ok cfg t st'"
  unfolding limits_ok_def
proof (intro conjI allI impI)
  show "config_ok cfg" using assms(1) by (simp add: limits_ok_def)
  fix i
  { assume "dict_get (ps_routes st') i = None"
    then have "leases_of i (ps_leases st) = 0" using assms(1,3) by (simp add: limits_ok_def)
    then show "leases_of i (ps_leases st') = 0" using assms(2) [of i] by simp }
  fix r' assume "dict_get (ps_routes st') i = Some r'"
  then obtain r where r: "dict_get (ps_routes st) i = Some r" "pr_max_limit r' = pr_max_limit r" "route_ok cfg r'"
    using assms(4) by blast
  then show "route_ok cfg r'" "int (leases_of i (ps_leases st')) \<le> pr_max_limit r'"
    using assms(1) assms(2) [of i] by (force simp: limits_ok_def)+
qed

lemma limits_kept:
  assumes "limits_ok cfg t st" "change cfg d t st st'"
  shows "limits_ok cfg t st'"
  using assms(2)
proof (cases rule: change.cases)
  case (pruned now)
  show ?thesis unfolding pruned(1)
  proof (rule limits_shrink [OF assms(1)])
    show "leases_of i (ps_leases (prune cfg now st)) \<le> leases_of i (ps_leases st)" for i
      by (simp add: prune_def leases_of_filter)
  qed (use assms(1) in \<open>auto simp: limits_ok_def route_ok_def\<close>)
next
  case (grant now i r fresh l tk)
  have "int (leases_of i (ps_leases st)) < pr_limit r" using grant by (simp add: active_leases_of)
  moreover have "pr_limit r \<le> pr_max_limit r" using assms(1) grant(4) by (auto simp: limits_ok_def route_ok_def)
  ultimately have "int (leases_of i (ps_leases st)) + 1 \<le> pr_max_limit r" by simp
  then show ?thesis using assms(1) grant
    by (auto simp: limits_ok_def state_simps leases_of_new route_ok_def)
next
  case (renew i l l' now)
  then show ?thesis using assms(1) by (simp add: limits_ok_def state_simps leases_of_same)
next
  case (drop_lease now route i reported)
  show ?thesis unfolding drop_lease
    by (rule limits_shrink [OF assms(1)]) (use assms(1) in \<open>auto simp: state_simps leases_of_pop limits_ok_def\<close>)
next
  case (outcome i r failure success now lease tokens latency)
  let ?r = "record_outcome t success tokens latency failure r"
  have "config_ok cfg" "route_ok cfg r" using assms(1) outcome by (auto simp: limits_ok_def)
  then have "route_ok cfg (fst (adjust_limit cfg t failure ?r))"
    by (intro adjust_limit_ok) (simp_all add: route_ok_def)
  then show ?thesis unfolding outcome(1)
    by (intro limits_shrink [OF assms(1)])
      (use assms(1) outcome(2) in \<open>auto simp: state_simps leases_of_pop limits_ok_def split: if_splits\<close>)
next
  case (add_route i initial maximum rpm now tpm)
  moreover have "1 \<le> min_limit cfg" using assms(1) config_okD(1) by (auto simp: limits_ok_def)
  ultimately show ?thesis using assms(1) by (simp add: limits_ok_def state_simps route_ok_def new_route_def)
qed (use assms(1) in \<open>simp_all add: limits_ok_def state_simps\<close>)

interpretation limits: provider_invariant cfg d "limits_ok cfg" for cfg d
  by unfold_locales (simp_all add: limits_kept, simp add: limits_ok_def)

lemma provider_limits_bounds:
  assumes "ProviderAdmissionConfig_check cfg = Inr ()"
    and "provider_run sha cfg d (t, new_state) (t', st)" "dict_get (ps_routes st) i = Some r"
  shows "min_limit cfg \<le> pr_limit r \<and> pr_limit r \<le> pr_max_limit r \<and> pr_max_limit r \<le> max_limit cfg
    \<and> active_for_route i st \<le> pr_max_limit r"
proof -
  have "limits_ok cfg t new_state"
    using assms(1) by (simp add: limits_ok_def config_ok_def new_state_def leases_of_def dict_values_def)
  then have "limits_ok cfg t' st" using limits.run_kept [OF assms(2)] by simp
  then show ?thesis using assms(3) by (simp add: limits_ok_def route_ok_def active_leases_of)
qed

text \<open>C12: Whatever sequence of operations the processes perform on the shared state, the concurrency limit of
  every route stays between the configured minimum and the route's own maximum, which is within the configured
  maximum, and no route ever has more live leases than its maximum.\<close>
theorem provider_limits_hold:
  assumes "ProviderAdmissionConfig_check cfg = Inr ()"
    and "provider_run sha cfg d (t, new_state) (t', st)" "dict_get (ps_routes st) i = Some r"
  shows "min_limit cfg \<le> pr_limit r \<and> pr_limit r \<le> pr_max_limit r \<and> pr_max_limit r \<le> max_limit cfg
    \<and> active_for_route i st \<le> pr_max_limit r"
  by (rule provider_limits_bounds [OF assms])

subsection \<open>Request rates\<close>

fun grant_time :: "string \<Rightarrow> provider_event \<Rightarrow> real option" where
  "grant_time i (LeaseAcquired u route lease limit) = (if route = i then Some u else None)"
| "grant_time i _ = None"

lemma grant_time_other: "(\<forall>u r i l. e \<noteq> LeaseAcquired u r i l) \<Longrightarrow> grant_time i e = None"
  by (cases e) auto

definition grants :: "string \<Rightarrow> provider_state \<Rightarrow> real list" where
  "grants i st = List.map_filter (grant_time i) (ps_ledger st)"

lemma grants_append [simp]:
  "grants i (append_event e st) = grants i st @ (case grant_time i e of None \<Rightarrow> [] | Some u \<Rightarrow> [u])"
  by (simp add: grants_def append_event_def List.map_filter_def split: option.split)

lemma grants_cong: "ps_ledger st' = ps_ledger st \<Longrightarrow> grants i st' = grants i st"
  by (simp add: grants_def)

definition since :: "real \<Rightarrow> real list \<Rightarrow> real list" where
  "since s us = filter (\<lambda>u. s \<le> u) us"

definition rate_ok :: "real \<Rightarrow> int option \<Rightarrow> real list \<Rightarrow> bool" where
  "rate_ok w rpm us \<longleftrightarrow> (\<forall>v s. rpm = Some v \<longrightarrow> int (length (filter (\<lambda>u. s \<le> u \<and> u \<le> s + w) us)) \<le> v)"

text \<open>The windows whose rate is kept are shorter than the configured one by the age of the readings.\<close>

definition rates_ok :: "ProviderAdmissionConfig \<Rightarrow> real \<Rightarrow> real \<Rightarrow> provider_state \<Rightarrow> bool" where
  "rates_ok cfg d t st \<longleftrightarrow>
     (\<forall>i u. u \<in> set (grants i st) \<longrightarrow> u \<le> t)
     \<and> (\<forall>i. dict_get (ps_routes st) i = None \<longrightarrow> grants i st = [])
     \<and> (\<forall>i r. dict_get (ps_routes st) i = Some r \<longrightarrow>
          since (t - rpm_window_s cfg) (pr_request_starts r) = since (t - rpm_window_s cfg) (grants i st)
          \<and> rate_ok (rpm_window_s cfg - d) (pr_rpm_limit r) (grants i st))"

lemma since_since: "s \<le> s' \<Longrightarrow> since s' (since s us) = since s' us"
  by (auto simp: since_def intro!: filter_cong)

lemma rates_later:
  assumes "rates_ok cfg d t st" "t \<le> t'"
  shows "rates_ok cfg d t' st"
  unfolding rates_ok_def
proof (intro conjI allI impI)
  fix i
  show "u \<le> t'" if "u \<in> set (grants i st)" for u using assms that by (force simp: rates_ok_def)
  show "grants i st = []" if "dict_get (ps_routes st) i = None" using assms(1) that by (simp add: rates_ok_def)
  fix r assume r: "dict_get (ps_routes st) i = Some r"
  let ?w = "rpm_window_s cfg"
  have "since (t - ?w) (pr_request_starts r) = since (t - ?w) (grants i st)"
    using assms(1) r by (simp add: rates_ok_def)
  then have "since (t' - ?w) (since (t - ?w) (pr_request_starts r)) = since (t' - ?w) (since (t - ?w) (grants i st))"
    by simp
  then show "since (t' - ?w) (pr_request_starts r) = since (t' - ?w) (grants i st)"
    using assms(2) by (simp add: since_since)
  show "rate_ok (?w - d) (pr_rpm_limit r) (grants i st)" using assms(1) r by (simp add: rates_ok_def)
qed

text \<open>One more start, read at most \<open>d\<close> ago, when the window that ends now holds fewer than the limit.\<close>

lemma rate_ok_append:
  assumes "rate_ok (w - d) rpm us" "\<And>v. rpm = Some v \<Longrightarrow> int (length (since (t - w) us)) < v" "t \<le> now + d"
  shows "rate_ok (w - d) rpm (us @ [now])"
  unfolding rate_ok_def
proof (intro allI impI)
  fix v s assume v: "rpm = Some v"
  let ?in = "\<lambda>us. filter (\<lambda>u. s \<le> u \<and> u \<le> s + (w - d)) us"
  show "int (length (?in (us @ [now]))) \<le> v"
  proof (cases "s \<le> now \<and> now \<le> s + (w - d)")
    case True
    then have "?in us = ?in (since (t - w) us)" using assms(3) by (auto simp: since_def intro!: filter_cong)
    then have "length (?in us) \<le> length (since (t - w) us)" by (metis length_filter_le)
    then show ?thesis using True assms(2) [OF v] by simp
  qed (use assms(1) v in \<open>auto simp: rate_ok_def\<close>)
qed

lemma rates_route:
  assumes "rates_ok cfg d t st" "dict_get (ps_routes st) i = Some r" "rpm_window_s cfg = w" "now \<le> t"
  shows "length (since (t - w) (grants i st)) \<le> length (recent_starts cfg now r)"
proof -
  have "since (t - w) (grants i st) = since (t - w) (pr_request_starts r)" using assms by (simp add: rates_ok_def)
  also have "\<dots> = since (t - w) (recent_starts cfg now r)"
    using assms(3,4) by (auto simp: since_def recent_starts_def intro!: filter_cong)
  finally show ?thesis by (simp add: since_def)
qed

text \<open>Changes that grant nothing and keep the recent starts and the rates of every route.\<close>

lemma rates_same:
  assumes "rates_ok cfg d t st" "\<And>i. grants i st' = grants i st"
    and "\<And>i. dict_get (ps_routes st') i = None \<Longrightarrow> dict_get (ps_routes st) i = None"
    and "\<And>i r'. dict_get (ps_routes st') i = Some r'
      \<Longrightarrow> (\<exists>r. dict_get (ps_routes st) i = Some r \<and> pr_rpm_limit r' = pr_rpm_limit r
            \<and> since (t - rpm_window_s cfg) (pr_request_starts r') = since (t - rpm_window_s cfg) (pr_request_starts r))"
  shows "rates_ok cfg d t st'"
  unfolding rates_ok_def assms(2)
proof (intro conjI allI impI)
  fix i
  show "u \<le> t" if "u \<in> set (grants i st)" for u using assms(1) that by (auto simp: rates_ok_def)
  show "grants i st = []" if "dict_get (ps_routes st') i = None"
    using assms(1) assms(3) [OF that] by (simp add: rates_ok_def)
  fix r' assume "dict_get (ps_routes st') i = Some r'"
  from assms(4) [OF this] obtain r where "dict_get (ps_routes st) i = Some r" "pr_rpm_limit r' = pr_rpm_limit r"
    "since (t - rpm_window_s cfg) (pr_request_starts r') = since (t - rpm_window_s cfg) (pr_request_starts r)" by blast
  then show "since (t - rpm_window_s cfg) (pr_request_starts r') = since (t - rpm_window_s cfg) (grants i st)"
    "rate_ok (rpm_window_s cfg - d) (pr_rpm_limit r') (grants i st)"
    using assms(1) by (simp_all add: rates_ok_def)
qed

lemma rates_unchanged:
  assumes "rates_ok cfg d t st" "ps_routes st' = ps_routes st" "\<And>i. grants i st' = grants i st"
  shows "rates_ok cfg d t st'"
  using assms(1) unfolding rates_ok_def assms(2,3) .

lemma rates_kept:
  assumes "rates_ok cfg d t st" "change cfg d t st st'"
  shows "rates_ok cfg d t st'"
  using assms(2)
proof (cases rule: change.cases)
  case (pruned now)
  have "now \<le> t" using pruned(2) by (auto simp: reading_def)
  then show ?thesis unfolding pruned(1)
    by (intro rates_same [OF assms(1)])
      (auto intro!: grants_cong simp: prune_def dict_get_map prune_route_def Let_def since_def intro!: filter_cong)
next
  case (add_route i initial maximum rpm now tpm)
  have g: "grants j st' = grants j st" for j
    unfolding add_route(1) by (simp add: state_simps grants_def List.map_filter_def)
  have routes: "ps_routes st' = dict_set (ps_routes st) i (new_route initial maximum rpm tpm)"
    unfolding add_route(1) by (simp add: state_simps)
  have "grants i st = []" using assms(1) add_route(2) by (simp add: rates_ok_def)
  then show ?thesis using assms(1) add_route(6) unfolding rates_ok_def g routes
    by (force simp: new_route_def rate_ok_def since_def split: if_splits)
next
  case (grant now i r fresh l tk)
  let ?w = "rpm_window_s cfg"
  have g: "grants j st' = grants j st @ (if j = i then [now] else [])" for j
    unfolding grant(1) by (simp add: state_simps grants_def List.map_filter_def)
  have rate: "rate_ok (?w - d) (pr_rpm_limit r) (grants i st @ [now])"
  proof (rule rate_ok_append)
    show "rate_ok (?w - d) (pr_rpm_limit r) (grants i st)" using assms(1) grant(4) by (simp add: rates_ok_def)
    show "int (length (since (t - ?w) (grants i st))) < v" if "pr_rpm_limit r = Some v" for v
      using grant(10) that rates_route [OF assms(1) grant(4) HOL.refl grant(2)] by (simp add: within_rpm_def)
  qed (rule grant(3))
  have routes: "ps_routes st' = dict_set (ps_routes st) i (r\<lparr>pr_request_starts := pr_request_starts r @ [now]\<rparr>)"
    unfolding grant(1) by (simp add: state_simps)
  show ?thesis using assms(1) grant(2,4) rate unfolding rates_ok_def g routes
    by (auto simp: since_def split: if_splits)
next
  case (outcome i r failure success now lease tokens latency)
  show ?thesis unfolding outcome(1)
    by (rule rates_same [OF assms(1)])
      (use outcome(2) in \<open>auto simp: put_route_def append_event_def grants_def List.map_filter_def split: if_splits\<close>)
next
  case (note_it es)
  have none: "List.map_filter (grant_time i) es = []" for i
    unfolding List.map_filter_def using note_it(2) by (auto simp: filter_empty_conv grant_time_other)
  have "grants i st' = grants i st @ List.map_filter (grant_time i) es" for i
    unfolding note_it(1) grants_def by (simp add: List.map_filter_def)
  then show ?thesis unfolding none using note_it(1) by (intro rates_unchanged [OF assms(1)]) simp_all
qed (rule rates_unchanged [OF assms(1)]; simp add: append_event_def grants_def List.map_filter_def; fail | use assms(1) in simp)+

interpretation rates: provider_invariant cfg d "rates_ok cfg d" for cfg d
  by unfold_locales (rule rates_later rates_kept; assumption)+

text \<open>C13: The request limit of a route holds over a sliding window, up to the age of the clock readings: however
  the sections of all processes interleave, if no caller's reading is more than \<open>d\<close> seconds old when it gets the
  lock, then the leases granted on a route with a request limit within any closed interval \<open>d\<close> seconds shorter
  than the window are at most that many. When the clock is read under the lock (\<open>d = 0\<close>) this is the whole window;
  the run at the end of this theory shows that
  the loss of \<open>d\<close> is real.\<close>
theorem provider_rate_limited:
  assumes "provider_run sha cfg d (t, new_state) (t', st)"
    and "dict_get (ps_routes st) i = Some r" "pr_rpm_limit r = Some v"
  shows "int (length (filter (\<lambda>u. s \<le> u \<and> u \<le> s + (rpm_window_s cfg - d)) (grants i st))) \<le> v"
proof -
  have "rates_ok cfg d t new_state" by (simp add: rates_ok_def new_state_def grants_def List.map_filter_def)
  then have "rates_ok cfg d t' st" using rates.run_kept [OF assms(1)] by simp
  then show ?thesis using assms(2-) by (simp add: rates_ok_def rate_ok_def)
qed

subsection \<open>The queue of tickets\<close>

abbreviation ticket_ids :: "provider_state \<Rightarrow> string list" where
  "ticket_ids st \<equiv> map pw_ticket_id (ps_waiters st)"

lemma issued_append [simp]:
  "issued (append_event e st) = issued st \<union> {i. \<exists>u route. e = WaitStarted u route i}"
  by (auto simp: issued_def append_event_def)

lemma issued_cong [simp]:
  "issued (put_route i r st) = issued st" "issued (st\<lparr>ps_waiters := ws\<rparr>) = issued st" "issued (st\<lparr>ps_leases := ls\<rparr>) = issued st"
  by (simp_all add: issued_def put_route_def)

text \<open>Every change drops tickets or appends one that is new.\<close>

lemma issued_mono: "set (ps_ledger st) \<subseteq> set (ps_ledger st') \<Longrightarrow> issued st \<subseteq> issued st'"
  by (auto simp: issued_def)

definition drops_only :: "provider_state \<Rightarrow> provider_state \<Rightarrow> bool" where
  "drops_only st st' \<longleftrightarrow> (\<exists>P. ps_waiters st' = filter P (ps_waiters st)) \<and> issued st \<subseteq> issued st'"

lemma drops_onlyI:
  "ps_waiters st' = filter P (ps_waiters st) \<Longrightarrow> set (ps_ledger st) \<subseteq> set (ps_ledger st') \<Longrightarrow> drops_only st st'"
  using issued_mono unfolding drops_only_def by blast

lemma drops_only_same:
  "ps_waiters st' = ps_waiters st \<Longrightarrow> set (ps_ledger st) \<subseteq> set (ps_ledger st') \<Longrightarrow> drops_only st st'"
  by (rule drops_onlyI [where P = "\<lambda>_. True"]) simp_all

lemma waiters_change:
  assumes "change cfg d t st st'"
  obtains (drops) "drops_only st st'"
  | (new) w where "ps_waiters st' = ps_waiters st @ [w]" "pw_ticket_id w \<notin> issued st"
      "issued st' = insert (pw_ticket_id w) (issued st)"
  using assms
proof (cases rule: change.cases)
  case (pruned now)
  show ?thesis by (rule drops, rule drops_onlyI) (simp_all add: pruned prune_def)
next
  case (add_waiter w now route)
  show ?thesis by (rule new [of w]) (use add_waiter in \<open>auto simp: append_event_def issued_def\<close>)
next
  case (drop_waiter why now route i)
  show ?thesis by (rule drops, rule drops_onlyI) (auto simp: drop_waiter append_event_def)
next
  case (grant now i r fresh l tk)
  show ?thesis by (rule drops, rule drops_onlyI) (auto simp: grant(1) state_simps)
qed (rule drops, rule drops_only_same; force simp: state_simps)+

definition tickets_ok :: "real \<Rightarrow> provider_state \<Rightarrow> bool" where
  "tickets_ok t st \<longleftrightarrow> set (ticket_ids st) \<subseteq> issued st \<and> distinct (ticket_ids st)"

definition order_ok :: "string \<Rightarrow> string \<Rightarrow> string \<Rightarrow> real \<Rightarrow> provider_state \<Rightarrow> bool" where
  "order_ok route i j t st \<longleftrightarrow> i \<in> issued st \<and> j \<in> issued st
     \<and> subseq (filter (\<lambda>x. x = i \<or> x = j) (ticket_ids st)) [i, j]
     \<and> (\<forall>w \<in> set (ps_waiters st). pw_ticket_id w = i \<or> pw_ticket_id w = j \<longrightarrow> pw_route_id w = route)"

definition expiry_ok :: "string \<Rightarrow> real \<Rightarrow> real \<Rightarrow> provider_state \<Rightarrow> bool" where
  "expiry_ok i e t st \<longleftrightarrow> i \<in> issued st \<and> (\<forall>w \<in> set (ps_waiters st). pw_ticket_id w = i \<longrightarrow> pw_expires_at w \<le> e)"

lemma map_filter_subseq: "subseq (map f (filter P xs)) (map f xs)"
  by (simp add: subseq_map)

lemma tickets_kept:
  assumes "tickets_ok t st" "change cfg d t st st'"
  shows "tickets_ok t st'"
  using assms(2)
proof (cases rule: waiters_change)
  case drops
  then have "set (ticket_ids st') \<subseteq> set (ticket_ids st)" "issued st \<subseteq> issued st'" "distinct (ticket_ids st) \<Longrightarrow> distinct (ticket_ids st')"
    by (auto simp: drops_only_def intro: distinct_map_filter)
  then show ?thesis using assms(1) unfolding tickets_ok_def by blast
next
  case (new w)
  then show ?thesis using assms(1) by (auto simp: tickets_ok_def)
qed

lemma order_kept:
  assumes "order_ok route i j t st" "change cfg d t st st'"
  shows "order_ok route i j t st'"
  using assms(2)
proof (cases rule: waiters_change)
  case drops
  then obtain P where P: "ps_waiters st' = filter P (ps_waiters st)" "issued st \<subseteq> issued st'"
    by (auto simp: drops_only_def)
  have "subseq (filter (\<lambda>x. x = i \<or> x = j) (ticket_ids st')) (filter (\<lambda>x. x = i \<or> x = j) (ticket_ids st))"
    unfolding P(1) by (intro subseq_filter map_filter_subseq)
  then have "subseq (filter (\<lambda>x. x = i \<or> x = j) (ticket_ids st')) [i, j]"
    using assms(1) subseq_order.trans unfolding order_ok_def by blast
  then show ?thesis using assms(1) P by (auto simp: order_ok_def)
next
  case (new w)
  then show ?thesis using assms(1) by (auto simp: order_ok_def)
qed

lemma expiry_kept:
  assumes "expiry_ok i e t st" "change cfg d t st st'"
  shows "expiry_ok i e t st'"
  using assms(2) by (cases rule: waiters_change) (use assms(1) in \<open>fastforce simp: expiry_ok_def drops_only_def\<close>)+

interpretation tickets: provider_invariant cfg d tickets_ok for cfg d
  by unfold_locales (simp add: tickets_ok_def, rule tickets_kept)

interpretation order: provider_invariant cfg d "order_ok route i j" for cfg d route i j
  by unfold_locales (simp add: order_ok_def, rule order_kept)

interpretation known: provider_invariant cfg d "\<lambda>t st. dict_get (ps_routes st) i \<noteq> None" for cfg d i
  by unfold_locales (simp, auto elim!: change.cases simp: state_simps)

interpretation expiry: provider_invariant cfg d "expiry_ok i e" for cfg d i e
  by unfold_locales (simp add: expiry_ok_def, rule expiry_kept)

text \<open>A turn that gets a lease had its ticket at the front of its route.\<close>

lemma granted_front:
  assumes "fst (provider_round cfg now cancelled fresh tk st) = Inr (Some l)"
  shows "at_front tk (prune cfg now st) \<and> \<not> cancelled \<and> now < tk_deadline tk"
  using assms
  by (auto simp: provider_round_def try_acquire_def Let_def split: if_splits prod.splits sum.splits option.splits)

lemma order_front:
  assumes "order_ok (tk_route_id tk) i (tk_id tk) t st" "at_front tk st" "i \<noteq> tk_id tk"
  shows "i \<notin> set (ticket_ids st)"
proof
  assume "i \<in> set (ticket_ids st)"
  obtain w ws where w: "filter (\<lambda>w. pw_route_id w = tk_route_id tk) (ps_waiters st) = w # ws" "pw_ticket_id w = tk_id tk"
    using assms(2) by (auto simp: at_front_def split: list.splits)
  let ?j = "\<lambda>w. pw_ticket_id w = i \<or> pw_ticket_id w = tk_id tk"
  have "filter ?j (ps_waiters st) = filter ?j (filter (\<lambda>w. pw_route_id w = tk_route_id tk) (ps_waiters st))"
    using assms(1) by (auto simp: order_ok_def intro!: filter_cong)
  then have f: "filter ?j (ps_waiters st) = w # filter ?j ws" using w by simp
  have "filter (\<lambda>x. x = i \<or> x = tk_id tk) (ticket_ids st) = map pw_ticket_id (filter ?j (ps_waiters st))"
    by (simp add: filter_map comp_def)
  then have "subseq (map pw_ticket_id (filter ?j (ps_waiters st))) [i, tk_id tk]"
    using assms(1) by (simp only: order_ok_def)
  then have "subseq (tk_id tk # map pw_ticket_id (filter ?j ws)) [i, tk_id tk]" unfolding f list.map w(2) .
  then have "filter ?j ws = []" using assms(3) by (auto elim!: list_emb.cases)
  then have "filter ?j (ps_waiters st) = [w]" using f by simp
  moreover obtain v where "v \<in> set (ps_waiters st)" "pw_ticket_id v = i" using \<open>i \<in> set (ticket_ids st)\<close> by auto
  then have "v \<in> set (filter ?j (ps_waiters st))" by simp
  ultimately show False using w(2) assms(3) \<open>pw_ticket_id v = i\<close> by simp
qed

lemma tickets_reachable:
  "provider_run sha cfg d (t, new_state) (t', st) \<Longrightarrow> set (ticket_ids st) \<subseteq> issued st \<and> distinct (ticket_ids st)"
  using tickets.run_kept by (fastforce simp: tickets_ok_def new_state_def)

text \<open>C14: Service is first come, first served on each route: while a ticket waits, no ticket of its route that
  was appended after it is given a lease, whatever the processes do in between; a later ticket is only served
  once the earlier one was served itself, withdrawn, or has expired.\<close>
theorem provider_fifo:
  assumes "provider_run sha cfg d (t, new_state) (t1, st)" "ps_waiters st = us @ a # ws @ b # vs"
    and "pw_route_id a = pw_route_id b" "provider_run sha cfg d (t1, st) (t2, st')"
    and "tk_id tk = pw_ticket_id b" "tk_route_id tk = pw_route_id b"
    and "fst (provider_round cfg now cancelled fresh tk st') = Inr (Some l)"
  shows "pw_ticket_id a \<notin> set (ticket_ids (prune cfg now st'))"
proof -
  let ?i = "pw_ticket_id a" and ?j = "pw_ticket_id b"
  have d: "set (ticket_ids st) \<subseteq> issued st" "distinct (ticket_ids st)" using tickets_reachable [OF assms(1)] by auto
  have none: "filter (\<lambda>x. x = ?i \<or> x = ?j) (map pw_ticket_id ys) = []" if "ys \<in> {us, ws, vs}" for ys
  proof -
    have "pw_ticket_id y \<noteq> ?i \<and> pw_ticket_id y \<noteq> ?j" if "y \<in> set us \<union> set ws \<union> set vs" for y
      using d(2) that unfolding assms(2) by (auto simp: image_iff)
    then show ?thesis using that by (auto simp: filter_empty_conv)
  qed
  have "filter (\<lambda>x. x = ?i \<or> x = ?j) (ticket_ids st) = [?i, ?j]"
    unfolding assms(2) by (simp add: none)
  moreover have "inj_on pw_ticket_id (set (ps_waiters st))" "a \<in> set (ps_waiters st)" "b \<in> set (ps_waiters st)"
    using d(2) assms(2) by (simp only: distinct_map, simp, simp)
  then have "w = a \<or> w = b" if "w \<in> set (ps_waiters st)" "pw_ticket_id w = ?i \<or> pw_ticket_id w = ?j" for w
    using that by (auto dest: inj_onD)
  then have "\<forall>w \<in> set (ps_waiters st). pw_ticket_id w = ?i \<or> pw_ticket_id w = ?j \<longrightarrow> pw_route_id w = pw_route_id b"
    using assms(3) by metis
  moreover have "?i \<in> issued st" "?j \<in> issued st" using d(1) assms(2) by auto
  ultimately have "order_ok (pw_route_id b) ?i ?j t1 st" by (simp add: order_ok_def)
  then have o: "order_ok (tk_route_id tk) ?i (tk_id tk) t2 st'" using order.run_kept [OF assms(4)] assms(5,6) by simp
  then have "order_ok (tk_route_id tk) ?i (tk_id tk) now st'" by (simp add: order_ok_def)
  then have "order_ok (tk_route_id tk) ?i (tk_id tk) now (prune cfg now st')" by (rule order_kept [OF _ change.pruned [OF reading_now]])
  moreover have "?i \<noteq> tk_id tk" using d(2) assms(2,5) by auto
  ultimately show ?thesis using order_front granted_front [OF assms(7)] by blast
qed

lemma register_known:
  assumes "ProviderAdmission_register_route cfg now i initial maximum rpm tpm st = (Inr x, st')"
  shows "dict_get (ps_routes st') i \<noteq> None"
  using assms by (auto simp: ProviderAdmission_register_route_def Let_def state_simps split: sum.splits option.splits if_splits)

lemma acquire_begin_known:
  assumes "acquire_begin cfg now route owner timeout poll tokens st = (Inr u, st')"
  shows "dict_get (ps_routes st') route \<noteq> None"
  using assms by (auto simp: acquire_begin_def dest: register_known split: sum.splits prod.splits)

text \<open>C40: A ticket lives at most \<open>waiter_ttl_s\<close>, however long its caller's deadline, and whatever the processes do
  between the sections of the acquisition: from then on no turn of the caller is given a lease, and until the
  deadline every turn leaves the state as it is and polls on.\<close>
theorem expired_ticket_waits_in_vain:
  assumes "provider_run sha cfg d (t, new_state) (t0, st0)" "acquire_begin cfg t1 route owner timeout poll tokens st0 = (Inr u, st1)"
    and "provider_run sha cfg d (t1, st1) (t2, st2)" "fresh \<notin> issued st2"
    and "acquire_ticket sha cfg created fresh route owner timeout tokens st2 = (tk, st3)"
    and "provider_run sha cfg d (t3, st3) (t4, st4)" "created + waiter_ttl_s cfg \<le> now"
  shows "fst (provider_round cfg now cancelled i tk st4) \<noteq> Inr (Some l)
    \<and> (\<not> cancelled \<and> now < created + timeout \<longrightarrow> provider_round cfg now cancelled i tk st4 = (Inr None, st4))"
proof -
  let ?e = "created + waiter_ttl_s cfg" and ?st = "prune cfg now st4"
  have tk: "tk_id tk = fresh" "tk_route_id tk = route" "tk_deadline tk = created + timeout"
    and st3: "ps_waiters st3 = ps_waiters (prune cfg created st2) @ [\<lparr>pw_ticket_id = fresh, pw_route_id = route,
      pw_owner_sha256 = sha owner, pw_created_at = created, pw_expires_at = min (created + timeout) ?e\<rparr>]"
      "fresh \<in> issued st3" "ps_routes st3 = ps_routes (prune cfg created st2)"
    using assms(5) by (auto simp: acquire_ticket_def Let_def append_event_def issued_def) blast
  have "tickets_ok t0 st0" using tickets_reachable [OF assms(1)] by (simp add: tickets_ok_def)
  then have "tickets_ok t1 st0" by (simp add: tickets_ok_def)
  moreover have "changes cfg d t1 st0 st1" using start_changes [of cfg d t1 st0 route owner timeout poll tokens] assms(2) by simp
  ultimately have "tickets_ok t1 st1" by (rule tickets.changes_kept [rotated])
  then have "set (ticket_ids st2) \<subseteq> issued st2" using tickets.run_kept [OF assms(3)] by (simp add: tickets_ok_def)
  then have "fresh \<notin> pw_ticket_id ` set (ps_waiters (prune cfg created st2))" using assms(4) by (auto simp: prune_def)
  then have "expiry_ok fresh ?e t3 st3" using st3 by (auto simp: expiry_ok_def image_iff)
  then have "expiry_ok fresh ?e t4 st4" using expiry.run_kept [OF assms(6)] by simp
  then have "\<forall>w \<in> set (ps_waiters ?st). pw_ticket_id w \<noteq> fresh" using assms(7) by (auto simp: expiry_ok_def prune_def)
  moreover have "w \<in> set (ps_waiters ?st)" if "filter P (ps_waiters ?st) = w # ws" for P w ws
    using that by (metis filter_is_subset list.set_intros(1) subsetD)
  ultimately have out: "\<not> at_front tk ?st"
    by (cases "filter (\<lambda>w. pw_route_id w = route) (ps_waiters ?st)") (simp_all add: at_front_def tk)
  have "dict_get (ps_routes st2) route \<noteq> None" using known.run_kept [OF assms(3)] acquire_begin_known [OF assms(2)] by blast
  then have "dict_get (ps_routes st3) route \<noteq> None" by (simp add: st3(3))
  then have "dict_get (ps_routes st4) route \<noteq> None" using known.run_kept [OF assms(6)] by blast
  then obtain r where "dict_get (ps_routes ?st) (tk_route_id tk) = Some r" using tk by auto
  then have "try_acquire cfg now i tk st4 = (Inr None, st4)" using out by (simp add: try_acquire_def Let_def del: prune_routes)
  then show ?thesis using tk granted_front [of cfg now cancelled i tk st4 l] out by (auto simp: provider_round_def Let_def)
qed

section \<open>A concrete run\<close>

text \<open>A route with a limit of two requests a minute, two tickets and two leases.\<close>

abbreviation demo_cfg :: ProviderAdmissionConfig where "demo_cfg \<equiv> default_provider_config"

definition demo_route :: "real list \<Rightarrow> provider_route" where
  "demo_route starts = (new_route 4 8 (Some 2) None)\<lparr>pr_request_starts := starts\<rparr>"

definition demo_waiter :: "string \<Rightarrow> string \<Rightarrow> real \<Rightarrow> provider_waiter" where
  "demo_waiter i owner u = \<lparr>pw_ticket_id = i, pw_route_id = ''r'', pw_owner_sha256 = owner, pw_created_at = u, pw_expires_at = u + 100\<rparr>"

definition demo_ticket :: "string \<Rightarrow> string \<Rightarrow> real \<Rightarrow> provider_ticket" where
  "demo_ticket i owner u = \<lparr>tk_id = i, tk_route_id = ''r'', tk_owner_sha256 = owner, tk_deadline = u + 100, tk_estimated_tokens = 5\<rparr>"

definition demo_lease :: "string \<Rightarrow> string \<Rightarrow> real \<Rightarrow> provider_lease" where
  "demo_lease i owner u = \<lparr>pl_lease_id = i, pl_route_id = ''r'', pl_owner_sha256 = owner, pl_acquired_at = u, pl_expires_at = u + 900, pl_reserved_tokens = 5\<rparr>"

abbreviation demo1 :: provider_state where
  "demo1 \<equiv> \<lparr>ps_routes = [(''r'', demo_route [])], ps_leases = [], ps_waiters = [], ps_ledger = [RouteRegistered 0 ''r'' 4]\<rparr>"

abbreviation demo2 :: provider_state where
  "demo2 \<equiv> \<lparr>ps_routes = [(''r'', demo_route [])], ps_leases = [], ps_waiters = [demo_waiter ''a'' ''x'' 1],
    ps_ledger = [RouteRegistered 0 ''r'' 4, WaitStarted 1 ''r'' ''a'']\<rparr>"

abbreviation demo3 :: provider_state where
  "demo3 \<equiv> \<lparr>ps_routes = [(''r'', demo_route [])], ps_leases = [], ps_waiters = [demo_waiter ''a'' ''x'' 1, demo_waiter ''b'' ''y'' 2],
    ps_ledger = [RouteRegistered 0 ''r'' 4, WaitStarted 1 ''r'' ''a'', WaitStarted 2 ''r'' ''b'']\<rparr>"

abbreviation demo4 :: provider_state where
  "demo4 \<equiv> \<lparr>ps_routes = [(''r'', demo_route [3])], ps_leases = [(''l'', demo_lease ''l'' ''x'' 3)], ps_waiters = [demo_waiter ''b'' ''y'' 2],
    ps_ledger = [RouteRegistered 0 ''r'' 4, WaitStarted 1 ''r'' ''a'', WaitStarted 2 ''r'' ''b'', LeaseAcquired 3 ''r'' ''l'' 4]\<rparr>"

lemmas demo_defs = demo_route_def demo_waiter_def demo_ticket_def demo_lease_def default_provider_config_def new_route_def new_state_def
  prune_def prune_route_def append_event_def put_route_def dict_get_def dict_set_def rbind_def guard_def Let_def

lemmas demo_turn_defs = provider_round_def try_acquire_def at_front_def active_for_route_def within_rpm_def within_tpm_def
  recent_starts_def dict_values_def demo_defs

lemma demo_route_id: "validate_route_id ''r'' = Inr ()"
  by (simp add: validate_route_id_def guard_def alnum_def of_char_def)

lemmas demo_wait_defs = acquire_begin_def acquire_ticket_def ProviderAdmission_register_route_def demo_route_id check_rate_def demo_defs

lemma demo_register:
  "snd (ProviderAdmission_register_route demo_cfg 0 ''r'' (Some 4) (Some 8) (Some 2) None new_state) = demo1"
  by (simp add: demo_wait_defs)

lemma demo_wait_a: "acquire_ticket id demo_cfg 1 ''a'' ''r'' ''x'' 100 5 demo1 = (demo_ticket ''a'' ''x'' 1, demo2)"
  by (simp add: demo_wait_defs)

lemma demo_wait_b: "acquire_ticket id demo_cfg 2 ''b'' ''r'' ''y'' 100 5 demo2 = (demo_ticket ''b'' ''y'' 2, demo3)"
  by (simp add: demo_wait_defs)

lemma admission_turn: "provider_round demo_cfg 3 False ''l'' (demo_ticket ''a'' ''x'' 1) demo3 = (Inr (Some (demo_lease ''l'' ''x'' 3)), demo4)"
  by (simp add: demo_turn_defs)

lemma admission_steps:
  "provider_step id demo_cfg 0 (0, new_state) (0, demo1)" "provider_step id demo_cfg 0 (0, demo1) (1, demo2)"
  "provider_step id demo_cfg 0 (1, demo2) (2, demo3)" "provider_step id demo_cfg 0 (2, demo3) (3, demo4)"
proof -
  show "provider_step id demo_cfg 0 (0, new_state) (0, demo1)"
    using provider_step.register [of 0 0 id demo_cfg 0 new_state "''r''" "Some 4" "Some 8" "Some 2" None]
    by (simp only: demo_register order.refl simp_thms)
  show "provider_step id demo_cfg 0 (0, demo1) (1, demo2)"
    using provider_step.ticket [of 0 1 1 0 "''a''" demo1 "''r''" id demo_cfg "''x''" 100 5] unfolding demo_wait_a
    by (simp add: issued_def dict_get_def)
  show "provider_step id demo_cfg 0 (1, demo2) (2, demo3)"
    using provider_step.ticket [of 1 2 2 0 "''b''" demo2 "''r''" id demo_cfg "''y''" 100 5] unfolding demo_wait_b
    by (simp add: issued_def dict_get_def)
  show "provider_step id demo_cfg 0 (2, demo3) (3, demo4)"
    using provider_step.turn [of 2 3 3 0 demo3 "''l''" id demo_cfg False "demo_ticket ''a'' ''x'' 1"] unfolding admission_turn by simp
qed

lemma admission_runs: "provider_run id demo_cfg 0 (0, new_state) (2, demo3)" "provider_run id demo_cfg 0 (2, demo3) (3, demo4)"
  "provider_run id demo_cfg 0 (0, new_state) (3, demo4)" "provider_run id demo_cfg 0 (0, new_state) (0, demo1)"
  using admission_steps by (meson r_into_rtranclp rtranclp.rtrancl_into_rtrancl)+

lemma demo4_route: "dict_get (ps_routes demo4) ''r'' = Some (demo_route [3])"
  by (simp add: dict_get_def)

lemma provider_limits_hold_witness:
  "min_limit demo_cfg \<le> pr_limit (demo_route [3]) \<and> pr_limit (demo_route [3]) \<le> pr_max_limit (demo_route [3])
   \<and> pr_max_limit (demo_route [3]) \<le> max_limit demo_cfg \<and> active_for_route ''r'' demo4 \<le> pr_max_limit (demo_route [3])"
proof (rule provider_limits_hold [OF _ admission_runs(3) demo4_route])
  show "ProviderAdmissionConfig_check demo_cfg = Inr ()"
    by (simp add: ProviderAdmissionConfig_check_def demo_defs)
qed

lemma provider_rate_limited_witness:
  "int (length (filter (\<lambda>u. 0 \<le> u \<and> u \<le> 0 + (rpm_window_s demo_cfg - 0)) (grants ''r'' demo4))) \<le> 2"
  by (rule provider_rate_limited [OF admission_runs(3) demo4_route]) (simp add: demo_defs)

text \<open>The second ticket is served once the first has its lease.\<close>

lemma demo_turn_b: "fst (provider_round demo_cfg 4 False ''m'' (demo_ticket ''b'' ''y'' 2) demo4) = Inr (Some (demo_lease ''m'' ''y'' 4))"
  by (simp add: demo_turn_defs)

lemma provider_fifo_witness: "''a'' \<notin> set (ticket_ids (prune demo_cfg 4 demo4))"
  using provider_fifo [OF admission_runs(1) _ _ admission_runs(2) _ _ demo_turn_b, of "[]" "demo_waiter ''a'' ''x'' 1" "[]" "demo_waiter ''b'' ''y'' 2" "[]"]
  by (simp add: demo_waiter_def demo_ticket_def)

lemma expired_ticket_waits_in_vain_witness:
  "provider_round demo_cfg 5000 False ''l'' (demo_ticket ''a'' ''x'' 1\<lparr>tk_deadline := 9001\<rparr>) (demo2\<lparr>ps_waiters := [demo_waiter ''a'' ''x'' 1\<lparr>pw_expires_at := 3601\<rparr>]\<rparr>)
   = (Inr None, demo2\<lparr>ps_waiters := [demo_waiter ''a'' ''x'' 1\<lparr>pw_expires_at := 3601\<rparr>]\<rparr>)"
proof -
  have begun: "acquire_begin demo_cfg 1 ''r'' ''x'' 9000 None 5 demo1 = (Inr (), demo1)"
    by (simp add: demo_wait_defs)
  have ticket: "acquire_ticket id demo_cfg 1 ''a'' ''r'' ''x'' 9000 5 demo1 =
    (demo_ticket ''a'' ''x'' 1\<lparr>tk_deadline := 9001\<rparr>, demo2\<lparr>ps_waiters := [demo_waiter ''a'' ''x'' 1\<lparr>pw_expires_at := 3601\<rparr>]\<rparr>)"
    by (simp add: demo_wait_defs)
  from expired_ticket_waits_in_vain [OF admission_runs(4) begun rtranclp.rtrancl_refl _ ticket rtranclp.rtrancl_refl, of 5000 False "''l''" undefined]
  show ?thesis by (simp add: issued_def default_provider_config_def)
qed

section \<open>A reading that is too old\<close>

text \<open>With a limit of one request a minute: the first request starts at second 5 and ends at second 66, which
  drops its start. A caller that has read the clock at second 64 gets the lock after that, counts no start within
  the minute before its reading, and starts a request; both starts lie within one minute.\<close>

definition stale_route :: "real list \<Rightarrow> provider_route" where
  "stale_route starts = (new_route 4 8 (Some 1) None)\<lparr>pr_request_starts := starts\<rparr>"

abbreviation stale_id :: string where
  "stale_id \<equiv> replicate 32 (CHR ''0'')"

definition stale1 :: provider_state where
  "stale1 = \<lparr>ps_routes = [(''r'', stale_route [])], ps_leases = [], ps_waiters = [], ps_ledger = [RouteRegistered 0 ''r'' 4]\<rparr>"

definition stale2 :: provider_state where
  "stale2 = stale1\<lparr>ps_waiters := [demo_waiter ''a'' ''x'' 1], ps_ledger := [RouteRegistered 0 ''r'' 4, WaitStarted 1 ''r'' ''a'']\<rparr>"

definition stale3 :: provider_state where
  "stale3 = stale1\<lparr>ps_waiters := [demo_waiter ''a'' ''x'' 1, demo_waiter ''b'' ''y'' 2],
    ps_ledger := [RouteRegistered 0 ''r'' 4, WaitStarted 1 ''r'' ''a'', WaitStarted 2 ''r'' ''b'']\<rparr>"

definition stale4 :: provider_state where
  "stale4 = \<lparr>ps_routes = [(''r'', stale_route [5])], ps_leases = [(stale_id, demo_lease stale_id ''x'' 5)],
    ps_waiters = [demo_waiter ''b'' ''y'' 2], ps_ledger = [RouteRegistered 0 ''r'' 4, WaitStarted 1 ''r'' ''a'',
      WaitStarted 2 ''r'' ''b'', LeaseAcquired 5 ''r'' stale_id 4]\<rparr>"

definition stale5 :: provider_state where
  "stale5 = stale4\<lparr>ps_routes := [(''r'', (stale_route [])\<lparr>pr_samples := [\<lparr>rs_at = 66, rs_tokens = 7, rs_latency_s = Some 61,
       rs_success = True, rs_stream_error = False, rs_failure = None\<rparr>], pr_successful_requests := 1, pr_healthy_successes := 1\<rparr>)],
     ps_leases := [], ps_ledger := [RouteRegistered 0 ''r'' 4, WaitStarted 1 ''r'' ''a'', WaitStarted 2 ''r'' ''b'',
       LeaseAcquired 5 ''r'' stale_id 4, RequestDone 66 ''r'' stale_id ''success'' 7 (Some 61)]\<rparr>"

lemmas stale_defs = stale_route_def stale1_def stale2_def stale3_def stale4_def stale5_def

lemma stale_sections:
  "snd (ProviderAdmission_register_route demo_cfg 0 ''r'' (Some 4) (Some 8) (Some 1) None new_state) = stale1"
  "acquire_ticket id demo_cfg 1 ''a'' ''r'' ''x'' 100 5 stale1 = (demo_ticket ''a'' ''x'' 1, stale2)"
  "acquire_ticket id demo_cfg 2 ''b'' ''r'' ''y'' 100 5 stale2 = (demo_ticket ''b'' ''y'' 2, stale3)"
  "snd (provider_round demo_cfg 5 False stale_id (demo_ticket ''a'' ''x'' 1) stale3) = stale4"
  "snd (ProviderAdmission_complete demo_cfg 66 stale_id True 7 (Some 61) None stale4) = stale5"
      apply (simp add: demo_wait_defs stale_defs)
     apply (simp add: demo_wait_defs stale_defs)
    apply (simp add: demo_wait_defs stale_defs)
   apply (simp add: demo_turn_defs stale_defs)
  apply (simp add: ProviderAdmission_complete_def validate_opaque_id_def list_all_iff of_char_def record_outcome_def adjust_limit_def
      degraded_def note_best_p95_def enough_latencies_def latencies_def map_filter_def percentile_def dict_pop_def stale_defs demo_defs)
  done

lemma stale_run: "provider_run id demo_cfg 2 (0, new_state) (66, stale5)"
proof -
  have "provider_step id demo_cfg 2 (0, new_state) (0, stale1)"
    using provider_step.register [of 0 0 id demo_cfg 2 new_state "''r''" "Some 4" "Some 8" "Some 1" None]
    by (simp only: stale_sections order.refl simp_thms)
  moreover have "provider_step id demo_cfg 2 (0, stale1) (1, stale2)"
    using provider_step.ticket [of 0 1 1 2 "''a''" stale1 "''r''" id demo_cfg "''x''" 100 5] unfolding stale_sections(2)
    by (simp add: issued_def dict_get_def stale1_def)
  moreover have "provider_step id demo_cfg 2 (1, stale2) (2, stale3)"
    using provider_step.ticket [of 1 2 2 2 "''b''" stale2 "''r''" id demo_cfg "''y''" 100 5] unfolding stale_sections(3)
    by (simp add: issued_def dict_get_def stale2_def stale1_def)
  moreover have "provider_step id demo_cfg 2 (2, stale3) (5, stale4)"
    using provider_step.turn [of 2 5 5 2 stale3 stale_id id demo_cfg False "demo_ticket ''a'' ''x'' 1"]
    unfolding stale_sections(4) by (simp add: stale3_def stale1_def dict_get_def)
  moreover have "provider_step id demo_cfg 2 (5, stale4) (66, stale5)"
    using provider_step.complete [of 5 66 id demo_cfg 2 stale4 stale_id True 7 "Some 61" None] unfolding stale_sections(5) by simp
  ultimately show ?thesis by (meson r_into_rtranclp rtranclp.rtrancl_into_rtrancl)
qed

theorem stale_reading_exceeds_rate:
  "\<exists>st r. provider_run id demo_cfg 2 (0, new_state) (66, st) \<and> dict_get (ps_routes st) ''r'' = Some r \<and> pr_rpm_limit r = Some 1
     \<and> length (filter (\<lambda>u. 5 \<le> u \<and> u \<le> 5 + rpm_window_s demo_cfg) (grants ''r'' st)) = 2"
proof -
  define st where "st = snd (provider_round demo_cfg 64 False ''m'' (demo_ticket ''b'' ''y'' 2) stale5)"
  have "provider_step id demo_cfg 2 (66, stale5) (66, st)"
    using provider_step.turn [of 66 66 64 2 stale5 "''m''" id demo_cfg False "demo_ticket ''b'' ''y'' 2"]
    unfolding st_def by (simp add: stale5_def dict_get_def)
  with stale_run have "provider_run id demo_cfg 2 (0, new_state) (66, st)" by (rule rtranclp.rtrancl_into_rtrancl)
  moreover have "\<exists>r. dict_get (ps_routes st) ''r'' = Some r \<and> pr_rpm_limit r = Some 1" "grants ''r'' st = [5, 64]"
    by (simp_all add: st_def grants_def map_filter_def demo_turn_defs stale_defs)
  ultimately show ?thesis by (intro exI [of _ st]) (auto simp: default_provider_config_def)
qed

end
