(* ===== verification/Provider_Recovery.thy ===== *)
theory Provider_Recovery
  imports Provider_Properties
begin

text \<open>
  How a route recovers from a decrease: percentiles lie within their samples, a route whose latencies stay in a
  band is not degraded, and every threshold of healthy completions raises its limit by the step, whatever else
  the processes do.
\<close>

section \<open>Percentiles\<close>

lemma percentile_bounds:
  assumes "sorted vs" "vs \<noteq> []" "0 \<le> q" "q \<le> 1" "\<forall>v \<in> set vs. lo \<le> v \<and> v \<le> hi"
  shows "\<exists>p. percentile vs q = Some p \<and> lo \<le> p \<and> p \<le> hi"
proof (cases "length vs = 1")
  case False
  let ?n = "length vs" and ?pos = "(real (length vs) - 1) * q"
  have n: "1 < ?n" using False assms(2) by (cases vs) auto
  have pos: "0 \<le> ?pos" "?pos \<le> real ?n - 1"
    using n assms(3,4) by (simp_all add: mult_left_le)
  have i: "nat \<lfloor>?pos\<rfloor> < ?n" "nat \<lceil>?pos\<rceil> < ?n" using pos n by linarith+
  have w: "0 \<le> ?pos - of_int \<lfloor>?pos\<rfloor>" "?pos - of_int \<lfloor>?pos\<rfloor> \<le> 1" by linarith+
  have v: "lo \<le> vs ! nat \<lfloor>?pos\<rfloor> \<and> vs ! nat \<lfloor>?pos\<rfloor> \<le> hi" "lo \<le> vs ! nat \<lceil>?pos\<rceil> \<and> vs ! nat \<lceil>?pos\<rceil> \<le> hi"
    using i assms(5) by simp_all
  have mix: "lo \<le> a * (1 - w) + b * w \<and> a * (1 - w) + b * w \<le> hi"
    if "lo \<le> a \<and> a \<le> hi" "lo \<le> b \<and> b \<le> hi" "0 \<le> w" "w \<le> 1" for a b w
    using convex_bound_le [of a hi b "1 - w" w] convex_bound_le [of "- a" "- lo" "- b" "1 - w" w] that
    by (simp add: algebra_simps)
  show ?thesis using False assms(2) v(1) mix [OF v w]
    by (auto simp: percentile_def Let_def)
next
  case True
  then show ?thesis using assms(2,5) by (cases vs) (auto simp: percentile_def)
qed

lemma latencies_set: "set (latencies ss) = {x. \<exists>s \<in> set ss. rs_latency_s s = Some x}"
  by (force simp: latencies_def map_filter_def)

section \<open>Recovery\<close>

text \<open>The route's requests have taken between \<open>lo\<close> and \<open>hi\<close>.\<close>

definition in_band :: "real \<Rightarrow> real \<Rightarrow> provider_route \<Rightarrow> bool" where
  "in_band lo hi r \<longleftrightarrow> (\<forall>x \<in> set (latencies (pr_samples r)). lo \<le> x \<and> x \<le> hi) \<and> (\<forall>b. pr_best_p95 r = Some b \<longrightarrow> lo \<le> b)"

definition band_ok :: "ProviderAdmissionConfig \<Rightarrow> real \<Rightarrow> real \<Rightarrow> bool" where
  "band_ok cfg lo hi \<longleftrightarrow> 0 \<le> lo \<and> hi \<le> p95_latency_limit_s cfg \<and> hi \<le> lo * p95_degrade_ratio cfg"

lemma in_band_p95:
  assumes "in_band lo hi r" "percentile (latencies (pr_samples r)) 0.95 = Some p"
  shows "lo \<le> p \<and> p \<le> hi"
proof -
  have "latencies (pr_samples r) \<noteq> []" using assms(2) by (auto simp: percentile_def)
  then show ?thesis using percentile_bounds [of "latencies (pr_samples r)" "0.95" lo hi] assms
    by (auto simp: in_band_def latencies_def)
qed

lemma in_band_not_degraded:
  assumes "in_band lo hi r" "band_ok cfg lo hi" "1 < p95_degrade_ratio cfg"
  shows "\<not> degraded cfg r"
proof
  assume "degraded cfg r"
  then obtain p where p: "percentile (latencies (pr_samples r)) 0.95 = Some p"
    "p > p95_latency_limit_s cfg \<or> (\<exists>b. pr_best_p95 r = Some b \<and> p > b * p95_degrade_ratio cfg)"
    by (auto simp: degraded_def split: option.splits)
  note b = in_band_p95 [OF assms(1) p(1)]
  from p(2) show False
  proof
    assume "\<exists>b. pr_best_p95 r = Some b \<and> p > b * p95_degrade_ratio cfg"
    then obtain b' where "lo \<le> b'" "p > b' * p95_degrade_ratio cfg" using assms(1) by (auto simp: in_band_def)
    moreover from this have "lo * p95_degrade_ratio cfg \<le> b' * p95_degrade_ratio cfg" using assms(3) by (intro mult_right_mono) auto
    ultimately show False using b assms(2) by (simp add: band_ok_def)
  qed (use b assms(2) in \<open>simp add: band_ok_def\<close>)
qed

text \<open>What a successful completion does to its route, once pruned.\<close>

definition succeed :: "ProviderAdmissionConfig \<Rightarrow> real \<Rightarrow> int \<Rightarrow> real option \<Rightarrow> provider_route \<Rightarrow> provider_route" where
  "succeed cfg now tokens latency r =
     fst (adjust_limit cfg now None (record_outcome now True tokens latency None r))"

lemma succeed_shape:
  assumes "in_band lo hi r" "band_ok cfg lo hi" "1 < p95_degrade_ratio cfg" "pr_cooldown_until r \<le> now"
    and "\<And>x. latency = Some x \<Longrightarrow> lo \<le> x \<and> x \<le> hi"
  shows "in_band lo hi (succeed cfg now tokens latency r)"
    and "pr_max_limit (succeed cfg now tokens latency r) = pr_max_limit r"
    and "pr_cooldown_until (succeed cfg now tokens latency r) = pr_cooldown_until r"
    and "pr_limit (succeed cfg now tokens latency r) =
      (if healthy_successes_to_increase cfg \<le> pr_healthy_successes r + 1 \<and> pr_limit r < pr_max_limit r
       then min (pr_max_limit r) (pr_limit r + increase_step cfg) else pr_limit r)"
    and "pr_healthy_successes (succeed cfg now tokens latency r) =
      (if healthy_successes_to_increase cfg \<le> pr_healthy_successes r + 1 \<and> pr_limit r < pr_max_limit r
       then 0 else pr_healthy_successes r + 1)"
proof -
  define r1 where "r1 = record_outcome now True tokens latency None r"
  have r1: "pr_max_limit r1 = pr_max_limit r" "pr_cooldown_until r1 = pr_cooldown_until r" "pr_limit r1 = pr_limit r"
    "pr_healthy_successes r1 = pr_healthy_successes r + 1" "pr_best_p95 r1 = pr_best_p95 r"
    by (simp_all add: r1_def record_outcome_def Let_def)
  have "\<forall>x \<in> set (latencies (pr_samples r1)). lo \<le> x \<and> x \<le> hi"
    using assms(1,5) by (fastforce simp: in_band_def latencies_set r1_def record_outcome_def Let_def)
  then have band: "in_band lo hi r1" using assms(1) by (simp add: in_band_def r1(5))
  have nd: "\<not> degraded cfg r1" using in_band_not_degraded [OF band assms(2,3)] .
  let ?r2 = "note_best_p95 cfg r1"
  have r2: "in_band lo hi ?r2" "pr_max_limit ?r2 = pr_max_limit r" "pr_cooldown_until ?r2 = pr_cooldown_until r"
    "pr_limit ?r2 = pr_limit r" "pr_healthy_successes ?r2 = pr_healthy_successes r + 1"
    using band in_band_p95 [OF band] r1
    by (auto simp: note_best_p95_def in_band_def split: option.splits)
  have s: "succeed cfg now tokens latency r =
    (if healthy_successes_to_increase cfg \<le> pr_healthy_successes r + 1 \<and> pr_limit r < pr_max_limit r
     then ?r2\<lparr>pr_limit := min (pr_max_limit r) (pr_limit r + increase_step cfg), pr_healthy_successes := 0\<rparr> else ?r2)"
    using nd assms(4) r1 r2 unfolding succeed_def r1_def [symmetric] by (simp add: adjust_limit_def Let_def)
  show "in_band lo hi (succeed cfg now tokens latency r)"
    using r2(1) unfolding s by (auto simp: in_band_def)
  show "pr_max_limit (succeed cfg now tokens latency r) = pr_max_limit r"
    "pr_cooldown_until (succeed cfg now tokens latency r) = pr_cooldown_until r"
    "pr_limit (succeed cfg now tokens latency r) =
      (if healthy_successes_to_increase cfg \<le> pr_healthy_successes r + 1 \<and> pr_limit r < pr_max_limit r
       then min (pr_max_limit r) (pr_limit r + increase_step cfg) else pr_limit r)"
    "pr_healthy_successes (succeed cfg now tokens latency r) =
      (if healthy_successes_to_increase cfg \<le> pr_healthy_successes r + 1 \<and> pr_limit r < pr_max_limit r
       then 0 else pr_healthy_successes r + 1)"
    unfolding s by (simp_all add: r2)
qed

text \<open>The progress after \<open>c\<close> healthy successes from the limit \<open>l0\<close>.\<close>

definition grown :: "ProviderAdmissionConfig \<Rightarrow> int \<Rightarrow> int \<Rightarrow> int \<Rightarrow> provider_route \<Rightarrow> bool" where
  "grown cfg most l0 c r \<longleftrightarrow> pr_max_limit r = most
     \<and> pr_limit r = min most (l0 + c div healthy_successes_to_increase cfg * increase_step cfg)
     \<and> (pr_limit r < most \<longrightarrow> pr_healthy_successes r = c mod healthy_successes_to_increase cfg)"

lemma div_mod_Suc:
  fixes c n :: int
  assumes "1 \<le> n"
  shows "n \<le> c mod n + 1 \<Longrightarrow> (c + 1) div n = c div n + 1 \<and> (c + 1) mod n = 0"
    and "\<not> n \<le> c mod n + 1 \<Longrightarrow> (c + 1) div n = c div n \<and> (c + 1) mod n = c mod n + 1"
proof -
  have b: "0 \<le> c mod n" "c mod n < n" using assms by simp_all
  have e: "c + 1 = n * (c div n) + (c mod n + 1)" by simp
  { assume "n \<le> c mod n + 1"
    then have "c mod n + 1 = n" using b by simp
    then have "c + 1 = n * (c div n + 1)" using e by (simp add: algebra_simps)
    then show "(c + 1) div n = c div n + 1 \<and> (c + 1) mod n = 0" using assms by simp }
  assume "\<not> n \<le> c mod n + 1"
  then have "(c mod n + 1) div n = 0" "(c mod n + 1) mod n = c mod n + 1" using b by simp_all
  then show "(c + 1) div n = c div n \<and> (c + 1) mod n = c mod n + 1"
    using assms e by (metis div_mult_self4 add.right_neutral mod_mult_self4 not_one_le_zero)
qed

lemma grown_succeed:
  assumes "grown cfg most l0 c r" "config_ok cfg" "0 \<le> c"
    and "in_band lo hi r" "band_ok cfg lo hi" "pr_cooldown_until r \<le> now"
    and "\<And>x. latency = Some x \<Longrightarrow> lo \<le> x \<and> x \<le> hi"
  shows "grown cfg most l0 (c + 1) (succeed cfg now tokens latency r)"
proof -
  let ?n = "healthy_successes_to_increase cfg" and ?s = "increase_step cfg"
  note cfg = config_okD [OF assms(2)]
  note shape = succeed_shape [OF assms(4,5) cfg(8) assms(6,7)]
  have mono: "l0 + c div ?n * ?s \<le> l0 + (c + 1) div ?n * ?s"
    using cfg by (intro add_left_mono mult_right_mono zdiv_mono1) simp_all
  show ?thesis
  proof (cases "pr_limit r < most")
    case False
    then show ?thesis using assms(1) mono by (auto simp: grown_def shape)
  next
    case True
    then have l: "pr_limit r = l0 + c div ?n * ?s" "pr_healthy_successes r = c mod ?n" "pr_max_limit r = most"
      using assms(1) by (auto simp: grown_def)
    show ?thesis
    proof (cases "?n \<le> c mod ?n + 1")
      case True
      with div_mod_Suc(1) [OF cfg(3) True] l \<open>pr_limit r < most\<close> show ?thesis
        by (simp add: grown_def shape algebra_simps)
    next
      case False
      with div_mod_Suc(2) [OF cfg(3) False] l \<open>pr_limit r < most\<close> show ?thesis
        by (simp add: grown_def shape algebra_simps)
    qed
  qed
qed

text \<open>The outcomes of a route in the ledger, and whether all of them are healthy.\<close>

fun is_outcome :: "string \<Rightarrow> provider_event \<Rightarrow> bool" where
  "is_outcome i (RequestDone u route lease why tokens latency) = (route = i)"
| "is_outcome i _ = False"

fun healthy_event :: "real \<Rightarrow> real \<Rightarrow> provider_event \<Rightarrow> bool" where
  "healthy_event lo hi (RequestDone u route lease why tokens latency) =
     (why = ''success'' \<and> (case latency of None \<Rightarrow> True | Some x \<Rightarrow> lo \<le> x \<and> x \<le> hi))"
| "healthy_event lo hi _ = True"

definition outcomes :: "string \<Rightarrow> provider_event list \<Rightarrow> provider_event list" where
  "outcomes i es = filter (is_outcome i) es"

definition recovering ::
  "ProviderAdmissionConfig \<Rightarrow> real \<Rightarrow> real \<Rightarrow> string \<Rightarrow> int \<Rightarrow> int \<Rightarrow> provider_event list \<Rightarrow> real \<Rightarrow> provider_state \<Rightarrow> bool" where
  "recovering cfg lo hi i most l0 old t st \<longleftrightarrow>
     config_ok cfg \<and> band_ok cfg lo hi \<and>
     (\<exists>es. ps_ledger st = old @ es \<and>
        (list_all (healthy_event lo hi) (outcomes i es) \<longrightarrow>
          (\<exists>r. dict_get (ps_routes st) i = Some r \<and> in_band lo hi r \<and> pr_cooldown_until r \<le> t
             \<and> grown cfg most l0 (int (length (outcomes i es))) r)))"

lemma outcomes_append [simp]: "outcomes i (es @ es') = outcomes i es @ outcomes i es'"
  by (simp add: outcomes_def)

text \<open>A change without an outcome of the route keeps what the recovery needs of it.\<close>

definition keeps_route :: "string \<Rightarrow> provider_state \<Rightarrow> provider_state \<Rightarrow> bool" where
  "keeps_route i st st' \<longleftrightarrow> (\<forall>r. dict_get (ps_routes st) i = Some r \<longrightarrow>
     (\<exists>r'. dict_get (ps_routes st') i = Some r' \<and> set (pr_samples r') \<subseteq> set (pr_samples r) \<and> pr_best_p95 r' = pr_best_p95 r
        \<and> pr_cooldown_until r' = pr_cooldown_until r \<and> pr_limit r' = pr_limit r \<and> pr_max_limit r' = pr_max_limit r
        \<and> pr_healthy_successes r' = pr_healthy_successes r))"

lemma recovering_keeps:
  assumes "recovering cfg lo hi i m l0 old t st" "keeps_route i st st'"
    and "ps_ledger st' = ps_ledger st @ es'" "outcomes i es' = []"
  shows "recovering cfg lo hi i m l0 old t st'"
proof -
  obtain es where es: "ps_ledger st = old @ es"
    and h: "list_all (healthy_event lo hi) (outcomes i es) \<Longrightarrow>
          (\<exists>r. dict_get (ps_routes st) i = Some r \<and> in_band lo hi r \<and> pr_cooldown_until r \<le> t
             \<and> grown cfg m l0 (int (length (outcomes i es))) r)"
    using assms(1) unfolding recovering_def by blast
  have "\<exists>r. dict_get (ps_routes st') i = Some r \<and> in_band lo hi r \<and> pr_cooldown_until r \<le> t
             \<and> grown cfg m l0 (int (length (outcomes i es))) r" if ok: "list_all (healthy_event lo hi) (outcomes i es)"
  proof -
    from h [OF ok] obtain r where r: "dict_get (ps_routes st) i = Some r" "in_band lo hi r" "pr_cooldown_until r \<le> t"
      "grown cfg m l0 (int (length (outcomes i es))) r" by blast
    with assms(2) obtain r' where r': "dict_get (ps_routes st') i = Some r'" "set (pr_samples r') \<subseteq> set (pr_samples r)"
      "pr_best_p95 r' = pr_best_p95 r" "pr_cooldown_until r' = pr_cooldown_until r" "pr_limit r' = pr_limit r"
      "pr_max_limit r' = pr_max_limit r" "pr_healthy_successes r' = pr_healthy_successes r"
      unfolding keeps_route_def by blast
    then have "in_band lo hi r'" using r(2) by (fastforce simp: in_band_def latencies_set)
    then show ?thesis using r r' by (simp add: grown_def)
  qed
  then show ?thesis using assms(1,3,4) es unfolding recovering_def by (intro conjI exI [of _ "es @ es'"]) simp_all
qed

lemma keeps_route_same: "ps_routes st' = ps_routes st \<Longrightarrow> keeps_route i st st'"
  by (simp add: keeps_route_def)

lemma recovering_other:
  assumes "recovering cfg lo hi i m l0 old t st" "keeps_route i st st'" "ps_ledger st' = ps_ledger st @ [e]" "\<not> is_outcome i e"
  shows "recovering cfg lo hi i m l0 old t st'"
  by (rule recovering_keeps [OF assms(1-3)]) (simp add: outcomes_def assms(4))

lemma recovering_event:
  assumes "recovering cfg lo hi i m l0 old t st" "\<not> is_outcome i e" "ps_routes s = ps_routes st" "ps_ledger s = ps_ledger st"
  shows "recovering cfg lo hi i m l0 old t (append_event e s)"
  by (rule recovering_other [OF assms(1) keeps_route_same, where e = e]) (simp_all add: append_event_def assms(2-4))

lemma recovering_outcome:
  assumes "recovering cfg lo hi i m l0 old t st" "dict_get (ps_routes st) i = Some r" "failure = None \<longleftrightarrow> success"
    and "dict_get (ps_routes st') i = Some (fst (adjust_limit cfg t failure (record_outcome t success tokens latency failure r)))"
    and "ps_ledger st' = ps_ledger st @ [RequestDone u i lease
        (case failure of None \<Rightarrow> ''success'' | Some f \<Rightarrow> ProviderFailure_value f) tokens latency]" (is "_ = _ @ [?e]")
  shows "recovering cfg lo hi i m l0 old t st'"
proof -
  obtain es where es: "ps_ledger st = old @ es"
    and h: "list_all (healthy_event lo hi) (outcomes i es) \<Longrightarrow> in_band lo hi r \<and> pr_cooldown_until r \<le> t
             \<and> grown cfg m l0 (int (length (outcomes i es))) r"
    using assms(1,2) unfolding recovering_def by auto
  have ok: "config_ok cfg" "band_ok cfg lo hi" using assms(1) by (simp_all add: recovering_def)
  let ?r = "fst (adjust_limit cfg t failure (record_outcome t success tokens latency failure r))"
  have "in_band lo hi ?r \<and> pr_cooldown_until ?r \<le> t \<and> grown cfg m l0 (int (length (outcomes i (es @ [?e])))) ?r"
    if "list_all (healthy_event lo hi) (outcomes i (es @ [?e]))"
  proof -
    have b: "in_band lo hi r" "pr_cooldown_until r \<le> t" "grown cfg m l0 (int (length (outcomes i es))) r"
      using that h by simp_all
    have "healthy_event lo hi ?e" using that by (simp add: outcomes_def)
    then have "failure = None" and lat: "\<And>x. latency = Some x \<Longrightarrow> lo \<le> x \<and> x \<le> hi"
      by (auto split: option.splits elim!: ProviderFailure_value.elims)
    then have e: "?r = succeed cfg t tokens latency r" using assms(3) by (simp add: succeed_def)
    have n: "length (outcomes i (es @ [?e])) = Suc (length (outcomes i es))" by (simp add: outcomes_def)
    show ?thesis unfolding e n
      using succeed_shape(1,3) [OF b(1) ok(2) config_okD(8) [OF ok(1)] b(2) lat]
        grown_succeed [OF b(3) ok(1) _ b(1) ok(2) b(2) lat] b(2) by (simp add: add.commute)
  qed
  then show ?thesis using ok assms(4,5) es unfolding recovering_def
    by (intro conjI exI [of _ "es @ [?e]"]) auto
qed

lemma recovering_kept:
  assumes "recovering cfg lo hi i m l0 old t st" "change cfg d t st st'"
  shows "recovering cfg lo hi i m l0 old t st'"
  using assms(2)
proof (cases rule: change.cases)
  case none
  then show ?thesis using assms(1) by simp
next
  case (pruned now)
  have "keeps_route i st st'" unfolding pruned(1) keeps_route_def
    by (auto simp: prune_route_def Let_def dest: in_set_dropD)
  then show ?thesis unfolding pruned(1) by (rule recovering_keeps [OF assms(1), of _ "[]"]) (simp_all add: prune_def outcomes_def)
next
  case (add_route j initial maximum rpm now tpm)
  then have "keeps_route i st st'" by (auto simp: keeps_route_def state_simps)
  then show ?thesis by (rule recovering_other [OF assms(1)]) (auto simp: add_route(1) state_simps)
next
  case (grant now j r fresh l tk)
  then have "keeps_route i st st'" by (auto simp: keeps_route_def state_simps)
  then show ?thesis by (rule recovering_other [OF assms(1)]) (auto simp: grant(1) state_simps)
next
  case (outcome j r failure success now lease tokens latency)
  show ?thesis
  proof (cases "j = i")
    case True
    show ?thesis by (rule recovering_outcome [OF assms(1) outcome(2) [unfolded True] outcome(3)])
      (simp_all add: outcome(1) state_simps True)
  next
    case False
    have "keeps_route i st st'" unfolding outcome(1) by (auto simp: keeps_route_def state_simps False [symmetric])
    then show ?thesis by (rule recovering_other [OF assms(1)]) (auto simp: outcome(1) state_simps False)
  qed
next
  case (note_it es)
  have "\<not> is_outcome i e" if "e \<in> set es" for e using note_it(2) that by (cases e) auto
  then have "outcomes i es = []" by (simp add: outcomes_def filter_empty_conv)
  then show ?thesis by (rule recovering_keeps [OF assms(1) keeps_route_same, rotated 2]) (simp_all add: note_it(1))
qed (simp only:, rule recovering_event [OF assms(1)]; simp)+

interpretation recovery: provider_invariant cfg d "recovering cfg lo hi i m l0 old" for cfg d lo hi i m l0 old
proof
  show "recovering cfg lo hi i m l0 old t' st" if "recovering cfg lo hi i m l0 old t st" "t \<le> t'" for t t' st
    using that unfolding recovering_def by (blast intro: order.trans)
qed (rule recovering_kept)

text \<open>C20: A route recovers from a decrease: whatever else the processes do meanwhile, once the cooldown is over
  and the requests of the route succeed and take between \<open>lo\<close> and \<open>hi\<close> seconds, with \<open>hi\<close> within the latency limit
  and the degradation ratio over \<open>lo\<close>, the limit grows by the step for every \<open>healthy_successes_to_increase\<close>
  completions, up to the maximum of the route, and by nothing else.\<close>
theorem provider_recovers:
  assumes "ProviderAdmissionConfig_check cfg = Inr ()" "0 \<le> lo" "hi \<le> p95_latency_limit_s cfg" "hi \<le> lo * p95_degrade_ratio cfg"
    and "provider_run sha cfg d (t0, new_state) (t, st)" "provider_run sha cfg d (t, st) (t', st')"
    and "dict_get (ps_routes st) i = Some r" "pr_healthy_successes r = 0" "pr_cooldown_until r \<le> t" "in_band lo hi r"
    and "ps_ledger st' = ps_ledger st @ es" "list_all (healthy_event lo hi) (outcomes i es)"
  shows "\<exists>r'. dict_get (ps_routes st') i = Some r' \<and> pr_limit r' = min (pr_max_limit r)
    (pr_limit r + int (length (outcomes i es)) div healthy_successes_to_increase cfg * increase_step cfg)"
proof -
  have "pr_limit r \<le> pr_max_limit r" using provider_limits_bounds [OF assms(1,5,7)] by simp
  then have "recovering cfg lo hi i (pr_max_limit r) (pr_limit r) (ps_ledger st) t st"
    using assms by (simp add: recovering_def config_ok_def band_ok_def outcomes_def grown_def)
  from recovery.run_kept [OF assms(6) this] show ?thesis
    using assms(11,12) by (auto simp: recovering_def grown_def)
qed

section \<open>A route that recovers\<close>

abbreviation quick_cfg :: ProviderAdmissionConfig where
  "quick_cfg \<equiv> default_provider_config\<lparr>healthy_successes_to_increase := 1\<rparr>"

abbreviation quick_id :: string where
  "quick_id \<equiv> replicate 32 (CHR ''0'')"

abbreviation quick2 :: provider_state where
  "quick2 \<equiv> demo4\<lparr>ps_leases := [(quick_id, demo_lease quick_id ''x'' 3)], ps_waiters := [],
    ps_ledger := [RouteRegistered 0 ''r'' 4, WaitStarted 1 ''r'' ''a'', LeaseAcquired 3 ''r'' quick_id 4]\<rparr>"

abbreviation quick3 :: provider_state where
  "quick3 \<equiv> quick2\<lparr>ps_leases := [], ps_routes := [(''r'', (demo_route [3])\<lparr>pr_samples := [\<lparr>rs_at = 4, rs_tokens = 7, rs_latency_s = Some 1,
       rs_success = True, rs_stream_error = False, rs_failure = None\<rparr>], pr_successful_requests := 1, pr_limit := 6\<rparr>)],
     ps_ledger := [RouteRegistered 0 ''r'' 4, WaitStarted 1 ''r'' ''a'', LeaseAcquired 3 ''r'' quick_id 4,
       RequestDone 4 ''r'' quick_id ''success'' 7 (Some 1), LimitChanged 4 ''r'' 4 6 (Some ''healthy_increase'') 0]\<rparr>"

lemma quick_register:
  "snd (ProviderAdmission_register_route quick_cfg 0 ''r'' (Some 4) (Some 8) (Some 2) None new_state) = demo1"
  by (simp add: demo_wait_defs)

lemma quick_wait: "acquire_ticket id quick_cfg 1 ''a'' ''r'' ''x'' 100 5 demo1 = (demo_ticket ''a'' ''x'' 1, demo2)"
  by (simp add: demo_wait_defs)

lemma quick_turn: "snd (provider_round quick_cfg 3 False quick_id (demo_ticket ''a'' ''x'' 1) demo2) = quick2"
  by (simp add: demo_turn_defs)

lemma quick_complete: "snd (ProviderAdmission_complete quick_cfg 4 quick_id True 7 (Some 1) None quick2) = quick3"
  by (simp add: ProviderAdmission_complete_def validate_opaque_id_def list_all_iff of_char_def record_outcome_def adjust_limit_def
      degraded_def note_best_p95_def enough_latencies_def latencies_def map_filter_def percentile_def dict_pop_def demo_defs)

lemma quick_steps:
  "provider_step id quick_cfg 0 (0, new_state) (0, demo1)" "provider_step id quick_cfg 0 (0, demo1) (1, demo2)"
  "provider_step id quick_cfg 0 (1, demo2) (3, quick2)" "provider_step id quick_cfg 0 (3, quick2) (4, quick3)"
proof -
  show "provider_step id quick_cfg 0 (0, new_state) (0, demo1)"
    using provider_step.register [of 0 0 id quick_cfg 0 new_state "''r''" "Some 4" "Some 8" "Some 2" None]
    by (simp only: quick_register order.refl simp_thms)
  show "provider_step id quick_cfg 0 (0, demo1) (1, demo2)"
    using provider_step.ticket [of 0 1 1 0 "''a''" demo1 "''r''" id quick_cfg "''x''" 100 5] unfolding quick_wait
    by (simp add: issued_def dict_get_def)
  show "provider_step id quick_cfg 0 (1, demo2) (3, quick2)"
    using provider_step.turn [of 1 3 3 0 demo2 quick_id id quick_cfg False "demo_ticket ''a'' ''x'' 1"] unfolding quick_turn by simp
  show "provider_step id quick_cfg 0 (3, quick2) (4, quick3)"
    using provider_step.complete [of 3 4 id quick_cfg 0 quick2 quick_id True 7 "Some 1" None] unfolding quick_complete by simp
qed

lemma quick_runs: "provider_run id quick_cfg 0 (0, new_state) (0, demo1)" "provider_run id quick_cfg 0 (0, demo1) (4, quick3)"
  using quick_steps by (meson r_into_rtranclp rtranclp.rtrancl_into_rtrancl)+

lemma provider_recovers_witness: "\<exists>r. dict_get (ps_routes quick3) ''r'' = Some r \<and> pr_limit r = 6"
proof -
  have "ProviderAdmissionConfig_check quick_cfg = Inr ()" by (simp add: ProviderAdmissionConfig_check_def demo_defs)
  from provider_recovers [OF this _ _ _ quick_runs, of 1 2 "''r''" "demo_route []" "[WaitStarted 1 ''r'' ''a'',
      LeaseAcquired 3 ''r'' quick_id 4, RequestDone 4 ''r'' quick_id ''success'' 7 (Some 1),
      LimitChanged 4 ''r'' 4 6 (Some ''healthy_increase'') 0]"]
  show ?thesis
    by (simp add: outcomes_def in_band_def latencies_def map_filter_def demo_route_def new_route_def default_provider_config_def dict_get_def)
qed

end
