(* ===== verification/Env_Pool.thy ===== *)
theory Env_Pool
  imports Api
begin

text \<open>
  \<^verbatim>\<open>rollout_runtime/workers/env_worker.py\<close>, class \<open>EnvPool\<close>: the slots of one environment specification on an
  EnvWorker. Warm slots wait for a session, active ones serve one; a resizable core gets a new slot when no warm
  one is left (a cold creation, in a thread of its own) and loses its last one when it is idle. The state lock is
  only held between awaits, so each block under it is one operation; what happens between the blocks is in the
  steps at the end, with the core as its protocol documents it (\<open>DynamicSlotPool\<close>) and as
  \<^verbatim>\<open>rollout_runtime/backends/fake/env.py\<close> implements it.
\<close>

section \<open>The resizable core\<close>

text \<open>\<open>core_resizable\<close>: the core offers \<open>add_slot\<close>, \<open>remove_slot\<close> and \<open>slot_count\<close>.\<close>

record EnvCore =
  core_lockstep :: bool
  core_resizable :: bool
  core_slots :: int

definition EnvCore_add_slot :: "(EnvCore, exn, int) sem" where
  "EnvCore_add_slot c =
     (if core_lockstep c
      then (Inl (RuntimeApiError (make_error E_INVALID_ARGUMENT
              [Text ''cannot add a slot to a lockstep_vector pool: all lanes share one vector env instance'']
              [(''core_form'', PyStr ''lockstep_vector'')])), c)
      else (Inr (core_slots c), c\<lparr>core_slots := core_slots c + 1\<rparr>))"

definition EnvCore_remove_slot :: "int \<Rightarrow> (EnvCore, exn, unit) sem" where
  "EnvCore_remove_slot slot_index c =
     (if core_lockstep c
      then (Inl (RuntimeApiError (make_error E_INVALID_ARGUMENT
              [Text ''cannot remove a slot from a lockstep_vector pool: all lanes share one vector env instance'']
              [(''core_form'', PyStr ''lockstep_vector'')])), c)
      else
        (let last_index = core_slots c - 1 in
         if slot_index \<noteq> last_index
         then (Inl (RuntimeApiError (make_error E_INVALID_ARGUMENT
                 [Text ''can only remove the trailing slot (expected '', IntF last_index, Text '', got '', IntF slot_index, Text '')'']
                 [(''requested_slot'', PyInt slot_index), (''trailing_slot'', PyInt last_index)])), c)
         else (Inr (), c\<lparr>core_slots := last_index\<rparr>)))"

section \<open>The pool\<close>

record EnvPool =
  ep_pool_key :: string
  ep_env_spec :: EnvSpecMsg
  warm_free_slots :: "int list"
  active_slots :: "int set"
  ep_core :: "EnvCore option"
  ep_unhealthy :: bool
  pending_bindings :: int
  ep_evicting :: bool
  pending_cold_creates :: int
  reserved_slot_count :: int
  next_seed_offset_hint :: int
  min_pool_size :: int

definition EnvPool_init :: "string \<Rightarrow> EnvSpecMsg \<Rightarrow> EnvCore option \<Rightarrow> EnvPool" where
  "EnvPool_init pool_key env_spec core =
     \<lparr>ep_pool_key = pool_key, ep_env_spec = env_spec, warm_free_slots = [0..pool_size env_spec - 1],
      active_slots = {}, ep_core = core, ep_unhealthy = False, pending_bindings = 0, ep_evicting = False,
      pending_cold_creates = 0, reserved_slot_count = pool_size env_spec,
      next_seed_offset_hint = pool_size env_spec, min_pool_size = pool_size env_spec\<rparr>"

definition EnvPool_pool_size :: "EnvPool \<Rightarrow> int" where
  "EnvPool_pool_size p =
     (case ep_core p of
        None \<Rightarrow> pool_size (ep_env_spec p)
      | Some c \<Rightarrow> if core_resizable c then core_slots c else pool_size (ep_env_spec p))"

definition EnvPool_in_use :: "EnvPool \<Rightarrow> int" where
  "EnvPool_in_use p = int (card (active_slots p))"

definition EnvPool_lockstep :: "EnvPool \<Rightarrow> bool" where
  "EnvPool_lockstep p = (case ep_core p of None \<Rightarrow> False | Some c \<Rightarrow> core_lockstep c)"

definition EnvPool_dynamic :: "EnvPool \<Rightarrow> bool" where
  "EnvPool_dynamic p = (case ep_core p of None \<Rightarrow> False | Some c \<Rightarrow> \<not> core_lockstep c \<and> core_resizable c)"

abbreviation pool_max :: "EnvPool \<Rightarrow> int" where
  "pool_max p \<equiv> EnvSpecMsg_effective_max_pool_size (ep_env_spec p)"

text \<open>Taking a warm slot: the one \<open>list.pop()\<close> gives, at the end.\<close>

definition take_warm :: "EnvPool \<Rightarrow> int \<times> EnvPool" where
  "take_warm p =
     (let slot_index = last (warm_free_slots p)
      in (slot_index, p\<lparr>warm_free_slots := butlast (warm_free_slots p), active_slots := insert slot_index (active_slots p)\<rparr>))"

definition EnvPool_acquire :: "(EnvPool, exn, int) sem" where
  "EnvPool_acquire p =
     (if warm_free_slots p = []
      then (Inl (RuntimeApiError (make_error E_QUOTA_EXCEEDED
              [Text ''env pool '', Text (take 12 (ep_pool_key p)), Text '' has no warm free slot'']
              [(''pool_key'', PyStr (ep_pool_key p)), (''pool_size'', PyInt (EnvPool_pool_size p))])), p)
      else (case take_warm p of (i, p') \<Rightarrow> (Inr i, p')))"

text \<open>One more cold creation: its seed offset, and the slot it will have.\<close>

definition reserve_slot :: "EnvPool \<Rightarrow> int \<times> EnvPool" where
  "reserve_slot p =
     (next_seed_offset_hint p,
      p\<lparr>next_seed_offset_hint := next_seed_offset_hint p + 1, reserved_slot_count := reserved_slot_count p + 1,
        pending_cold_creates := pending_cold_creates p + 1\<rparr>)"

definition reserve_cold_create :: "(EnvPool, exn, int) sem" where
  "reserve_cold_create p =
     (if \<not> EnvPool_dynamic p
      then (Inl (RuntimeApiError (make_error E_QUOTA_EXCEEDED
              [Text ''env pool '', Text (take 12 (ep_pool_key p)), Text '' is full ('', IntF (EnvPool_pool_size p),
               Text '' slots); dynamic growth is not supported for this core form/family'']
              [(''pool_key'', PyStr (ep_pool_key p)), (''pool_size'', PyInt (EnvPool_pool_size p)),
               (''max_dynamic_pool_size'', PyInt (pool_max p)), (''dynamic'', PyBool False)])), p)
      else if reserved_slot_count p \<ge> pool_max p
      then (Inl (RuntimeApiError (make_error E_QUOTA_EXCEEDED
              [Text ''env pool '', Text (take 12 (ep_pool_key p)), Text '' is full ('', IntF (EnvPool_pool_size p),
               Text '' slots); reached max_dynamic_pool_size='', IntF (pool_max p)]
              [(''pool_key'', PyStr (ep_pool_key p)), (''pool_size'', PyInt (EnvPool_pool_size p)),
               (''max_dynamic_pool_size'', PyInt (pool_max p)), (''dynamic'', PyBool True)])), p)
      else (case reserve_slot p of (seed, p') \<Rightarrow> (Inr seed, p')))"

text \<open>\<open>acquire_or_grow\<close>: the first block under the lock gives a warm slot (\<open>Inl\<close>) or the seed offset of a cold
  creation (\<open>Inr\<close>); the other two blocks follow the creation.\<close>

definition take_or_reserve :: "(EnvPool, exn, int + int) sem" where
  "take_or_reserve p =
     (if warm_free_slots p \<noteq> [] then (case take_warm p of (i, p') \<Rightarrow> (Inr (Inl i), p'))
      else (case reserve_cold_create p of (Inl e, p') \<Rightarrow> (Inl e, p') | (Inr seed, p') \<Rightarrow> (Inr (Inr seed), p')))"

definition cold_create_failed :: "EnvPool \<Rightarrow> EnvPool" where
  "cold_create_failed p =
     p\<lparr>pending_cold_creates := max 0 (pending_cold_creates p - 1),
       reserved_slot_count := max (min_pool_size p) (reserved_slot_count p - 1)\<rparr>"

definition cold_create_recorded :: "int \<Rightarrow> EnvPool \<Rightarrow> EnvPool" where
  "cold_create_recorded new_index p =
     p\<lparr>pending_cold_creates := max 0 (pending_cold_creates p - 1),
       reserved_slot_count := max (reserved_slot_count p) (new_index + 1)\<rparr>"

definition acquire_created :: "int \<Rightarrow> EnvPool \<Rightarrow> EnvPool" where
  "acquire_created new_index p =
     (let p1 = cold_create_recorded new_index p in p1\<lparr>active_slots := insert new_index (active_slots p1)\<rparr>)"

text \<open>\<open>_cold_create_slot\<close>: what the core raises, with running out of memory made explicit.\<close>

fun cold_create_error :: "EnvPool \<Rightarrow> exn \<Rightarrow> exn" where
  "cold_create_error p (RuntimeApiError info) = RuntimeApiError info"
| "cold_create_error p (PyExn k name text) =
     (if name = ''MemoryError''
      then RuntimeApiError (make_error E_RESOURCE_EXHAUSTED
             ([Text ''failed to create env slot for pool '', Text (take 12 (ep_pool_key p)), Text '': ''] @ text)
             [(''reason'', PyStr ''OOM''), (''resource'', PyStr ''gpu_memory''), (''pool_key'', PyStr (ep_pool_key p))])
      else PyExn k name text)"

text \<open>\<open>grow\<close>: the block that opens an iteration (\<open>None\<close>: the loop ends) and the one that closes it.\<close>

definition grow_reserve :: "EnvPool \<Rightarrow> int option \<times> EnvPool" where
  "grow_reserve p =
     (if \<not> EnvPool_dynamic p \<or> reserved_slot_count p \<ge> pool_max p then (None, p)
      else (case reserve_slot p of (seed, p') \<Rightarrow> (Some seed, p')))"

definition put_warm :: "int \<Rightarrow> EnvPool \<Rightarrow> EnvPool" where
  "put_warm i p = (if i \<in> set (warm_free_slots p) then p else p\<lparr>warm_free_slots := sort (warm_free_slots p @ [i])\<rparr>)"

definition grow_created :: "int \<Rightarrow> EnvPool \<Rightarrow> EnvPool" where
  "grow_created new_index p =
     (let p1 = cold_create_recorded new_index p
      in if new_index \<notin> active_slots p1 then put_warm new_index p1 else p1)"

text \<open>\<open>shrink_idle\<close>: the block that gives the last slot up (\<open>None\<close>: the loop ends), and the one that takes it
  back when the core does not remove it.\<close>

definition shrink_reserve :: "int option \<Rightarrow> EnvPool \<Rightarrow> int option \<times> EnvPool" where
  "shrink_reserve keep_at_least p =
     (let lowest = (case keep_at_least of None \<Rightarrow> min_pool_size p | Some k \<Rightarrow> k);
          last_index = reserved_slot_count p - 1
      in if \<not> EnvPool_dynamic p \<or> reserved_slot_count p \<le> lowest \<or> pending_cold_creates p \<noteq> 0
            \<or> last_index \<notin> set (warm_free_slots p) \<or> last_index \<in> active_slots p
         then (None, p)
         else (Some last_index,
               p\<lparr>warm_free_slots := filter (\<lambda>i. i \<noteq> last_index) (warm_free_slots p),
                 reserved_slot_count := reserved_slot_count p - 1\<rparr>))"

definition shrink_refused :: "int \<Rightarrow> EnvPool \<Rightarrow> EnvPool" where
  "shrink_refused last_index p = put_warm last_index (p\<lparr>reserved_slot_count := reserved_slot_count p + 1\<rparr>)"

definition EnvPool_release :: "int \<Rightarrow> EnvPool \<Rightarrow> EnvPool" where
  "EnvPool_release slot_index p =
     (if 0 \<le> slot_index \<and> slot_index < reserved_slot_count p
      then put_warm slot_index (p\<lparr>active_slots := active_slots p - {slot_index}\<rparr>) else p)"

text \<open>\<open>close\<close>: the core is dropped even if closing it raises.\<close>

definition EnvPool_close :: "EnvPool \<Rightarrow> EnvPool" where
  "EnvPool_close p =
     p\<lparr>active_slots := {}, warm_free_slots := [0..EnvPool_pool_size p - 1], ep_core := None\<rparr>"

section \<open>Concurrent runs\<close>

text \<open>A pool with the cold creations that wait for the core, those the core has done and that are not recorded
  yet, those that failed and whose reservation is not given back yet, the slot that a shrink has handed to
  the core or must take back, the threads of cancelled creations that still run \<open>add_slot\<close>, and the slots
  that such threads have added to the core and the pool does not know of.\<close>

record pool_run =
  run_pool :: EnvPool
  run_building :: nat
  run_built :: "int list"
  run_failed :: nat
  run_removing :: "int option"
  run_refused :: "int option"
  run_detached :: nat
  run_untracked :: "int list"

abbreviation idle_run :: "EnvPool \<Rightarrow> pool_run" where
  "idle_run p \<equiv> \<lparr>run_pool = p, run_building = 0, run_built = [], run_failed = 0, run_removing = None, run_refused = None,
     run_detached = 0, run_untracked = []\<rparr>"

inductive pool_step :: "pool_run \<Rightarrow> pool_run \<Rightarrow> bool" where
  take: "take_or_reserve (run_pool s) = (Inr (Inl i), p) \<Longrightarrow> pool_step s (s\<lparr>run_pool := p\<rparr>)"
| reserve: "take_or_reserve (run_pool s) = (Inr (Inr seed), p) \<Longrightarrow>
    pool_step s (s\<lparr>run_pool := p, run_building := Suc (run_building s)\<rparr>)"
| pre_warm: "grow_reserve (run_pool s) = (Some seed, p) \<Longrightarrow>
    pool_step s (s\<lparr>run_pool := p, run_building := Suc (run_building s)\<rparr>)"
| core_adds: "run_building s = Suc n \<Longrightarrow> ep_core (run_pool s) = Some c \<Longrightarrow> EnvCore_add_slot c = (Inr i, c') \<Longrightarrow>
    pool_step s (s\<lparr>run_pool := (run_pool s)\<lparr>ep_core := Some c'\<rparr>, run_building := n, run_built := run_built s @ [i]\<rparr>)"
| core_fails: "run_building s = Suc n \<Longrightarrow> pool_step s (s\<lparr>run_building := n, run_failed := Suc (run_failed s)\<rparr>)"
| created: "run_built s = xs @ i # ys \<Longrightarrow>
    pool_step s (s\<lparr>run_pool := acquire_created i (run_pool s), run_built := xs @ ys\<rparr>)"
| pre_warmed: "run_built s = xs @ i # ys \<Longrightarrow>
    pool_step s (s\<lparr>run_pool := grow_created i (run_pool s), run_built := xs @ ys\<rparr>)"
| given_back: "run_failed s = Suc n \<Longrightarrow>
    pool_step s (s\<lparr>run_pool := cold_create_failed (run_pool s), run_failed := n\<rparr>)"
| shrink: "run_removing s = None \<Longrightarrow> run_refused s = None \<Longrightarrow> shrink_reserve keep (run_pool s) = (Some i, p) \<Longrightarrow>
    pool_step s (s\<lparr>run_pool := p, run_removing := Some i\<rparr>)"
| core_removes: "run_removing s = Some i \<Longrightarrow> ep_core (run_pool s) = Some c \<Longrightarrow> EnvCore_remove_slot i c = (Inr (), c') \<Longrightarrow>
    pool_step s (s\<lparr>run_pool := (run_pool s)\<lparr>ep_core := Some c'\<rparr>, run_removing := None\<rparr>)"
| core_refuses: "run_removing s = Some i \<Longrightarrow> ep_core (run_pool s) = Some c \<Longrightarrow> EnvCore_remove_slot i c = (Inl e, c') \<Longrightarrow>
    pool_step s (s\<lparr>run_removing := None, run_refused := Some i\<rparr>)"
| taken_back: "run_refused s = Some i \<Longrightarrow>
    pool_step s (s\<lparr>run_pool := shrink_refused i (run_pool s), run_refused := None\<rparr>)"
| release: "i \<in> active_slots (run_pool s) \<Longrightarrow> pool_step s (s\<lparr>run_pool := EnvPool_release i (run_pool s)\<rparr>)"

inductive_cases pool_stepE: "pool_step s s'"

text \<open>A cancelled cold creation (\<open>_cold_create_slot\<close> awaits \<open>asyncio.to_thread(core.add_slot, ...)\<close>): the coroutine
  fails and gives its reservation back, but the thread runs on and its slot, if it gets one, belongs to nobody;
  so does a slot whose creation is cancelled after the core has made it.\<close>

inductive pool_cancel :: "pool_run \<Rightarrow> pool_run \<Rightarrow> bool" where
  creation_cancelled: "run_building s = Suc n \<Longrightarrow>
    pool_cancel s (s\<lparr>run_building := n, run_failed := Suc (run_failed s), run_detached := Suc (run_detached s)\<rparr>)"
| built_cancelled: "run_built s = xs @ i # ys \<Longrightarrow>
    pool_cancel s (s\<lparr>run_built := xs @ ys, run_failed := Suc (run_failed s), run_untracked := run_untracked s @ [i]\<rparr>)"
| detached_adds: "run_detached s = Suc n \<Longrightarrow> ep_core (run_pool s) = Some c \<Longrightarrow> EnvCore_add_slot c = (Inr i, c') \<Longrightarrow>
    pool_cancel s (s\<lparr>run_pool := (run_pool s)\<lparr>ep_core := Some c'\<rparr>, run_detached := n, run_untracked := run_untracked s @ [i]\<rparr>)"
| detached_fails: "run_detached s = Suc n \<Longrightarrow> pool_cancel s (s\<lparr>run_detached := n\<rparr>)"

definition pool_event :: "pool_run \<Rightarrow> pool_run \<Rightarrow> bool" where
  "pool_event s s' \<longleftrightarrow> pool_step s s' \<or> pool_cancel s s'"

text \<open>A removal that fails after the core has dropped the slot: \<open>remove_slot\<close> of the libero and robocasa cores
  pops the slot and then closes its environment, which may raise; \<open>shrink_idle\<close> takes the slot back all the same.\<close>

inductive pool_fault :: "pool_run \<Rightarrow> pool_run \<Rightarrow> bool" where
  close_raises: "run_removing s = Some i \<Longrightarrow> ep_core (run_pool s) = Some c \<Longrightarrow> EnvCore_remove_slot i c = (Inr (), c') \<Longrightarrow>
    pool_fault s (s\<lparr>run_pool := (run_pool s)\<lparr>ep_core := Some c'\<rparr>, run_removing := None, run_refused := Some i\<rparr>)"

section \<open>Every slot in one place\<close>

abbreviation core_count :: "pool_run \<Rightarrow> int" where
  "core_count s \<equiv> (case ep_core (run_pool s) of None \<Rightarrow> 0 | Some c \<Rightarrow> core_slots c)"

definition places :: "pool_run \<Rightarrow> int \<Rightarrow> nat" where
  "places s i = count_list (warm_free_slots (run_pool s)) i + of_bool (i \<in> active_slots (run_pool s))
     + count_list (run_built s) i + of_bool (run_removing s = Some i) + of_bool (run_refused s = Some i)
     + count_list (run_untracked s) i"

text \<open>The units a shrink holds back: one between its first block and its end.\<close>

definition held_back :: "pool_run \<Rightarrow> int" where
  "held_back s = of_bool (run_removing s \<noteq> None \<or> run_refused s \<noteq> None)"

definition pool_ok :: "pool_run \<Rightarrow> bool" where
  "pool_ok s \<longleftrightarrow> ep_core (run_pool s) \<noteq> None \<and> 0 \<le> core_count s
     \<and> (\<forall>i. places s i = of_bool (0 \<le> i \<and> i < core_count s))
     \<and> pending_cold_creates (run_pool s) = int (run_building s + length (run_built s) + run_failed s)
     \<and> (run_removing s = None \<or> run_refused s = None)
     \<and> core_count s + int (run_building s + run_failed s) \<le> reserved_slot_count (run_pool s) + held_back s + int (length (run_untracked s))
     \<and> core_count s + int (run_building s) \<le> pool_max (run_pool s) + 1 + int (length (run_untracked s))"

lemma count_list_butlast: "xs \<noteq> [] \<Longrightarrow> count_list (butlast xs) i + of_bool (i = last xs) = count_list xs i"
  by (induction xs) auto

lemma count_list_filter: "count_list (filter P xs) i = (if P i then count_list xs i else 0)"
  by (induction xs) auto

lemma count_list_sort [simp]: "count_list (sort xs) i = count_list xs i"
  by (metis count_mset mset_sort)

lemma pool_ok_places:
  assumes "pool_ok s"
  shows "places s i = of_bool (0 \<le> i \<and> i < core_count s)"
  using assms by (simp add: pool_ok_def)

lemma pool_okD:
  assumes "pool_ok s"
  shows "ep_core (run_pool s) \<noteq> None" "0 \<le> core_count s"
    and "pending_cold_creates (run_pool s) = int (run_building s + length (run_built s) + run_failed s)"
    and "run_removing s = None \<or> run_refused s = None"
    and "core_count s + int (run_building s + run_failed s) \<le> reserved_slot_count (run_pool s) + held_back s + int (length (run_untracked s))"
    and "core_count s + int (run_building s) \<le> pool_max (run_pool s) + 1 + int (length (run_untracked s))"
  using assms by (simp_all add: pool_ok_def)

lemma places_le: "pool_ok s \<Longrightarrow> places s i \<le> 1"
  by (simp add: pool_ok_places)

lemma count_list_pos: "i \<in> set xs \<Longrightarrow> 1 \<le> count_list xs i"
  by (induction xs) auto

text \<open>A change of the pool that moves slots between the places and keeps the rest.\<close>

lemma pool_ok_moved:
  assumes "pool_ok s" "\<And>i. places s' i = places s i" "ep_core (run_pool s') = ep_core (run_pool s)"
    and "pending_cold_creates (run_pool s') = int (run_building s' + length (run_built s') + run_failed s')"
    and "run_removing s' = None \<or> run_refused s' = None"
    and "core_count s + int (run_building s' + run_failed s') \<le> reserved_slot_count (run_pool s') + held_back s' + int (length (run_untracked s'))"
    and "core_count s + int (run_building s') \<le> pool_max (run_pool s) + 1 + int (length (run_untracked s'))" "ep_env_spec (run_pool s') = ep_env_spec (run_pool s)"
  shows "pool_ok s'"
  using assms by (simp add: pool_ok_def)

lemma take_or_reserve_cases:
  assumes "take_or_reserve p = (Inr r, p')"
  shows "(\<exists>i. r = Inl i \<and> warm_free_slots p \<noteq> [] \<and> take_warm p = (i, p'))
    \<or> (\<exists>seed. r = Inr seed \<and> EnvPool_dynamic p \<and> reserved_slot_count p < pool_max p \<and> reserve_slot p = (seed, p'))"
  using assms by (auto simp: take_or_reserve_def reserve_cold_create_def split: if_splits prod.splits sum.splits)

lemma pool_ok_take:
  assumes "pool_ok s" "warm_free_slots (run_pool s) \<noteq> []" "take_warm (run_pool s) = (i, p)"
  shows "pool_ok (s\<lparr>run_pool := p\<rparr>)"
proof (rule pool_ok_moved [OF assms(1)])
  let ?w = "warm_free_slots (run_pool s)"
  have p: "p = (run_pool s)\<lparr>warm_free_slots := butlast ?w, active_slots := insert i (active_slots (run_pool s))\<rparr>" "i = last ?w"
    using assms(3) by (auto simp: take_warm_def Let_def)
  have "i \<notin> active_slots (run_pool s)"
    using places_le [OF assms(1), of i] count_list_pos [of i ?w] assms(2) p(2) by (auto simp: places_def)
  then show "places (s\<lparr>run_pool := p\<rparr>) j = places s j" for j
    using count_list_butlast [OF assms(2), of j] p by (cases "j = i") (auto simp: places_def)
qed (use pool_okD [OF assms(1)] assms(3) in \<open>auto simp: take_warm_def Let_def held_back_def\<close>)

lemma pool_ok_reserve:
  assumes "pool_ok s" "reserved_slot_count (run_pool s) < pool_max (run_pool s)" "reserve_slot (run_pool s) = (seed, p)"
  shows "pool_ok (s\<lparr>run_pool := p, run_building := Suc (run_building s)\<rparr>)"
proof (rule pool_ok_moved [OF assms(1)])
  have "held_back s \<le> 1" by (simp add: held_back_def)
  then show "core_count s + int (run_building (s\<lparr>run_pool := p, run_building := Suc (run_building s)\<rparr>)) \<le> pool_max (run_pool s) + 1
      + int (length (run_untracked (s\<lparr>run_pool := p, run_building := Suc (run_building s)\<rparr>)))"
    using pool_okD(5) [OF assms(1)] assms(2) by simp
qed (use pool_okD [OF assms(1)] assms(2,3) in \<open>auto simp: reserve_slot_def places_def held_back_def\<close>)

lemma put_warm_fields [simp]:
  "active_slots (put_warm i p) = active_slots p" "ep_core (put_warm i p) = ep_core p"
  "pending_cold_creates (put_warm i p) = pending_cold_creates p" "reserved_slot_count (put_warm i p) = reserved_slot_count p"
  "ep_env_spec (put_warm i p) = ep_env_spec p" "min_pool_size (put_warm i p) = min_pool_size p"
  by (simp_all add: put_warm_def)

lemma count_put_warm:
  "i \<notin> set (warm_free_slots p) \<Longrightarrow> count_list (warm_free_slots (put_warm i p)) j = count_list (warm_free_slots p) j + of_bool (j = i)"
  by (simp add: put_warm_def)

lemma count_list_split: "count_list (xs @ i # ys) j = count_list (xs @ ys) j + of_bool (j = i)"
  by (induction xs) auto

lemma pool_ok_add:
  assumes "pool_ok s" "run_building s = Suc n" "ep_core (run_pool s) = Some c" "EnvCore_add_slot c = (Inr i, c')"
  shows "pool_ok (s\<lparr>run_pool := (run_pool s)\<lparr>ep_core := Some c'\<rparr>, run_building := n, run_built := run_built s @ [i]\<rparr>)"
proof -
  have c: "i = core_slots c" "c' = c\<lparr>core_slots := core_slots c + 1\<rparr>"
    using assms(4) by (auto simp: EnvCore_add_slot_def split: if_splits)
  have "places (s\<lparr>run_pool := (run_pool s)\<lparr>ep_core := Some c'\<rparr>, run_building := n, run_built := run_built s @ [i]\<rparr>) j
      = places s j + of_bool (j = i)" for j
    by (simp add: places_def)
  moreover have "places s j = of_bool (0 \<le> j \<and> j < core_slots c)" for j
    using pool_ok_places [OF assms(1)] assms(3) by simp
  moreover have "0 \<le> core_slots c" using assms(1,3) by (simp add: pool_ok_def)
  ultimately show ?thesis using pool_okD [OF assms(1)] assms(2,3) c by (auto simp: pool_ok_def held_back_def)
qed

lemma pool_ok_created:
  assumes "pool_ok s" "run_built s = xs @ i # ys"
  shows "pool_ok (s\<lparr>run_pool := acquire_created i (run_pool s), run_built := xs @ ys\<rparr>)"
    and "pool_ok (s\<lparr>run_pool := grow_created i (run_pool s), run_built := xs @ ys\<rparr>)"
proof -
  have i: "i \<notin> active_slots (run_pool s)" "i \<notin> set (warm_free_slots (run_pool s))"
    using places_le [OF assms(1), of i] count_list_pos [of i "warm_free_slots (run_pool s)"] assms(2)
    by (auto simp: places_def count_list_split)
  have old: "places s j = count_list (warm_free_slots (run_pool s)) j + of_bool (j \<in> active_slots (run_pool s))
      + count_list (xs @ ys) j + of_bool (j = i) + of_bool (run_removing s = Some j) + of_bool (run_refused s = Some j)
      + count_list (run_untracked s) j" for j
    unfolding places_def assms(2) count_list_split by simp
  show "pool_ok (s\<lparr>run_pool := acquire_created i (run_pool s), run_built := xs @ ys\<rparr>)"
    by (rule pool_ok_moved [OF assms(1)])
      (use pool_okD [OF assms(1)] assms(2) i in \<open>auto simp: old places_def acquire_created_def cold_create_recorded_def Let_def held_back_def\<close>)
  show "pool_ok (s\<lparr>run_pool := grow_created i (run_pool s), run_built := xs @ ys\<rparr>)"
    by (rule pool_ok_moved [OF assms(1)])
      (use pool_okD [OF assms(1)] assms(2) i in \<open>auto simp: old places_def grow_created_def cold_create_recorded_def Let_def held_back_def count_put_warm\<close>)
qed

lemma pool_ok_shrink:
  assumes "pool_ok s" "run_removing s = None" "run_refused s = None" "shrink_reserve keep (run_pool s) = (Some i, p)"
  shows "pool_ok (s\<lparr>run_pool := p, run_removing := Some i\<rparr>)"
proof -
  let ?p = "run_pool s"
  have i: "i = reserved_slot_count ?p - 1" "pending_cold_creates ?p = 0" "i \<in> set (warm_free_slots ?p)"
    and p: "p = ?p\<lparr>warm_free_slots := filter (\<lambda>j. j \<noteq> i) (warm_free_slots ?p), reserved_slot_count := reserved_slot_count ?p - 1\<rparr>"
    using assms(4) by (auto simp: shrink_reserve_def Let_def split: if_splits)
  have "count_list (warm_free_slots ?p) i = 1"
    using places_le [OF assms(1), of i] count_list_pos [OF i(3)] by (simp add: places_def)
  then have "places (s\<lparr>run_pool := p, run_removing := Some i\<rparr>) j = places s j" for j
    using assms(2,3) p by (auto simp: places_def count_list_filter)
  then show ?thesis
    by (rule pool_ok_moved [OF assms(1)]) (use pool_okD [OF assms(1)] assms(2,3) i p in \<open>auto simp: held_back_def\<close>)
qed

lemma pool_ok_removed:
  assumes "pool_ok s" "run_removing s = Some i" "ep_core (run_pool s) = Some c" "EnvCore_remove_slot i c = (Inr (), c')"
  shows "pool_ok (s\<lparr>run_pool := (run_pool s)\<lparr>ep_core := Some c'\<rparr>, run_removing := None\<rparr>)"
proof -
  have c: "i = core_slots c - 1" "c' = c\<lparr>core_slots := core_slots c - 1\<rparr>"
    using assms(4) by (auto simp: EnvCore_remove_slot_def Let_def split: if_splits)
  have "places (s\<lparr>run_pool := (run_pool s)\<lparr>ep_core := Some c'\<rparr>, run_removing := None\<rparr>) j + of_bool (j = i) = places s j" for j
    using assms(2) by (simp add: places_def)
  moreover have pl: "places s j = of_bool (0 \<le> j \<and> j < core_slots c)" for j
    using pool_ok_places [OF assms(1)] assms(3) by simp
  ultimately have eq: "places (s\<lparr>run_pool := (run_pool s)\<lparr>ep_core := Some c'\<rparr>, run_removing := None\<rparr>) j
      + of_bool (j = core_slots c - 1) = of_bool (0 \<le> j \<and> j < core_slots c)" for j
    using c(1) by metis
  have "1 \<le> places s i" using assms(2) by (simp add: places_def)
  then have pos: "0 < core_slots c" using pl [of i] by (cases "0 \<le> i \<and> i < core_slots c") auto
  have "places (s\<lparr>run_pool := (run_pool s)\<lparr>ep_core := Some c'\<rparr>, run_removing := None\<rparr>) j
      = of_bool (0 \<le> j \<and> j < core_slots c - 1)" for j
    using eq [of j] pos by (cases "j = core_slots c - 1") auto
  then show ?thesis using pool_okD [OF assms(1)] assms(2,3) c pos by (auto simp: pool_ok_def held_back_def)
qed

lemma pool_ok_taken_back:
  assumes "pool_ok s" "run_refused s = Some i"
  shows "pool_ok (s\<lparr>run_pool := shrink_refused i (run_pool s), run_refused := None\<rparr>)"
proof -
  have "i \<notin> set (warm_free_slots (run_pool s))"
    using places_le [OF assms(1), of i] count_list_pos [of i "warm_free_slots (run_pool s)"] assms(2)
    by (auto simp: places_def)
  then show ?thesis
    by (intro pool_ok_moved [OF assms(1)])
      (use pool_okD [OF assms(1)] assms(2) in \<open>auto simp: places_def shrink_refused_def held_back_def count_put_warm\<close>)
qed

lemma pool_ok_release:
  assumes "pool_ok s" "i \<in> active_slots (run_pool s)"
  shows "pool_ok (s\<lparr>run_pool := EnvPool_release i (run_pool s)\<rparr>)"
proof -
  have "i \<notin> set (warm_free_slots (run_pool s))"
    using places_le [OF assms(1), of i] count_list_pos [of i "warm_free_slots (run_pool s)"] assms(2)
    by (auto simp: places_def)
  then show ?thesis
    by (intro pool_ok_moved [OF assms(1)])
      (use pool_okD [OF assms(1)] assms(2) in \<open>auto simp: places_def EnvPool_release_def held_back_def count_put_warm\<close>)
qed

lemma pool_ok_step: "pool_step s s' \<Longrightarrow> pool_ok s \<Longrightarrow> pool_ok s'"
proof (induction rule: pool_step.induct)
  case (take s i p)
  then show ?case using take_or_reserve_cases [OF take(1)] pool_ok_take by auto
next
  case (reserve s seed p)
  then show ?case using take_or_reserve_cases [OF reserve(1)] pool_ok_reserve by auto
next
  case (pre_warm s seed p)
  then show ?case by (auto simp: grow_reserve_def split: if_splits prod.splits intro!: pool_ok_reserve)
next
  case (given_back s n)
  then show ?case
    by (intro pool_ok_moved [OF given_back(2)]) (use given_back pool_okD [OF given_back(2)] in \<open>auto simp: places_def cold_create_failed_def held_back_def\<close>)
next
  case (core_fails s n)
  then show ?case by (intro pool_ok_moved [OF core_fails(2)]) (use core_fails pool_okD [OF core_fails(2)] in \<open>auto simp: places_def held_back_def\<close>)
next
  case (core_refuses s i c e c')
  then show ?case by (intro pool_ok_moved [OF core_refuses(4)]) (use core_refuses pool_okD [OF core_refuses(4)] in \<open>auto simp: places_def held_back_def\<close>)
qed (simp_all add: pool_ok_add pool_ok_created pool_ok_shrink pool_ok_removed pool_ok_taken_back pool_ok_release)

lemma count_list_snoc: "count_list (xs @ [i]) j = count_list xs j + of_bool (j = i)"
  by simp

lemma pool_ok_cancel: "pool_cancel s s' \<Longrightarrow> pool_ok s \<Longrightarrow> pool_ok s'"
proof (induction rule: pool_cancel.induct)
  case (creation_cancelled s n)
  then show ?case
    by (intro pool_ok_moved [OF creation_cancelled(2)]) (use creation_cancelled pool_okD [OF creation_cancelled(2)] in \<open>auto simp: places_def held_back_def\<close>)
next
  case (built_cancelled s xs i ys)
  have "places (s\<lparr>run_built := xs @ ys, run_failed := Suc (run_failed s), run_untracked := run_untracked s @ [i]\<rparr>) j = places s j" for j
    unfolding places_def built_cancelled(1) count_list_split by simp
  then show ?case
    by (rule pool_ok_moved [OF built_cancelled(2)]) (use built_cancelled pool_okD [OF built_cancelled(2)] in \<open>auto simp: held_back_def\<close>)
next
  case (detached_adds s n c i c')
  have c: "i = core_slots c" "c' = c\<lparr>core_slots := core_slots c + 1\<rparr>"
    using detached_adds(3) by (auto simp: EnvCore_add_slot_def split: if_splits)
  have "places (s\<lparr>run_pool := (run_pool s)\<lparr>ep_core := Some c'\<rparr>, run_detached := n, run_untracked := run_untracked s @ [i]\<rparr>) j
      = places s j + of_bool (j = i)" for j
    by (simp add: places_def)
  moreover have "places s j = of_bool (0 \<le> j \<and> j < core_slots c)" for j
    using pool_ok_places [OF detached_adds(4)] detached_adds(2) by simp
  moreover have "0 \<le> core_slots c" using detached_adds(2,4) by (simp add: pool_ok_def)
  ultimately show ?case
    using pool_okD [OF detached_adds(4)] detached_adds(1,2) c by (auto simp: pool_ok_def held_back_def)
next
  case (detached_fails s n)
  then show ?case
    by (intro pool_ok_moved [OF detached_fails(2)]) (use detached_fails pool_okD [OF detached_fails(2)] in \<open>auto simp: places_def held_back_def\<close>)
qed

lemma pool_ok_event: "pool_event s s' \<Longrightarrow> pool_ok s \<Longrightarrow> pool_ok s'"
  using pool_ok_step pool_ok_cancel by (auto simp: pool_event_def)

abbreviation pool_runs :: "pool_run \<Rightarrow> pool_run \<Rightarrow> bool" where
  "pool_runs \<equiv> pool_step\<^sup>*\<^sup>*"

abbreviation pool_events :: "pool_run \<Rightarrow> pool_run \<Rightarrow> bool" where
  "pool_events \<equiv> pool_event\<^sup>*\<^sup>*"

lemma pool_runs_ok: "pool_runs s s' \<Longrightarrow> pool_ok s \<Longrightarrow> pool_ok s'"
  by (induction rule: rtranclp_induct) (auto intro: pool_ok_step)

lemma pool_events_ok: "pool_events s s' \<Longrightarrow> pool_ok s \<Longrightarrow> pool_ok s'"
  by (induction rule: rtranclp_induct) (auto intro: pool_ok_event)

lemma pool_runs_events: "pool_runs s s' \<Longrightarrow> pool_events s s'"
  by (induction rule: rtranclp_induct) (auto simp: pool_event_def intro: rtranclp.rtrancl_into_rtrancl)

lemma count_list_upto: "count_list [a..b] i = of_bool (a \<le> i \<and> i \<le> b)"
  using distinct_upto [of a b] by (simp add: distinct_count_atmost_1 count_mset)

lemma pool_init_ok:
  assumes "1 \<le> pool_size spec" "core_slots c = pool_size spec"
  shows "pool_ok (idle_run (EnvPool_init key spec (Some c)))"
  using assms
  by (auto simp: pool_ok_def EnvPool_init_def places_def held_back_def count_list_upto EnvSpecMsg_effective_max_pool_size_def
      split: option.split)

text \<open>What a return does: an active slot below the reserved count becomes warm and is not active any more.\<close>

lemma release_warms:
  assumes "i < reserved_slot_count p" "0 \<le> i"
  shows "i \<in> set (warm_free_slots (EnvPool_release i p))" "active_slots (EnvPool_release i p) = active_slots p - {i}"
  using assms by (simp_all add: EnvPool_release_def put_warm_def)

text \<open>While no shrink is under way and no slot is untracked, every slot of the core is below the reserved count.\<close>

lemma active_reserved:
  assumes "pool_ok s" "i \<in> active_slots (run_pool s)"
  shows "0 \<le> i" "i < core_count s"
  using pool_ok_places [OF assms(1), of i] assms(2) by (auto simp: places_def split: split_of_bool_asm)

lemma quiet_reserved:
  assumes "pool_ok s" "run_removing s = None" "run_refused s = None" "run_untracked s = []"
  shows "core_count s \<le> reserved_slot_count (run_pool s)"
  using pool_okD(5) [OF assms(1)] assms(2-4) by (simp add: held_back_def)

text \<open>C9: Whatever cold creations, cancellations of them, shrinks, takings and returns overlap on a pool, every slot
  of the core is in exactly one place: warm, active, created and not yet recorded, held by a shrink, or added by the
  thread of a cancelled creation and unknown to the pool. So no two takings give the same slot. A returned slot
  becomes warm again, unless a shrink is under way or a creation was cancelled at that time: then it does so only
  if its number is below the reserved count, which the pool compares it with.\<close>
theorem pool_slots_once:
  assumes "1 \<le> pool_size spec" "core_slots c = pool_size spec" "pool_events (idle_run (EnvPool_init key spec (Some c))) s"
  shows "distinct (warm_free_slots (run_pool s) @ run_built s @ run_untracked s)
    \<and> active_slots (run_pool s) \<inter> set (warm_free_slots (run_pool s) @ run_built s @ run_untracked s) = {}
    \<and> active_slots (run_pool s) \<union> set (warm_free_slots (run_pool s) @ run_built s @ run_untracked s)
        \<union> set_option (run_removing s) \<union> set_option (run_refused s) = {0..<core_count s}
    \<and> (active_slots (run_pool s) \<union> set (warm_free_slots (run_pool s) @ run_built s @ run_untracked s))
        \<inter> (set_option (run_removing s) \<union> set_option (run_refused s)) = {}
    \<and> (\<forall>i \<in> active_slots (run_pool s).
         run_removing s = None \<and> run_refused s = None \<and> run_untracked s = [] \<or> i < reserved_slot_count (run_pool s) \<longrightarrow>
           i \<in> set (warm_free_slots (EnvPool_release i (run_pool s)))
           \<and> active_slots (EnvPool_release i (run_pool s)) = active_slots (run_pool s) - {i})"
proof -
  have ok: "pool_ok s" using pool_events_ok [OF assms(3) pool_init_ok] assms(1,2) by blast
  let ?l = "warm_free_slots (run_pool s) @ run_built s @ run_untracked s" and ?A = "active_slots (run_pool s)"
  have one: "count_list ?l i + of_bool (i \<in> ?A) + of_bool (run_removing s = Some i) + of_bool (run_refused s = Some i)
      = (of_bool (0 \<le> i \<and> i < core_count s) :: nat)" for i
    using pool_ok_places [OF ok, of i] by (simp add: places_def)
  have "distinct ?l" unfolding distinct_count_atmost_1 count_mset
  proof
    fix i
    have "count_list ?l i \<le> 1" using one [of i] by (simp split: split_of_bool_asm)
    then show "count_list ?l i = (if i \<in> set ?l then 1 else 0)" using count_list_pos [of i ?l] by (auto simp: count_list_0_iff)
  qed
  moreover have "i \<notin> ?A \<and> run_removing s \<noteq> Some i \<and> run_refused s \<noteq> Some i" if "i \<in> set ?l" for i
    using one [of i] count_list_pos [OF that] by (auto split: split_of_bool_asm)
  moreover have "run_removing s \<noteq> Some i \<and> run_refused s \<noteq> Some i" if "i \<in> ?A" for i
    using one [of i] that by (auto split: split_of_bool_asm)
  moreover have "i \<in> ?A \<union> set ?l \<union> set_option (run_removing s) \<union> set_option (run_refused s) \<longleftrightarrow> i \<in> {0..<core_count s}" for i
    using one [of i] count_list_0_iff [of ?l i] by (auto split: split_of_bool_asm if_splits)
  moreover have "i \<in> set (warm_free_slots (EnvPool_release i (run_pool s)))
      \<and> active_slots (EnvPool_release i (run_pool s)) = ?A - {i}"
    if "i \<in> ?A" "run_removing s = None \<and> run_refused s = None \<and> run_untracked s = [] \<or> i < reserved_slot_count (run_pool s)" for i
  proof -
    have "i < reserved_slot_count (run_pool s)"
      using that(2) quiet_reserved [OF ok] active_reserved(2) [OF ok that(1)] by auto
    with release_warms active_reserved(1) [OF ok that(1)] show ?thesis by blast
  qed
  ultimately show ?thesis by blast
qed

text \<open>A resizable pool never has more than one slot above its configured maximum, not counting the untracked ones;
  the extra one needs a cold creation that overtakes a shrink at the core.\<close>
theorem pool_capacity_bound:
  assumes "1 \<le> pool_size spec" "core_slots c = pool_size spec" "pool_events (idle_run (EnvPool_init key spec (Some c))) s"
  shows "core_count s \<le> pool_max (run_pool s) + 1 + int (length (run_untracked s))"
  using pool_okD(6) [OF pool_events_ok [OF assms(3) pool_init_ok]] assms(1,2) by simp

section \<open>A shrink overtaken by a cold creation\<close>

text \<open>No shrink is under way, and the pool has reserved more slots than its core has and will get.\<close>

definition overgrown :: "pool_run \<Rightarrow> bool" where
  "overgrown s \<longleftrightarrow> run_removing s = None \<and> run_refused s = None
     \<and> core_count s + int (run_building s + run_failed s) < reserved_slot_count (run_pool s)"

lemma overgrown_no_shrink:
  assumes "pool_ok s" "overgrown s"
  shows "shrink_reserve keep (run_pool s) = (None, run_pool s)"
proof -
  have "reserved_slot_count (run_pool s) - 1 \<notin> set (warm_free_slots (run_pool s))"
    using assms pool_ok_places [OF assms(1), of "reserved_slot_count (run_pool s) - 1"] count_list_pos
    by (fastforce simp: places_def overgrown_def split: split_of_bool_asm)
  then show ?thesis by (simp add: shrink_reserve_def Let_def)
qed

lemma overgrown_step:
  assumes "pool_ok s" "overgrown s" "pool_step s s'"
  shows "overgrown s' \<and> core_count s \<le> core_count s'"
  using assms(3)
proof (cases rule: pool_step.cases)
  case (take i p)
  then show ?thesis using assms(2) take_or_reserve_cases [OF take(2)]
    by (auto simp: overgrown_def take_warm_def Let_def)
next
  case (reserve seed p)
  then show ?thesis using assms(2) take_or_reserve_cases [OF reserve(2)]
    by (auto simp: overgrown_def reserve_slot_def)
next
  case (pre_warm seed p)
  then show ?thesis using assms(2) by (auto simp: overgrown_def grow_reserve_def reserve_slot_def split: if_splits)
next
  case (core_adds n c i c')
  then show ?thesis using assms(2) by (auto simp: overgrown_def EnvCore_add_slot_def split: if_splits)
next
  case (shrink keep i p)
  then show ?thesis using overgrown_no_shrink [OF assms(1,2), of keep] by simp
qed (use assms(2) in \<open>auto simp: overgrown_def acquire_created_def grow_created_def cold_create_recorded_def
  cold_create_failed_def EnvPool_release_def Let_def\<close>)

lemma overgrown_run:
  assumes "pool_runs s s'" "pool_ok s" "overgrown s"
  shows "pool_ok s' \<and> overgrown s' \<and> core_count s \<le> core_count s'"
  using assms
proof (induction rule: rtranclp_induct)
  case (step s1 s2)
  then show ?case using overgrown_step [of s1 s2] pool_ok_step [of s1 s2] by linarith
qed simp

text \<open>C37: Once no shrink is under way and a pool has reserved more slots than its core has and its running creations
  can still add, this stays so whatever is taken, created, failed and returned afterwards (as long as no creation is
  cancelled): no shrink ever gives up a slot again, the core never has fewer slots, and the reserved count that every
  growth is checked against stays above the number of slots there are.\<close>
theorem overgrown_pool_stuck:
  assumes "1 \<le> pool_size spec" "core_slots c = pool_size spec" "pool_events (idle_run (EnvPool_init key spec (Some c))) s"
    and "overgrown s" "pool_runs s s'"
  shows "overgrown s' \<and> core_count s \<le> core_count s' \<and> core_count s' < reserved_slot_count (run_pool s')
    \<and> shrink_reserve keep (run_pool s') = (None, run_pool s')"
proof -
  have r: "pool_ok s'" "overgrown s'" "core_count s \<le> core_count s'"
    using overgrown_run [OF assms(5) pool_events_ok [OF assms(3) pool_init_ok] assms(4)] assms(1,2) by auto
  then have "core_count s' < reserved_slot_count (run_pool s')" by (simp add: overgrown_def)
  with r overgrown_no_shrink [OF r(1,2)] show ?thesis by blast
qed

section \<open>A removal that fails half-way\<close>

text \<open>C0: When the core drops the last slot and closing its environment then raises, the pool takes the slot back as
  warm although the core does not have it any more: its number is the one the next cold creation will be given, so a
  session that takes the warm slot and one that is given the new slot hold the same one.\<close>
theorem failed_removal_reuses_slot:
  assumes "pool_fault s s1" "run_refused s1 = Some i"
    and "s2 = s1\<lparr>run_pool := shrink_refused i (run_pool s1), run_refused := None\<rparr>"
  shows "pool_step s1 s2 \<and> i \<in> set (warm_free_slots (run_pool s2)) \<and> i \<notin> {0..<core_count s2}
    \<and> (\<forall>c'. ep_core (run_pool s2) = Some c' \<longrightarrow> EnvCore_add_slot c' = (Inr i, c'\<lparr>core_slots := i + 1\<rparr>))"
proof -
  have "pool_step s1 s2" unfolding assms(3) by (rule pool_step.taken_back [OF assms(2)])
  moreover from assms(1) obtain c0 c1 where "ep_core (run_pool s) = Some c0" "EnvCore_remove_slot i c0 = (Inr (), c1)"
    "s1 = s\<lparr>run_pool := (run_pool s)\<lparr>ep_core := Some c1\<rparr>, run_removing := None, run_refused := Some i\<rparr>"
    using assms(2) by (cases rule: pool_fault.cases) auto
  moreover from this have "\<not> core_lockstep c1" "core_slots c1 = i"
    by (auto simp: EnvCore_remove_slot_def Let_def split: if_splits)
  ultimately show ?thesis
    using assms(3) by (auto simp: shrink_refused_def put_warm_def EnvCore_add_slot_def)
qed

text \<open>A pool of one slot that may have two, and its way to three slots of which four are reserved.\<close>

definition demo_spec :: EnvSpecMsg where
  "demo_spec = \<lparr>env_family = ''fake'', env_config = [], pool_size = 1, max_dynamic_pool_size = Some 2, resource_hints = []\<rparr>"

abbreviation demo_core :: "int \<Rightarrow> EnvCore" where
  "demo_core n \<equiv> \<lparr>core_lockstep = False, core_resizable = True, core_slots = n\<rparr>"

definition demo_pool :: "int list \<Rightarrow> int set \<Rightarrow> int \<Rightarrow> int \<Rightarrow> int \<Rightarrow> int \<Rightarrow> EnvPool" where
  "demo_pool warm active slots pending reserved hint =
     (EnvPool_init ''pool'' demo_spec (Some (demo_core slots)))
       \<lparr>warm_free_slots := warm, active_slots := active, pending_cold_creates := pending, reserved_slot_count := reserved,
         next_seed_offset_hint := hint\<rparr>"

lemmas demo_pool_defs = demo_pool_def demo_spec_def EnvPool_init_def EnvSpecMsg_effective_max_pool_size_def EnvPool_dynamic_def

lemmas pool_op_defs = take_or_reserve_def take_warm_def reserve_cold_create_def reserve_slot_def shrink_reserve_def shrink_refused_def
  EnvPool_release_def put_warm_def acquire_created_def cold_create_recorded_def EnvCore_add_slot_def EnvCore_remove_slot_def Let_def

definition demo_run :: "EnvPool \<Rightarrow> nat \<Rightarrow> int list \<Rightarrow> int option \<Rightarrow> int option \<Rightarrow> pool_run" where
  "demo_run p building built removing refused =
     \<lparr>run_pool = p, run_building = building, run_built = built, run_failed = 0, run_removing = removing, run_refused = refused,
      run_detached = 0, run_untracked = []\<rparr>"

lemma pool_step_to: "pool_step s t \<Longrightarrow> t = s' \<Longrightarrow> pool_step s s'"
  by simp

lemma demo_taken:
  "pool_step (demo_run (demo_pool [0] {} 1 0 1 1) 0 [] None None)
     (demo_run (demo_pool [] {0} 1 0 1 1) 0 [] None None)"
  by (rule pool_step_to [OF pool_step.take [where i = 0]]) (auto simp: demo_run_def demo_pool_defs pool_op_defs)

lemma demo_reserved:
  "pool_step (demo_run (demo_pool [] {0} 1 0 1 1) 0 [] None None)
     (demo_run (demo_pool [] {0} 1 1 2 2) 1 [] None None)"
  by (rule pool_step_to [OF pool_step.reserve [where seed = 1]]) (auto simp: demo_run_def demo_pool_defs pool_op_defs)

lemma demo_added:
  "pool_step (demo_run (demo_pool [] {0} 1 1 2 2) 1 [] None None)
     (demo_run (demo_pool [] {0} 2 1 2 2) 0 [1] None None)"
  by (rule pool_step_to [OF pool_step.core_adds [where i = 1 and n = 0 and c = "demo_core 1" and c' = "demo_core 2"]]) (auto simp: demo_run_def demo_pool_defs pool_op_defs)

lemma demo_recorded:
  "pool_step (demo_run (demo_pool [] {0} 2 1 2 2) 0 [1] None None)
     (demo_run (demo_pool [] {0, 1} 2 0 2 2) 0 [] None None)"
  by (rule pool_step_to [OF pool_step.created [where xs = "[]" and i = 1 and ys = "[]"]]) (auto simp: demo_run_def demo_pool_defs pool_op_defs)

lemma demo_returned:
  "pool_step (demo_run (demo_pool [] {0, 1} 2 0 2 2) 0 [] None None)
     (demo_run (demo_pool [1] {0} 2 0 2 2) 0 [] None None)"
  by (rule pool_step_to [OF pool_step.release [where i = 1]]) (auto simp: demo_run_def demo_pool_defs pool_op_defs)

lemma demo_shrinking:
  "pool_step (demo_run (demo_pool [1] {0} 2 0 2 2) 0 [] None None)
     (demo_run (demo_pool [] {0} 2 0 1 2) 0 [] (Some 1) None)"
  by (rule pool_step_to [OF pool_step.shrink [where keep = None and i = 1]]) (auto simp: demo_run_def demo_pool_defs pool_op_defs)

lemma demo_reserved_again:
  "pool_step (demo_run (demo_pool [] {0} 2 0 1 2) 0 [] (Some 1) None)
     (demo_run (demo_pool [] {0} 2 1 2 3) 1 [] (Some 1) None)"
  by (rule pool_step_to [OF pool_step.reserve [where seed = 2]]) (auto simp: demo_run_def demo_pool_defs pool_op_defs)

lemma demo_added_again:
  "pool_step (demo_run (demo_pool [] {0} 2 1 2 3) 1 [] (Some 1) None)
     (demo_run (demo_pool [] {0} 3 1 2 3) 0 [2] (Some 1) None)"
  by (rule pool_step_to [OF pool_step.core_adds [where i = 2 and n = 0 and c = "demo_core 2" and c' = "demo_core 3"]]) (auto simp: demo_run_def demo_pool_defs pool_op_defs)

lemma demo_recorded_again:
  "pool_step (demo_run (demo_pool [] {0} 3 1 2 3) 0 [2] (Some 1) None)
     (demo_run (demo_pool [] {0, 2} 3 0 3 3) 0 [] (Some 1) None)"
  by (rule pool_step_to [OF pool_step.created [where xs = "[]" and i = 2 and ys = "[]"]]) (auto simp: demo_run_def demo_pool_defs pool_op_defs)

lemma demo_refused:
  "pool_step (demo_run (demo_pool [] {0, 2} 3 0 3 3) 0 [] (Some 1) None)
     (demo_run (demo_pool [] {0, 2} 3 0 3 3) 0 [] None (Some 1))"
  by (rule pool_step_to [OF pool_step.core_refuses [where i = 1 and c = "demo_core 3" and c' = "demo_core 3"]]) (auto simp: demo_run_def demo_pool_defs pool_op_defs)

lemma demo_taken_back:
  "pool_step (demo_run (demo_pool [] {0, 2} 3 0 3 3) 0 [] None (Some 1))
     (demo_run (demo_pool [1] {0, 2} 3 0 4 3) 0 [] None None)"
  by (rule pool_step_to [OF pool_step.taken_back [where i = 1]]) (auto simp: demo_run_def demo_pool_defs pool_op_defs)

abbreviation demo_grown :: pool_run where
  "demo_grown \<equiv> demo_run (demo_pool [1] {0, 2} 3 0 4 3) 0 [] None None"

lemma demo_begins: "idle_run (EnvPool_init ''pool'' demo_spec (Some (demo_core 1))) = demo_run (demo_pool [0] {} 1 0 1 1) 0 [] None None"
  by (simp add: demo_run_def demo_pool_defs)

lemmas demo_climb = demo_taken demo_reserved demo_added demo_recorded demo_returned demo_shrinking demo_reserved_again
  demo_added_again demo_recorded_again demo_refused demo_taken_back

lemma demo_grown_reached: "pool_runs (idle_run (EnvPool_init ''pool'' demo_spec (Some (demo_core 1)))) demo_grown"
  unfolding demo_begins by (rule converse_rtranclp_into_rtranclp, rule demo_climb)+ (rule rtranclp.rtrancl_refl)

lemma demo_sizes: "1 \<le> pool_size demo_spec" "core_slots (demo_core 1) = pool_size demo_spec"
  by (simp_all add: demo_spec_def)

lemma pool_slots_once_witness: "active_slots (run_pool demo_grown) \<union> set (warm_free_slots (run_pool demo_grown)) = {0..<3}"
  using pool_slots_once [OF demo_sizes pool_runs_events [OF demo_grown_reached]] by (simp add: demo_run_def demo_pool_defs)

lemma pool_capacity_bound_witness: "core_count demo_grown = 3 \<and> core_count demo_grown \<le> pool_max (run_pool demo_grown) + 1"
  using pool_capacity_bound [OF demo_sizes pool_runs_events [OF demo_grown_reached]] by (simp add: demo_run_def demo_pool_defs)

text \<open>From the state the overtaken shrink leaves, the return of a slot changes nothing.\<close>

lemma overgrown_pool_stuck_witness:
  "\<exists>s. pool_step demo_grown s \<and> core_count s = 3 \<and> reserved_slot_count (run_pool s) = 4
     \<and> shrink_reserve None (run_pool s) = (None, run_pool s)"
proof -
  let ?s = "demo_grown\<lparr>run_pool := EnvPool_release 2 (run_pool demo_grown)\<rparr>"
  have step: "pool_step demo_grown ?s" by (rule pool_step.release) (simp add: demo_run_def demo_pool_defs)
  have "overgrown demo_grown" by (simp add: overgrown_def demo_run_def demo_pool_defs)
  from overgrown_pool_stuck [OF demo_sizes pool_runs_events [OF demo_grown_reached] this
      r_into_rtranclp [where r = pool_step, OF step], of None] step
  show ?thesis by (intro exI [of _ ?s]) (simp add: demo_run_def demo_pool_defs EnvPool_release_def put_warm_def)
qed

text \<open>The slot that the shrink has handed to the core is dropped, and then closing it raises.\<close>

lemma failed_removal_reuses_slot_witness:
  "\<exists>s1 s2. pool_runs (idle_run (EnvPool_init ''pool'' demo_spec (Some (demo_core 1)))) (demo_run (demo_pool [] {0} 2 0 1 2) 0 [] (Some 1) None)
     \<and> pool_fault (demo_run (demo_pool [] {0} 2 0 1 2) 0 [] (Some 1) None) s1 \<and> pool_step s1 s2
     \<and> 1 \<in> set (warm_free_slots (run_pool s2)) \<and> 1 \<notin> {0..<core_count s2}"
proof -
  let ?s = "demo_run (demo_pool [] {0} 2 0 1 2) 0 [] (Some 1) None"
  let ?s1 = "?s\<lparr>run_pool := (run_pool ?s)\<lparr>ep_core := Some (demo_core 1)\<rparr>, run_removing := None, run_refused := Some 1\<rparr>"
  have fault: "pool_fault ?s ?s1"
    by (rule pool_fault.close_raises [where c = "demo_core 2"]) (simp_all add: demo_run_def demo_pool_defs pool_op_defs)
  have refused: "run_refused ?s1 = Some 1" by simp
  have "pool_runs (idle_run (EnvPool_init ''pool'' demo_spec (Some (demo_core 1)))) ?s"
    unfolding demo_begins
    by (rule converse_rtranclp_into_rtranclp, rule demo_taken demo_reserved demo_added demo_recorded demo_returned demo_shrinking)+
      (rule rtranclp.rtrancl_refl)
  with failed_removal_reuses_slot [OF fault refused HOL.refl] fault
  show ?thesis by blast
qed

section \<open>A return that is lost\<close>

text \<open>A pool of one slot that may have three. While a shrink of slot one is under way two cold creations are reserved:
  the core gives the first of them slot two, the second fails and its reservation is given back.\<close>

definition demo_wide :: EnvSpecMsg where
  "demo_wide = demo_spec\<lparr>max_dynamic_pool_size := Some 3\<rparr>"

definition demo_wide_pool :: "int list \<Rightarrow> int set \<Rightarrow> int \<Rightarrow> int \<Rightarrow> int \<Rightarrow> int \<Rightarrow> EnvPool" where
  "demo_wide_pool warm active slots pending reserved hint =
     (demo_pool warm active slots pending reserved hint)\<lparr>ep_env_spec := demo_wide\<rparr>"

lemmas demo_wide_defs = demo_wide_pool_def demo_wide_def demo_pool_defs demo_run_def pool_op_defs

lemma wide_taken:
  "pool_step (demo_run (demo_wide_pool [0] {} 1 0 1 1) 0 [] None None) (demo_run (demo_wide_pool [] {0} 1 0 1 1) 0 [] None None)"
  by (rule pool_step_to [OF pool_step.take [where i = 0]]) (auto simp: demo_wide_defs)

lemma wide_reserved:
  "pool_step (demo_run (demo_wide_pool [] {0} 1 0 1 1) 0 [] None None) (demo_run (demo_wide_pool [] {0} 1 1 2 2) 1 [] None None)"
  by (rule pool_step_to [OF pool_step.reserve [where seed = 1]]) (auto simp: demo_wide_defs)

lemma wide_added:
  "pool_step (demo_run (demo_wide_pool [] {0} 1 1 2 2) 1 [] None None) (demo_run (demo_wide_pool [] {0} 2 1 2 2) 0 [1] None None)"
  by (rule pool_step_to [OF pool_step.core_adds [where i = 1 and n = 0 and c = "demo_core 1" and c' = "demo_core 2"]]) (auto simp: demo_wide_defs)

lemma wide_created:
  "pool_step (demo_run (demo_wide_pool [] {0} 2 1 2 2) 0 [1] None None) (demo_run (demo_wide_pool [] {0, 1} 2 0 2 2) 0 [] None None)"
  by (rule pool_step_to [OF pool_step.created [where xs = "[]" and i = 1 and ys = "[]"]]) (auto simp: demo_wide_defs)

lemma wide_returned:
  "pool_step (demo_run (demo_wide_pool [] {0, 1} 2 0 2 2) 0 [] None None) (demo_run (demo_wide_pool [1] {0} 2 0 2 2) 0 [] None None)"
  by (rule pool_step_to [OF pool_step.release [where i = 1]]) (auto simp: demo_wide_defs)

lemma wide_shrinking:
  "pool_step (demo_run (demo_wide_pool [1] {0} 2 0 2 2) 0 [] None None) (demo_run (demo_wide_pool [] {0} 2 0 1 2) 0 [] (Some 1) None)"
  by (rule pool_step_to [OF pool_step.shrink [where keep = None and i = 1]]) (auto simp: demo_wide_defs)

lemma wide_reserved_twice:
  "pool_step (demo_run (demo_wide_pool [] {0} 2 0 1 2) 0 [] (Some 1) None) (demo_run (demo_wide_pool [] {0} 2 1 2 3) 1 [] (Some 1) None)"
  "pool_step (demo_run (demo_wide_pool [] {0} 2 1 2 3) 1 [] (Some 1) None) (demo_run (demo_wide_pool [] {0} 2 2 3 4) 2 [] (Some 1) None)"
  by (rule pool_step_to [OF pool_step.reserve [where seed = 2]], auto simp: demo_wide_defs)
    (rule pool_step_to [OF pool_step.reserve [where seed = 3]], auto simp: demo_wide_defs)

lemma wide_added_third:
  "pool_step (demo_run (demo_wide_pool [] {0} 2 2 3 4) 2 [] (Some 1) None) (demo_run (demo_wide_pool [] {0} 3 2 3 4) 1 [2] (Some 1) None)"
  by (rule pool_step_to [OF pool_step.core_adds [where i = 2 and n = 1 and c = "demo_core 2" and c' = "demo_core 3"]]) (auto simp: demo_wide_defs)

lemma wide_created_third:
  "pool_step (demo_run (demo_wide_pool [] {0} 3 2 3 4) 1 [2] (Some 1) None) (demo_run (demo_wide_pool [] {0, 2} 3 1 3 4) 1 [] (Some 1) None)"
  by (rule pool_step_to [OF pool_step.created [where xs = "[]" and i = 2 and ys = "[]"]]) (auto simp: demo_wide_defs)

lemma wide_failed:
  "pool_step (demo_run (demo_wide_pool [] {0, 2} 3 1 3 4) 1 [] (Some 1) None)
     ((demo_run (demo_wide_pool [] {0, 2} 3 1 3 4) 0 [] (Some 1) None)\<lparr>run_failed := 1\<rparr>)"
  by (rule pool_step_to [OF pool_step.core_fails [where n = 0]]) (auto simp: demo_wide_defs)

lemma wide_given_back:
  "pool_step ((demo_run (demo_wide_pool [] {0, 2} 3 1 3 4) 0 [] (Some 1) None)\<lparr>run_failed := 1\<rparr>)
     (demo_run (demo_wide_pool [] {0, 2} 3 0 2 4) 0 [] (Some 1) None)"
  by (rule pool_step_to [OF pool_step.given_back [where n = 0]]) (auto simp: demo_wide_defs cold_create_failed_def)

lemmas wide_climb = wide_taken wide_reserved wide_added wide_created wide_returned wide_shrinking wide_reserved_twice
  wide_added_third wide_created_third wide_failed wide_given_back

lemma wide_begins: "idle_run (EnvPool_init ''pool'' demo_wide (Some (demo_core 1))) = demo_run (demo_wide_pool [0] {} 1 0 1 1) 0 [] None None"
  by (simp add: demo_run_def demo_pool_defs demo_wide_pool_def demo_wide_def)

text \<open>C0: A return can be lost. When a cold creation fails after another one was given a slot beyond a pending shrink,
  the reserved count drops to the number of that slot; its return is then taken for one of a slot that does not
  exist: nothing changes and the slot stays active with no holder.\<close>
theorem return_of_active_slot_lost:
  "\<exists>s i. pool_runs (idle_run (EnvPool_init ''pool'' demo_wide (Some (demo_core 1)))) s
     \<and> i \<in> active_slots (run_pool s) \<and> i \<in> {0..<core_count s} \<and> EnvPool_release i (run_pool s) = run_pool s"
proof -
  let ?s = "demo_run (demo_wide_pool [] {0, 2} 3 0 2 4) 0 [] (Some 1) None"
  have "pool_runs (idle_run (EnvPool_init ''pool'' demo_wide (Some (demo_core 1)))) ?s"
    unfolding wide_begins by (rule converse_rtranclp_into_rtranclp, rule wide_climb)+ (rule rtranclp.rtrancl_refl)
  then show ?thesis by (intro exI [of _ ?s] exI [of _ 2]) (simp add: demo_wide_defs)
qed

end
