(* ===== verification/Inference_Client.thy ===== *)
theory Inference_Client
  imports Api
begin

text \<open>
  \<^verbatim>\<open>rollout_runtime/workers/env_worker.py\<close>, class \<open>InferenceClient\<close>: an EnvWorker's requests for actions. A
  request waits on a future that is found again by its request id; a response whose id, binding or episode is
  not the one submitted is late and discarded. Futures are objects: the tables hold their numbers in the list of
  all futures, since a coroutine goes on waiting on its own future when the table entry is replaced.
\<close>

section \<open>State\<close>

record ActionResponse =
  rsp_request_id :: string
  rsp_session_id :: string
  rsp_binding_token :: "string option"
  rsp_episode_id :: "int option"
  rsp_operation_seq :: "int option"
  rsp_actions :: py
  rsp_model_version :: string
  rsp_auxiliary_outputs :: "(string, py) dict"
  rsp_error :: "RuntimeErrorInfo option"

datatype future = F_Waiting | F_Result ActionResponse | F_Cancelled

record InferenceClient =
  ic_worker_rank :: int
  ic_attached :: bool
  ic_futures :: "future list"
  ic_pending :: "(string, nat) dict"
  ic_expected :: "(string, string option \<times> int option) dict"
  late_response_count :: int
  queue_full_count :: int
  submitted_count :: int

definition InferenceClient_init :: "int \<Rightarrow> InferenceClient" where
  "InferenceClient_init worker_rank =
     \<lparr>ic_worker_rank = worker_rank, ic_attached = False, ic_futures = [], ic_pending = [], ic_expected = [],
      late_response_count = 0, queue_full_count = 0, submitted_count = 0\<rparr>"

definition InferenceClient_attach :: "InferenceClient \<Rightarrow> InferenceClient" where
  "InferenceClient_attach c = c\<lparr>ic_attached := True\<rparr>"

text \<open>\<open>pending.get\<close>, and whether the future is still waited on.\<close>

definition future_of :: "string \<Rightarrow> InferenceClient \<Rightarrow> nat option" where
  "future_of request_id c = dict_get (ic_pending c) request_id"

definition future_done :: "nat \<Rightarrow> InferenceClient \<Rightarrow> bool" where
  "future_done k c \<longleftrightarrow> ic_futures c ! k \<noteq> F_Waiting"

definition set_future :: "nat \<Rightarrow> future \<Rightarrow> InferenceClient \<Rightarrow> InferenceClient" where
  "set_future k f c = c\<lparr>ic_futures := (ic_futures c)[k := f]\<rparr>"

definition InferenceClient_forget :: "string \<Rightarrow> InferenceClient \<Rightarrow> InferenceClient" where
  "InferenceClient_forget request_id c =
     c\<lparr>ic_pending := dict_pop (ic_pending c) request_id, ic_expected := dict_pop (ic_expected c) request_id\<rparr>"

section \<open>Submitting\<close>

text \<open>\<open>submit\<close> up to its first \<open>await\<close>: the future of the request.\<close>

definition submit_start ::
  "string \<Rightarrow> string option \<Rightarrow> int option \<Rightarrow> (InferenceClient, exn, nat) sem" where
  "submit_start request_id binding_token episode_id c =
     (if \<not> ic_attached c
      then (Inl (RuntimeApiError (make_error E_WORKER_LOST [Text ''env worker has no inference channel attached'']
              [(''worker_rank'', PyInt (ic_worker_rank c))])), c)
      else
        (let k = length (ic_futures c)
         in (Inr k, c\<lparr>ic_futures := ic_futures c @ [F_Waiting], ic_pending := dict_set (ic_pending c) request_id k,
                      ic_expected := dict_set (ic_expected c) request_id (binding_token, episode_id)\<rparr>)))"

text \<open>What \<open>put_request_nowait\<close> comes back with.\<close>

datatype put_reply = Put_Ok | Put_Full int int | Put_Closed | Put_Raised exn

fun submit_put :: "string \<Rightarrow> string \<Rightarrow> put_reply \<Rightarrow> (InferenceClient, exn, unit) sem" where
  "submit_put request_id session_id Put_Ok c = (Inr (), c\<lparr>submitted_count := submitted_count c + 1\<rparr>)"
| "submit_put request_id session_id (Put_Full depth capacity) c =
     (Inl (RuntimeApiError (make_error E_QUEUE_FULL
        [Text ''inference request queue is full ('', IntF depth, Text ''/'', IntF capacity, Text ''); rejecting instead of queueing'']
        [(''queue_depth'', PyInt depth), (''queue_capacity'', PyInt capacity), (''session_id'', PyStr session_id)])),
      (InferenceClient_forget request_id c)\<lparr>queue_full_count := queue_full_count c + 1\<rparr>)"
| "submit_put request_id session_id Put_Closed c =
     (Inl (RuntimeApiError (make_error E_WORKER_LOST [Text ''inference channel is closed''] [(''session_id'', PyStr session_id)])),
      InferenceClient_forget request_id c)"
| "submit_put request_id session_id (Put_Raised e) c = (Inl e, c)"

text \<open>\<open>await future\<close> and its \<open>finally\<close>, once the future is done.\<close>

abbreviation cancelled_wait :: exn where
  "cancelled_wait \<equiv> PyExn K_CancelledError ''CancelledError'' []"

definition submit_done :: "string \<Rightarrow> nat \<Rightarrow> (InferenceClient, exn, ActionResponse) sem" where
  "submit_done request_id k c =
     (case ic_futures c ! k of
        F_Result r \<Rightarrow> (Inr r, InferenceClient_forget request_id c)
      | _ \<Rightarrow> (Inl cancelled_wait, InferenceClient_forget request_id c))"

section \<open>Responses and cancellation\<close>

definition InferenceClient_deliver :: "ActionResponse \<Rightarrow> InferenceClient \<Rightarrow> bool \<times> InferenceClient" where
  "InferenceClient_deliver r c =
     (let late = (False, c\<lparr>late_response_count := late_response_count c + 1\<rparr>) in
      case (future_of (rsp_request_id r) c, dict_get (ic_expected c) (rsp_request_id r)) of
        (Some k, Some expected) \<Rightarrow>
          if future_done k c then late
          else if expected \<noteq> (rsp_binding_token r, rsp_episode_id r) then late
          else (True, set_future k (F_Result r) c)
      | _ \<Rightarrow> late)"

text \<open>\<open>future.cancel()\<close> on the pending future of a request, if there is one that is not done.\<close>

definition cancel_future :: "string \<Rightarrow> InferenceClient \<Rightarrow> InferenceClient" where
  "cancel_future request_id c =
     (case future_of request_id c of
        Some k \<Rightarrow> if future_done k c then c else set_future k F_Cancelled c
      | None \<Rightarrow> c)"

definition InferenceClient_stop :: "InferenceClient \<Rightarrow> InferenceClient" where
  "InferenceClient_stop c =
     (foldl (\<lambda>c k. if future_done k c then c else set_future k F_Cancelled c) c (dict_values (ic_pending c)))
       \<lparr>ic_pending := [], ic_expected := []\<rparr>"

section \<open>Lemmas\<close>

text \<open>The tables name futures that exist, and both know the same requests.\<close>

definition client_ok :: "InferenceClient \<Rightarrow> bool" where
  "client_ok c \<longleftrightarrow> (\<forall>i k. dict_get (ic_pending c) i = Some k \<longrightarrow> k < length (ic_futures c))
     \<and> (\<forall>i. dict_get (ic_pending c) i = None \<longleftrightarrow> dict_get (ic_expected c) i = None)"

lemma client_ok_init [simp]: "client_ok (InferenceClient_init rank)"
  by (simp add: client_ok_def InferenceClient_init_def)

lemma client_ok_forget [simp]: "client_ok c \<Longrightarrow> client_ok (InferenceClient_forget i c)"
  by (auto simp: client_ok_def InferenceClient_forget_def)

lemma client_ok_set_future [simp]: "client_ok (set_future k f c) = client_ok c"
  by (simp add: client_ok_def set_future_def)

lemma client_ok_counts [simp]:
  "client_ok (c\<lparr>late_response_count := n\<rparr>) = client_ok c" "client_ok (c\<lparr>queue_full_count := n\<rparr>) = client_ok c"
  "client_ok (c\<lparr>submitted_count := n\<rparr>) = client_ok c"
  by (simp_all add: client_ok_def)

lemma client_ok_start: "client_ok c \<Longrightarrow> client_ok (snd (submit_start i tok ep c))"
  by (auto simp: client_ok_def submit_start_def Let_def less_Suc_eq split: if_splits)

lemma client_ok_put: "client_ok c \<Longrightarrow> client_ok (snd (submit_put i sid reply c))"
  by (cases reply) simp_all

lemma client_ok_done: "client_ok c \<Longrightarrow> client_ok (snd (submit_done i k c))"
  by (simp add: submit_done_def split: future.split)

lemma client_ok_deliver: "client_ok c \<Longrightarrow> client_ok (snd (InferenceClient_deliver r c))"
  by (simp add: InferenceClient_deliver_def Let_def split: option.split)

lemma client_ok_cancel: "client_ok c \<Longrightarrow> client_ok (cancel_future i c)"
  by (simp add: cancel_future_def split: option.split)

end
