(* ===== verification/Env_Worker.thy ===== *)
theory Env_Worker
  imports Env_Pool Inference_Client
begin

text \<open>
  \<^verbatim>\<open>rollout_runtime/workers/env_worker.py\<close>, class \<open>RuntimeEnvWorker\<close>: the sessions a worker has bound to slots of
  its pools, and how pools are built, shared, retired and evicted. Pools, session slots and active requests are
  objects that several coroutines hold, so they live in lists and are named by their numbers; a table that loses
  an entry does not end the object. A coroutine is cut at its awaits; the lock of a pool key is the list of the
  keys held.
\<close>

section \<open>State\<close>

record Observation =
  ob_session_id :: string
  ob_episode_id :: int
  ob_step_index :: int
  ob_content :: py

record SessionSlot =
  ss_session_id :: string
  ss_binding_token :: string
  ss_pool_key :: string
  ss_slot_index :: int
  ss_episode_id :: "int option"
  ss_step_index :: int
  ss_last_observation :: "Observation option"
  ss_terminated :: bool
  ss_truncated :: bool
  ss_lease_expiration :: real
  ss_active_op :: "string option"
  ss_last_operation_seq :: int
  ss_masked_steps_seen :: int
  ss_locked :: bool

definition SessionSlot_init :: "string \<Rightarrow> string \<Rightarrow> string \<Rightarrow> int \<Rightarrow> real \<Rightarrow> SessionSlot" where
  "SessionSlot_init session_id token pool_key slot_index lease =
     \<lparr>ss_session_id = session_id, ss_binding_token = token, ss_pool_key = pool_key, ss_slot_index = slot_index,
      ss_episode_id = None, ss_step_index = 0, ss_last_observation = None, ss_terminated = False, ss_truncated = False,
      ss_lease_expiration = lease, ss_active_op = None, ss_last_operation_seq = 0, ss_masked_steps_seen = 0,
      ss_locked = False\<rparr>"

definition SessionSlot_summary :: "int \<Rightarrow> string \<Rightarrow> SessionSlot \<Rightarrow> py" where
  "SessionSlot_summary rank group_name slot =
     PyObj ''WorkerSummary''
       [(''worker_rank'', PyInt rank), (''group_name'', PyStr group_name), (''pool_key'', PyStr (ss_pool_key slot)),
        (''slot_index'', PyInt (ss_slot_index slot)), (''step_index'', PyInt (ss_step_index slot)),
        (''terminated'', PyBool (ss_terminated slot)), (''truncated'', PyBool (ss_truncated slot))]"

datatype op_stage = STAGE_QUEUED | STAGE_INFERENCE | STAGE_ENV_STEP | STAGE_DONE

record ActiveRequest =
  ar_request_id :: string
  ar_session_id :: string
  ar_operation :: EnvOperation
  ar_stage :: op_stage
  ar_side_effect_applied :: bool
  ar_cancel_requested :: bool

definition ActiveRequest_cancellable :: "ActiveRequest \<Rightarrow> bool" where
  "ActiveRequest_cancellable a \<longleftrightarrow> \<not> ar_side_effect_applied a \<and> ar_stage a \<in> {STAGE_QUEUED, STAGE_INFERENCE}"

record EnvWorker =
  ew_worker_rank :: int
  ew_group_name :: string
  ew_max_idle_pools :: int
  ew_default_policy_id :: string
  ew_coalesce :: bool
  ew_pools :: "(string, nat) dict"
  ew_pool_objects :: "EnvPool list"
  ew_pool_locks :: "string list"
  ew_sessions :: "(string, nat) dict"
  ew_slots :: "SessionSlot list"
  ew_active :: "(string, nat) dict"
  ew_requests :: "ActiveRequest list"
  ew_inference :: InferenceClient
  stale_command_count :: int
  rejected_command_count :: int

definition RuntimeEnvWorker_init :: "int \<Rightarrow> string \<Rightarrow> int \<Rightarrow> string \<Rightarrow> bool \<Rightarrow> exn + EnvWorker" where
  "RuntimeEnvWorker_init rank group_name max_idle default_policy coalesce =
     (if max_idle < 0 then Inl (ValueError [Text ''max_idle_pools must be nonnegative''])
      else Inr \<lparr>ew_worker_rank = rank, ew_group_name = group_name, ew_max_idle_pools = max_idle,
        ew_default_policy_id = default_policy, ew_coalesce = coalesce, ew_pools = [], ew_pool_objects = [],
        ew_pool_locks = [], ew_sessions = [], ew_slots = [], ew_active = [], ew_requests = [],
        ew_inference = InferenceClient_init rank, stale_command_count = 0, rejected_command_count = 0\<rparr>)"

text \<open>Reading and changing an object.\<close>

definition pool_at :: "EnvWorker \<Rightarrow> nat \<Rightarrow> EnvPool" where
  "pool_at w k = ew_pool_objects w ! k"

definition on_pool :: "nat \<Rightarrow> (EnvPool \<Rightarrow> EnvPool) \<Rightarrow> EnvWorker \<Rightarrow> EnvWorker" where
  "on_pool k f w = w\<lparr>ew_pool_objects := (ew_pool_objects w)[k := f (pool_at w k)]\<rparr>"

definition slot_at :: "EnvWorker \<Rightarrow> nat \<Rightarrow> SessionSlot" where
  "slot_at w k = ew_slots w ! k"

definition on_slot :: "nat \<Rightarrow> (SessionSlot \<Rightarrow> SessionSlot) \<Rightarrow> EnvWorker \<Rightarrow> EnvWorker" where
  "on_slot k f w = w\<lparr>ew_slots := (ew_slots w)[k := f (slot_at w k)]\<rparr>"

definition EnvPoolManager_find :: "string \<Rightarrow> EnvWorker \<Rightarrow> nat option" where
  "EnvPoolManager_find pool_key w = dict_get (ew_pools w) pool_key"

section \<open>Bindings\<close>

text \<open>A \<open>create_binding\<close> in progress and what it waits for: the lock of its pool key, a dead pool's
  closing, the construction of a core, or a cold creation in a pool.\<close>

record binding_frame =
  bf_session_id :: string
  bf_env_spec :: EnvSpecMsg
  bf_lease_expiration :: real
  bf_token :: string

datatype binding_wait = BW_Lock | BW_Close nat | BW_Build | BW_Cold nat int

datatype binding_step = BindDone "exn + string" | BindWait binding_wait

definition count_pending :: "int \<Rightarrow> nat \<Rightarrow> EnvWorker \<Rightarrow> EnvWorker" where
  "count_pending n k = on_pool k (\<lambda>p. p\<lparr>pending_bindings := pending_bindings p + n\<rparr>)"

text \<open>The slot is there: the \<open>finally\<close> of the acquisition, then the new session.\<close>

definition finish_binding :: "binding_frame \<Rightarrow> nat \<Rightarrow> int \<Rightarrow> EnvWorker \<Rightarrow> binding_step \<times> EnvWorker" where
  "finish_binding f k slot_index w =
     (let w1 = count_pending (- 1) k w;
          slot = SessionSlot_init (bf_session_id f) (bf_token f) (ep_pool_key (pool_at w k)) slot_index (bf_lease_expiration f)
      in (BindDone (Inr (bf_token f)),
          w1\<lparr>ew_slots := ew_slots w1 @ [slot], ew_sessions := dict_set (ew_sessions w1) (bf_session_id f) (length (ew_slots w1))\<rparr>))"

definition bind_pool :: "binding_frame \<Rightarrow> nat \<Rightarrow> EnvWorker \<Rightarrow> binding_step \<times> EnvWorker" where
  "bind_pool f k w =
     (let w1 = count_pending 1 k w in
      case take_or_reserve (pool_at w1 k) of
        (Inl e, p) \<Rightarrow> (BindDone (Inl e), count_pending (- 1) k (on_pool k (\<lambda>_. p) w1))
      | (Inr (Inl i), p) \<Rightarrow> finish_binding f k i (on_pool k (\<lambda>_. p) w1)
      | (Inr (Inr seed), p) \<Rightarrow> (BindWait (BW_Cold k seed), on_pool k (\<lambda>_. p) w1))"

definition pool_usable :: "EnvPool \<Rightarrow> bool" where
  "pool_usable p \<longleftrightarrow> ep_core p \<noteq> None \<and> \<not> ep_unhealthy p \<and> \<not> ep_evicting p"

definition lock_key :: "string \<Rightarrow> EnvWorker \<Rightarrow> EnvWorker" where
  "lock_key key w = w\<lparr>ew_pool_locks := key # ew_pool_locks w\<rparr>"

definition unlock_key :: "string \<Rightarrow> EnvWorker \<Rightarrow> EnvWorker" where
  "unlock_key key w = w\<lparr>ew_pool_locks := removeAll key (ew_pool_locks w)\<rparr>"

text \<open>\<open>_ensure_pool\<close> from the moment it takes the lock, which is free.\<close>

definition ensure_locked :: "digest_fn \<Rightarrow> binding_frame \<Rightarrow> EnvWorker \<Rightarrow> binding_step \<times> EnvWorker" where
  "ensure_locked H f w =
     (let key = EnvSpecMsg_digest H (bf_env_spec f) in
      case EnvPoolManager_find key w of
        None \<Rightarrow> (BindWait BW_Build, lock_key key w)
      | Some k \<Rightarrow>
          if ep_core (pool_at w k) = None then (BindWait BW_Build, lock_key key w)
          else if \<not> ep_unhealthy (pool_at w k) \<and> \<not> ep_evicting (pool_at w k) then bind_pool f k w
          else if EnvPool_in_use (pool_at w k) \<noteq> 0
          then (BindDone (Inl (RuntimeApiError (make_error E_ENV_FAILURE
                  [Text ''env pool has a dead simulator pipe; retry after active sessions close'']
                  [(''pool_key'', PyStr key)]))), w)
          else (BindWait (BW_Close k), lock_key key w))"

definition ensure_pool_start :: "digest_fn \<Rightarrow> binding_frame \<Rightarrow> EnvWorker \<Rightarrow> binding_step \<times> EnvWorker" where
  "ensure_pool_start H f w =
     (let key = EnvSpecMsg_digest H (bf_env_spec f);
          locked = (if key \<in> set (ew_pool_locks w) then (BindWait BW_Lock, w) else ensure_locked H f w)
      in case EnvPoolManager_find key w of
           Some k \<Rightarrow> if pool_usable (pool_at w k) then bind_pool f k w else locked
         | None \<Rightarrow> locked)"

definition create_binding :: "digest_fn \<Rightarrow> binding_frame \<Rightarrow> EnvWorker \<Rightarrow> binding_step \<times> EnvWorker" where
  "create_binding H f w =
     (case dict_get (ew_sessions w) (bf_session_id f) of
        Some s \<Rightarrow>
          (BindDone (Inr (ss_binding_token (slot_at w s))),
           on_slot s (\<lambda>slot. slot\<lparr>ss_lease_expiration :=
             (if bf_lease_expiration f \<noteq> 0 then bf_lease_expiration f else ss_lease_expiration slot)\<rparr>) w)
      | None \<Rightarrow> ensure_pool_start H f w)"

text \<open>The dead pool is closed: whatever closing raised is suppressed, and its entry goes.\<close>

definition drop_pool :: "nat \<Rightarrow> string \<Rightarrow> EnvWorker \<Rightarrow> EnvWorker" where
  "drop_pool k key w = (if EnvPoolManager_find key w = Some k then w\<lparr>ew_pools := dict_pop (ew_pools w) key\<rparr> else w)"

definition binding_closed :: "digest_fn \<Rightarrow> binding_frame \<Rightarrow> nat \<Rightarrow> EnvWorker \<Rightarrow> binding_step \<times> EnvWorker" where
  "binding_closed H f k w =
     (BindWait BW_Build, drop_pool k (EnvSpecMsg_digest H (bf_env_spec f)) (on_pool k EnvPool_close w))"

text \<open>\<open>EnvPoolManager.ensure_pool\<close> has returned from its thread; \<open>outcome\<close> is what the family built.\<close>

definition EnvPoolManager_ensure_pool :: "string \<Rightarrow> EnvSpecMsg \<Rightarrow> exn + EnvCore \<Rightarrow> (EnvWorker, exn, nat) sem" where
  "EnvPoolManager_ensure_pool key spec outcome w =
     (case (case EnvPoolManager_find key w of
              Some k \<Rightarrow> if ep_core (pool_at w k) \<noteq> None then Some k else None | None \<Rightarrow> None) of
        Some k \<Rightarrow> (Inr k, w)
      | None \<Rightarrow>
          (case outcome of
             Inl e \<Rightarrow> (Inl e, w)
           | Inr core \<Rightarrow>
               (Inr (length (ew_pool_objects w)),
                w\<lparr>ew_pool_objects := ew_pool_objects w @ [EnvPool_init key spec (Some core)],
                  ew_pools := dict_set (ew_pools w) key (length (ew_pool_objects w))\<rparr>)))"

text \<open>The pool is built. The thread that builds it enters it in the table before the coroutine goes on; here both
  are one step.\<close>

definition binding_built :: "digest_fn \<Rightarrow> binding_frame \<Rightarrow> exn + EnvCore \<Rightarrow> EnvWorker \<Rightarrow> binding_step \<times> EnvWorker" where
  "binding_built H f outcome w =
     (let key = EnvSpecMsg_digest H (bf_env_spec f) in
      case EnvPoolManager_ensure_pool key (bf_env_spec f) outcome w of
        (Inl e, w1) \<Rightarrow> (BindDone (Inl e), unlock_key key w1)
      | (Inr k, w1) \<Rightarrow> bind_pool f k (unlock_key key w1))"

text \<open>The cold creation is over.\<close>

definition binding_cold :: "binding_frame \<Rightarrow> nat \<Rightarrow> exn + int \<Rightarrow> EnvWorker \<Rightarrow> binding_step \<times> EnvWorker" where
  "binding_cold f k outcome w =
     (case outcome of
        Inl e \<Rightarrow> (BindDone (Inl (cold_create_error (pool_at w k) e)), count_pending (- 1) k (on_pool k cold_create_failed w))
      | Inr new_index \<Rightarrow> finish_binding f k new_index (on_pool k (acquire_created new_index) w))"

definition release_binding :: "string \<Rightarrow> EnvWorker \<Rightarrow> EnvWorker" where
  "release_binding session_id w =
     (case dict_get (ew_sessions w) session_id of
        None \<Rightarrow> w
      | Some s \<Rightarrow>
          (let w1 = w\<lparr>ew_sessions := dict_pop (ew_sessions w) session_id\<rparr> in
           case EnvPoolManager_find (ss_pool_key (slot_at w s)) w1 of
             None \<Rightarrow> w1
           | Some k \<Rightarrow> on_pool k (EnvPool_release (ss_slot_index (slot_at w s))) w1))"

definition renew_lease :: "string \<Rightarrow> real \<Rightarrow> EnvWorker \<Rightarrow> EnvWorker" where
  "renew_lease session_id lease w =
     (case dict_get (ew_sessions w) session_id of
        None \<Rightarrow> w
      | Some s \<Rightarrow> on_slot s (\<lambda>slot. slot\<lparr>ss_lease_expiration := lease\<rparr>) w)"

definition lease_expired :: "real \<Rightarrow> SessionSlot \<Rightarrow> bool" where
  "lease_expired now slot \<longleftrightarrow> ss_lease_expiration slot \<noteq> 0 \<and> ss_lease_expiration slot \<le> now \<and> ss_active_op slot = None"

definition recover_expired_sessions :: "real \<Rightarrow> EnvWorker \<Rightarrow> string list \<times> EnvWorker" where
  "recover_expired_sessions now w =
     (let expired = map fst (filter (\<lambda>(i, s). lease_expired now (slot_at w s)) (ew_sessions w))
      in (expired, foldl (\<lambda>w i. release_binding i w) w expired))"

section \<open>Eviction\<close>

definition pool_idle :: "EnvPool \<Rightarrow> bool" where
  "pool_idle p \<longleftrightarrow> EnvPool_in_use p = 0 \<and> pending_bindings p = 0"

definition evict_candidates :: "EnvWorker \<Rightarrow> nat list" where
  "evict_candidates w =
     (if ew_max_idle_pools w = 0 then []
      else
        (let idle = filter (\<lambda>k. pool_idle (pool_at w k) \<and> \<not> ep_evicting (pool_at w k)) (dict_values (ew_pools w))
         in take (length idle - nat (ew_max_idle_pools w)) idle))"

text \<open>One candidate under its lock, which is free: whether it is closed now; and the end of its closing.\<close>

definition evict_begin :: "nat \<Rightarrow> EnvWorker \<Rightarrow> bool \<times> EnvWorker" where
  "evict_begin k w =
     (let key = ep_pool_key (pool_at w k) in
      if EnvPoolManager_find key w \<noteq> Some k \<or> \<not> pool_idle (pool_at w k) then (False, w)
      else (True, lock_key key (on_pool k (\<lambda>p. p\<lparr>ep_evicting := True\<rparr>) w)))"

definition evict_end :: "nat \<Rightarrow> EnvWorker \<Rightarrow> EnvWorker" where
  "evict_end k w =
     (let key = ep_pool_key (pool_at w k)
      in unlock_key key (on_pool k (\<lambda>p. p\<lparr>ep_evicting := False\<rparr>) (drop_pool k key (on_pool k EnvPool_close w))))"

end
