(* ===== verification/Worker_Bindings.thy ===== *)
theory Worker_Bindings
  imports Env_Worker
begin

text \<open>
  What the bindings of an EnvWorker guarantee: the steps of its coroutines over bindings and pools, the invariant
  that no two sessions are bound to the same slot of the same pool as long as no pool is retired under a binding
  that is still being made, and what happens when one is.
\<close>

section \<open>Steps\<close>

type_synonym binding_task = "binding_frame \<times> binding_wait"

text \<open>A step of a binding replaces it where it stands among the others, or ends it. Between the moment a building
  thread has entered its pool in the table and the moment its binding goes on nothing else happens here: what
  another binding or an eviction could do with the pool in between is outside these steps.\<close>

fun later :: "binding_frame \<Rightarrow> binding_step \<Rightarrow> binding_task list" where
  "later f (BindDone r) = []"
| "later f (BindWait b) = [(f, b)]"

text \<open>With \<open>careful\<close>, no dead pool is closed while a binding to it is pending, which is more than the code
  checks. A cold creation gives a slot that was in no place before, as \<open>pool_slots_once\<close> shows. The
  steps of a pool on its own (growing and shrinking) are those of \<open>Env_Pool\<close>. A round of evictions chooses its
  candidates (\<open>evict_candidates\<close>) when it starts and takes their locks one after the other later, so any pool
  may be a candidate by the time its lock is free: \<open>evict\<close> checks only what \<open>evict_begin\<close> checks then.\<close>

definition waited_for :: "bool \<Rightarrow> binding_step \<Rightarrow> EnvWorker \<Rightarrow> bool" where
  "waited_for careful st w \<longleftrightarrow> (careful \<longrightarrow> (\<forall>k. st = BindWait (BW_Close k) \<longrightarrow> pending_bindings (pool_at w k) = 0))"

inductive binding_run :: "digest_fn \<Rightarrow> bool \<Rightarrow> EnvWorker \<times> binding_task list \<Rightarrow> EnvWorker \<times> binding_task list \<Rightarrow> bool"
  for H careful where
  create: "create_binding H f w = (st, w') \<Longrightarrow> waited_for careful st w \<Longrightarrow> binding_run H careful (w, ts) (w', ts @ later f st)"
| locked: "ensure_locked H f w = (st, w') \<Longrightarrow> waited_for careful st w \<Longrightarrow>
    EnvSpecMsg_digest H (bf_env_spec f) \<notin> set (ew_pool_locks w) \<Longrightarrow>
    binding_run H careful (w, xs @ (f, BW_Lock) # ys) (w', xs @ later f st @ ys)"
| closed: "binding_closed H f k w = (st, w') \<Longrightarrow>
    binding_run H careful (w, xs @ (f, BW_Close k) # ys) (w', xs @ later f st @ ys)"
| built: "binding_built H f outcome w = (st, w') \<Longrightarrow>
    binding_run H careful (w, xs @ (f, BW_Build) # ys) (w', xs @ later f st @ ys)"
| cold: "binding_cold f k outcome w = (st, w') \<Longrightarrow>
    (\<And>i. outcome = Inr i \<Longrightarrow> i \<notin> active_slots (pool_at w k) \<and> i \<notin> set (warm_free_slots (pool_at w k))) \<Longrightarrow>
    binding_run H careful (w, xs @ (f, BW_Cold k seed) # ys) (w', xs @ later f st @ ys)"
| release: "binding_run H careful (w, ts) (release_binding i w, ts)"
| renew: "binding_run H careful (w, ts) (renew_lease i lease w, ts)"
| recover: "binding_run H careful (w, ts) (snd (recover_expired_sessions now w), ts)"
| broken: "k < length (ew_pool_objects w) \<Longrightarrow>
    binding_run H careful (w, ts) (on_pool k (\<lambda>p. p\<lparr>ep_unhealthy := True\<rparr>) w, ts)"
| evict: "k < length (ew_pool_objects w) \<Longrightarrow> ep_pool_key (pool_at w k) \<notin> set (ew_pool_locks w) \<Longrightarrow>
    binding_run H careful (w, ts) (snd (evict_begin k w), ts)"
| evicted: "k < length (ew_pool_objects w) \<Longrightarrow> ep_evicting (pool_at w k) \<Longrightarrow>
    binding_run H careful (w, ts) (evict_end k w, ts)"

abbreviation binding_runs :: "digest_fn \<Rightarrow> bool \<Rightarrow> EnvWorker \<times> binding_task list \<Rightarrow> EnvWorker \<times> binding_task list \<Rightarrow> bool" where
  "binding_runs H careful \<equiv> (binding_run H careful)\<^sup>*\<^sup>*"

section \<open>The invariant\<close>

abbreviation frame_key :: "digest_fn \<Rightarrow> binding_frame \<Rightarrow> string" where
  "frame_key H f \<equiv> EnvSpecMsg_digest H (bf_env_spec f)"

text \<open>The pools and sessions: every pool in the table is built, and every session holds an active slot of the
  pool in the table, no two the same one.\<close>

definition pool_good :: "EnvPool \<Rightarrow> bool" where
  "pool_good p \<longleftrightarrow> distinct (warm_free_slots p) \<and> set (warm_free_slots p) \<inter> active_slots p = {} \<and> finite (active_slots p)"

definition place_of :: "EnvWorker \<Rightarrow> nat \<Rightarrow> string \<times> int" where
  "place_of w s = (ss_pool_key (slot_at w s), ss_slot_index (slot_at w s))"

definition bound_to :: "EnvWorker \<Rightarrow> string \<Rightarrow> string \<times> int \<Rightarrow> bool" where
  "bound_to w i x \<longleftrightarrow> (\<exists>s. dict_get (ew_sessions w) i = Some s \<and> place_of w s = x)"

definition tables_ok :: "EnvWorker \<Rightarrow> bool" where
  "tables_ok w \<longleftrightarrow> (\<forall>k < length (ew_pool_objects w). pool_good (pool_at w k))
     \<and> (\<forall>key k. EnvPoolManager_find key w = Some k \<longrightarrow>
          k < length (ew_pool_objects w) \<and> ep_pool_key (pool_at w k) = key \<and> ep_core (pool_at w k) \<noteq> None)
     \<and> (\<forall>i s. dict_get (ew_sessions w) i = Some s \<longrightarrow> s < length (ew_slots w))"

definition sessions_ok :: "EnvWorker \<Rightarrow> bool" where
  "sessions_ok w \<longleftrightarrow> (\<forall>i x. bound_to w i x \<longrightarrow>
     (\<exists>k. EnvPoolManager_find (fst x) w = Some k \<and> snd x \<in> active_slots (pool_at w k)))"

definition exclusive :: "EnvWorker \<Rightarrow> bool" where
  "exclusive w \<longleftrightarrow> (\<forall>i j x. bound_to w i x \<longrightarrow> bound_to w j x \<longrightarrow> i = j)"

definition world_ok :: "EnvWorker \<Rightarrow> bool" where
  "world_ok w \<longleftrightarrow> tables_ok w \<and> sessions_ok w \<and> exclusive w"

text \<open>How many bindings wait for a cold creation in a pool, and the keys whose lock a binding holds.\<close>

fun waits_in :: "nat \<Rightarrow> binding_task \<Rightarrow> bool" where
  "waits_in k (f, BW_Cold j seed) = (j = k)"
| "waits_in k (f, b) = False"

fun holds_lock :: "binding_task \<Rightarrow> bool" where
  "holds_lock (f, BW_Close k) = True"
| "holds_lock (f, BW_Build) = True"
| "holds_lock (f, b) = False"

definition cold_waits :: "nat \<Rightarrow> binding_task list \<Rightarrow> int" where
  "cold_waits k ts = int (length (filter (waits_in k) ts))"

definition held_keys :: "digest_fn \<Rightarrow> binding_task list \<Rightarrow> string list" where
  "held_keys H ts = map (\<lambda>(f, b). frame_key H f) (filter holds_lock ts)"

definition counts_ok :: "EnvWorker \<Rightarrow> binding_task list \<Rightarrow> bool" where
  "counts_ok w ts \<longleftrightarrow> (\<forall>k < length (ew_pool_objects w). pending_bindings (pool_at w k) = cold_waits k ts)"

text \<open>A pool that is being closed, as dead or as idle, has nobody in it.\<close>

definition in_table :: "EnvWorker \<Rightarrow> nat \<Rightarrow> bool" where
  "in_table w k \<longleftrightarrow> k < length (ew_pool_objects w) \<and> EnvPoolManager_find (ep_pool_key (pool_at w k)) w = Some k"

definition deserted :: "EnvWorker \<Rightarrow> nat \<Rightarrow> bool" where
  "deserted w k \<longleftrightarrow> in_table w k \<and> active_slots (pool_at w k) = {} \<and> pending_bindings (pool_at w k) = 0
     \<and> (ep_unhealthy (pool_at w k) \<or> ep_evicting (pool_at w k))"

fun task_ok :: "digest_fn \<Rightarrow> EnvWorker \<Rightarrow> binding_task \<Rightarrow> bool" where
  "task_ok H w (f, BW_Lock) = True"
| "task_ok H w (f, BW_Close k) = (deserted w k \<and> frame_key H f = ep_pool_key (pool_at w k))"
| "task_ok H w (f, BW_Build) = (EnvPoolManager_find (frame_key H f) w = None)"
| "task_ok H w (f, BW_Cold k seed) = in_table w k"

definition locks_ok :: "digest_fn \<Rightarrow> EnvWorker \<Rightarrow> binding_task list \<Rightarrow> bool" where
  "locks_ok H w ts \<longleftrightarrow> distinct (held_keys H ts) \<and> set (held_keys H ts) \<subseteq> set (ew_pool_locks w)
     \<and> (\<forall>k < length (ew_pool_objects w). ep_evicting (pool_at w k) \<longrightarrow>
          deserted w k \<and> ep_pool_key (pool_at w k) \<in> set (ew_pool_locks w) \<and> ep_pool_key (pool_at w k) \<notin> set (held_keys H ts))"

definition tasks_ok :: "digest_fn \<Rightarrow> EnvWorker \<Rightarrow> binding_task list \<Rightarrow> bool" where
  "tasks_ok H w ts \<longleftrightarrow> counts_ok w ts \<and> (\<forall>t \<in> set ts. task_ok H w t) \<and> locks_ok H w ts"

definition bindings_ok :: "digest_fn \<Rightarrow> EnvWorker \<times> binding_task list \<Rightarrow> bool" where
  "bindings_ok H s \<longleftrightarrow> world_ok (fst s) \<and> tasks_ok H (fst s) (snd s)"

section \<open>Reading a changed worker\<close>

lemma on_pool_simps [simp]:
  "length (ew_pool_objects (on_pool k g w)) = length (ew_pool_objects w)" "ew_slots (on_pool k g w) = ew_slots w"
  "ew_sessions (on_pool k g w) = ew_sessions w" "ew_pools (on_pool k g w) = ew_pools w"
  "ew_pool_locks (on_pool k g w) = ew_pool_locks w" "EnvPoolManager_find key (on_pool k g w) = EnvPoolManager_find key w"
  "slot_at (on_pool k g w) s = slot_at w s" "place_of (on_pool k g w) s = place_of w s"
  "bound_to (on_pool k g w) i x = bound_to w i x"
  by (simp_all add: on_pool_def EnvPoolManager_find_def slot_at_def place_of_def bound_to_def)

lemma pool_at_on_pool:
  "k < length (ew_pool_objects w) \<Longrightarrow> pool_at (on_pool k g w) j = (if j = k then g (pool_at w k) else pool_at w j)"
  by (simp add: on_pool_def pool_at_def nth_list_update)

lemma locks_simps [simp]:
  "pool_at (lock_key key w) k = pool_at w k" "pool_at (unlock_key key w) k = pool_at w k"
  "ew_pool_objects (lock_key key w) = ew_pool_objects w" "ew_pool_objects (unlock_key key w) = ew_pool_objects w"
  "EnvPoolManager_find key' (lock_key key w) = EnvPoolManager_find key' w"
  "EnvPoolManager_find key' (unlock_key key w) = EnvPoolManager_find key' w"
  "ew_sessions (lock_key key w) = ew_sessions w" "ew_sessions (unlock_key key w) = ew_sessions w"
  "ew_slots (lock_key key w) = ew_slots w" "ew_slots (unlock_key key w) = ew_slots w"
  "ew_pool_locks (lock_key key w) = key # ew_pool_locks w" "ew_pool_locks (unlock_key key w) = removeAll key (ew_pool_locks w)"
  "bound_to (lock_key key w) i x = bound_to w i x" "bound_to (unlock_key key w) i x = bound_to w i x"
  by (simp_all add: lock_key_def unlock_key_def pool_at_def EnvPoolManager_find_def bound_to_def place_of_def slot_at_def)

lemma world_ok_locks [simp]: "world_ok (lock_key key w) = world_ok w" "world_ok (unlock_key key w) = world_ok w"
  by (simp_all add: world_ok_def tables_ok_def sessions_ok_def exclusive_def)

lemma cold_waits_simps [simp]:
  "cold_waits k [] = 0" "cold_waits k (t # ts) = of_bool (waits_in k t) + cold_waits k ts"
  "cold_waits k (xs @ ys) = cold_waits k xs + cold_waits k ys"
  by (simp_all add: cold_waits_def)

lemma held_keys_simps [simp]:
  "held_keys H [] = []" "held_keys H ((f, b) # ts) = (if holds_lock (f, b) then [frame_key H f] else []) @ held_keys H ts"
  "held_keys H (xs @ ys) = held_keys H xs @ held_keys H ys"
  by (simp_all add: held_keys_def)

section \<open>Worlds\<close>

lemma world_okD:
  assumes "world_ok w"
  shows "k < length (ew_pool_objects w) \<Longrightarrow> pool_good (pool_at w k)"
    and "EnvPoolManager_find key w = Some k \<Longrightarrow> k < length (ew_pool_objects w)"
    and "EnvPoolManager_find key w = Some k \<Longrightarrow> ep_pool_key (pool_at w k) = key"
    and "EnvPoolManager_find key w = Some k \<Longrightarrow> ep_core (pool_at w k) \<noteq> None"
    and "dict_get (ew_sessions w) i = Some s \<Longrightarrow> s < length (ew_slots w)"
    and "bound_to w i x \<Longrightarrow> \<exists>k. EnvPoolManager_find (fst x) w = Some k \<and> snd x \<in> active_slots (pool_at w k)"
    and "bound_to w i x \<Longrightarrow> bound_to w j x \<Longrightarrow> i = j"
  using assms unfolding world_ok_def tables_ok_def sessions_ok_def exclusive_def by blast+

lemma found_in_table: "world_ok w \<Longrightarrow> EnvPoolManager_find key w = Some k \<Longrightarrow> in_table w k"
  using world_okD(2,3) by (auto simp: in_table_def)

lemma world_ok_pool:
  assumes "world_ok w" "k < length (ew_pool_objects w)" "pool_good (g (pool_at w k))"
    and "ep_pool_key (g (pool_at w k)) = ep_pool_key (pool_at w k)" "ep_core (g (pool_at w k)) = ep_core (pool_at w k)"
    and "\<And>i j. bound_to w i (ep_pool_key (pool_at w k), j) \<Longrightarrow> j \<in> active_slots (pool_at w k) \<Longrightarrow> j \<in> active_slots (g (pool_at w k))"
  shows "world_ok (on_pool k g w)"
  unfolding world_ok_def tables_ok_def sessions_ok_def exclusive_def
proof (intro conjI allI impI)
  fix i x assume "bound_to (on_pool k g w) i x"
  then have b: "bound_to w i x" by simp
  obtain l where l: "EnvPoolManager_find (fst x) w = Some l" "snd x \<in> active_slots (pool_at w l)"
    using world_okD(6) [OF assms(1) b] by blast
  have "snd x \<in> active_slots (pool_at (on_pool k g w) l)"
    using assms(6) [of i "snd x"] b l world_okD(3) [OF assms(1) l(1)] by (cases "l = k") (auto simp: pool_at_on_pool [OF assms(2)])
  then show "\<exists>k'. EnvPoolManager_find (fst x) (on_pool k g w) = Some k' \<and> snd x \<in> active_slots (pool_at (on_pool k g w) k')"
    using l(1) by auto
qed (use world_okD(1,2,3,4,5,7) [OF assms(1)] assms(2-5) in \<open>auto simp: pool_at_on_pool [OF assms(2)]\<close>)

definition with_session :: "binding_frame \<Rightarrow> string \<Rightarrow> int \<Rightarrow> EnvWorker \<Rightarrow> EnvWorker" where
  "with_session f key i w =
     w\<lparr>ew_slots := ew_slots w @ [SessionSlot_init (bf_session_id f) (bf_token f) key i (bf_lease_expiration f)],
       ew_sessions := dict_set (ew_sessions w) (bf_session_id f) (length (ew_slots w))\<rparr>"

lemma with_session_simps [simp]:
  "pool_at (with_session f key i w) k = pool_at w k" "ew_pool_objects (with_session f key i w) = ew_pool_objects w"
  "EnvPoolManager_find key' (with_session f key i w) = EnvPoolManager_find key' w"
  "ew_pool_locks (with_session f key i w) = ew_pool_locks w"
  by (simp_all add: with_session_def pool_at_def EnvPoolManager_find_def)

lemma bound_to_with_session:
  assumes "world_ok w"
  shows "bound_to (with_session f key i w) j x \<longleftrightarrow> (if j = bf_session_id f then x = (key, i) else bound_to w j x)"
  using world_okD(5) [OF assms]
  by (auto simp: bound_to_def with_session_def place_of_def slot_at_def nth_append SessionSlot_init_def)

lemma world_ok_session:
  assumes "world_ok w" "EnvPoolManager_find key w = Some k" "i \<in> active_slots (pool_at w k)" "\<And>j. \<not> bound_to w j (key, i)"
  shows "world_ok (with_session f key i w)"
  unfolding world_ok_def tables_ok_def sessions_ok_def exclusive_def bound_to_with_session [OF assms(1)]
proof (intro conjI allI impI)
  fix j s assume "dict_get (ew_sessions (with_session f key i w)) j = Some s"
  then show "s < length (ew_slots (with_session f key i w))"
    using world_okD(5) [OF assms(1), of j s] by (auto simp: with_session_def split: if_splits)
qed (use world_okD(1,2,3,4,6,7) [OF assms(1)] assms(2-4) in \<open>auto split: if_splits\<close>)

lemma finish_binding_eq:
  "finish_binding f k i w = (BindDone (Inr (bf_token f)), with_session f (ep_pool_key (pool_at w k)) i (count_pending (- 1) k w))"
  by (simp add: finish_binding_def with_session_def Let_def)

text \<open>What binding in a pool comes to.\<close>

lemma list_update_idem: "k < length (ew_pool_objects w) \<Longrightarrow> g (pool_at w k) = pool_at w k \<Longrightarrow> on_pool k g w = w"
  by (simp add: on_pool_def pool_at_def)

lemma on_pool_twice: "k < length (ew_pool_objects w) \<Longrightarrow> on_pool k g (on_pool k h w) = on_pool k (g \<circ> h) w"
  by (simp add: on_pool_def pool_at_def)

lemma take_or_reserve_forms:
  obtains (none) e where "take_or_reserve p = (Inl e, p)"
  | (warm) "warm_free_slots p \<noteq> []" "take_or_reserve p = (Inr (Inl (last (warm_free_slots p))), snd (take_warm p))"
  | (grow) "take_or_reserve p = (Inr (Inr (next_seed_offset_hint p)), snd (reserve_slot p))"
proof (cases "warm_free_slots p = []")
  case True
  have r: "(\<exists>e. reserve_cold_create p = (Inl e, p)) \<or> reserve_cold_create p = (Inr (next_seed_offset_hint p), snd (reserve_slot p))"
    by (simp add: reserve_cold_create_def reserve_slot_def)
  show thesis
  proof (cases "\<exists>e. reserve_cold_create p = (Inl e, p)")
    case r1: True
    then obtain e where "reserve_cold_create p = (Inl e, p)" by blast
    with True show thesis by (intro that(1)) (simp add: take_or_reserve_def)
  next
    case False
    with r True show thesis by (intro that(3)) (simp add: take_or_reserve_def)
  qed
qed (rule that(2), simp_all add: take_or_reserve_def take_warm_def Let_def)

lemma bind_pool_cases:
  assumes "bind_pool f k w = (st, w')" "k < length (ew_pool_objects w)"
  obtains (refused) e where "st = BindDone (Inl e)" "w' = w"
  | (taken) "warm_free_slots (pool_at w k) \<noteq> []" "st = BindDone (Inr (bf_token f))"
      "w' = with_session f (ep_pool_key (pool_at w k)) (last (warm_free_slots (pool_at w k))) (on_pool k (\<lambda>_. snd (take_warm (pool_at w k))) w)"
  | (waits) seed where "st = BindWait (BW_Cold k seed)"
      "w' = on_pool k (\<lambda>_. snd (reserve_slot ((pool_at w k)\<lparr>pending_bindings := pending_bindings (pool_at w k) + 1\<rparr>))) w"
proof -
  let ?p = "pool_at w k"
  have same: "on_pool k (\<lambda>p. ?p) w = w" by (rule list_update_idem [OF assms(2)]) (rule HOL.refl)
  show ?thesis
  proof (cases rule: take_or_reserve_forms [of "pool_at (count_pending 1 k w) k"])
    case (none e)
    then show ?thesis using that(1) [of e] assms same
      by (simp add: bind_pool_def count_pending_def on_pool_twice comp_def pool_at_on_pool Let_def)
  next
    case warm
    then show ?thesis using assms
      by (intro that(2)) (auto simp: bind_pool_def count_pending_def on_pool_twice comp_def take_warm_def finish_binding_eq pool_at_on_pool Let_def)
  next
    case grow
    then show ?thesis using assms
      by (intro that(3) [of "next_seed_offset_hint ?p"]) (auto simp: bind_pool_def count_pending_def on_pool_twice comp_def reserve_slot_def pool_at_on_pool Let_def)
  qed
qed

section \<open>Pools under their operations\<close>

lemma pool_good_fields [simp]:
  "pool_good (p\<lparr>pending_bindings := n\<rparr>) = pool_good p" "pool_good (p\<lparr>ep_unhealthy := b\<rparr>) = pool_good p"
  "pool_good (p\<lparr>ep_evicting := b\<rparr>) = pool_good p" "pool_good (snd (reserve_slot p)) = pool_good p"
  "pool_good (cold_create_failed p) = pool_good p" "pool_good (EnvPool_init key spec core)" "pool_good (EnvPool_close p)"
  by (simp_all add: pool_good_def reserve_slot_def cold_create_failed_def EnvPool_init_def EnvPool_close_def)

lemma pool_good_put_warm [simp]: "pool_good p \<Longrightarrow> i \<notin> active_slots p \<Longrightarrow> pool_good (put_warm i p)"
  by (auto simp: pool_good_def put_warm_def)

lemma pool_good_release [simp]: "pool_good p \<Longrightarrow> pool_good (EnvPool_release i p)"
proof -
  assume "pool_good p"
  then have "pool_good (p\<lparr>active_slots := active_slots p - {i}\<rparr>)" by (auto simp: pool_good_def)
  then show ?thesis using \<open>pool_good p\<close> by (simp add: EnvPool_release_def)
qed

lemma pool_good_taken:
  assumes "pool_good p" "warm_free_slots p \<noteq> []"
  shows "pool_good (snd (take_warm p))" "last (warm_free_slots p) \<notin> active_slots p"
  using assms by (cases "warm_free_slots p" rule: rev_cases; auto simp: pool_good_def take_warm_def Let_def)+

lemma pool_good_created: "pool_good p \<Longrightarrow> i \<notin> set (warm_free_slots p) \<Longrightarrow> pool_good (acquire_created i p)"
  by (auto simp: pool_good_def acquire_created_def cold_create_recorded_def Let_def)

lemma pool_field_simps [simp]:
  "ep_pool_key (put_warm i p) = ep_pool_key p"
  "pending_bindings (put_warm i p) = pending_bindings p" "ep_unhealthy (put_warm i p) = ep_unhealthy p"
  "ep_evicting (put_warm i p) = ep_evicting p"
  by (simp_all add: put_warm_def)

lemmas pool_ops = take_warm_def reserve_slot_def cold_create_failed_def acquire_created_def cold_create_recorded_def
  EnvPool_release_def EnvPool_close_def EnvPool_init_def Let_def

section \<open>Tasks\<close>

lemma in_table_on_pool:
  "k < length (ew_pool_objects w) \<Longrightarrow> ep_pool_key (g (pool_at w k)) = ep_pool_key (pool_at w k) \<Longrightarrow> in_table (on_pool k g w) j = in_table w j"
  by (auto simp: in_table_def pool_at_on_pool)

lemma deserted_on_pool:
  assumes "k < length (ew_pool_objects w)" "ep_pool_key (g (pool_at w k)) = ep_pool_key (pool_at w k)"
  shows "deserted (on_pool k g w) j \<longleftrightarrow>
    (if j = k then in_table w k \<and> active_slots (g (pool_at w k)) = {} \<and> pending_bindings (g (pool_at w k)) = 0
       \<and> (ep_unhealthy (g (pool_at w k)) \<or> ep_evicting (g (pool_at w k)))
     else deserted w j)"
  using assms by (simp add: deserted_def in_table_on_pool pool_at_on_pool)

lemma tasks_ok_pool:
  assumes "tasks_ok H w ts" "k < length (ew_pool_objects w)" "ep_pool_key (g (pool_at w k)) = ep_pool_key (pool_at w k)"
    and "ep_evicting (g (pool_at w k)) = ep_evicting (pool_at w k)" "pending_bindings (g (pool_at w k)) = pending_bindings (pool_at w k) + d"
    and "\<And>j. cold_waits j ts' = cold_waits j ts + (if j = k then d else 0)" "held_keys H ts' = held_keys H ts"
    and "\<And>t. t \<in> set ts' \<Longrightarrow> t \<in> set ts \<or> in_table w k \<and> (\<exists>f seed. t = (f, BW_Cold k seed))"
    and "deserted w k \<Longrightarrow> deserted (on_pool k g w) k"
  shows "tasks_ok H (on_pool k g w) ts'"
proof -
  note at = pool_at_on_pool [OF assms(2)] in_table_on_pool [where g = g, OF assms(2,3)]
  have d: "deserted (on_pool k g w) j" if "deserted w j" for j
    using assms(9) that deserted_on_pool [where g = g, OF assms(2,3), of j] by (cases "j = k") auto
  have "counts_ok (on_pool k g w) ts'" using assms(1,5,6) by (auto simp: tasks_ok_def counts_ok_def at)
  moreover have "task_ok H (on_pool k g w) t" if "t \<in> set ts'" for t
  proof -
    have old: "task_ok H w t" using assms(8) [OF that] assms(1) by (auto simp: tasks_ok_def)
    show ?thesis
    proof (cases t)
      case (Pair f b)
      then show ?thesis using old d assms(3) by (cases b) (auto simp: at)
    qed
  qed
  moreover have "locks_ok H (on_pool k g w) ts'" using assms(1,3,4,7) d by (auto simp: tasks_ok_def locks_ok_def at)
  ultimately show ?thesis by (simp add: tasks_ok_def)
qed

lemma tasks_ok_session [simp]: "tasks_ok H (with_session f key i w) ts = tasks_ok H w ts"
proof -
  have d: "in_table (with_session f key i w) j = in_table w j" "deserted (with_session f key i w) j = deserted w j" for j
    by (simp_all add: in_table_def deserted_def)
  have "task_ok H (with_session f key i w) t = task_ok H w t" for t
    by (cases "(H, w, t)" rule: task_ok.cases) (simp_all add: d)
  then show ?thesis by (simp add: tasks_ok_def counts_ok_def locks_ok_def d)
qed

section \<open>Preservation\<close>

lemma bindings_okI: "world_ok w \<Longrightarrow> tasks_ok H w ts \<Longrightarrow> bindings_ok H (w, ts)"
  by (simp add: bindings_ok_def)

lemma bindings_okD: "bindings_ok H (w, ts) \<Longrightarrow> world_ok w" "bindings_ok H (w, ts) \<Longrightarrow> tasks_ok H w ts"
  by (simp_all add: bindings_ok_def)

text \<open>A new session takes a slot that was not active.\<close>

lemma world_ok_taken:
  assumes "world_ok w" "in_table w k" "i \<notin> active_slots (pool_at w k)" "i \<in> active_slots (g (pool_at w k))"
    "world_ok (on_pool k g w)"
  shows "world_ok (with_session f (ep_pool_key (pool_at w k)) i (on_pool k g w))"
proof (rule world_ok_session [OF assms(5)])
  show "EnvPoolManager_find (ep_pool_key (pool_at w k)) (on_pool k g w) = Some k" using assms(2) by (simp add: in_table_def)
  show "i \<in> active_slots (pool_at (on_pool k g w) k)" using assms(2,4) by (simp add: in_table_def pool_at_on_pool)
  show "\<not> bound_to (on_pool k g w) j (ep_pool_key (pool_at w k), i)" for j
    using world_okD(6) [OF assms(1), of j "(ep_pool_key (pool_at w k), i)"] assms(2,3) by (auto simp: in_table_def)
qed

lemma bind_pool_ok:
  assumes "bindings_ok H (w, xs @ ys)" "in_table w k" "\<not> deserted w k" "bind_pool f k w = (st, w')"
  shows "bindings_ok H (w', xs @ later f st @ ys)"
proof -
  have k: "k < length (ew_pool_objects w)" and good: "pool_good (pool_at w k)"
    using assms(2) world_okD(1) [OF bindings_okD(1) [OF assms(1)]] by (auto simp: in_table_def)
  show ?thesis using assms(4) k
  proof (cases rule: bind_pool_cases)
    case (refused e)
    then show ?thesis using assms(1) by simp
  next
    case taken
    let ?g = "\<lambda>_. snd (take_warm (pool_at w k))"
    have "world_ok (on_pool k ?g w)"
      by (rule world_ok_pool [OF bindings_okD(1) [OF assms(1)] k]) (use pool_good_taken(1) [OF good taken(1)] in \<open>auto simp: pool_ops\<close>)
    then have "world_ok w'" unfolding taken(3)
      by (rule world_ok_taken [OF bindings_okD(1) [OF assms(1)] assms(2) pool_good_taken(2) [OF good taken(1)], rotated]) (simp add: pool_ops)
    moreover have "tasks_ok H w' (xs @ ys)" unfolding taken(3)
      using tasks_ok_pool [OF bindings_okD(2) [OF assms(1)] k, of ?g 0 "xs @ ys"] assms(3) by (auto simp: pool_ops)
    ultimately show ?thesis by (simp add: taken bindings_ok_def)
  next
    case (waits seed)
    let ?g = "\<lambda>_. snd (reserve_slot ((pool_at w k)\<lparr>pending_bindings := pending_bindings (pool_at w k) + 1\<rparr>))"
    have "world_ok w'" unfolding waits
      by (rule world_ok_pool [OF bindings_okD(1) [OF assms(1)] k]) (use good in \<open>auto simp: reserve_slot_def pool_good_def\<close>)
    moreover have "tasks_ok H w' (xs @ (f, BW_Cold k seed) # ys)" unfolding waits
      by (rule tasks_ok_pool [OF bindings_okD(2) [OF assms(1)] k, where d = 1]) (use assms(2,3) in \<open>auto simp: pool_ops\<close>)
    ultimately show ?thesis by (simp add: waits bindings_ok_def)
  qed
qed

text \<open>Ending one task, or starting another one that holds no lock.\<close>

lemma tasks_ok_waiting [simp]: "tasks_ok H w (xs @ (f, BW_Lock) # ys) = tasks_ok H w (xs @ ys)"
  by (simp add: tasks_ok_def counts_ok_def locks_ok_def ball_Un)

lemma deserted_locks [simp]:
  "in_table (lock_key key w) k = in_table w k" "in_table (unlock_key key w) k = in_table w k"
  "deserted (lock_key key w) k = deserted w k" "deserted (unlock_key key w) k = deserted w k"
  by (simp_all add: deserted_def in_table_def)

lemma task_ok_locks [simp]: "task_ok H (lock_key key w) t = task_ok H w t" "task_ok H (unlock_key key w) t = task_ok H w t"
  by (cases "(H, w, t)" rule: task_ok.cases; simp)+

lemma tasks_ok_lock:
  assumes "tasks_ok H w (xs @ ys)" "frame_key H f \<notin> set (ew_pool_locks w)" "holds_lock (f, b)" "task_ok H w (f, b)"
  shows "tasks_ok H (lock_key (frame_key H f) w) (xs @ (f, b) # ys)"
proof -
  have "\<not> waits_in k (f, b)" for k using assms(3) by (cases b) auto
  then show ?thesis using assms by (auto simp: tasks_ok_def counts_ok_def locks_ok_def)
qed

lemma ensure_locked_ok:
  assumes "bindings_ok H (w, xs @ ys)" "frame_key H f \<notin> set (ew_pool_locks w)" "waited_for True st w" "ensure_locked H f w = (st, w')"
  shows "bindings_ok H (w', xs @ later f st @ ys)"
proof -
  note D = bindings_okD [OF assms(1)]
  show ?thesis
  proof (cases "EnvPoolManager_find (frame_key H f) w")
    case None
    then have "st = BindWait BW_Build" "w' = lock_key (frame_key H f) w" using assms(4) by (auto simp: ensure_locked_def)
    then show ?thesis using D None assms(2) tasks_ok_lock [OF D(2) assms(2), of BW_Build] by (simp add: bindings_ok_def)
  next
    case (Some k)
    note f = found_in_table [OF D(1) Some] world_okD(3,4) [OF D(1) Some]
    consider (bind) "pool_usable (pool_at w k)" "bind_pool f k w = (st, w')"
      | (busy) "st = BindDone (Inl (RuntimeApiError (make_error E_ENV_FAILURE
                  [Text ''env pool has a dead simulator pipe; retry after active sessions close'']
                  [(''pool_key'', PyStr (frame_key H f))])))" "w' = w"
      | (retire) "st = BindWait (BW_Close k)" "w' = lock_key (frame_key H f) w" "EnvPool_in_use (pool_at w k) = 0"
          "ep_unhealthy (pool_at w k) \<or> ep_evicting (pool_at w k)"
      using assms(4) Some f(3) by (auto simp: ensure_locked_def pool_usable_def Let_def split: if_splits)
    then show ?thesis
    proof cases
      case bind
      then show ?thesis by (intro bind_pool_ok [OF assms(1) f(1)]) (auto simp: deserted_def pool_usable_def)
    next
      case busy
      then show ?thesis using assms(1) by simp
    next
      case retire
      have "active_slots (pool_at w k) = {}"
        using retire(3) f(1) world_okD(1) [OF D(1)] by (auto simp: EnvPool_in_use_def pool_good_def in_table_def)
      then have "task_ok H w (f, BW_Close k)" using retire f assms(3) by (simp add: deserted_def waited_for_def)
      then show ?thesis using retire D tasks_ok_lock [OF D(2) assms(2), of "BW_Close k"] by (simp add: bindings_ok_def)
    qed
  qed
qed

text \<open>A lease changes nothing of this.\<close>

lemma bindings_ok_lease [simp]: "bindings_ok H (on_slot s (\<lambda>slot. slot\<lparr>ss_lease_expiration := l slot\<rparr>) w, ts) = bindings_ok H (w, ts)"
proof -
  let ?w = "on_slot s (\<lambda>slot. slot\<lparr>ss_lease_expiration := l slot\<rparr>) w"
  have same [simp]: "pool_at ?w k = pool_at w k" "ew_pool_objects ?w = ew_pool_objects w" "ew_sessions ?w = ew_sessions w"
    "length (ew_slots ?w) = length (ew_slots w)" "EnvPoolManager_find key ?w = EnvPoolManager_find key w"
    "ew_pool_locks ?w = ew_pool_locks w" for k key
    by (simp_all add: on_slot_def pool_at_def EnvPoolManager_find_def)
  have place [simp]: "place_of ?w t = place_of w t" for t
    by (cases "s < length (ew_slots w)") (auto simp: place_of_def on_slot_def slot_at_def nth_list_update list_update_beyond)
  then have bound [simp]: "bound_to ?w i x = bound_to w i x" for i x by (simp add: bound_to_def)
  have table [simp]: "in_table ?w k = in_table w k" "deserted ?w k = deserted w k" for k by (simp_all add: in_table_def deserted_def)
  have "task_ok H ?w t = task_ok H w t" for t by (cases "(H, ?w, t)" rule: task_ok.cases) simp_all
  then show ?thesis by (simp add: bindings_ok_def tasks_ok_def counts_ok_def locks_ok_def world_ok_def tables_ok_def sessions_ok_def exclusive_def)
qed

lemma create_binding_ok:
  assumes "bindings_ok H (w, ts)" "waited_for True st w" "create_binding H f w = (st, w')"
  shows "bindings_ok H (w', ts @ later f st)"
proof (cases "dict_get (ew_sessions w) (bf_session_id f)")
  case None
  note D = bindings_okD [OF assms(1)]
  consider (wait) "st = BindWait BW_Lock" "w' = w"
    | (locked) "frame_key H f \<notin> set (ew_pool_locks w)" "ensure_locked H f w = (st, w')"
    | (bind) k where "EnvPoolManager_find (frame_key H f) w = Some k" "pool_usable (pool_at w k)" "bind_pool f k w = (st, w')"
    using assms(3) None by (auto simp: create_binding_def ensure_pool_start_def Let_def split: option.splits if_splits)
  then show ?thesis
  proof cases
    case wait
    then show ?thesis using assms(1) by (simp add: bindings_ok_def)
  next
    case locked
    then show ?thesis using ensure_locked_ok [of H w ts "[]", OF _ locked(1) assms(2) locked(2)] assms(1) by simp
  next
    case (bind k)
    then show ?thesis using bind_pool_ok [of H w ts "[]" k, OF _ found_in_table [OF D(1) bind(1)] _ bind(3)] assms(1)
      by (auto simp: deserted_def pool_usable_def)
  qed
qed (use assms in \<open>auto simp: create_binding_def\<close>)

lemma tasks_okD: "tasks_ok H w ts \<Longrightarrow> t \<in> set ts \<Longrightarrow> task_ok H w t"
  by (simp add: tasks_ok_def)

text \<open>A deserted pool leaves the table.\<close>

lemma task_about_deserted:
  assumes "tasks_ok H w ts" "deserted w k" "(f, BW_Cold k seed) \<in> set ts"
  shows False
proof -
  have "waits_in k (f, BW_Cold k seed)" by simp
  with assms(3) have "0 < length (filter (waits_in k) ts)" by (metis filter_empty_conv length_greater_0_conv)
  then show False using assms(1,2) by (auto simp: tasks_ok_def counts_ok_def deserted_def in_table_def cold_waits_def)
qed

lemma drop_pool_eq:
  assumes "in_table w k" "key = ep_pool_key (pool_at w k)"
  shows "drop_pool k key (on_pool k g w) = (on_pool k g w)\<lparr>ew_pools := dict_pop (ew_pools w) key\<rparr>"
  using assms by (simp add: drop_pool_def in_table_def)

lemma dropped_simps [simp]:
  "pool_at (w\<lparr>ew_pools := d\<rparr>) k = pool_at w k" "EnvPoolManager_find key (w\<lparr>ew_pools := d\<rparr>) = dict_get d key"
  "bound_to (w\<lparr>ew_pools := d\<rparr>) i x = bound_to w i x"
  by (simp_all add: pool_at_def EnvPoolManager_find_def bound_to_def place_of_def slot_at_def)

lemma in_table_other:
  assumes "in_table w j" "in_table w k" "j \<noteq> k"
  shows "ep_pool_key (pool_at w j) \<noteq> ep_pool_key (pool_at w k)"
  using assms by (auto simp: in_table_def)

lemma in_table_dropped:
  assumes "in_table w k" "j \<noteq> k"
  shows "in_table ((on_pool k g w)\<lparr>ew_pools := dict_pop (ew_pools w) (ep_pool_key (pool_at w k))\<rparr>) j = in_table w j"
  using assms in_table_other [OF _ assms(1,2)]
  by (auto simp: in_table_def pool_at_on_pool EnvPoolManager_find_def)

lemma world_ok_dropped:
  assumes "world_ok w" "deserted w k" "pool_good (g (pool_at w k))"
  shows "world_ok ((on_pool k g w)\<lparr>ew_pools := dict_pop (ew_pools w) (ep_pool_key (pool_at w k))\<rparr>)"
proof -
  have k: "k < length (ew_pool_objects w)" using assms(2) by (simp add: deserted_def in_table_def)
  have none: "fst x \<noteq> ep_pool_key (pool_at w k)" if "bound_to w i x" for i x
    using world_okD(6) [OF assms(1) that] assms(2) by (auto simp: deserted_def in_table_def)
  show ?thesis
    unfolding world_ok_def tables_ok_def sessions_ok_def exclusive_def
  proof (intro conjI allI impI)
    fix i x assume "bound_to ((on_pool k g w)\<lparr>ew_pools := dict_pop (ew_pools w) (ep_pool_key (pool_at w k))\<rparr>) i x"
    then have b: "bound_to w i x" by simp
    obtain l where l: "EnvPoolManager_find (fst x) w = Some l" "snd x \<in> active_slots (pool_at w l)"
      using world_okD(6) [OF assms(1) b] by blast
    then have "l \<noteq> k" using assms(2) by (auto simp: deserted_def)
    then show "\<exists>k'. EnvPoolManager_find (fst x) ((on_pool k g w)\<lparr>ew_pools := dict_pop (ew_pools w) (ep_pool_key (pool_at w k))\<rparr>) = Some k'
      \<and> snd x \<in> active_slots (pool_at ((on_pool k g w)\<lparr>ew_pools := dict_pop (ew_pools w) (ep_pool_key (pool_at w k))\<rparr>) k')"
      using l none [OF b] k by (auto simp: pool_at_on_pool EnvPoolManager_find_def)
  next
    fix key l assume a: "EnvPoolManager_find key ((on_pool k g w)\<lparr>ew_pools := dict_pop (ew_pools w) (ep_pool_key (pool_at w k))\<rparr>) = Some l"
    then have find: "EnvPoolManager_find key w = Some l" "key \<noteq> ep_pool_key (pool_at w k)"
      by (auto simp: EnvPoolManager_find_def split: if_splits)
    then have "l \<noteq> k" using world_okD(3) [OF assms(1) find(1)] by auto
    with find(1) k show "l < length (ew_pool_objects ((on_pool k g w)\<lparr>ew_pools := dict_pop (ew_pools w) (ep_pool_key (pool_at w k))\<rparr>))"
      "ep_pool_key (pool_at ((on_pool k g w)\<lparr>ew_pools := dict_pop (ew_pools w) (ep_pool_key (pool_at w k))\<rparr>) l) = key"
      "ep_core (pool_at ((on_pool k g w)\<lparr>ew_pools := dict_pop (ew_pools w) (ep_pool_key (pool_at w k))\<rparr>) l) \<noteq> None"
      using world_okD(2,3,4) [OF assms(1) find(1)] by (auto simp: pool_at_on_pool)
  qed (use world_okD(1,5,7) [OF assms(1)] assms(3) k in \<open>auto simp: pool_at_on_pool\<close>)
qed

lemma tasks_ok_dropped:
  assumes "tasks_ok H w ts" "deserted w k" "pending_bindings (g (pool_at w k)) = pending_bindings (pool_at w k)"
    and "\<not> ep_evicting (g (pool_at w k))" "\<And>j. cold_waits j ts' = cold_waits j ts" "held_keys H ts' = held_keys H ts"
    and "\<And>t. t \<in> set ts' \<Longrightarrow> t \<in> set ts \<and> (\<forall>f. t \<noteq> (f, BW_Close k)) \<or> (\<exists>f. t = (f, BW_Build) \<and> frame_key H f = ep_pool_key (pool_at w k))"
  shows "tasks_ok H ((on_pool k g w)\<lparr>ew_pools := dict_pop (ew_pools w) (ep_pool_key (pool_at w k))\<rparr>) ts'" (is "tasks_ok H ?w ts'")
proof -
  have in_t: "in_table w k" and k: "k < length (ew_pool_objects w)" using assms(2) by (simp_all add: deserted_def in_table_def)
  note others = in_table_dropped [OF in_t]
  have des: "deserted ?w j = deserted w j" if "j \<noteq> k" for j
    using that others [OF that] k by (simp add: deserted_def pool_at_on_pool)
  have "task_ok H ?w t" if t: "t \<in> set ts'" for t
  proof (cases "\<exists>f. t = (f, BW_Build) \<and> frame_key H f = ep_pool_key (pool_at w k)")
    case False
    then have old: "t \<in> set ts" "\<And>f. t \<noteq> (f, BW_Close k)" using assms(7) [OF t] by blast+
    then have ok: "task_ok H w t" using assms(1) by (simp add: tasks_ok_def)
    show ?thesis
    proof (cases "(H, w, t)" rule: task_ok.cases)
      case (2 H' w' f j)
      then have "j \<noteq> k" using old(2) by auto
      then show ?thesis using 2 ok des k by (simp add: pool_at_on_pool)
    next
      case (4 H' w' f j seed)
      then have "j \<noteq> k" using task_about_deserted [OF assms(1,2), of f seed] old(1) by auto
      then show ?thesis using 4 ok others by simp
    qed (use ok in \<open>auto simp: EnvPoolManager_find_def\<close>)
  qed (auto simp: EnvPoolManager_find_def)
  moreover have "counts_ok ?w ts'" using assms(1,3,5) k by (auto simp: tasks_ok_def counts_ok_def pool_at_on_pool)
  moreover have "locks_ok H ?w ts'"
    using assms(1,4,6) k des by (auto simp: tasks_ok_def locks_ok_def pool_at_on_pool)
  ultimately show ?thesis by (simp add: tasks_ok_def)
qed

lemma binding_closed_ok:
  assumes "bindings_ok H (w, xs @ (f, BW_Close k) # ys)" "binding_closed H f k w = (st, w')"
  shows "bindings_ok H (w', xs @ later f st @ ys)"
proof -
  note D = bindings_okD [OF assms(1)]
  have k: "deserted w k" "frame_key H f = ep_pool_key (pool_at w k)" using D(2) by (auto simp: tasks_ok_def)
  have st: "st = BindWait BW_Build" "w' = (on_pool k EnvPool_close w)\<lparr>ew_pools := dict_pop (ew_pools w) (ep_pool_key (pool_at w k))\<rparr>"
    using assms(2) k drop_pool_eq [of w k] by (auto simp: binding_closed_def deserted_def)
  have lone: "(g, BW_Close k) \<notin> set xs \<union> set ys" for g
  proof
    assume g: "(g, BW_Close k) \<in> set xs \<union> set ys"
    then have "frame_key H g = frame_key H f" using tasks_okD [OF D(2), of "(g, BW_Close k)"] k(2) by auto
    moreover have "frame_key H g \<in> set (held_keys H xs) \<union> set (held_keys H ys)" using g by (force simp: held_keys_def)
    ultimately show False using D(2) by (auto simp: tasks_ok_def locks_ok_def)
  qed
  have not_evicting: "\<not> ep_evicting (pool_at w k)"
    using D(2) k by (auto simp: tasks_ok_def locks_ok_def deserted_def in_table_def)
  have "tasks_ok H w' (xs @ (f, BW_Build) # ys)" unfolding st
    by (rule tasks_ok_dropped [OF D(2) k(1)]) (use not_evicting lone k(2) in \<open>auto simp: EnvPool_close_def\<close>)
  moreover have "world_ok w'" unfolding st by (rule world_ok_dropped [OF D(1) k(1)]) simp
  ultimately show ?thesis by (simp add: st bindings_ok_def)
qed

lemma tasks_ok_unlock:
  assumes "tasks_ok H w ts" "key \<notin> set (held_keys H ts)"
    "\<And>j. j < length (ew_pool_objects w) \<Longrightarrow> ep_evicting (pool_at w j) \<Longrightarrow> ep_pool_key (pool_at w j) \<noteq> key"
  shows "tasks_ok H (unlock_key key w) ts"
  using assms by (auto simp: tasks_ok_def counts_ok_def locks_ok_def)

lemma evict_end_ok:
  assumes "bindings_ok H (w, ts)" "k < length (ew_pool_objects w)" "ep_evicting (pool_at w k)"
  shows "bindings_ok H (evict_end k w, ts)"
proof -
  note D = bindings_okD [OF assms(1)]
  let ?g = "\<lambda>p. (EnvPool_close p)\<lparr>ep_evicting := False\<rparr>" and ?key = "ep_pool_key (pool_at w k)"
  let ?w = "(on_pool k ?g w)\<lparr>ew_pools := dict_pop (ew_pools w) ?key\<rparr>"
  have k: "deserted w k" "?key \<notin> set (held_keys H ts)" using D(2) assms(2,3) by (auto simp: tasks_ok_def locks_ok_def)
  have "drop_pool k ?key (on_pool k EnvPool_close w) = (on_pool k EnvPool_close w)\<lparr>ew_pools := dict_pop (ew_pools w) ?key\<rparr>"
    using drop_pool_eq [of w k] k(1) by (simp add: deserted_def)
  moreover have "on_pool k (\<lambda>p. p\<lparr>ep_evicting := False\<rparr>) ((on_pool k EnvPool_close w)\<lparr>ew_pools := d\<rparr>) = (on_pool k ?g w)\<lparr>ew_pools := d\<rparr>" for d
    using assms(2) by (simp add: on_pool_def pool_at_def)
  ultimately have eq: "evict_end k w = unlock_key ?key ?w" by (simp add: evict_end_def Let_def)
  have "tasks_ok H ?w ts"
  proof (rule tasks_ok_dropped [OF D(2) k(1)])
    fix t assume t: "t \<in> set ts"
    have "t \<noteq> (f, BW_Close k)" for f
    proof
      assume "t = (f, BW_Close k)"
      with t have at: "(f, BW_Close k) \<in> set ts" by simp
      then have "frame_key H f \<in> set (held_keys H ts)" by (force simp: held_keys_def)
      then show False using tasks_okD [OF D(2) at] k(2) by simp
    qed
    then show "t \<in> set ts \<and> (\<forall>f. t \<noteq> (f, BW_Close k)) \<or> (\<exists>f. t = (f, BW_Build) \<and> frame_key H f = ?key)" using t by blast
  qed (simp_all add: EnvPool_close_def)
  moreover have "ep_pool_key (pool_at ?w j) \<noteq> ?key" if "j < length (ew_pool_objects ?w)" "ep_evicting (pool_at ?w j)" for j
  proof -
    have j: "j \<noteq> k" "deserted w j" using that D(2) assms(2) by (auto simp: pool_at_on_pool tasks_ok_def locks_ok_def split: if_splits)
    then show ?thesis using k(1) in_table_other [of w j k] assms(2) by (simp add: pool_at_on_pool deserted_def)
  qed
  ultimately have "tasks_ok H (evict_end k w) ts" unfolding eq using k(2) by (intro tasks_ok_unlock) auto
  moreover have "world_ok (evict_end k w)" unfolding eq world_ok_locks
    by (rule world_ok_dropped [OF D(1) k(1)]) simp
  ultimately show ?thesis by (simp add: bindings_ok_def)
qed

text \<open>Marking a pool: dead, or being evicted.\<close>

lemma broken_ok:
  assumes "bindings_ok H (w, ts)" "k < length (ew_pool_objects w)"
  shows "bindings_ok H (on_pool k (\<lambda>p. p\<lparr>ep_unhealthy := True\<rparr>) w, ts)"
proof (rule bindings_okI)
  note D = bindings_okD [OF assms(1)]
  show "world_ok (on_pool k (\<lambda>p. p\<lparr>ep_unhealthy := True\<rparr>) w)"
    by (rule world_ok_pool [OF D(1) assms(2)]) (use world_okD(1) [OF D(1) assms(2)] in auto)
  show "tasks_ok H (on_pool k (\<lambda>p. p\<lparr>ep_unhealthy := True\<rparr>) w) ts"
    by (rule tasks_ok_pool [OF D(2) assms(2), where d = 0]) (auto simp: deserted_on_pool assms(2), auto simp: deserted_def)
qed

lemma evict_begin_ok:
  assumes "bindings_ok H (w, ts)" "ep_pool_key (pool_at w k) \<notin> set (ew_pool_locks w)"
  shows "bindings_ok H (snd (evict_begin k w), ts)"
proof (cases "EnvPoolManager_find (ep_pool_key (pool_at w k)) w = Some k \<and> pool_idle (pool_at w k)")
  case True
  note D = bindings_okD [OF assms(1)]
  let ?g = "\<lambda>p. p\<lparr>ep_evicting := True\<rparr>" and ?key = "ep_pool_key (pool_at w k)"
  let ?w = "on_pool k ?g w"
  have k: "k < length (ew_pool_objects w)" "in_table w k" using True found_in_table [OF D(1)] by (auto simp: in_table_def)
  have empty: "active_slots (pool_at w k) = {}" "pending_bindings (pool_at w k) = 0"
    using True world_okD(1) [OF D(1) k(1)] by (auto simp: pool_idle_def EnvPool_in_use_def pool_good_def)
  have eq: "snd (evict_begin k w) = lock_key ?key ?w" using True by (simp add: evict_begin_def Let_def)
  have des: "deserted ?w j \<longleftrightarrow> j = k \<or> deserted w j" for j using empty k by (auto simp: deserted_on_pool)
  have free: "?key \<notin> set (held_keys H ts)" using D(2) assms(2) by (auto simp: tasks_ok_def locks_ok_def)
  have "task_ok H ?w t" if "t \<in> set ts" for t
    using tasks_okD [OF D(2) that] k(1) des
    by (cases "(H, ?w, t)" rule: task_ok.cases) (auto simp: in_table_on_pool pool_at_on_pool)
  moreover have "counts_ok ?w ts" using D(2) k(1) by (auto simp: tasks_ok_def counts_ok_def pool_at_on_pool)
  moreover have "locks_ok H (lock_key ?key ?w) ts"
    using D(2) k(1) des free by (auto simp: tasks_ok_def locks_ok_def pool_at_on_pool)
  moreover have "world_ok ?w"
    by (rule world_ok_pool [OF D(1) k(1)]) (use world_okD(1) [OF D(1) k(1)] in auto)
  ultimately show ?thesis unfolding eq by (simp add: bindings_ok_def tasks_ok_def counts_ok_def)
qed (use assms in \<open>auto simp: evict_begin_def Let_def\<close>)

text \<open>A cold creation that ended.\<close>

lemma binding_cold_ok:
  assumes "bindings_ok H (w, xs @ (f, BW_Cold k seed) # ys)" "binding_cold f k outcome w = (st, w')"
    and "\<And>i. outcome = Inr i \<Longrightarrow> i \<notin> active_slots (pool_at w k) \<and> i \<notin> set (warm_free_slots (pool_at w k))"
  shows "bindings_ok H (w', xs @ later f st @ ys)"
proof -
  note D = bindings_okD [OF assms(1)]
  have in_t: "in_table w k" using tasks_okD [OF D(2), of "(f, BW_Cold k seed)"] by simp
  then have k: "k < length (ew_pool_objects w)" by (simp add: in_table_def)
  have busy: "\<not> deserted w k" using task_about_deserted [OF D(2), of k f seed] by auto
  note good = world_okD(1) [OF D(1) k]
  show ?thesis
  proof (cases outcome)
    case (Inl e)
    let ?g = "\<lambda>p. (cold_create_failed p)\<lparr>pending_bindings := pending_bindings p - 1\<rparr>"
    have eq: "w' = on_pool k ?g w" "st = BindDone (Inl (cold_create_error (pool_at w k) e))"
      using assms(2) Inl k by (auto simp: binding_cold_def count_pending_def on_pool_twice comp_def cold_create_failed_def)
    have "world_ok w'" unfolding eq by (rule world_ok_pool [OF D(1) k]) (use good in \<open>auto simp: cold_create_failed_def pool_good_def\<close>)
    moreover have "tasks_ok H w' (xs @ ys)" unfolding eq
      by (rule tasks_ok_pool [OF D(2) k, where d = "- 1"]) (use busy in \<open>auto simp: cold_create_failed_def\<close>)
    ultimately show ?thesis by (simp add: eq bindings_ok_def)
  next
    case (Inr i)
    let ?g = "\<lambda>p. (acquire_created i p)\<lparr>pending_bindings := pending_bindings p - 1\<rparr>"
    have key: "ep_pool_key (pool_at (on_pool k (acquire_created i) w) k) = ep_pool_key (pool_at w k)"
      using k by (simp add: pool_at_on_pool acquire_created_def cold_create_recorded_def Let_def)
    have eq: "w' = with_session f (ep_pool_key (pool_at w k)) i (on_pool k ?g w)" "st = BindDone (Inr (bf_token f))"
      using assms(2) Inr k key by (auto simp: binding_cold_def count_pending_def finish_binding_eq on_pool_twice comp_def acquire_created_def cold_create_recorded_def Let_def)
    have "world_ok (on_pool k ?g w)"
      by (rule world_ok_pool [OF D(1) k]) (use pool_good_created [OF good, of i] assms(3) [OF Inr] in \<open>auto simp: acquire_created_def cold_create_recorded_def Let_def\<close>)
    then have "world_ok w'" unfolding eq
      by (rule world_ok_taken [OF D(1) in_t, rotated 2]) (use assms(3) [OF Inr] in \<open>auto simp: acquire_created_def cold_create_recorded_def Let_def\<close>)
    moreover have "tasks_ok H (on_pool k ?g w) (xs @ ys)"
      by (rule tasks_ok_pool [OF D(2) k, where d = "- 1"]) (use busy in \<open>auto simp: acquire_created_def cold_create_recorded_def Let_def\<close>)
    ultimately show ?thesis by (simp add: eq bindings_ok_def)
  qed
qed

text \<open>A pool that was built.\<close>

definition with_pool :: "EnvPool \<Rightarrow> EnvWorker \<Rightarrow> EnvWorker" where
  "with_pool p w = w\<lparr>ew_pool_objects := ew_pool_objects w @ [p],
     ew_pools := dict_set (ew_pools w) (ep_pool_key p) (length (ew_pool_objects w))\<rparr>"

lemma with_pool_simps [simp]:
  "k < length (ew_pool_objects w) \<Longrightarrow> pool_at (with_pool p w) k = pool_at w k"
  "pool_at (with_pool p w) (length (ew_pool_objects w)) = p"
  "EnvPoolManager_find key (with_pool p w) = (if key = ep_pool_key p then Some (length (ew_pool_objects w)) else EnvPoolManager_find key w)"
  "bound_to (with_pool p w) i x = bound_to w i x"
  "length (ew_pool_objects (with_pool p w)) = Suc (length (ew_pool_objects w))" "ew_sessions (with_pool p w) = ew_sessions w"
  "ew_slots (with_pool p w) = ew_slots w" "ew_pool_locks (with_pool p w) = ew_pool_locks w"
  by (auto simp: with_pool_def pool_at_def EnvPoolManager_find_def bound_to_def place_of_def slot_at_def nth_append)

lemma binding_built_ok:
  assumes "bindings_ok H (w, xs @ (f, BW_Build) # ys)" "binding_built H f outcome w = (st, w')"
  shows "bindings_ok H (w', xs @ later f st @ ys)"
proof -
  note D = bindings_okD [OF assms(1)]
  let ?key = "frame_key H f"
  have none: "EnvPoolManager_find ?key w = None" using tasks_okD [OF D(2), of "(f, BW_Build)"] by simp
  have free: "?key \<notin> set (held_keys H (xs @ ys))" "distinct (held_keys H (xs @ ys))"
    using D(2) by (auto simp: tasks_ok_def locks_ok_def)
  have other_keys: "frame_key H g \<noteq> ?key" if "(g, b) \<in> set (xs @ ys)" "holds_lock (g, b)" for g b
    using free(1) that by (force simp: held_keys_def)
  have other_pools: "ep_pool_key (pool_at w j) \<noteq> ?key" if "in_table w j" for j using that none by (auto simp: in_table_def)
  have rest: "tasks_ok H (unlock_key ?key w) (xs @ ys)"
  proof (rule tasks_ok_unlock [OF _ free(1)])
    show "tasks_ok H w (xs @ ys)" using D(2) by (auto simp: tasks_ok_def counts_ok_def locks_ok_def)
    show "ep_pool_key (pool_at w j) \<noteq> ?key" if "j < length (ew_pool_objects w)" "ep_evicting (pool_at w j)" for j
      using other_pools [of j] that D(2) by (auto simp: tasks_ok_def locks_ok_def deserted_def)
  qed
  show ?thesis
  proof (cases outcome)
    case (Inl e)
    then show ?thesis using assms(2) none rest D(1) by (auto simp: binding_built_def EnvPoolManager_ensure_pool_def bindings_ok_def Let_def)
  next
    case (Inr core)
    let ?p = "EnvPool_init ?key (bf_env_spec f) (Some core)" and ?n = "length (ew_pool_objects w)"
    let ?v = "with_pool ?p w" and ?w = "unlock_key ?key (with_pool ?p w)"
    have p: "ep_pool_key ?p = ?key" "pending_bindings ?p = 0" "\<not> ep_unhealthy ?p" "\<not> ep_evicting ?p" "ep_core ?p \<noteq> None"
      by (simp_all add: EnvPool_init_def)
    have bind: "bind_pool f ?n ?w = (st, w')"
      using assms(2) none Inr by (simp add: binding_built_def EnvPoolManager_ensure_pool_def with_pool_def p Let_def)
    have table: "in_table ?v j \<longleftrightarrow> j = ?n \<or> in_table w j" for j
      using none by (auto simp: in_table_def p)
    have des: "deserted ?v j \<longleftrightarrow> deserted w j" for j
    proof (cases "j < ?n")
      case False
      then have "\<not> in_table w j" by (simp add: in_table_def)
      then show ?thesis using p by (auto simp: deserted_def table)
    qed (simp add: deserted_def table)
    have "task_ok H ?w t" if t: "t \<in> set (xs @ ys)" for t
    proof -
      have "task_ok H w t" using tasks_okD [OF D(2), of t] t by auto
      then show ?thesis using t none other_keys [of "fst t" "snd t"]
        by (cases "(H, ?w, t)" rule: task_ok.cases) (auto simp: des table p deserted_def in_table_def)
    qed
    moreover have "counts_ok ?w (xs @ ys)"
    proof -
      have "cold_waits ?n (xs @ ys) = 0"
      proof -
        have "\<not> waits_in ?n t" if "t \<in> set (xs @ ys)" for t
          using tasks_okD [OF D(2), of t] that by (cases "(?n, t)" rule: waits_in.cases) (auto simp: in_table_def)
        then show ?thesis by (auto simp: cold_waits_def filter_empty_conv)
      qed
      then show ?thesis using rest p by (auto simp: tasks_ok_def counts_ok_def less_Suc_eq)
    qed
    moreover have "locks_ok H ?w (xs @ ys)" using rest p by (auto simp: tasks_ok_def locks_ok_def des less_Suc_eq)
    moreover have "world_ok (with_pool ?p w)"
      unfolding world_ok_def tables_ok_def sessions_ok_def exclusive_def
    proof (intro conjI allI impI)
      fix i x assume "bound_to (with_pool ?p w) i x"
      then have "bound_to w i x" by simp
      from world_okD(6) [OF D(1) this] none
      show "\<exists>k. EnvPoolManager_find (fst x) (with_pool ?p w) = Some k \<and> snd x \<in> active_slots (pool_at (with_pool ?p w) k)"
        using world_okD(2) [OF D(1)] by (fastforce simp: p)
    qed (use world_okD(1,2,3,4,5,7) [OF D(1)] p in \<open>auto simp: less_Suc_eq split: if_splits\<close>)
    ultimately have "bindings_ok H (?w, xs @ ys)" by (auto simp: bindings_ok_def tasks_ok_def)
    moreover have "\<not> deserted ?w ?n" using des by (simp add: deserted_def [of w] in_table_def [of w])
    ultimately show ?thesis using bind table [of ?n] by (intro bind_pool_ok [OF _ _ _ bind]) auto
  qed
qed

text \<open>Sessions that end.\<close>

lemma release_ok:
  assumes "bindings_ok H (w, ts)"
  shows "bindings_ok H (release_binding i w, ts)"
proof (cases "dict_get (ew_sessions w) i")
  case (Some s)
  note D = bindings_okD [OF assms]
  let ?w = "w\<lparr>ew_sessions := dict_pop (ew_sessions w) i\<rparr>" and ?key = "ss_pool_key (slot_at w s)" and ?j = "ss_slot_index (slot_at w s)"
  have at: "bound_to w i (?key, ?j)" using Some by (simp add: bound_to_def place_of_def)
  have same [simp]: "pool_at ?w k = pool_at w k" "EnvPoolManager_find key ?w = EnvPoolManager_find key w" for k key
    by (simp_all add: pool_at_def EnvPoolManager_find_def)
  have table [simp]: "in_table ?w k = in_table w k" "deserted ?w k = deserted w k" for k by (simp_all add: in_table_def deserted_def)
  have bound: "bound_to ?w l x \<longleftrightarrow> l \<noteq> i \<and> bound_to w l x" for l x
    by (auto simp: bound_to_def place_of_def slot_at_def)
  have w: "world_ok ?w"
    using D(1) unfolding world_ok_def tables_ok_def sessions_ok_def exclusive_def bound by (auto split: if_splits)
  have "task_ok H ?w t = task_ok H w t" for t by (cases "(H, ?w, t)" rule: task_ok.cases) simp_all
  then have t: "tasks_ok H ?w ts" using D(2) by (simp add: tasks_ok_def counts_ok_def locks_ok_def)
  obtain k where k: "EnvPoolManager_find ?key w = Some k" "?j \<in> active_slots (pool_at w k)"
    using world_okD(6) [OF D(1) at] by auto
  have len: "k < length (ew_pool_objects ?w)" using world_okD(2) [OF D(1) k(1)] by simp
  let ?g = "EnvPool_release ?j"
  have fields: "ep_pool_key (?g p) = ep_pool_key p" "ep_core (?g p) = ep_core p" "ep_evicting (?g p) = ep_evicting p"
    "pending_bindings (?g p) = pending_bindings p" "active_slots p - {?j} \<subseteq> active_slots (?g p)" for p
    by (auto simp: EnvPool_release_def put_warm_def)
  have "world_ok (on_pool k ?g ?w)"
  proof (rule world_ok_pool [OF w len])
    show "j \<in> active_slots (?g (pool_at ?w k))" if "bound_to ?w l (ep_pool_key (pool_at ?w k), j)" "j \<in> active_slots (pool_at ?w k)" for l j
      using that fields(5) [of "pool_at w k"] world_okD(7) [OF D(1) at, of l] world_okD(3) [OF D(1) k(1)] by (auto simp: bound)
  qed (use fields world_okD(1) [OF D(1)] len in auto)
  moreover have "tasks_ok H (on_pool k ?g ?w) ts"
    by (rule tasks_ok_pool [OF t len, where d = 0]) (use fields k(2) in \<open>auto simp: deserted_def\<close>)
  ultimately show ?thesis using Some k(1) by (simp add: release_binding_def bindings_ok_def)
qed (use assms in \<open>simp add: release_binding_def\<close>)

lemma recover_ok: "bindings_ok H (w, ts) \<Longrightarrow> bindings_ok H (snd (recover_expired_sessions now w), ts)"
proof -
  have "bindings_ok H (v, ts) \<Longrightarrow> bindings_ok H (foldl (\<lambda>w i. release_binding i w) v is, ts)" for v "is"
    by (induction "is" arbitrary: v) (simp_all add: release_ok)
  then show "bindings_ok H (w, ts) \<Longrightarrow> ?thesis" by (simp add: recover_expired_sessions_def Let_def)
qed

lemma binding_run_ok:
  assumes "binding_run H True s s'" "bindings_ok H s"
  shows "bindings_ok H s'"
  using assms
proof (cases rule: binding_run.cases)
  case (create f w st w' ts)
  then show ?thesis using create_binding_ok assms(2) by blast
next
  case (locked f w st w' xs ys)
  then show ?thesis using ensure_locked_ok [of H w xs ys f st w'] assms(2) by (auto simp: bindings_ok_def)
next
  case (renew w ts i lease)
  then show ?thesis using assms(2) by (auto simp: renew_lease_def split: option.split)
next
  case (closed f k w st w' xs ys)
  then show ?thesis using binding_closed_ok [of H w xs f k ys st w'] assms(2) by simp
next
  case (built f outcome w st w' xs ys)
  then show ?thesis using binding_built_ok [of H w xs f ys outcome st w'] assms(2) by simp
next
  case (cold f k outcome w st w' xs seed ys)
  then show ?thesis using binding_cold_ok [of H w xs f k seed ys outcome st w'] assms(2) by simp
next
  case (release w ts i)
  then show ?thesis using release_ok assms(2) by simp
next
  case (recover w ts now)
  then show ?thesis using recover_ok assms(2) by simp
next
  case (broken k w ts)
  then show ?thesis using broken_ok assms(2) by simp
next
  case (evict k w ts)
  then show ?thesis using evict_begin_ok assms(2) by simp
next
  case (evicted k w ts)
  then show ?thesis using evict_end_ok assms(2) by simp
qed

lemma binding_runs_ok: "binding_runs H True s s' \<Longrightarrow> bindings_ok H s \<Longrightarrow> bindings_ok H s'"
  by (induction rule: rtranclp_induct) (auto intro: binding_run_ok)

lemma bindings_ok_init: "RuntimeEnvWorker_init rank grp idle pol coal = Inr w \<Longrightarrow> bindings_ok H (w, [])"
  by (auto simp: RuntimeEnvWorker_init_def bindings_ok_def world_ok_def tables_ok_def sessions_ok_def exclusive_def bound_to_def
      tasks_ok_def counts_ok_def locks_ok_def EnvPoolManager_find_def split: if_splits)

section \<open>Sessions and slots\<close>

text \<open>C8: As long as no dead pool is retired while a binding to it is pending, no two sessions of a worker are
  ever bound to the same slot of the same pool, and the slot of a session is active, and not warm, in the pool
  that its key finds, whatever bindings, builds, cold creations, releases, expiries, failures and evictions overlap.\<close>
theorem sessions_never_share_slot:
  assumes "RuntimeEnvWorker_init rank grp idle pol coal = Inr w0" "binding_runs H True (w0, []) (w, ts)"
  shows "(bound_to w i x \<longrightarrow> bound_to w j x \<longrightarrow> i = j)
    \<and> (bound_to w i x \<longrightarrow> (\<exists>k. EnvPoolManager_find (fst x) w = Some k \<and> ep_pool_key (pool_at w k) = fst x
          \<and> snd x \<in> active_slots (pool_at w k) \<and> snd x \<notin> set (warm_free_slots (pool_at w k))))"
proof -
  have ok: "world_ok w" using binding_runs_ok [OF assms(2) bindings_ok_init [OF assms(1)]] by (simp add: bindings_ok_def)
  have "\<exists>k. EnvPoolManager_find (fst x) w = Some k \<and> ep_pool_key (pool_at w k) = fst x
      \<and> snd x \<in> active_slots (pool_at w k) \<and> snd x \<notin> set (warm_free_slots (pool_at w k))" if b: "bound_to w i x"
  proof -
    obtain k where k: "EnvPoolManager_find (fst x) w = Some k" "snd x \<in> active_slots (pool_at w k)"
      using world_okD(6) [OF ok b] by blast
    then show ?thesis using world_okD(3) [OF ok k(1)] world_okD(1) [OF ok world_okD(2) [OF ok k(1)]] by (auto simp: pool_good_def)
  qed
  then show ?thesis using world_okD(7) [OF ok] by blast
qed

text \<open>A run. A pool of one slot that may have two; every state is written out.\<close>

definition run_frame :: "string \<Rightarrow> binding_frame" where
  "run_frame i = \<lparr>bf_session_id = i, bf_env_spec = demo_spec, bf_lease_expiration = 0, bf_token = i\<rparr>"

abbreviation run_key :: "digest_fn \<Rightarrow> string" where
  "run_key H \<equiv> EnvSpecMsg_digest H demo_spec"

definition run_pool_of :: "digest_fn \<Rightarrow> int list \<Rightarrow> int set \<Rightarrow> bool \<Rightarrow> int \<Rightarrow> int \<Rightarrow> int \<Rightarrow> bool \<Rightarrow> EnvPool" where
  "run_pool_of H warm active built cold reserved pending dead =
     (EnvPool_init (run_key H) demo_spec (if built then Some (demo_core 1) else None))
       \<lparr>warm_free_slots := warm, active_slots := active, pending_cold_creates := cold, reserved_slot_count := reserved,
         next_seed_offset_hint := reserved, pending_bindings := pending, ep_unhealthy := dead\<rparr>"

definition run_worker :: "EnvPool list \<Rightarrow> (string, nat) dict \<Rightarrow> string list \<Rightarrow> (string, nat) dict \<Rightarrow> SessionSlot list \<Rightarrow> EnvWorker" where
  "run_worker objects table locks sessions slots =
     \<lparr>ew_worker_rank = 0, ew_group_name = ''env'', ew_max_idle_pools = 0, ew_default_policy_id = ''fake'', ew_coalesce = True,
      ew_pools = table, ew_pool_objects = objects, ew_pool_locks = locks, ew_sessions = sessions, ew_slots = slots,
      ew_active = [], ew_requests = [], ew_inference = InferenceClient_init 0, stale_command_count = 0, rejected_command_count = 0\<rparr>"

abbreviation run_slot :: "digest_fn \<Rightarrow> string \<Rightarrow> int \<Rightarrow> SessionSlot" where
  "run_slot H i j \<equiv> SessionSlot_init i i (run_key H) j 0"

lemmas run_defs = run_frame_def run_pool_of_def run_worker_def demo_spec_def EnvPool_init_def EnvSpecMsg_effective_max_pool_size_def
  EnvPool_dynamic_def SessionSlot_init_def pool_at_def slot_at_def on_pool_def EnvPoolManager_find_def EnvPool_in_use_def
  count_pending_def dict_set_new dict_get_Cons dict_pop_def

lemmas binding_defs = create_binding_def ensure_pool_start_def ensure_locked_def bind_pool_def finish_binding_def pool_usable_def
  lock_key_def unlock_key_def waited_for_def binding_built_def EnvPoolManager_ensure_pool_def binding_closed_def drop_pool_def
  EnvPool_close_def EnvPool_pool_size_def binding_cold_def release_binding_def

lemma binding_run_to: "binding_run H c s t \<Longrightarrow> t = s' \<Longrightarrow> binding_run H c s s'"
  by simp

lemma run_building:
  "binding_run H c (run_worker [] [] [] [] [], []) (run_worker [] [] [run_key H] [] [], [(run_frame ''X'', BW_Build)])"
  by (rule binding_run_to [OF binding_run.create [where f = "run_frame ''X''", OF prod.collapse [symmetric]]])
    (auto simp: binding_defs run_defs pool_op_defs)

lemma run_first:
  "binding_run H c (run_worker [] [] [run_key H] [] [], [(run_frame ''X'', BW_Build)])
     (run_worker [run_pool_of H [] {0} True 0 1 0 False] [(run_key H, 0)] [] [(''X'', 0)] [run_slot H ''X'' 0], [])"
  by (rule binding_run_to [OF binding_run.built [where f = "run_frame ''X''" and outcome = "Inr (demo_core 1)" and xs = "[]" and ys = "[]", simplified append_Nil append_Cons, OF prod.collapse [symmetric]]])
    (auto simp: binding_defs run_defs pool_op_defs)

lemma run_growing:
  "binding_run H c (run_worker [run_pool_of H [] {0} True 0 1 0 False] [(run_key H, 0)] [] [(''X'', 0)] [run_slot H ''X'' 0], [])
     (run_worker [run_pool_of H [] {0} True 1 2 1 False] [(run_key H, 0)] [] [(''X'', 0)] [run_slot H ''X'' 0], [(run_frame ''A'', BW_Cold 0 1)])"
  by (rule binding_run_to [OF binding_run.create [where f = "run_frame ''A''", OF prod.collapse [symmetric]]])
    (auto simp: binding_defs run_defs pool_op_defs)

lemma run_grown:
  "binding_run H c (run_worker [run_pool_of H [] {0} True 1 2 1 False] [(run_key H, 0)] [] [(''X'', 0)] [run_slot H ''X'' 0], [(run_frame ''A'', BW_Cold 0 1)])
     (run_worker [run_pool_of H [] {0, 1} True 0 2 0 False] [(run_key H, 0)] [] [(''X'', 0), (''A'', 1)] [run_slot H ''X'' 0, run_slot H ''A'' 1], [])"
  by (rule binding_run_to [OF binding_run.cold [where f = "run_frame ''A''" and k = 0 and outcome = "Inr 1" and xs = "[]" and ys = "[]" and seed = 1, simplified append_Nil, OF prod.collapse [symmetric]]])
    (auto simp: binding_defs run_defs pool_op_defs)

lemma run_dies:
  "binding_run H c (run_worker [run_pool_of H [] {0} True 1 2 1 False] [(run_key H, 0)] [] [(''X'', 0)] [run_slot H ''X'' 0], [(run_frame ''A'', BW_Cold 0 1)])
     (run_worker [run_pool_of H [] {0} True 1 2 1 True] [(run_key H, 0)] [] [(''X'', 0)] [run_slot H ''X'' 0], [(run_frame ''A'', BW_Cold 0 1)])"
  by (rule binding_run_to [OF binding_run.broken [where k = 0]])
    (auto simp: binding_defs run_defs pool_op_defs)

lemma run_leaves:
  "binding_run H c (run_worker [run_pool_of H [] {0} True 1 2 1 True] [(run_key H, 0)] [] [(''X'', 0)] [run_slot H ''X'' 0], [(run_frame ''A'', BW_Cold 0 1)])
     (run_worker [run_pool_of H [0] {} True 1 2 1 True] [(run_key H, 0)] [] [] [run_slot H ''X'' 0], [(run_frame ''A'', BW_Cold 0 1)])"
  by (rule binding_run_to [OF binding_run.release [where i = "''X''"]])
    (auto simp: binding_defs run_defs pool_op_defs)

lemma run_retires:
  "binding_run H False (run_worker [run_pool_of H [0] {} True 1 2 1 True] [(run_key H, 0)] [] [] [run_slot H ''X'' 0], [(run_frame ''A'', BW_Cold 0 1)])
     (run_worker [run_pool_of H [0] {} True 1 2 1 True] [(run_key H, 0)] [run_key H] [] [run_slot H ''X'' 0], [(run_frame ''A'', BW_Cold 0 1), (run_frame ''B'', BW_Close 0)])"
  by (rule binding_run_to [OF binding_run.create [where f = "run_frame ''B''", OF prod.collapse [symmetric]]])
    (auto simp: binding_defs run_defs pool_op_defs)

lemma run_closes:
  "binding_run H c (run_worker [run_pool_of H [0] {} True 1 2 1 True] [(run_key H, 0)] [run_key H] [] [run_slot H ''X'' 0], [(run_frame ''A'', BW_Cold 0 1), (run_frame ''B'', BW_Close 0)])
     (run_worker [run_pool_of H [0] {} False 1 2 1 True] [] [run_key H] [] [run_slot H ''X'' 0], [(run_frame ''A'', BW_Cold 0 1), (run_frame ''B'', BW_Build)])"
  by (rule binding_run_to [OF binding_run.closed [where f = "run_frame ''B''" and k = 0 and xs = "[(run_frame ''A'', BW_Cold 0 1)]" and ys = "[]", simplified append_Nil append_Cons, OF prod.collapse [symmetric]]])
    (auto simp: binding_defs run_defs pool_op_defs)

lemma run_rebuilds:
  "binding_run H c (run_worker [run_pool_of H [0] {} False 1 2 1 True] [] [run_key H] [] [run_slot H ''X'' 0], [(run_frame ''A'', BW_Cold 0 1), (run_frame ''B'', BW_Build)])
     (run_worker [run_pool_of H [0] {} False 1 2 1 True, run_pool_of H [] {0} True 0 1 0 False] [(run_key H, 1)] [] [(''B'', 1)] [run_slot H ''X'' 0, run_slot H ''B'' 0], [(run_frame ''A'', BW_Cold 0 1)])"
  by (rule binding_run_to [OF binding_run.built [where f = "run_frame ''B''" and outcome = "Inr (demo_core 1)" and xs = "[(run_frame ''A'', BW_Cold 0 1)]" and ys = "[]", simplified append_Nil append_Cons, OF prod.collapse [symmetric]]])
    (auto simp: binding_defs run_defs pool_op_defs)

lemma run_grows_again:
  "binding_run H c (run_worker [run_pool_of H [0] {} False 1 2 1 True, run_pool_of H [] {0} True 0 1 0 False] [(run_key H, 1)] [] [(''B'', 1)] [run_slot H ''X'' 0, run_slot H ''B'' 0], [(run_frame ''A'', BW_Cold 0 1)])
     (run_worker [run_pool_of H [0] {} False 1 2 1 True, run_pool_of H [] {0} True 1 2 1 False] [(run_key H, 1)] [] [(''B'', 1)] [run_slot H ''X'' 0, run_slot H ''B'' 0], [(run_frame ''A'', BW_Cold 0 1), (run_frame ''C'', BW_Cold 1 1)])"
  by (rule binding_run_to [OF binding_run.create [where f = "run_frame ''C''", OF prod.collapse [symmetric]]])
    (auto simp: binding_defs run_defs pool_op_defs)

lemma run_grown_again:
  "binding_run H c (run_worker [run_pool_of H [0] {} False 1 2 1 True, run_pool_of H [] {0} True 1 2 1 False] [(run_key H, 1)] [] [(''B'', 1)] [run_slot H ''X'' 0, run_slot H ''B'' 0], [(run_frame ''A'', BW_Cold 0 1), (run_frame ''C'', BW_Cold 1 1)])
     (run_worker [run_pool_of H [0] {} False 1 2 1 True, run_pool_of H [] {0, 1} True 0 2 0 False] [(run_key H, 1)] [] [(''B'', 1), (''C'', 2)] [run_slot H ''X'' 0, run_slot H ''B'' 0, run_slot H ''C'' 1], [(run_frame ''A'', BW_Cold 0 1)])"
  by (rule binding_run_to [OF binding_run.cold [where f = "run_frame ''C''" and k = 1 and outcome = "Inr 1" and xs = "[(run_frame ''A'', BW_Cold 0 1)]" and ys = "[]" and seed = 1, simplified append_Nil append_Cons, OF prod.collapse [symmetric]]])
    (auto simp: binding_defs run_defs pool_op_defs)

lemma run_late:
  "binding_run H c (run_worker [run_pool_of H [0] {} False 1 2 1 True, run_pool_of H [] {0, 1} True 0 2 0 False] [(run_key H, 1)] [] [(''B'', 1), (''C'', 2)] [run_slot H ''X'' 0, run_slot H ''B'' 0, run_slot H ''C'' 1], [(run_frame ''A'', BW_Cold 0 1)])
     (run_worker [run_pool_of H [0] {1} False 0 2 0 True, run_pool_of H [] {0, 1} True 0 2 0 False] [(run_key H, 1)] [] [(''B'', 1), (''C'', 2), (''A'', 3)] [run_slot H ''X'' 0, run_slot H ''B'' 0, run_slot H ''C'' 1, run_slot H ''A'' 1], [])"
  by (rule binding_run_to [OF binding_run.cold [where f = "run_frame ''A''" and k = 0 and outcome = "Inr 1" and xs = "[]" and ys = "[]" and seed = 1, simplified append_Nil, OF prod.collapse [symmetric]]])
    (auto simp: binding_defs run_defs pool_op_defs)

lemma run_start: "RuntimeEnvWorker_init 0 ''env'' 0 ''fake'' True = Inr (run_worker [] [] [] [] [])"
  by (simp add: RuntimeEnvWorker_init_def run_worker_def)

lemma run_two_sessions: "binding_runs H c (run_worker [] [] [] [] [], []) (run_worker [run_pool_of H [] {0, 1} True 0 2 0 False] [(run_key H, 0)] [] [(''X'', 0), (''A'', 1)] [run_slot H ''X'' 0, run_slot H ''A'' 1], [])"
  by (rule converse_rtranclp_into_rtranclp, rule run_building run_first run_growing run_grown)+ (rule rtranclp.rtrancl_refl)

definition one_digest :: digest_fn where
  "one_digest domain spec = ''key''"

lemma sessions_never_share_slot_witness:
  "\<exists>w. binding_runs one_digest True (run_worker [] [] [] [] [], []) (w, []) \<and> bound_to w ''X'' (run_key one_digest, 0)
    \<and> bound_to w ''A'' (run_key one_digest, 1) \<and> \<not> bound_to w ''A'' (run_key one_digest, 0)"
proof (intro exI conjI)
  let ?w = "run_worker [run_pool_of one_digest [] {0, 1} True 0 2 0 False] [(run_key one_digest, 0)] [] [(''X'', 0), (''A'', 1)] [run_slot one_digest ''X'' 0, run_slot one_digest ''A'' 1]"
  show run: "binding_runs one_digest True (run_worker [] [] [] [] [], []) (?w, [])" using run_two_sessions by simp
  show x: "bound_to ?w ''X'' (run_key one_digest, 0)" "bound_to ?w ''A'' (run_key one_digest, 1)"
    by (simp_all add: bound_to_def place_of_def run_defs)
  show "\<not> bound_to ?w ''A'' (run_key one_digest, 0)"
    using sessions_never_share_slot [OF run_start run, of "''A''" "(run_key one_digest, 0)" "''X''"] x by auto
qed

text \<open>C38: Without that condition, which the code does not check, they are: a dead pool is retired while a cold
  creation in it is still under way, a new pool is built under the same key, and the slot that the old pool
  finally creates is bound under that key beside the new pool's slot of the same number.\<close>
theorem retired_pool_shares_slot:
  "\<exists>w0 w. RuntimeEnvWorker_init 0 ''env'' 0 ''fake'' True = Inr w0 \<and> binding_runs H False (w0, []) (w, [])
    \<and> bound_to w ''A'' (EnvSpecMsg_digest H demo_spec, 1) \<and> bound_to w ''C'' (EnvSpecMsg_digest H demo_spec, 1)"
proof (intro exI conjI)
  let ?w = "run_worker [run_pool_of H [0] {1} False 0 2 0 True, run_pool_of H [] {0, 1} True 0 2 0 False] [(run_key H, 1)] [] [(''B'', 1), (''C'', 2), (''A'', 3)] [run_slot H ''X'' 0, run_slot H ''B'' 0, run_slot H ''C'' 1, run_slot H ''A'' 1]"
  show "RuntimeEnvWorker_init 0 ''env'' 0 ''fake'' True = Inr (run_worker [] [] [] [] [])" by (rule run_start)
  show "binding_runs H False (run_worker [] [] [] [] [], []) (?w, [])"
    by (rule converse_rtranclp_into_rtranclp, rule run_building run_first run_growing run_dies run_leaves run_retires run_closes
        run_rebuilds run_grows_again run_grown_again run_late)+ (rule rtranclp.rtrancl_refl)
  show "bound_to ?w ''A'' (run_key H, 1)" "bound_to ?w ''C'' (run_key H, 1)"
    by (simp_all add: bound_to_def place_of_def run_defs)
qed

end
