(* ===== verification/Slot_Coalescer.thy ===== *)
theory Slot_Coalescer
  imports Env_Worker
begin

text \<open>
  \<^verbatim>\<open>rollout_runtime/workers/env_worker.py\<close>, class \<open>SlotGroupCoalescer\<close>: the lanes of a lockstep pool advance
  together, so the chunk calls that arrive within a window are joined into one. The first to arrive leads: it waits
  until as many lanes have joined as are running, or for the window, makes one call to the core and hands
  every lane its outcome. Groups and futures are objects, named by their numbers.
\<close>

section \<open>State\<close>

record ChunkOutcome =
  co_observation :: "Observation option"
  co_reward :: real
  co_terminated :: bool
  co_truncated :: bool
  co_executed_horizon :: int
  co_per_step :: py
  co_per_step_obs_available :: bool
  co_info :: "(string, py) dict"

record coalesce_entry =
  en_slot_index :: int
  en_block :: py
  en_future :: nat

record coalesce_group =
  cg_entries :: "coalesce_entry list"
  cg_ready :: bool
  cg_closed :: bool
  cg_expected :: int
  cg_chunk_len :: int

datatype lane_future = LF_Waiting | LF_Outcome ChunkOutcome | LF_Failed exn

record SlotGroupCoalescer =
  sc_enabled :: bool
  sc_window_seconds :: real
  groups_executed :: int
  coalesced_command_count :: int
  window_timeout_count :: int
  max_group_size :: int
  sc_groups :: "(string \<times> int, nat) dict"
  sc_group_objects :: "coalesce_group list"
  sc_futures :: "lane_future list"

definition SlotGroupCoalescer_init :: "bool \<Rightarrow> real \<Rightarrow> SlotGroupCoalescer" where
  "SlotGroupCoalescer_init enabled window_seconds =
     \<lparr>sc_enabled = enabled, sc_window_seconds = max 0 window_seconds, groups_executed = 0, coalesced_command_count = 0,
      window_timeout_count = 0, max_group_size = 0, sc_groups = [], sc_group_objects = [], sc_futures = []\<rparr>"

definition group_at :: "SlotGroupCoalescer \<Rightarrow> nat \<Rightarrow> coalesce_group" where
  "group_at c g = sc_group_objects c ! g"

definition on_group :: "nat \<Rightarrow> (coalesce_group \<Rightarrow> coalesce_group) \<Rightarrow> SlotGroupCoalescer \<Rightarrow> SlotGroupCoalescer" where
  "on_group g f c = c\<lparr>sc_group_objects := (sc_group_objects c)[g := f (group_at c g)]\<rparr>"

section \<open>Joining a group\<close>

text \<open>The open group of a key: \<open>Some\<close> an old one, or \<open>None\<close> when a new one must be made.\<close>

definition open_group :: "string \<times> int \<Rightarrow> SlotGroupCoalescer \<Rightarrow> nat option" where
  "open_group key c =
     (case dict_get (sc_groups c) key of
        None \<Rightarrow> None
      | Some g \<Rightarrow> if cg_closed (group_at c g) then None else Some g)"

definition new_group :: "string \<times> int \<Rightarrow> int \<Rightarrow> SlotGroupCoalescer \<Rightarrow> nat \<times> SlotGroupCoalescer" where
  "new_group key expected c =
     (let g = length (sc_group_objects c)
      in (g, c\<lparr>sc_group_objects := sc_group_objects c
                 @ [\<lparr>cg_entries = [], cg_ready = False, cg_closed = False, cg_expected = expected, cg_chunk_len = snd key\<rparr>],
               sc_groups := dict_set (sc_groups c) key g\<rparr>))"

definition join_group :: "int \<Rightarrow> py \<Rightarrow> int \<Rightarrow> nat \<Rightarrow> coalesce_group \<Rightarrow> coalesce_group" where
  "join_group slot_index block expected future g =
     (let lowest = (if cg_entries g \<noteq> [] then min (cg_expected g) expected else expected);
          entries = cg_entries g @ [\<lparr>en_slot_index = slot_index, en_block = block, en_future = future\<rparr>]
      in g\<lparr>cg_entries := entries, cg_expected := lowest, cg_ready := (cg_ready g \<or> int (length entries) \<ge> lowest)\<rparr>)"

text \<open>\<open>submit\<close> up to its first await: the call is made alone; or its future in a group, which it leads or not.\<close>

datatype submitted = Alone | Leads nat nat | Follows nat nat

definition coalescer_submit :: "string \<Rightarrow> int \<Rightarrow> py \<Rightarrow> int \<Rightarrow> int \<Rightarrow> SlotGroupCoalescer \<Rightarrow> submitted \<times> SlotGroupCoalescer" where
  "coalescer_submit pool_key slot_index block chunk_len expected c =
     (if \<not> sc_enabled c \<or> expected \<le> 1 then (Alone, c)
      else
        (let key = (pool_key, chunk_len);
             (g, c1) = (case open_group key c of Some g \<Rightarrow> (g, c) | None \<Rightarrow> new_group key expected c);
             future = length (sc_futures c1);
             leads = cg_entries (group_at c1 g) = [];
             c2 = (on_group g (join_group slot_index block expected future) c1)\<lparr>sc_futures := sc_futures c1 @ [LF_Waiting]\<rparr>
         in ((if leads then Leads g future else Follows g future), c2)))"

text \<open>A call made alone has returned.\<close>

definition coalescer_alone_done :: "exn + ChunkOutcome list \<Rightarrow> (SlotGroupCoalescer, exn, ChunkOutcome) sem" where
  "coalescer_alone_done outcome c =
     (case outcome of
        Inl e \<Rightarrow> (Inl e, c)
      | Inr outcomes \<Rightarrow>
          (case outcomes of
             [] \<Rightarrow> (Inl (PyExn K_Other ''IndexError'' [Text ''list index out of range'']),
                    c\<lparr>groups_executed := groups_executed c + 1, coalesced_command_count := coalesced_command_count c + 1,
                      max_group_size := max (max_group_size c) 1\<rparr>)
           | first # _ \<Rightarrow> (Inr first,
                    c\<lparr>groups_executed := groups_executed c + 1, coalesced_command_count := coalesced_command_count c + 1,
                      max_group_size := max (max_group_size c) 1\<rparr>)))"

section \<open>Leading a group\<close>

text \<open>Whether the leader waits for the event at all, and the end of the window.\<close>

definition leader_waits :: "nat \<Rightarrow> SlotGroupCoalescer \<Rightarrow> bool" where
  "leader_waits g c \<longleftrightarrow> \<not> cg_ready (group_at c g) \<and> sc_window_seconds c > 0"

definition window_timeout :: "SlotGroupCoalescer \<Rightarrow> SlotGroupCoalescer" where
  "window_timeout c = c\<lparr>window_timeout_count := window_timeout_count c + 1\<rparr>"

text \<open>The group leaves the table, if it is still there.\<close>

definition close_group :: "string \<times> int \<Rightarrow> nat \<Rightarrow> SlotGroupCoalescer \<Rightarrow> SlotGroupCoalescer" where
  "close_group key g c =
     (let c1 = on_group g (\<lambda>gr. gr\<lparr>cg_closed := True\<rparr>) c
      in if dict_get (sc_groups c1) key = Some g then c1\<lparr>sc_groups := dict_pop (sc_groups c1) key\<rparr> else c1)"

text \<open>\<open>_fire\<close> up to the call of the core: what is called.\<close>

definition fire_begin :: "string \<times> int \<Rightarrow> nat \<Rightarrow> SlotGroupCoalescer \<Rightarrow> (int list \<times> py list) \<times> SlotGroupCoalescer" where
  "fire_begin key g c =
     (let c1 = close_group key g c; entries = cg_entries (group_at c1 g)
      in ((map en_slot_index entries, map en_block entries),
          c1\<lparr>groups_executed := groups_executed c1 + 1,
             coalesced_command_count := coalesced_command_count c1 + int (length entries),
             max_group_size := max (max_group_size c1) (int (length entries))\<rparr>))"

definition settle :: "nat \<Rightarrow> lane_future \<Rightarrow> SlotGroupCoalescer \<Rightarrow> SlotGroupCoalescer" where
  "settle k f c = (if sc_futures c ! k = LF_Waiting then c\<lparr>sc_futures := (sc_futures c)[k := f]\<rparr> else c)"

definition abandon :: "string \<times> int \<Rightarrow> nat \<Rightarrow> exn \<Rightarrow> SlotGroupCoalescer \<Rightarrow> SlotGroupCoalescer" where
  "abandon key g e c =
     (let c1 = close_group key g c
      in foldl (\<lambda>c en. settle (en_future en) (LF_Failed e) c) c1 (cg_entries (group_at c1 g)))"

definition wrong_count :: "nat \<Rightarrow> coalesce_entry list \<Rightarrow> exn" where
  "wrong_count n entries = RuntimeApiError (make_error E_INTERNAL
     [Text ''coalesced chunk_step returned '', IntF (int n), Text '' outcome(s) for '', IntF (int (length entries)), Text '' slot(s)'']
     [(''slots'', PyList (map (\<lambda>en. PyInt (en_slot_index en)) entries))])"

text \<open>The call of the core is back; what it raised, and a wrong number of outcomes, goes to every waiter.\<close>

definition fire_end :: "string \<times> int \<Rightarrow> nat \<Rightarrow> exn + ChunkOutcome list \<Rightarrow> SlotGroupCoalescer \<Rightarrow> SlotGroupCoalescer" where
  "fire_end key g outcome c =
     (let entries = cg_entries (group_at c g) in
      case outcome of
        Inl e \<Rightarrow> abandon key g e c
      | Inr outcomes \<Rightarrow>
          if length outcomes \<noteq> length entries then abandon key g (wrong_count (length outcomes) entries) c
          else foldl (\<lambda>c (en, out). settle (en_future en) (LF_Outcome out) c) c (zip entries outcomes))"

definition SlotGroupCoalescer_stats :: "SlotGroupCoalescer \<Rightarrow> py" where
  "SlotGroupCoalescer_stats c = PyDict
     [(''enabled'', PyBool (sc_enabled c)), (''window_seconds'', PyFloat (sc_window_seconds c)),
      (''groups_executed'', PyInt (groups_executed c)), (''coalesced_commands'', PyInt (coalesced_command_count c)),
      (''window_timeouts'', PyInt (window_timeout_count c)), (''max_group_size'', PyInt (max_group_size c)),
      (''average_group_size'', PyFloat (if groups_executed c \<noteq> 0 then real_of_int (coalesced_command_count c) / real_of_int (groups_executed c) else 0))]"

section \<open>Steps\<close>

text \<open>A coalescer, the leaders with their keys and whether their call is under way, and the calls made so far.
  A waiter may be cancelled: its future is then done.\<close>

record coalescer_run =
  cr_coalescer :: SlotGroupCoalescer
  cr_waiting :: "(nat \<times> string \<times> int) list"
  cr_firing :: "(nat \<times> string \<times> int) list"
  cr_calls :: "(nat \<times> int list \<times> py list) list"

inductive coalescer_step :: "coalescer_run \<Rightarrow> coalescer_run \<Rightarrow> bool" where
  alone: "coalescer_submit pk i b n ex (cr_coalescer s) = (Alone, c) \<Longrightarrow> coalescer_step s (s\<lparr>cr_coalescer := c\<rparr>)"
| alone_done: "snd (coalescer_alone_done outcome (cr_coalescer s)) = c \<Longrightarrow> coalescer_step s (s\<lparr>cr_coalescer := c\<rparr>)"
| lead: "coalescer_submit pk i b n ex (cr_coalescer s) = (Leads g k, c) \<Longrightarrow>
    coalescer_step s (s\<lparr>cr_coalescer := c, cr_waiting := cr_waiting s @ [(g, pk, n)]\<rparr>)"
| follow: "coalescer_submit pk i b n ex (cr_coalescer s) = (Follows g k, c) \<Longrightarrow> coalescer_step s (s\<lparr>cr_coalescer := c\<rparr>)"
| timeout: "cr_waiting s = xs @ (g, key) # ys \<Longrightarrow> leader_waits g (cr_coalescer s) \<Longrightarrow>
    fire_begin key g (window_timeout (cr_coalescer s)) = ((slots, blocks), c) \<Longrightarrow>
    coalescer_step s (s\<lparr>cr_coalescer := c, cr_waiting := xs @ ys, cr_firing := cr_firing s @ [(g, key)],
      cr_calls := cr_calls s @ [(g, slots, blocks)]\<rparr>)"
| fire: "cr_waiting s = xs @ (g, key) # ys \<Longrightarrow> \<not> leader_waits g (cr_coalescer s) \<Longrightarrow>
    fire_begin key g (cr_coalescer s) = ((slots, blocks), c) \<Longrightarrow>
    coalescer_step s (s\<lparr>cr_coalescer := c, cr_waiting := xs @ ys, cr_firing := cr_firing s @ [(g, key)],
      cr_calls := cr_calls s @ [(g, slots, blocks)]\<rparr>)"
| interrupted: "cr_waiting s = xs @ (g, key) # ys \<Longrightarrow>
    coalescer_step s (s\<lparr>cr_coalescer := abandon key g e (cr_coalescer s), cr_waiting := xs @ ys\<rparr>)"
| fired: "cr_firing s = xs @ (g, key) # ys \<Longrightarrow>
    coalescer_step s (s\<lparr>cr_coalescer := fire_end key g outcome (cr_coalescer s), cr_firing := xs @ ys\<rparr>)"
| cancelled: "k < length (sc_futures (cr_coalescer s)) \<Longrightarrow>
    coalescer_step s (s\<lparr>cr_coalescer := settle k (LF_Failed cancelled_wait) (cr_coalescer s)\<rparr>)"

section \<open>Settling futures\<close>

definition settle_all :: "(nat \<times> lane_future) list \<Rightarrow> SlotGroupCoalescer \<Rightarrow> SlotGroupCoalescer" where
  "settle_all ps c = foldl (\<lambda>c (k, f). settle k f c) c ps"

lemma settle_simps [simp]:
  "sc_group_objects (settle k f c) = sc_group_objects c" "sc_groups (settle k f c) = sc_groups c"
  "group_at (settle k f c) g = group_at c g" "sc_enabled (settle k f c) = sc_enabled c"
  "length (sc_futures (settle k f c)) = length (sc_futures c)"
  by (simp_all add: settle_def group_at_def)

lemma settle_all_simps [simp]:
  "sc_group_objects (settle_all ps c) = sc_group_objects c" "sc_groups (settle_all ps c) = sc_groups c"
  "length (sc_futures (settle_all ps c)) = length (sc_futures c)"
  by (induction ps arbitrary: c) (auto simp: settle_all_def)

lemma group_at_settle_all [simp]: "group_at (settle_all ps c) g = group_at c g"
  by (simp add: group_at_def)

lemma settle_nth: "j < length (sc_futures c) \<Longrightarrow>
  sc_futures (settle k f c) ! j = (if j = k \<and> sc_futures c ! k = LF_Waiting then f else sc_futures c ! j)"
  by (auto simp: settle_def nth_list_update)

lemma settle_all_nth:
  assumes "distinct (map fst ps)" "j < length (sc_futures c)"
  shows "sc_futures (settle_all ps c) ! j =
    (case map_of ps j of Some f \<Rightarrow> if sc_futures c ! j = LF_Waiting then f else sc_futures c ! j | None \<Rightarrow> sc_futures c ! j)"
  using assms
proof (induction ps arbitrary: c)
  case (Cons q ps)
  obtain k f where q: "q = (k, f)" by (cases q)
  have "map_of ps k = None" using Cons.prems(1) by (simp add: q map_of_eq_None_iff)
  then show ?case using Cons.IH [of "settle k f c"] Cons.prems
    by (auto simp: q settle_all_def settle_nth split: option.split)
qed (simp add: settle_all_def)

lemma abandon_eq:
  "abandon key g e c = settle_all (map (\<lambda>en. (en_future en, LF_Failed e)) (cg_entries (group_at (close_group key g c) g))) (close_group key g c)"
  by (simp add: abandon_def settle_all_def Let_def foldl_map)

lemma fire_end_eq:
  "fire_end key g outcome c =
     (case outcome of
        Inl e \<Rightarrow> abandon key g e c
      | Inr outs \<Rightarrow> if length outs \<noteq> length (cg_entries (group_at c g))
                   then abandon key g (wrong_count (length outs) (cg_entries (group_at c g))) c
                   else settle_all (zip (map en_future (cg_entries (group_at c g))) (map LF_Outcome outs)) c)"
  by (simp add: fire_end_def settle_all_def Let_def foldl_map zip_map_map case_prod_unfold split: sum.split)

text \<open>Closing keeps every future and every entry.\<close>

lemma on_group_simps [simp]:
  "sc_futures (on_group g f c) = sc_futures c" "sc_groups (on_group g f c) = sc_groups c"
  "length (sc_group_objects (on_group g f c)) = length (sc_group_objects c)" "sc_enabled (on_group g f c) = sc_enabled c"
  by (simp_all add: on_group_def)

lemma group_at_fields [simp]:
  "group_at (c\<lparr>sc_groups := d\<rparr>) h = group_at c h" "group_at (c\<lparr>groups_executed := n\<rparr>) h = group_at c h"
  "group_at (c\<lparr>coalesced_command_count := n\<rparr>) h = group_at c h" "group_at (c\<lparr>max_group_size := n\<rparr>) h = group_at c h"
  "group_at (c\<lparr>window_timeout_count := n\<rparr>) h = group_at c h"
  by (simp_all add: group_at_def)

lemma group_at_on_group: "g < length (sc_group_objects c) \<Longrightarrow> group_at (on_group g f c) h = (if h = g then f (group_at c g) else group_at c h)"
  by (simp add: on_group_def group_at_def nth_list_update)

lemma close_group_simps [simp]:
  "sc_futures (close_group key g c) = sc_futures c" "length (sc_group_objects (close_group key g c)) = length (sc_group_objects c)"
  "dict_get (sc_groups (close_group key g c)) k = (if k = key \<and> dict_get (sc_groups c) key = Some g then None else dict_get (sc_groups c) k)"
  by (auto simp: close_group_def Let_def)

lemma group_at_close: "g < length (sc_group_objects c) \<Longrightarrow>
  group_at (close_group key g c) h = (if h = g then (group_at c g)\<lparr>cg_closed := True\<rparr> else group_at c h)"
  by (simp add: close_group_def Let_def group_at_on_group)

abbreviation futures_of :: "SlotGroupCoalescer \<Rightarrow> nat \<Rightarrow> nat list" where
  "futures_of c g \<equiv> map en_future (cg_entries (group_at c g))"

lemma close_keeps_futures: "g < length (sc_group_objects c) \<Longrightarrow> futures_of (close_group key g c) h = futures_of c h"
  by (simp add: group_at_close)

text \<open>What a group's end does to its waiters: none of them waits any longer, and no other is touched.\<close>

lemma group_ended:
  assumes "c' = abandon key g e c \<or> c' = fire_end key g outcome c" "g < length (sc_group_objects c)"
    "distinct (futures_of c g)" "j < length (sc_futures c)"
  shows "(j \<in> set (futures_of c g) \<longrightarrow> sc_futures c' ! j \<noteq> LF_Waiting)
    \<and> (sc_futures c ! j \<noteq> LF_Waiting \<or> j \<notin> set (futures_of c g) \<longrightarrow> sc_futures c' ! j = sc_futures c ! j)"
proof -
  have all: ?thesis if "c' = settle_all ps d" "sc_futures d = sc_futures c" "map fst ps = futures_of c g" "\<And>f. f \<in> snd ` set ps \<Longrightarrow> f \<noteq> LF_Waiting" for ps d
  proof -
    have nth: "sc_futures c' ! j = (case map_of ps j of Some f \<Rightarrow> if sc_futures c ! j = LF_Waiting then f else sc_futures c ! j | None \<Rightarrow> sc_futures c ! j)"
      using settle_all_nth [of ps j d] that(1-3) assms(3,4) by (simp split: option.split)
    have dom: "map_of ps j = None \<longleftrightarrow> j \<notin> set (futures_of c g)" using that(3) by (metis map_of_eq_None_iff list.set_map)
    show ?thesis
    proof (cases "map_of ps j")
      case (Some f)
      then have "f \<noteq> LF_Waiting" using that(4) map_of_SomeD [OF Some] by force
      then show ?thesis using Some nth dom by auto
    qed (use nth dom in auto)
  qed
  have ab: ?thesis if "c' = abandon key g e' c" for e'
    by (rule all [OF that [unfolded abandon_eq]]) (use assms(2) in \<open>auto simp: group_at_close comp_def\<close>)
  show ?thesis
  proof (cases outcome)
    case (Inl e')
    then show ?thesis using assms(1) ab by (auto simp: fire_end_eq)
  next
    case (Inr outs)
    show ?thesis
    proof (cases "length outs = length (cg_entries (group_at c g))")
      case True
      have z: "c' = settle_all (zip (futures_of c g) (map LF_Outcome outs)) c \<Longrightarrow> ?thesis"
        by (rule all) (use True in \<open>auto dest!: set_zip_rightD\<close>)
      then show ?thesis using assms(1) ab Inr True by (auto simp: fire_end_eq)
    qed (use assms(1) ab Inr in \<open>auto simp: fire_end_eq\<close>)
  qed
qed

section \<open>The invariant\<close>

abbreviation group_count :: "coalescer_run \<Rightarrow> nat" where
  "group_count s \<equiv> length (sc_group_objects (cr_coalescer s))"

abbreviation leaders :: "coalescer_run \<Rightarrow> nat list" where
  "leaders s \<equiv> map fst (cr_waiting s) @ map fst (cr_firing s)"

definition groups_ok :: "SlotGroupCoalescer \<Rightarrow> bool" where
  "groups_ok c \<longleftrightarrow> (\<forall>g < length (sc_group_objects c). cg_entries (group_at c g) \<noteq> [] \<and> distinct (futures_of c g)
       \<and> (\<forall>k \<in> set (futures_of c g). k < length (sc_futures c)))
     \<and> (\<forall>g < length (sc_group_objects c). \<forall>h < length (sc_group_objects c). g \<noteq> h \<longrightarrow> set (futures_of c g) \<inter> set (futures_of c h) = {})"

definition leaders_ok :: "coalescer_run \<Rightarrow> bool" where
  "leaders_ok s \<longleftrightarrow> distinct (leaders s)
     \<and> (\<forall>g key. (g, key) \<in> set (cr_waiting s) \<longleftrightarrow> dict_get (sc_groups (cr_coalescer s)) key = Some g)
     \<and> (\<forall>g key. (g, key) \<in> set (cr_waiting s) \<longrightarrow> g < group_count s \<and> \<not> cg_closed (group_at (cr_coalescer s) g))
     \<and> (\<forall>g key. (g, key) \<in> set (cr_firing s) \<longrightarrow> g < group_count s \<and> cg_closed (group_at (cr_coalescer s) g))"

definition waiters_led :: "coalescer_run \<Rightarrow> bool" where
  "waiters_led s \<longleftrightarrow> (\<forall>k < length (sc_futures (cr_coalescer s)). sc_futures (cr_coalescer s) ! k = LF_Waiting \<longrightarrow>
     (\<exists>g \<in> set (leaders s). k \<in> set (futures_of (cr_coalescer s) g)))"

definition calls_ok :: "coalescer_run \<Rightarrow> bool" where
  "calls_ok s \<longleftrightarrow> distinct (map fst (cr_calls s))
     \<and> (\<forall>g slots blocks. (g, slots, blocks) \<in> set (cr_calls s) \<longrightarrow> g < group_count s \<and> cg_closed (group_at (cr_coalescer s) g)
          \<and> slots = map en_slot_index (cg_entries (group_at (cr_coalescer s) g))
          \<and> blocks = map en_block (cg_entries (group_at (cr_coalescer s) g)))"

definition coalescer_ok :: "coalescer_run \<Rightarrow> bool" where
  "coalescer_ok s \<longleftrightarrow> groups_ok (cr_coalescer s) \<and> leaders_ok s \<and> waiters_led s \<and> calls_ok s"

lemma coalescer_okD:
  assumes "coalescer_ok s"
  shows "groups_ok (cr_coalescer s)" "leaders_ok s" "waiters_led s" "calls_ok s"
  using assms by (simp_all add: coalescer_ok_def)

lemma groups_okD:
  assumes "groups_ok c" "g < length (sc_group_objects c)"
  shows "cg_entries (group_at c g) \<noteq> []" "distinct (futures_of c g)"
    "k \<in> set (futures_of c g) \<Longrightarrow> k < length (sc_futures c)"
    "h < length (sc_group_objects c) \<Longrightarrow> g \<noteq> h \<Longrightarrow> k \<in> set (futures_of c g) \<Longrightarrow> k \<notin> set (futures_of c h)"
  using assms unfolding groups_ok_def by blast+

lemma leaders_okD:
  assumes "leaders_ok s"
  shows "distinct (leaders s)" "(g, key) \<in> set (cr_waiting s) \<longleftrightarrow> dict_get (sc_groups (cr_coalescer s)) key = Some g"
    "(g, key) \<in> set (cr_waiting s) \<Longrightarrow> g < group_count s" "(g, key) \<in> set (cr_waiting s) \<Longrightarrow> \<not> cg_closed (group_at (cr_coalescer s) g)"
    "(g, key) \<in> set (cr_firing s) \<Longrightarrow> g < group_count s" "(g, key) \<in> set (cr_firing s) \<Longrightarrow> cg_closed (group_at (cr_coalescer s) g)"
  using assms unfolding leaders_ok_def by blast+

lemma waiters_ledD:
  assumes "waiters_led s" "k < length (sc_futures (cr_coalescer s))" "sc_futures (cr_coalescer s) ! k = LF_Waiting"
  obtains g where "g \<in> set (leaders s)" "k \<in> set (futures_of (cr_coalescer s) g)"
  using assms unfolding waiters_led_def by blast

text \<open>A submission makes a group or joins the open one of its key.\<close>

definition entry_of :: "int \<Rightarrow> py \<Rightarrow> SlotGroupCoalescer \<Rightarrow> coalesce_entry" where
  "entry_of i b c = \<lparr>en_slot_index = i, en_block = b, en_future = length (sc_futures c)\<rparr>"

lemma submit_cases:
  assumes "coalescer_ok s" "coalescer_submit pk i b n ex (cr_coalescer s) = (r, c)" "r \<noteq> Alone"
  obtains (leads) gr where "r = Leads (group_count s) (length (sc_futures (cr_coalescer s)))"
      "dict_get (sc_groups (cr_coalescer s)) (pk, n) = None" "cg_entries gr = [entry_of i b (cr_coalescer s)]" "\<not> cg_closed gr"
      "sc_group_objects c = sc_group_objects (cr_coalescer s) @ [gr]"
      "sc_groups c = dict_set (sc_groups (cr_coalescer s)) (pk, n) (group_count s)"
      "sc_futures c = sc_futures (cr_coalescer s) @ [LF_Waiting]"
  | (follows) g gr where "r = Follows g (length (sc_futures (cr_coalescer s)))" "(g, pk, n) \<in> set (cr_waiting s)"
      "cg_entries gr = cg_entries (group_at (cr_coalescer s) g) @ [entry_of i b (cr_coalescer s)]" "\<not> cg_closed gr"
      "sc_group_objects c = (sc_group_objects (cr_coalescer s))[g := gr]" "sc_groups c = sc_groups (cr_coalescer s)"
      "sc_futures c = sc_futures (cr_coalescer s) @ [LF_Waiting]"
proof -
  let ?c = "cr_coalescer s"
  note L = leaders_okD [OF coalescer_okD(2) [OF assms(1)]] and G = groups_okD [OF coalescer_okD(1) [OF assms(1)]]
  have go: "sc_enabled ?c" "\<not> ex \<le> 1" using assms(2,3) by (auto simp: coalescer_submit_def split: if_splits)
  show thesis
  proof (cases "dict_get (sc_groups ?c) (pk, n)")
    case None
    then have o: "open_group (pk, n) ?c = None" by (simp add: open_group_def)
    let ?gr = "join_group i b ex (length (sc_futures ?c)) \<lparr>cg_entries = [], cg_ready = False, cg_closed = False, cg_expected = ex, cg_chunk_len = n\<rparr>"
    show thesis
      by (rule leads [of ?gr])
        (use assms(2) go o None in \<open>auto simp: coalescer_submit_def new_group_def on_group_def group_at_def join_group_def entry_of_def Let_def\<close>)
  next
    case (Some g)
    have w: "(g, pk, n) \<in> set (cr_waiting s)" using L(2) Some by simp
    have o: "open_group (pk, n) ?c = Some g" using L(4) [OF w] Some by (simp add: open_group_def)
    have e: "cg_entries (group_at ?c g) \<noteq> []" using G(1) L(3) [OF w] by blast
    show thesis
      by (rule follows [of g "join_group i b ex (length (sc_futures ?c)) (group_at ?c g)"])
        (use assms(2) go o e w L(4) [OF w] in \<open>auto simp: coalescer_submit_def on_group_def join_group_def entry_of_def Let_def\<close>)
  qed
qed

section \<open>Preservation\<close>

lemma ok_lead:
  assumes ok: "coalescer_ok s" and sub: "coalescer_submit pk i b n ex (cr_coalescer s) = (Leads g k, c)"
  shows "coalescer_ok (s\<lparr>cr_coalescer := c, cr_waiting := cr_waiting s @ [(g, pk, n)]\<rparr>)" (is "coalescer_ok ?s")
proof -
  let ?c = "cr_coalescer s" and ?L = "group_count s"
  note L = leaders_okD [OF coalescer_okD(2) [OF ok]] and G = groups_okD [OF coalescer_okD(1) [OF ok]]
  obtain gr where r: "g = ?L" "dict_get (sc_groups ?c) (pk, n) = None" "cg_entries gr = [entry_of i b ?c]" "\<not> cg_closed gr"
      "sc_group_objects c = sc_group_objects ?c @ [gr]" "sc_groups c = dict_set (sc_groups ?c) (pk, n) ?L"
      "sc_futures c = sc_futures ?c @ [LF_Waiting]"
    by (rule submit_cases [OF ok sub]) auto
  have at: "group_at c h = (if h < ?L then group_at ?c h else gr)" if "h < Suc ?L" for h
    using that r(5) by (auto simp: group_at_def nth_append)
  have fut: "en_future (entry_of i b ?c) = length (sc_futures ?c)" by (simp add: entry_of_def)
  have "groups_ok c"
    using G at r(3) fut unfolding groups_ok_def r(5,7) by (fastforce simp: less_Suc_eq)
  moreover have "leaders_ok ?s"
    unfolding leaders_ok_def
  proof (intro conjI allI impI)
    have "?L \<notin> set (leaders s)" using L(3) [where g = ?L] L(5) [where g = ?L] by auto
    then show "distinct (leaders ?s)" using L(1) r(1) by auto
    show "((h, key) \<in> set (cr_waiting ?s)) = (dict_get (sc_groups (cr_coalescer ?s)) key = Some h)" for h key
      using L(2) [of h key] L(2) [of h "(pk, n)"] r(1,2,6) by auto
  qed (use L(3-6) at r in \<open>auto simp: less_Suc_eq\<close>)
  moreover have "waiters_led ?s"
    unfolding waiters_led_def
  proof (intro allI impI)
    fix k assume k: "k < length (sc_futures (cr_coalescer ?s))" "sc_futures (cr_coalescer ?s) ! k = LF_Waiting"
    show "\<exists>h \<in> set (leaders ?s). k \<in> set (futures_of (cr_coalescer ?s) h)"
    proof (cases "k < length (sc_futures ?c)")
      case True
      then have w: "sc_futures ?c ! k = LF_Waiting" using k(2) r(7) by (simp add: nth_append)
      obtain h where "h \<in> set (leaders s)" "k \<in> set (futures_of ?c h)"
        by (rule waiters_ledD [OF coalescer_okD(3) [OF ok] True w])
      moreover from this have "h < ?L" using L(3,5) by auto
      ultimately show ?thesis using at by (intro bexI [of _ h]) auto
    next
      case False
      then have "k = length (sc_futures ?c)" using k(1) r(7) by simp
      then show ?thesis using r(1,3) at [of ?L] fut by (intro bexI [of _ g]) auto
    qed
  qed
  moreover have "calls_ok ?s" using coalescer_okD(4) [OF ok] at r(5) by (fastforce simp: calls_ok_def)
  ultimately show ?thesis by (simp add: coalescer_ok_def)
qed

lemma ok_follow:
  assumes ok: "coalescer_ok s" and sub: "coalescer_submit pk i b n ex (cr_coalescer s) = (Follows g k, c)"
  shows "coalescer_ok (s\<lparr>cr_coalescer := c\<rparr>)" (is "coalescer_ok ?s")
proof -
  let ?c = "cr_coalescer s" and ?L = "group_count s"
  note L = leaders_okD [OF coalescer_okD(2) [OF ok]] and G = groups_okD [OF coalescer_okD(1) [OF ok]]
  obtain gr where r: "(g, pk, n) \<in> set (cr_waiting s)" "cg_entries gr = cg_entries (group_at ?c g) @ [entry_of i b ?c]" "\<not> cg_closed gr"
      "sc_group_objects c = (sc_group_objects ?c)[g := gr]" "sc_groups c = sc_groups ?c" "sc_futures c = sc_futures ?c @ [LF_Waiting]"
    by (rule submit_cases [OF ok sub]) auto
  have g: "g < ?L" "\<not> cg_closed (group_at ?c g)" using L(3,4) [OF r(1)] .
  have at: "group_at c h = (if h = g then gr else group_at ?c h)" for h
    using g r(4) by (auto simp: group_at_def nth_list_update)
  have fut: "en_future (entry_of i b ?c) = length (sc_futures ?c)" by (simp add: entry_of_def)
  have fr: "futures_of c h = futures_of ?c h @ (if h = g then [length (sc_futures ?c)] else [])" for h
    using at r(2) fut by simp
  have len: "length (sc_group_objects c) = ?L" using r(4) by simp
  have fresh: "k < length (sc_futures ?c)" if "h < ?L" "k \<in> set (futures_of ?c h)" for h k
    using G(3) [OF that(1)] that(2) by blast
  have "groups_ok c"
    unfolding groups_ok_def len
  proof (intro conjI allI impI)
    fix h assume h: "h < ?L"
    show "cg_entries (group_at c h) \<noteq> []" using G(1) [OF h] at r(2) by auto
    show "distinct (futures_of c h)" using G(2) [OF h] fresh [OF h] by (auto simp: fr)
    show "\<forall>k\<in>set (futures_of c h). k < length (sc_futures c)" using fresh [OF h] r(6) by (auto simp: fr less_Suc_eq)
    fix h' assume h': "h' < ?L" "h \<noteq> h'"
    have "set (futures_of ?c h) \<inter> set (futures_of ?c h') = {}" using G(4) [OF h h'] by blast
    moreover have "length (sc_futures ?c) \<notin> set (futures_of ?c h)" "length (sc_futures ?c) \<notin> set (futures_of ?c h')"
      using fresh [OF h] fresh [OF h'(1)] by blast+
    ultimately show "set (futures_of c h) \<inter> set (futures_of c h') = {}"
      using h'(2) unfolding fr set_append by (auto simp: image_iff split: if_splits)
  qed
  moreover have "leaders_ok ?s"
    unfolding leaders_ok_def
  proof (intro conjI allI impI)
    show "\<not> cg_closed (group_at (cr_coalescer ?s) h)" if "(h, key) \<in> set (cr_waiting ?s)" for h key
      using that L(4) [of h key] at r(3) by simp
    show "cg_closed (group_at (cr_coalescer ?s) h)" if "(h, key) \<in> set (cr_firing ?s)" for h key
      using that L(6) [of h key] at g(2) by auto
  qed (use L(1,2,3,5) r len in auto)
  moreover have "waiters_led ?s"
    unfolding waiters_led_def
  proof (intro allI impI)
    fix k assume k: "k < length (sc_futures (cr_coalescer ?s))" "sc_futures (cr_coalescer ?s) ! k = LF_Waiting"
    show "\<exists>h \<in> set (leaders ?s). k \<in> set (futures_of (cr_coalescer ?s) h)"
    proof (cases "k < length (sc_futures ?c)")
      case True
      then have w: "sc_futures ?c ! k = LF_Waiting" using k(2) r(6) by (simp add: nth_append)
      obtain h where "h \<in> set (leaders s)" "k \<in> set (futures_of ?c h)"
        by (rule waiters_ledD [OF coalescer_okD(3) [OF ok] True w])
      then have "h \<in> set (leaders s)" "k \<in> set (futures_of c h)" by (simp_all only: fr set_append Un_iff simp_thms)
      then show ?thesis by (intro bexI [of _ h]) simp_all
    next
      case False
      then have "k = length (sc_futures ?c)" using k(1) r(6) by simp
      then have "k \<in> set (futures_of c g)" by (simp only: fr set_append Un_iff simp_thms if_True list.set insert_iff)
      moreover have "g \<in> set (leaders s)" using r(1) by force
      ultimately show ?thesis by (intro bexI [of _ g]) simp_all
    qed
  qed
  moreover have "calls_ok ?s" using coalescer_okD(4) [OF ok] at g(2) r(4) by (fastforce simp: calls_ok_def)
  ultimately show ?thesis by (simp add: coalescer_ok_def)
qed

text \<open>Closing a group, calling the core or not.\<close>

lemma groups_ok_cong:
  assumes "groups_ok c" "length (sc_group_objects d) = length (sc_group_objects c)" "length (sc_futures d) = length (sc_futures c)"
    "\<And>h. h < length (sc_group_objects c) \<Longrightarrow> cg_entries (group_at d h) = cg_entries (group_at c h)"
  shows "groups_ok d"
  using assms by (simp add: groups_ok_def)

definition closes :: "string \<times> int \<Rightarrow> nat \<Rightarrow> SlotGroupCoalescer \<Rightarrow> SlotGroupCoalescer \<Rightarrow> bool" where
  "closes key g c d \<longleftrightarrow> length (sc_group_objects d) = length (sc_group_objects c) \<and> length (sc_futures d) = length (sc_futures c)
     \<and> (\<forall>h. cg_entries (group_at d h) = cg_entries (group_at c h))
     \<and> (\<forall>h. cg_closed (group_at d h) \<longleftrightarrow> h = g \<or> cg_closed (group_at c h))
     \<and> (\<forall>k. dict_get (sc_groups d) k = (if k = key \<and> dict_get (sc_groups c) key = Some g then None else dict_get (sc_groups c) k))"

lemma closes_get:
  assumes "closes key g c d"
  shows "dict_get (sc_groups d) k = (if k = key \<and> dict_get (sc_groups c) key = Some g then None else dict_get (sc_groups c) k)"
  using assms unfolding closes_def by blast

lemma closes_close: "g < length (sc_group_objects c) \<Longrightarrow> closes key g c (close_group key g c)"
  by (auto simp: closes_def group_at_close)

lemma closes_abandon: "g < length (sc_group_objects c) \<Longrightarrow> closes key g c (abandon key g e c)"
  using closes_close [of g c key] by (simp add: closes_def abandon_eq)

lemma closes_fire_end:
  assumes "g < length (sc_group_objects c)" "cg_closed (group_at c g)" "dict_get (sc_groups c) key \<noteq> Some g"
  shows "closes key g c (fire_end key g outcome c)"
  using assms closes_abandon [OF assms(1)] by (auto simp: fire_end_eq closes_def split: sum.split)

lemma closes_fire_begin:
  assumes "fire_begin key g c = ((slots, blocks), d)" "g < length (sc_group_objects c)"
  shows "closes key g c d" "sc_futures d = sc_futures c" "slots = map en_slot_index (cg_entries (group_at c g))"
    "blocks = map en_block (cg_entries (group_at c g))"
proof -
  let ?c = "close_group key g c"
  have e: "cg_entries (group_at ?c g) = cg_entries (group_at c g)" using assms(2) by (simp add: group_at_close)
  have f: "slots = map en_slot_index (cg_entries (group_at c g))" "blocks = map en_block (cg_entries (group_at c g))"
    "d = ?c\<lparr>groups_executed := groups_executed ?c + 1,
      coalesced_command_count := coalesced_command_count ?c + int (length (cg_entries (group_at c g))),
      max_group_size := max (max_group_size ?c) (int (length (cg_entries (group_at c g))))\<rparr>"
    using assms(1) unfolding fire_begin_def Let_def e by simp_all
  show "closes key g c d" using closes_close [OF assms(2), of key] unfolding closes_def f(3) by simp
  show "sc_futures d = sc_futures c" unfolding f(3) by simp
  show "slots = map en_slot_index (cg_entries (group_at c g))" "blocks = map en_block (cg_entries (group_at c g))" by (fact f)+
qed

lemma leaders_ok_closed:
  assumes "leaders_ok s" "closes key g (cr_coalescer s) c" "cr_waiting s = xs @ (g, key) # ys"
    and "firing = cr_firing s \<or> firing = cr_firing s @ [(g, key)]"
  shows "leaders_ok (s\<lparr>cr_coalescer := c, cr_waiting := xs @ ys, cr_firing := firing\<rparr>)"
proof -
  note L = leaders_okD [OF assms(1)]
  have g: "(g, key) \<in> set (cr_waiting s)" using assms(3) by simp
  have "g \<notin> fst ` set (xs @ ys)" using L(1) assms(3) by auto
  then have lone: "h \<noteq> g" if "(h, key') \<in> set (xs @ ys)" for h key' using that by (metis fst_conv image_eqI)
  have tab: "((h, key') \<in> set (xs @ ys)) = (dict_get (sc_groups c) key' = Some h)" for h key'
  proof (cases "key' = key")
    case True
    have "(h, key) \<notin> set (xs @ ys)"
    proof
      assume h: "(h, key) \<in> set (xs @ ys)"
      then have "(h, key) \<in> set (cr_waiting s)" using assms(3) by auto
      then show False using L(2) [of h key] L(2) [of g key] g lone [OF h] by simp
    qed
    then show ?thesis using True L(2) [of g key] g closes_get [OF assms(2)] by simp
  next
    case False
    then show ?thesis using L(2) [of h key'] closes_get [OF assms(2)] assms(3) by auto
  qed
  have "distinct (map fst (xs @ ys) @ map fst firing)"
    using assms(4) L(1) unfolding assms(3) by (elim disjE; simp; blast)
  moreover have "h < length (sc_group_objects c) \<and> \<not> cg_closed (group_at c h)" if "(h, key') \<in> set (xs @ ys)" for h key'
    using L(3,4) [of h key'] lone [OF that] that assms(2,3) by (auto simp: closes_def)
  moreover have "h < length (sc_group_objects c) \<and> cg_closed (group_at c h)" if "(h, key') \<in> set firing" for h key'
    using L(5,6) [of h key'] L(3) [OF g] that assms(2,4) by (auto simp: closes_def)
  ultimately show ?thesis using tab by (simp add: leaders_ok_def)
qed

lemma calls_ok_closed: "calls_ok s \<Longrightarrow> closes key g (cr_coalescer s) c \<Longrightarrow>
  calls_ok (s\<lparr>cr_coalescer := c, cr_waiting := ws, cr_firing := fs\<rparr>)"
  by (fastforce simp: calls_ok_def closes_def)

lemma ok_fire:
  assumes ok: "coalescer_ok s" and w: "cr_waiting s = xs @ (g, key) # ys" and d: "d = cr_coalescer s \<or> d = window_timeout (cr_coalescer s)"
    and f: "fire_begin key g d = ((slots, blocks), c)"
  shows "coalescer_ok (s\<lparr>cr_coalescer := c, cr_waiting := xs @ ys, cr_firing := cr_firing s @ [(g, key)],
      cr_calls := cr_calls s @ [(g, slots, blocks)]\<rparr>)" (is "coalescer_ok ?s")
proof -
  let ?c = "cr_coalescer s"
  note L = leaders_okD [OF coalescer_okD(2) [OF ok]]
  have g: "g < group_count s" "\<not> cg_closed (group_at ?c g)" using L(3,4) [of g key] w by auto
  have same: "sc_group_objects d = sc_group_objects ?c" "sc_groups d = sc_groups ?c" "sc_futures d = sc_futures ?c" "group_at d h = group_at ?c h" for h
    using d by (auto simp: window_timeout_def group_at_def)
  have cl: "closes key g ?c c" "sc_futures c = sc_futures ?c" "slots = map en_slot_index (cg_entries (group_at ?c g))"
    "blocks = map en_block (cg_entries (group_at ?c g))"
    using closes_fire_begin [OF f] g same by (simp_all add: closes_def)
  have led: "set (leaders ?s) = set (leaders s)" using w by auto
  have "groups_ok c" using groups_ok_cong [OF coalescer_okD(1) [OF ok]] cl(1) by (simp add: closes_def)
  moreover have "leaders_ok ?s" using leaders_ok_closed [OF coalescer_okD(2) [OF ok] cl(1) w, of "cr_firing s @ [(g, key)]"] unfolding leaders_ok_def by simp
  moreover have "waiters_led ?s"
    using coalescer_okD(3) [OF ok] led cl(1,2) by (simp add: waiters_led_def closes_def)
  moreover have "calls_ok ?s"
  proof -
    have "g \<notin> fst ` set (cr_calls s)" using coalescer_okD(4) [OF ok] g(2) by (fastforce simp: calls_ok_def)
    then show ?thesis using coalescer_okD(4) [OF ok] cl g(1) by (fastforce simp: calls_ok_def closes_def)
  qed
  ultimately show ?thesis by (simp add: coalescer_ok_def)
qed

lemma waiters_led_ended:
  assumes ok: "coalescer_ok s" and g: "g < group_count s"
    and c: "c = abandon key g e (cr_coalescer s) \<or> c = fire_end key g outcome (cr_coalescer s)" "closes key g (cr_coalescer s) c"
    and led: "set (leaders s) - {g} \<subseteq> set (map fst ws @ map fst fs)"
  shows "waiters_led (s\<lparr>cr_coalescer := c, cr_waiting := ws, cr_firing := fs\<rparr>)"
  unfolding waiters_led_def
proof (intro allI impI)
  let ?c = "cr_coalescer s" and ?s = "s\<lparr>cr_coalescer := c, cr_waiting := ws, cr_firing := fs\<rparr>"
  fix k assume k: "k < length (sc_futures (cr_coalescer ?s))" "sc_futures (cr_coalescer ?s) ! k = LF_Waiting"
  have len: "k < length (sc_futures ?c)" using k(1) c(2) by (simp add: closes_def)
  note e = group_ended [OF c(1) g groups_okD(2) [OF coalescer_okD(1) [OF ok] g] len]
  have out: "k \<notin> set (futures_of ?c g)" and w: "sc_futures ?c ! k = LF_Waiting" using e k(2) by auto
  obtain h where h: "h \<in> set (leaders s)" "k \<in> set (futures_of ?c h)" by (rule waiters_ledD [OF coalescer_okD(3) [OF ok] len w])
  then have "h \<in> set (map fst ws @ map fst fs)" using out led by blast
  moreover have "k \<in> set (futures_of c h)" using h(2) c(2) by (simp add: closes_def)
  ultimately show "\<exists>h\<in>set (leaders ?s). k \<in> set (futures_of (cr_coalescer ?s) h)" by (intro bexI [of _ h]) simp_all
qed

lemma ok_interrupted:
  assumes ok: "coalescer_ok s" and w: "cr_waiting s = xs @ (g, key) # ys"
  shows "coalescer_ok (s\<lparr>cr_coalescer := abandon key g e (cr_coalescer s), cr_waiting := xs @ ys\<rparr>)" (is "coalescer_ok ?s")
proof -
  have g: "g < group_count s" using leaders_okD(3) [OF coalescer_okD(2) [OF ok], of g key] w by simp
  note cl = closes_abandon [OF g, of key e]
  have "leaders_ok ?s" using leaders_ok_closed [OF coalescer_okD(2) [OF ok] cl w, of "cr_firing s"] by simp
  moreover have "waiters_led ?s"
    using waiters_led_ended [OF ok g _ cl, of e undefined "xs @ ys" "cr_firing s"] w by auto
  moreover have "calls_ok ?s" using calls_ok_closed [OF coalescer_okD(4) [OF ok] cl, where ws = "xs @ ys" and fs = "cr_firing s"] by simp
  moreover have "groups_ok (abandon key g e (cr_coalescer s))" using groups_ok_cong [OF coalescer_okD(1) [OF ok]] cl by (simp add: closes_def)
  ultimately show ?thesis by (simp add: coalescer_ok_def)
qed

lemma ok_fired:
  assumes ok: "coalescer_ok s" and w: "cr_firing s = xs @ (g, key) # ys"
  shows "coalescer_ok (s\<lparr>cr_coalescer := fire_end key g outcome (cr_coalescer s), cr_firing := xs @ ys\<rparr>)" (is "coalescer_ok ?s")
proof -
  note L = leaders_okD [OF coalescer_okD(2) [OF ok]]
  have g: "g < group_count s" "cg_closed (group_at (cr_coalescer s) g)" using L(5,6) [of g key] w by auto
  have no: "dict_get (sc_groups (cr_coalescer s)) key' \<noteq> Some g" for key' using L(2) [of g key'] L(4) [of g key'] g(2) by blast
  note cl = closes_fire_end [OF g no, of key outcome]
  have "leaders_ok ?s" using coalescer_okD(2) [OF ok] cl no g(2) w by (auto simp: leaders_ok_def closes_def)
  moreover have "waiters_led ?s"
    using waiters_led_ended [OF ok g(1) _ cl, of undefined outcome "cr_waiting s" "xs @ ys"] w by auto
  moreover have "calls_ok ?s" using calls_ok_closed [OF coalescer_okD(4) [OF ok] cl, where ws = "cr_waiting s" and fs = "xs @ ys"] by simp
  moreover have "groups_ok (fire_end key g outcome (cr_coalescer s))" using groups_ok_cong [OF coalescer_okD(1) [OF ok]] cl by (simp add: closes_def)
  ultimately show ?thesis by (simp add: coalescer_ok_def)
qed

lemma ok_futures:
  assumes "coalescer_ok s" "sc_group_objects c = sc_group_objects (cr_coalescer s)" "sc_groups c = sc_groups (cr_coalescer s)"
    "length (sc_futures c) = length (sc_futures (cr_coalescer s))"
    "\<And>k. k < length (sc_futures c) \<Longrightarrow> sc_futures c ! k = LF_Waiting \<Longrightarrow> sc_futures (cr_coalescer s) ! k = LF_Waiting"
  shows "coalescer_ok (s\<lparr>cr_coalescer := c\<rparr>)"
proof -
  have at: "group_at c g = group_at (cr_coalescer s) g" for g using assms(2) by (simp add: group_at_def)
  show ?thesis using assms
    unfolding coalescer_ok_def groups_ok_def leaders_ok_def waiters_led_def calls_ok_def by (simp add: at)
qed

lemma coalescer_ok_step:
  assumes "coalescer_step s s'" "coalescer_ok s"
  shows "coalescer_ok s'"
  using assms
proof (induction rule: coalescer_step.induct)
  case (alone pk i b n ex s c)
  then have "c = cr_coalescer s" by (auto simp: coalescer_submit_def Let_def split: if_splits option.splits prod.splits)
  then show ?case using alone(2) by simp
next
  case (alone_done outcome s c)
  then show ?case
    by (intro ok_futures) (auto simp: coalescer_alone_done_def split: sum.splits list.splits)
next
  case (lead pk i b n ex s g k c)
  then show ?case using ok_lead by blast
next
  case (follow pk i b n ex s g k c)
  then show ?case using ok_follow by blast
next
  case (timeout s xs g key ys slots blocks c)
  then show ?case using ok_fire by blast
next
  case (fire s xs g key ys slots blocks c)
  then show ?case using ok_fire by blast
next
  case (interrupted s xs g key ys e)
  then show ?case using ok_interrupted by blast
next
  case (fired s xs g key ys outcome)
  then show ?case using ok_fired by blast
next
  case (cancelled k s)
  then show ?case by (intro ok_futures) (auto simp: settle_def nth_list_update split: if_splits)
qed

abbreviation coalescer_runs :: "coalescer_run \<Rightarrow> coalescer_run \<Rightarrow> bool" where
  "coalescer_runs \<equiv> coalescer_step\<^sup>*\<^sup>*"

definition coalescer_start :: "bool \<Rightarrow> real \<Rightarrow> coalescer_run" where
  "coalescer_start enabled window =
     \<lparr>cr_coalescer = SlotGroupCoalescer_init enabled window, cr_waiting = [], cr_firing = [], cr_calls = []\<rparr>"

lemma coalescer_runs_ok: "coalescer_runs s s' \<Longrightarrow> coalescer_ok s \<Longrightarrow> coalescer_ok s'"
  by (induction rule: rtranclp_induct) (auto intro: coalescer_ok_step)

lemma coalescer_start_ok [simp]: "coalescer_ok (coalescer_start enabled window)"
  by (simp add: coalescer_start_def SlotGroupCoalescer_init_def coalescer_ok_def groups_ok_def leaders_ok_def waiters_led_def calls_ok_def)

section \<open>Nobody is stranded, and everybody gets their own\<close>

text \<open>Whoever waits in a group has a leader that is still waiting or whose call is under way, and however the
  leader ends, by an interruption or by the return of the call with any outcome, the waiter waits no longer.\<close>
theorem no_lane_stranded:
  assumes "coalescer_runs (coalescer_start enabled window) s" "k < length (sc_futures (cr_coalescer s))"
    "sc_futures (cr_coalescer s) ! k = LF_Waiting"
  shows "\<exists>g key. (g, key) \<in> set (cr_waiting s) \<union> set (cr_firing s) \<and> k \<in> set (futures_of (cr_coalescer s) g)
    \<and> (\<forall>e. sc_futures (abandon key g e (cr_coalescer s)) ! k \<noteq> LF_Waiting)
    \<and> (\<forall>outcome. sc_futures (fire_end key g outcome (cr_coalescer s)) ! k \<noteq> LF_Waiting)"
proof -
  have ok: "coalescer_ok s" using coalescer_runs_ok [OF assms(1)] by simp
  obtain g where g: "g \<in> set (leaders s)" "k \<in> set (futures_of (cr_coalescer s) g)"
    by (rule waiters_ledD [OF coalescer_okD(3) [OF ok] assms(2,3)])
  obtain key where key: "(g, key) \<in> set (cr_waiting s) \<union> set (cr_firing s)"
    using g(1) unfolding set_append set_map image_Un [symmetric] by (metis imageE prod.collapse)
  then have len: "g < group_count s" using leaders_okD(3,5) [OF coalescer_okD(2) [OF ok], of g key] by blast
  note e = group_ended [OF _ len groups_okD(2) [OF coalescer_okD(1) [OF ok] len] assms(2)]
  show ?thesis using key g(2) e by blast
qed

text \<open>Entries stay where they were put, and a closed group takes no more.\<close>

lemma entries_kept:
  assumes "coalescer_step s s'" "coalescer_ok s" "g < group_count s"
  shows "g < group_count s' \<and> (\<exists>more. cg_entries (group_at (cr_coalescer s') g) = cg_entries (group_at (cr_coalescer s) g) @ more)"
  using assms
proof (induction rule: coalescer_step.induct)
  case (alone pk i b n ex s c)
  then have "c = cr_coalescer s" by (auto simp: coalescer_submit_def Let_def split: if_splits option.splits prod.splits)
  then show ?case using alone by simp
next
  case (alone_done outcome s c)
  then show ?case by (auto simp: coalescer_alone_done_def group_at_def split: sum.splits list.splits)
next
  case (lead pk i b n ex s h k c)
  show ?case by (rule submit_cases [OF lead(2) lead(1)]) (use lead(3) in \<open>auto simp: group_at_def nth_append\<close>)
next
  case (follow pk i b n ex s h k c)
  show ?case by (rule submit_cases [OF follow(2) follow(1)]; cases "h = g") (use follow(3) in \<open>auto simp: group_at_def\<close>)
next
  case (timeout s xs h key ys slots blocks c)
  have "h < group_count s" using leaders_okD(3) [OF coalescer_okD(2) [OF timeout(4)], of h key] timeout(1) by simp
  then show ?case using closes_fire_begin(1) [OF timeout(3)] timeout(5) by (simp add: closes_def window_timeout_def)
next
  case (fire s xs h key ys slots blocks c)
  have "h < group_count s" using leaders_okD(3) [OF coalescer_okD(2) [OF fire(4)], of h key] fire(1) by simp
  then show ?case using closes_fire_begin(1) [OF fire(3)] fire(5) by (simp add: closes_def)
next
  case (interrupted s xs h key ys e)
  have "h < group_count s" using leaders_okD(3) [OF coalescer_okD(2) [OF interrupted(2)], of h key] interrupted(1) by simp
  then show ?case using closes_abandon [of h "cr_coalescer s" key e] interrupted(3) by (simp add: closes_def)
next
  case (fired s xs h key ys outcome)
  have h: "h < group_count s" using leaders_okD(5) [OF coalescer_okD(2) [OF fired(2)], of h key] fired(1) by simp
  then show ?case using closes_abandon [OF h, of key] fired(3) by (auto simp: fire_end_eq closes_def split: sum.split)
next
  case (cancelled k s)
  then show ?case by simp
qed

lemma entries_kept_run:
  assumes "coalescer_runs s s'" "coalescer_ok s" "g < group_count s"
  shows "g < group_count s' \<and> (\<exists>more. cg_entries (group_at (cr_coalescer s') g) = cg_entries (group_at (cr_coalescer s) g) @ more)"
  using assms
proof (induction rule: rtranclp_induct)
  case (step t u)
  then have "coalescer_ok t" using coalescer_runs_ok by blast
  with step show ?case using entries_kept [OF step(2), of g] by fastforce
qed simp

text \<open>The state after a submission that joined or opened a group.\<close>

fun submitted_to :: "submitted \<Rightarrow> string \<times> int \<Rightarrow> SlotGroupCoalescer \<Rightarrow> coalescer_run \<Rightarrow> coalescer_run" where
  "submitted_to (Leads g k) key c s = s\<lparr>cr_coalescer := c, cr_waiting := cr_waiting s @ [(g, key)]\<rparr>"
| "submitted_to r key c s = s\<lparr>cr_coalescer := c\<rparr>"

lemma submitted_entry:
  assumes "coalescer_ok s" "coalescer_submit pk i b n ex (cr_coalescer s) = (r, c)" "r = Leads g k \<or> r = Follows g k"
  shows "coalescer_ok (submitted_to r (pk, n) c s) \<and> g < length (sc_group_objects c)
    \<and> \<lparr>en_slot_index = i, en_block = b, en_future = k\<rparr> \<in> set (cg_entries (group_at c g))"
proof -
  have "coalescer_ok (submitted_to r (pk, n) c s)" using ok_lead ok_follow assms by (cases r) auto
  moreover have "g < length (sc_group_objects c) \<and> \<lparr>en_slot_index = i, en_block = b, en_future = k\<rparr> \<in> set (cg_entries (group_at c g))"
  proof (cases rule: submit_cases [OF assms(1,2)])
    case 1
    then show ?case using assms(3) by auto
  next
    case (2 gr)
    then show ?thesis using assms(3) by (auto simp: group_at_def entry_of_def)
  next
    case (3 h gr)
    then have "h < group_count s" using leaders_okD(3) [OF coalescer_okD(2) [OF assms(1)]] by blast
    then show ?thesis using 3 assms(3) by (auto simp: group_at_def entry_of_def)
  qed
  ultimately show ?thesis by blast
qed

text \<open>A group is called at most once. When the group a lane was submitted to is called, the call lists the
  lane's slot with the lane's own action block at one position; when the call returns one outcome for every slot,
  the lane gets the outcome at that position, and the end of any other group does not touch the lane's future.\<close>
theorem lane_gets_own_outcome:
  assumes "coalescer_runs (coalescer_start enabled window) s"
    "coalescer_submit pk i b n ex (cr_coalescer s) = (r, c)" "r = Leads g k \<or> r = Follows g k"
    "coalescer_runs (submitted_to r (pk, n) c s) s'" "(g, slots, blocks) \<in> set (cr_calls s')"
  shows "distinct (map fst (cr_calls s'))
    \<and> (\<exists>p < length slots. slots ! p = i \<and> blocks ! p = b
        \<and> (\<forall>key outs. length outs = length slots \<longrightarrow> sc_futures (cr_coalescer s') ! k = LF_Waiting \<longrightarrow>
             sc_futures (fire_end key g (Inr outs) (cr_coalescer s')) ! k = LF_Outcome (outs ! p)))
    \<and> (\<forall>key h outcome. h < group_count s' \<longrightarrow> h \<noteq> g \<longrightarrow>
         sc_futures (fire_end key h outcome (cr_coalescer s')) ! k = sc_futures (cr_coalescer s') ! k)"
proof -
  let ?c = "cr_coalescer s'" and ?e = "\<lparr>en_slot_index = i, en_block = b, en_future = k\<rparr>"
  have sub: "coalescer_ok (submitted_to r (pk, n) c s)" "g < length (sc_group_objects c)" "?e \<in> set (cg_entries (group_at c g))"
    using submitted_entry [OF coalescer_runs_ok [OF assms(1)] assms(2,3)] by auto
  have "cr_coalescer (submitted_to r (pk, n) c s) = c" by (cases r) simp_all
  then have g: "g < group_count s'" and e: "?e \<in> set (cg_entries (group_at ?c g))"
    using entries_kept_run [OF assms(4) sub(1), of g] sub(2,3) by auto
  have ok: "coalescer_ok s'" using coalescer_runs_ok [OF assms(4) sub(1)] .
  have call: "distinct (map fst (cr_calls s'))" "slots = map en_slot_index (cg_entries (group_at ?c g))" "blocks = map en_block (cg_entries (group_at ?c g))"
    using coalescer_okD(4) [OF ok] assms(5) by (auto simp: calls_ok_def)
  note G = groups_okD [OF coalescer_okD(1) [OF ok]]
  obtain p where p: "p < length (cg_entries (group_at ?c g))" "cg_entries (group_at ?c g) ! p = ?e"
    using e by (auto simp: in_set_conv_nth)
  have fk: "futures_of ?c g ! p = k" using p by simp
  have k: "k < length (sc_futures ?c)" using G(3) [OF g, of k] e by force
  have own: "sc_futures (fire_end key g (Inr outs) ?c) ! k = LF_Outcome (outs ! p)"
    if "length outs = length slots" "sc_futures ?c ! k = LF_Waiting" for key outs
  proof -
    let ?ps = "zip (futures_of ?c g) (map LF_Outcome outs)"
    have len: "length outs = length (cg_entries (group_at ?c g))" using that(1) call(2) by simp
    have d: "distinct (map fst ?ps)" using G(2) [OF g] len by simp
    have "?ps ! p = (k, LF_Outcome (outs ! p))" using p(1) fk len by simp
    then have "(k, LF_Outcome (outs ! p)) \<in> set ?ps" using p(1) len by (metis length_map length_zip min.idem nth_mem)
    then have "map_of ?ps k = Some (LF_Outcome (outs ! p))" using d by simp
    then show ?thesis using settle_all_nth [OF d k] that(2) len by (simp add: fire_end_eq)
  qed
  have other: "sc_futures (fire_end key h outcome ?c) ! k = sc_futures ?c ! k" if h: "h < group_count s'" "h \<noteq> g" for key h outcome
  proof -
    have "k \<notin> set (futures_of ?c h)" using G(4) [OF g h(1)] h(2) e by force
    then show ?thesis using group_ended [of _ key h undefined ?c outcome k] h(1) G(2) [OF h(1)] k by blast
  qed
  have "p < length slots" "slots ! p = i" "blocks ! p = b" using p call(2,3) by simp_all
  with call(1) own other show ?thesis by blast
qed

text \<open>Two lanes that meet.\<close>

definition first_in :: SlotGroupCoalescer where
  "first_in = snd (coalescer_submit ''p'' 0 (PyInt 1) 4 2 (SlotGroupCoalescer_init True 1))"

definition both_in :: SlotGroupCoalescer where
  "both_in = snd (coalescer_submit ''p'' 1 (PyInt 2) 4 2 first_in)"

definition both_called :: SlotGroupCoalescer where
  "both_called = snd (fire_begin (''p'', 4) 0 both_in)"

definition met :: coalescer_run where
  "met = \<lparr>cr_coalescer = both_called, cr_waiting = [], cr_firing = [(0, ''p'', 4)], cr_calls = [(0, [0, 1], [PyInt 1, PyInt 2])]\<rparr>"

lemmas meeting_defs = coalescer_submit_def SlotGroupCoalescer_init_def open_group_def new_group_def join_group_def on_group_def
  group_at_def fire_begin_def close_group_def leader_waits_def first_in_def both_in_def dict_get_Cons dict_set_new

lemma first_enters: "coalescer_submit ''p'' 0 (PyInt 1) 4 2 (SlotGroupCoalescer_init True 1) = (Leads 0 0, first_in)"
  by (simp add: meeting_defs Let_def)

lemma second_enters: "coalescer_submit ''p'' 1 (PyInt 2) 4 2 first_in = (Follows 0 1, both_in)"
  by (simp add: meeting_defs Let_def)

lemma both_fire: "\<not> leader_waits 0 both_in" "fire_begin (''p'', 4) 0 both_in = (([0, 1], [PyInt 1, PyInt 2]), both_called)"
  by (simp_all add: both_called_def meeting_defs Let_def)

abbreviation first_state :: coalescer_run where
  "first_state \<equiv> (coalescer_start True 1)\<lparr>cr_coalescer := first_in, cr_waiting := [(0, ''p'', 4)]\<rparr>"

lemma first_reached: "coalescer_runs (coalescer_start True 1) first_state"
proof (rule r_into_rtranclp)
  let ?s = "coalescer_start True 1"
  have "coalescer_step ?s (?s\<lparr>cr_coalescer := first_in, cr_waiting := cr_waiting ?s @ [(0, ''p'', 4)]\<rparr>)"
    by (rule coalescer_step.lead [where i = 0 and b = "PyInt 1" and ex = 2 and k = 0])
      (use first_enters in \<open>simp add: coalescer_start_def\<close>)
  then show "coalescer_step ?s first_state" by (simp add: coalescer_start_def)
qed

lemma met_reached: "coalescer_runs (submitted_to (Follows 0 1) (''p'', 4) both_in first_state) met"
proof (rule r_into_rtranclp)
  let ?s = "submitted_to (Follows 0 1) (''p'', 4) both_in first_state"
  have "coalescer_step ?s (?s\<lparr>cr_coalescer := both_called, cr_waiting := [] @ [], cr_firing := cr_firing ?s @ [(0, ''p'', 4)],
      cr_calls := cr_calls ?s @ [(0, [0, 1], [PyInt 1, PyInt 2])]\<rparr>)"
    by (rule coalescer_step.fire) (use both_fire in simp_all)
  then show "coalescer_step ?s met" by (simp add: met_def coalescer_start_def)
qed

lemma lane_gets_own_outcome_witness:
  "\<forall>a b. sc_futures (fire_end (''p'', 4) 0 (Inr [a, b]) both_called) ! 1 = LF_Outcome b"
proof (intro allI)
  fix a b
  have w: "sc_futures (cr_coalescer met) ! 1 = LF_Waiting" by (simp add: met_def both_called_def meeting_defs Let_def)
  have sub: "coalescer_submit ''p'' 1 (PyInt 2) 4 2 (cr_coalescer first_state) = (Follows 0 1, both_in)"
    using second_enters by simp
  have call: "(0, [0, 1], [PyInt 1, PyInt 2]) \<in> set (cr_calls met)" by (simp add: met_def)
  obtain p where p: "p < length [0::int, 1]" "[0::int, 1] ! p = 1"
      "\<forall>key outs. length outs = length [0::int, 1] \<longrightarrow> sc_futures (cr_coalescer met) ! 1 = LF_Waiting \<longrightarrow>
         sc_futures (fire_end key 0 (Inr outs) (cr_coalescer met)) ! 1 = LF_Outcome (outs ! p)"
    using lane_gets_own_outcome [OF first_reached sub _ met_reached call] by blast
  have "p = 1" using p(1,2) by (cases p) (auto simp: less_Suc_eq)
  then show "sc_futures (fire_end (''p'', 4) 0 (Inr [a, b]) both_called) ! 1 = LF_Outcome b"
    using p(3) w by (simp add: met_def)
qed

lemma no_lane_stranded_witness:
  "\<exists>g key. (g, key) \<in> set (cr_waiting first_state) \<union> set (cr_firing first_state)
    \<and> (\<forall>e. sc_futures (abandon key g e first_in) ! 0 \<noteq> LF_Waiting)"
proof -
  have "0 < length (sc_futures (cr_coalescer first_state))" "sc_futures (cr_coalescer first_state) ! 0 = LF_Waiting"
    by (simp_all add: meeting_defs Let_def)
  from no_lane_stranded [OF first_reached this] show ?thesis by simp blast
qed

end
