(* ===== verification/Spec2Isabelle.thy ===== *)
theory Spec2Isabelle
  imports Gateway_Accounting Gateway_Flight Batch_Scheduler Gating Temporal_Critic Slot_Broker Clustering Seed_Plan Queue_Fairness Provider_Recovery Worker_Bindings Slot_Coalescer
begin

text \<open>
  Verification of the Zetta rollout runtime and of the decision core of its evolution campaigns.

  \<^bold>\<open>The program.\<close> \<^verbatim>\<open>src/rollout_runtime\<close> serves simulated robot episodes to clients. A client creates a
  session at the \<^emph>\<open>Gateway\<close>, which admits it against quotas, places it on an EnvWorker rank and binds it
  to a slot there; operations on the session (reset, step, inference) carry a request id, are recorded in
  an idempotency table, admitted against in-flight quotas, sent to the rank, and their results are cached.
  A RolloutWorker batches the inference requests of many sessions. Workers that stop sending heartbeats
  are reaped, and expired sessions are closed. \<^verbatim>\<open>src/zetta/evolution\<close> runs campaigns on top: episodes are
  rolled out on preregistered seeds, a broker hands out environment slots to the processes of a host,
  failures are cut into segments and clustered, a candidate bundle of critic and recovery rules is
  proposed for a cluster, the critic watches episodes while they run, and paired gates decide whether the
  candidate is better than its parent.

  \<^bold>\<open>Theories and sources.\<close>
  \<^item> \<open>Prelude\<close>: Python values, dictionaries in insertion order, counters, f-string messages, the sum type of
    results, fallible state-passing operations, and the interface locales \<open>quota_ledger\<close> and \<open>lifecycle\<close>.
  \<^item> \<open>Api\<close> (\<^verbatim>\<open>rollout_runtime/api\<close>: enums, errors, result, messages, internal): enumerations, exceptions and
    their normalisation into error values, message records.
  \<^item> \<open>Session_Manager\<close> (\<^verbatim>\<open>gateway/session_manager.py\<close>): the session table, the index of client keys, the
    lifecycle, leases and purging. A record \<open>SessionManager\<close>; one operation per method.
  \<^item> \<open>Operation_Registry\<close> (\<^verbatim>\<open>gateway/operation_registry.py\<close>): the request-id table, its lifecycle,
    cancellation and purging.
  \<^item> \<open>Admission\<close> (\<^verbatim>\<open>gateway/admission.py\<close>): authentication, session quotas, in-flight quotas, refusals.
  \<^item> \<open>Worker_Registry\<close> (\<^verbatim>\<open>gateway/worker_registry.py\<close>): ranks, heartbeats, capabilities, least-loaded
    placement (locale \<open>least_loaded\<close>), reaping.
  \<^item> \<open>Gateway\<close> (\<^verbatim>\<open>gateway/gateway.py\<close>, \<^verbatim>\<open>gateway/dispatcher.py\<close>): the record \<open>RuntimeGateway\<close> composes the
    four components; creation, closing, dispatch, late results, cancellation, probing, reaping, lease
    recovery, maintenance and the public calls. \<open>Gateway_Accounting\<close> (sessions) and \<open>Gateway_Dispatch\<close>
    (operations) hold its proofs, and \<open>Gateway_Flight\<close> the interleavings of suspended operations with each other,
    with cancellation and with everything else the Gateway does.
  \<^item> \<open>Batch_Scheduler\<close> (\<^verbatim>\<open>workers/batch_scheduler.py\<close>): buckets, fairness quotas, batches, waiting time and
    the version fence.
  \<^item> \<open>Evolution_Models\<close> (\<^verbatim>\<open>zetta/evolution/models.py\<close>): manifests, episodes, segments, rules, bundles and gate
    decisions, with the checks of their constructors.
  \<^item> \<open>Gating\<close> (\<^verbatim>\<open>gating.py\<close>), \<open>Temporal_Critic\<close> (\<^verbatim>\<open>critic.py\<close>, locale \<open>dwell_detector\<close>), \<open>Slot_Broker\<close>
    (\<^verbatim>\<open>slot_broker.py\<close>), \<open>Clustering\<close> (\<^verbatim>\<open>clustering.py\<close>), \<open>Seed_Plan\<close> (\<^verbatim>\<open>schedule.py\<close>, \<^verbatim>\<open>protocol.py\<close>).

  \<^item> \<open>Host_Queue\<close> (\<^verbatim>\<open>queue.py\<close>, \<open>SharedHostQueue\<close>): the directories of a host and every operation that changes
    them; \<open>Queue_Properties\<close> and \<open>Queue_Fairness\<close> (locale \<open>cyclic_choice\<close>) hold its steps, with the points at
    which a process can die, and its proofs.
  \<^item> \<open>Provider_Admission\<close> (\<^verbatim>\<open>provider_admission.py\<close>): routes, tickets, leases and adaptive limits in the shared
    state file; \<open>Provider_Properties\<close> has its steps, in which a caller may come to the lock with a clock reading
    up to \<open>d\<close> seconds old, as \<open>acquire\<close> does, and the locale \<open>provider_invariant\<close>, whose interpretations are
    the bounds of limits, the request rate, the order of service and the life of a ticket; \<open>Provider_Recovery\<close>
    the growth of a limit after a decrease.
  \<^item> \<open>Env_Pool\<close> (\<^verbatim>\<open>workers/env_worker.py\<close>, \<open>EnvPool\<close>): the slots of an environment specification, cold
    creations and shrinking, with the interleavings of their critical sections, cancelled creations and removals
    that fail half-way; \<open>Inference_Client\<close>
    (\<open>InferenceClient\<close>): futures and late responses; \<open>Env_Worker\<close> (\<open>RuntimeEnvWorker\<close>): sessions, bindings, the
    building, retirement and eviction of pools; \<open>Worker_Bindings\<close> their steps and the exclusiveness of slots;
    \<open>Slot_Coalescer\<close> (\<open>SlotGroupCoalescer\<close>): the joining of chunk calls of lanes that advance together.

  \<^bold>\<open>How the code is rendered.\<close> A method that changes state and may raise is a function from the state to a
  pair of a sum (\<open>Inl\<close> the exception) and the new state, so what was already changed when an exception is
  raised stays changed. The Gateway is an asyncio object: a coroutine is cut at its awaits into a start
  and a resume function, between which any other coroutine may run, and the clock is read once per
  segment. The two exceptions are \<open>ProviderAdmission.acquire\<close>, whose readings are taken before the lock and are
  modelled so, and the building of a pool, whose table entry and continuation are one step. Processes
  that share files under a directory lock (the slot broker, the host queue, provider admission) interleave at
  the granularity of one critical section. Python integers are \<open>int\<close>, floats are exact reals, so rounding and NaN are
  outside the model, and infinity appears only where the code uses it (so the
  counts that gates compute by \<open>ceil\<close> and the waiting times of the scheduler are the exact ones). Messages
  are lists of fragments, not rendered; a list of offending identifiers at the end of a message is dropped. What the sources only
  call is a parameter: SHA-256 and canonical JSON, \<open>random.shuffle\<close> (assumed to permute), fresh identifiers,
  clock readings, worker replies and health answers.

  \<^bold>\<open>Fuel and termination.\<close> The retry loop of session creation, which awaits a worker in every turn, takes
  fuel; \<open>create_session_returns\<close> proves that as many turns as there are registered ranks are enough, since
  each failed turn adds a rank to the ones tried. The agglomeration of clusters terminates because each
  turn removes a cluster. The polling loop of the broker runs over the list of its rounds. Every other loop
  is structural.

  \<^bold>\<open>What the lemmas show.\<close>
  \<^item> Books: quotas and rank loads of sessions, in-flight units of operations and of batches are exact,
    bounded, and given back on every path that the theorems name; three paths on which they are not are
    stated as theorems of their own.
  \<^item> Identity: one live session per client key, one effect per request id, results of ended operations never
    change, sessions that ended never serve again, mutating operations exclude each other.
  \<^item> Scheduling: batches are homogeneous, urgent first, starve nobody within quota and become ready exactly when
    announced; placement is least-loaded; stale ranks lose their sessions.
  \<^item> Evolution: a gate passes exactly on its criteria over complete pairs, with the exact test equal to a
    count of sign patterns; slots are exclusive and capped; clusters partition the segments by complete
    linkage; jobs in the host queue are neither lost nor worked on twice, their outcomes are final and
    fenced, and claims take turns except where the cursor is reset; model routes keep their limits and order of
    service, keep their rates up to the age of the clock readings, and recover; the critic respects dwell and
    cooldown and does propose; preregistered schedules satisfy the manifest's and the protocol's checks.
  \<^item> EnvWorkers: every slot of a pool's core is in one place, and no two sessions are bound to one slot, unless a
    dead pool is retired under a binding that is still being made; no lane that waits
    for a joined call is stranded, and each gets its own outcome.

  \<^bold>\<open>Not modelled.\<close> The command handlers of the EnvWorker and their event log, the loop of the RolloutWorker around
  its scheduler, transports, HTTP service, metrics and plugins, the background tasks that call the maintenance round; simulators, policies and robots, which are bindings
  to third-party packages; language-model prompting; dashboards and scripts. Of the evolution package the
  store, the queue's worker loop and subprocess execution, campaign stages, lifecycle, supervisor and the dictionary
  conversions of the data contracts are left out.
\<close>

end
